(* ===== verification/Prelude.thy ===== *)
theory Prelude
  imports Main "HOL-Library.AList"
begin

text \<open>
  Shared vocabulary of the development: the error results, the ordered dictionaries and the
  string functions of Python that the modelled modules use, with the lemmas the component
  theories rely on.  A dictionary is an association list, because Python dictionaries keep
  their insertion order: \<open>AList.update\<close> overwrites in place or appends at the end, as
  \<open>d[k] = v\<close> does, and \<open>AList.delete\<close> is \<open>del d[k]\<close>.  Strings are character lists;
  the text the code handles (links, names, tags) is ASCII.
\<close>

named_theorems err_simps \<open>evaluation of error results\<close>
named_theorems dict_simps \<open>lookups in updated dictionaries\<close>

section \<open>Names of types\<close>

type_synonym uuid = string
type_synonym ('k, 'v) dict = "('k \<times> 'v) list"

abbreviation dget :: "('k, 'v) dict \<Rightarrow> 'k \<Rightarrow> 'v option" where
  "dget d k \<equiv> map_of d k"

abbreviation dset :: "'k \<Rightarrow> 'v \<Rightarrow> ('k, 'v) dict \<Rightarrow> ('k, 'v) dict" where
  "dset \<equiv> AList.update"

abbreviation ddel :: "'k \<Rightarrow> ('k, 'v) dict \<Rightarrow> ('k, 'v) dict" where
  "ddel \<equiv> AList.delete"

definition dkeys :: "('k, 'v) dict \<Rightarrow> 'k list" where
  "dkeys d = map fst d"

definition dvals :: "('k, 'v) dict \<Rightarrow> 'v list" where
  "dvals d = map snd d"

definition has_key :: "('k, 'v) dict \<Rightarrow> 'k \<Rightarrow> bool" where
  "has_key d k \<longleftrightarrow> map_of d k \<noteq> None"

definition dget_or :: "('k, 'v) dict \<Rightarrow> 'k \<Rightarrow> 'v \<Rightarrow> 'v" where
  "dget_or d k v = (case dget d k of None \<Rightarrow> v | Some x \<Rightarrow> x)"

definition wf_dict :: "('k, 'v) dict \<Rightarrow> bool" where
  "wf_dict d \<longleftrightarrow> distinct (dkeys d)"

lemma dget_dset [simp, dict_simps]: "dget (dset k v d) k' = (if k' = k then Some v else dget d k')"
  by (simp add: update_conv)

lemma dget_ddel [simp, dict_simps]: "dget (ddel k d) k' = (if k' = k then None else dget d k')"
  by (simp add: delete_conv')

lemma has_key_iff: "has_key d k \<longleftrightarrow> k \<in> set (dkeys d)"
  by (simp add: has_key_def dkeys_def map_of_eq_None_iff)

lemma has_key_dset [simp, dict_simps]: "has_key (dset k v d) k' \<longleftrightarrow> k' = k \<or> has_key d k'"
  by (simp add: has_key_def)

lemma has_key_ddel [simp, dict_simps]: "has_key (ddel k d) k' \<longleftrightarrow> k' \<noteq> k \<and> has_key d k'"
  by (simp add: has_key_def)

lemma has_key_Nil [simp]: "\<not> has_key [] k"
  by (simp add: has_key_def)

lemma set_dkeys_dset [simp]: "set (dkeys (dset k v d)) = insert k (set (dkeys d))"
  by (simp add: set_eq_iff flip: has_key_iff)

lemma dkeys_Nil [simp]: "dkeys [] = []"
  by (simp add: dkeys_def)

lemma wf_dict_Nil [simp]: "wf_dict []"
  by (simp add: wf_dict_def dkeys_def)

lemma wf_dict_dset [simp, intro]: "wf_dict d \<Longrightarrow> wf_dict (dset k v d)"
  by (simp add: wf_dict_def dkeys_def distinct_update)

lemma wf_dict_ddel [simp, intro]: "wf_dict d \<Longrightarrow> wf_dict (ddel k d)"
  by (simp add: wf_dict_def dkeys_def distinct_delete)

lemma wf_dict_dget: "wf_dict d \<Longrightarrow> (k, v) \<in> set d \<Longrightarrow> dget d k = Some v"
  by (simp add: wf_dict_def dkeys_def)

lemma wf_dict_dget_iff: "wf_dict d \<Longrightarrow> dget d k = Some v \<longleftrightarrow> (k, v) \<in> set d"
  by (auto simp: wf_dict_dget dest: map_of_SomeD)

lemma set_dvals_dget: "wf_dict d \<Longrightarrow> set (dvals d) = {v. \<exists>k. dget d k = Some v}"
  by (force simp: dvals_def wf_dict_dget_iff)

lemma dset_fresh: "\<not> has_key d k \<Longrightarrow> dset k v d = d @ [(k, v)]"
  by (induction d) (auto simp: has_key_def split: if_splits)

lemma ddel_fresh: "\<not> has_key d k \<Longrightarrow> ddel k d = d"
  by (simp add: AList.delete_eq has_key_iff dkeys_def) (force intro: filter_True)

section \<open>Error results\<close>

text \<open>A Python function that may raise returns \<open>Inl\<close> the exception or \<open>Inr\<close> its value.\<close>

definition ebind :: "'e + 'a \<Rightarrow> ('a \<Rightarrow> 'e + 'b) \<Rightarrow> 'e + 'b" where
  "ebind r f = (case r of Inl e \<Rightarrow> Inl e | Inr x \<Rightarrow> f x)"

definition is_ok :: "'e + 'a \<Rightarrow> bool" where
  "is_ok r = (case r of Inl _ \<Rightarrow> False | Inr _ \<Rightarrow> True)"

lemma ebind_simps [simp, err_simps]: "ebind (Inl e) f = Inl e" "ebind (Inr x) f = f x"
  by (simp_all add: ebind_def)

lemma is_ok_simps [simp, err_simps]: "\<not> is_ok (Inl e)" "is_ok (Inr x)"
  by (simp_all add: is_ok_def)

lemma is_ok_iff: "is_ok r \<longleftrightarrow> (\<exists>x. r = Inr x)"
  by (cases r) auto

lemma ebind_Inr_iff: "ebind r f = Inr y \<longleftrightarrow> (\<exists>x. r = Inr x \<and> f x = Inr y)"
  by (cases r) auto

lemma ebind_Inl_iff: "ebind r f = Inl e \<longleftrightarrow> r = Inl e \<or> (\<exists>x. r = Inr x \<and> f x = Inl e)"
  by (cases r) auto

lemma ebind_cong [fundef_cong]:
  "r = r' \<Longrightarrow> (\<And>x. r' = Inr x \<Longrightarrow> f x = f' x) \<Longrightarrow> ebind r f = ebind r' f'"
  by (cases r') auto

text \<open>A loop whose body may raise, over a state; and a comprehension whose element may raise.\<close>

fun efold :: "('a \<Rightarrow> 's \<Rightarrow> 'e + 's) \<Rightarrow> 'a list \<Rightarrow> 's \<Rightarrow> 'e + 's" where
  "efold f [] s = Inr s"
| "efold f (x # xs) s = (case f x s of Inl e \<Rightarrow> Inl e | Inr s' \<Rightarrow> efold f xs s')"

fun emap :: "('a \<Rightarrow> 'e + 'b) \<Rightarrow> 'a list \<Rightarrow> 'e + 'b list" where
  "emap f [] = Inr []"
| "emap f (x # xs) =
     (case f x of Inl e \<Rightarrow> Inl e
      | Inr y \<Rightarrow> (case emap f xs of Inl e \<Rightarrow> Inl e | Inr ys \<Rightarrow> Inr (y # ys)))"

lemma efold_append: "efold f (xs @ ys) s = ebind (efold f xs s) (efold f ys)"
  by (induction xs arbitrary: s) (auto split: sum.splits)

lemma efold_invariant:
  assumes "efold f xs s = Inr s'" and "I s"
    and "\<And>x a b. x \<in> set xs \<Longrightarrow> I a \<Longrightarrow> f x a = Inr b \<Longrightarrow> I b"
  shows "I s'"
  using assms
proof (induction xs arbitrary: s)
  case Nil
  then show ?case by simp
next
  case (Cons x xs)
  then obtain t where t: "f x s = Inr t" "efold f xs t = Inr s'"
    by (auto split: sum.splits)
  with Cons.prems have "I t" by (metis list.set_intros(1))
  with t Cons show ?case by (meson list.set_intros(2))
qed

lemma emap_cong [fundef_cong]:
  "xs = ys \<Longrightarrow> (\<And>x. x \<in> set ys \<Longrightarrow> f x = g x) \<Longrightarrow> emap f xs = emap g ys"
  by (induction ys arbitrary: xs) (auto split: sum.splits)

lemma emap_Inr_iff: "emap f xs = Inr ys \<longleftrightarrow> list_all2 (\<lambda>x y. f x = Inr y) xs ys"
proof (induction xs arbitrary: ys)
  case Nil
  then show ?case by auto
next
  case (Cons x xs)
  then show ?case by (cases ys; cases "f x"; cases "emap f xs") (auto split: sum.splits)
qed

lemma emap_Inr_length: "emap f xs = Inr ys \<Longrightarrow> length ys = length xs"
  by (auto simp: emap_Inr_iff list_all2_lengthD)

lemma emap_ok: "(\<And>x. x \<in> set xs \<Longrightarrow> is_ok (f x)) \<Longrightarrow> is_ok (emap f xs)"
  by (induction xs) (force split: sum.splits simp: is_ok_iff)+

lemma emap_Inr_id: "(\<And>x. x \<in> set xs \<Longrightarrow> f x = Inr x) \<Longrightarrow> emap f xs = Inr xs"
  by (induction xs) auto

text \<open>A filter whose test may raise, and a loop that keeps the state it had when its body raised.\<close>

fun efilter :: "('a \<Rightarrow> 'e + bool) \<Rightarrow> 'a list \<Rightarrow> 'e + 'a list" where
  "efilter p [] = Inr []"
| "efilter p (x # xs) =
     (case p x of Inl e \<Rightarrow> Inl e
      | Inr b \<Rightarrow> (case efilter p xs of Inl e \<Rightarrow> Inl e | Inr ys \<Rightarrow> Inr (if b then x # ys else ys)))"

fun erun :: "('a \<Rightarrow> 's \<Rightarrow> 'e + 's) \<Rightarrow> 'a list \<Rightarrow> 's \<Rightarrow> 'e option \<times> 's" where
  "erun f [] s = (None, s)"
| "erun f (x # xs) s = (case f x s of Inl e \<Rightarrow> (Some e, s) | Inr s' \<Rightarrow> erun f xs s')"

lemma efilter_Inr: "efilter p xs = Inr ys \<Longrightarrow> ys = filter (\<lambda>x. p x = Inr True) xs"
  by (induction xs arbitrary: ys) (auto split: sum.splits)

lemma efilter_subset: "efilter p xs = Inr ys \<Longrightarrow> y \<in> set ys \<Longrightarrow> y \<in> set xs \<and> p y = Inr True"
  by (auto dest: efilter_Inr)

lemma erun_invariant:
  assumes "I s" and "\<And>x a b. x \<in> set xs \<Longrightarrow> I a \<Longrightarrow> f x a = Inr b \<Longrightarrow> I b"
  shows "I (snd (erun f xs s))"
  using assms
proof (induction xs arbitrary: s)
  case (Cons x xs)
  show ?case
  proof (cases "f x s")
    case (Inr t)
    with Cons.prems have "I t" by (metis list.set_intros(1))
    with Inr Cons show ?thesis by (metis erun.simps(2) list.set_intros(2) sum.case(2))
  qed (simp add: Cons.prems)
qed simp

lemma erun_ok: "(\<And>x a. x \<in> set xs \<Longrightarrow> is_ok (f x a)) \<Longrightarrow> fst (erun f xs s) = None"
proof (induction xs arbitrary: s)
  case (Cons x xs)
  then obtain t where "f x s = Inr t" by (metis is_ok_iff list.set_intros(1))
  with Cons show ?case by simp
qed simp

section \<open>Python strings\<close>

text \<open>\<open>s.split(c)\<close> for a one-character separator, \<open>sep.join(parts)\<close>, \<open>s.startswith(p)\<close>.\<close>

fun split_on :: "char \<Rightarrow> string \<Rightarrow> string list" where
  "split_on c [] = [[]]"
| "split_on c (x # xs) =
     (if x = c then [] # split_on c xs
      else (case split_on c xs of [] \<Rightarrow> [[x]] | w # ws \<Rightarrow> (x # w) # ws))"

fun join_with :: "string \<Rightarrow> string list \<Rightarrow> string" where
  "join_with sep [] = []"
| "join_with sep [w] = w"
| "join_with sep (w # v # ws) = w @ sep @ join_with sep (v # ws)"

fun starts_with :: "string \<Rightarrow> string \<Rightarrow> bool" where
  "starts_with s [] = True"
| "starts_with [] (p # ps) = False"
| "starts_with (x # xs) (p # ps) = (x = p \<and> starts_with xs ps)"

text \<open>\<open>s.partition(c)\<close>: the text before the first \<open>c\<close>, and the text after it.\<close>

definition before_first :: "char \<Rightarrow> string \<Rightarrow> string" where
  "before_first c s = takeWhile (\<lambda>x. x \<noteq> c) s"

definition after_first :: "char \<Rightarrow> string \<Rightarrow> string" where
  "after_first c s = tl (dropWhile (\<lambda>x. x \<noteq> c) s)"

lemma split_on_nonempty [simp]: "split_on c s \<noteq> []"
  by (induction s) (auto split: list.splits)

lemma split_on_no_sep: "c \<notin> set s \<Longrightarrow> split_on c s = [s]"
  by (induction s) auto

lemma split_on_parts_no_sep: "w \<in> set (split_on c s) \<Longrightarrow> c \<notin> set w"
  by (induction s arbitrary: w) (auto split: if_splits list.splits)

lemma split_on_append_sep: "split_on c (s @ c # t) = split_on c s @ split_on c t"
  by (induction s) (auto split: list.splits)

lemma join_split_on: "join_with [c] (split_on c s) = s"
proof (induction s)
  case Nil
  then show ?case by simp
next
  case (Cons x xs)
  obtain w ws where "split_on c xs = w # ws"
    by (metis list.exhaust split_on_nonempty)
  with Cons show ?case by (cases ws) auto
qed

lemma split_on_join:
  "ws \<noteq> [] \<Longrightarrow> \<forall>w \<in> set ws. c \<notin> set w \<Longrightarrow> split_on c (join_with [c] ws) = ws"
  by (induction "[c]" ws rule: join_with.induct) (auto simp: split_on_no_sep split_on_append_sep)

lemma join_with_snoc: "ws \<noteq> [] \<Longrightarrow> join_with sep (ws @ [w]) = join_with sep ws @ sep @ w"
  by (induction sep ws rule: join_with.induct) auto

lemma hd_split_on: "hd (split_on c s) = before_first c s"
  by (induction s) (auto simp: before_first_def split: list.splits)

lemma starts_with_iff: "starts_with s p \<longleftrightarrow> (\<exists>t. s = p @ t)"
  by (induction s p rule: starts_with.induct) auto

lemma starts_with_append [simp]: "starts_with (p @ t) p"
  by (simp add: starts_with_iff)

text \<open>\<open>s.strip()\<close> and \<open>s.rstrip(".")\<close>, and \<open>s.lower()\<close> for ASCII.\<close>

definition is_space :: "char \<Rightarrow> bool" where
  "is_space c \<longleftrightarrow> of_char c \<in> {9 .. 13 :: nat} \<or> of_char c \<in> {28 .. 32 :: nat}"

definition rstrip_by :: "(char \<Rightarrow> bool) \<Rightarrow> string \<Rightarrow> string" where
  "rstrip_by P s = rev (dropWhile P (rev s))"

definition strip :: "string \<Rightarrow> string" where
  "strip s = rstrip_by is_space (dropWhile is_space s)"

definition lower_char :: "char \<Rightarrow> char" where
  "lower_char c = (let n = of_char c :: nat in if 65 \<le> n \<and> n \<le> 90 then char_of (n + 32) else c)"

definition lower :: "string \<Rightarrow> string" where
  "lower s = map lower_char s"

text \<open>\<open>str\<close> of a number.\<close>

fun show_nat :: "nat \<Rightarrow> string" where
  "show_nat n = (if n < 10 then [char_of (48 + n)] else show_nat (n div 10) @ [char_of (48 + n mod 10)])"

declare show_nat.simps [simp del]

section \<open>Lists\<close>

text \<open>\<open>list.remove\<close>: the first element with the key goes.\<close>

fun remove_by :: "('a \<Rightarrow> 'k) \<Rightarrow> 'k \<Rightarrow> 'a list \<Rightarrow> 'a list" where
  "remove_by f u [] = []"
| "remove_by f u (x # xs) = (if f x = u then xs else x # remove_by f u xs)"

lemma remove_by_set: "distinct (map f xs) \<Longrightarrow> set (remove_by f u xs) = {x \<in> set xs. f x \<noteq> u}"
proof (induction xs)
  case (Cons x xs)
  then have "f x \<notin> f ` set xs" and IH: "set (remove_by f u xs) = {x \<in> set xs. f x \<noteq> u}" by auto
  then have "\<forall>y \<in> set xs. f y \<noteq> f x" by (metis imageI)
  with IH show ?case by auto
qed simp

lemma remove_by_absent: "u \<notin> f ` set xs \<Longrightarrow> remove_by f u xs = xs"
  by (induction f u xs rule: remove_by.induct) auto

lemma sum_list_filter_le:
  "(\<And>x. x \<in> set xs \<Longrightarrow> 0 \<le> (f x :: int)) \<Longrightarrow> sum_list (map f (filter P xs)) \<le> sum_list (map f xs)"
  by (induction xs) (auto simp: add_increasing)

section \<open>Tables\<close>

text \<open>Writing a row back into a table with unique keys.\<close>

definition put_row :: "('a \<Rightarrow> 'k) \<Rightarrow> 'a \<Rightarrow> 'a list \<Rightarrow> 'a list" where
  "put_row k x rows = map (\<lambda>y. if k y = k x then x else y) rows"

lemma distinct_key_iff:
  "distinct (map k rows) \<Longrightarrow> x \<in> set rows \<Longrightarrow> y \<in> set rows \<Longrightarrow> k x = k y \<longleftrightarrow> x = y"
  by (auto simp: distinct_map inj_on_def)

lemma filter_eq_singleton: "distinct rows \<Longrightarrow> x \<in> set rows \<Longrightarrow> filter (\<lambda>y. y = x) rows = [x]"
  by (induction rows) (auto simp: filter_empty_conv)

lemma filter_singleton:
  assumes keys: "distinct (map k rows)" and x: "x \<in> set rows" "P x" and only: "\<And>y. y \<in> set rows \<Longrightarrow> P y \<Longrightarrow> k y = k x"
  shows "filter P rows = [x]"
proof -
  have "P y \<longleftrightarrow> y = x" if "y \<in> set rows" for y
    using distinct_key_iff[OF keys that x(1)] only[OF that] x(2) by blast
  then have "filter P rows = filter (\<lambda>y. y = x) rows" by (simp cong: filter_cong)
  with keys x(1) show ?thesis by (simp add: filter_eq_singleton distinct_map)
qed

lemma filter_map_singleton:
  assumes "distinct rows" and "x \<in> set rows" and "P (f x)" and "\<And>y. y \<in> set rows \<Longrightarrow> y \<noteq> x \<Longrightarrow> \<not> P (f y)"
  shows "filter P (map f rows) = [f x]"
proof -
  have "filter P (map f rows) = map f (filter (\<lambda>y. P (f y)) rows)" by (simp add: filter_map comp_def)
  also have "filter (\<lambda>y. P (f y)) rows = filter (\<lambda>y. y = x) rows" using assms(3,4) by (intro filter_cong) auto
  also have "\<dots> = [x]" using assms(1,2) by (rule filter_eq_singleton)
  finally show ?thesis by simp
qed

lemma find_of_filter: "filter P xs = [x] \<Longrightarrow> find P xs = Some x"
  by (induction xs) (auto split: if_splits)

lemma put_row_map:
  assumes "distinct (map k rows)" and "p \<in> set rows" and "k g = k p" and "\<And>x. k (f x) = k x"
  shows "put_row k g (map f rows) = map (\<lambda>x. if x = p then g else f x) rows"
proof -
  have "k (f x) = k g \<longleftrightarrow> x = p" if "x \<in> set rows" for x
    unfolding assms(3,4) by (rule distinct_key_iff[OF assms(1) that assms(2)])
  then show ?thesis by (simp add: put_row_def)
qed

lemma put_row_self:
  assumes "distinct (map k rows)" and "p \<in> set rows" and "k g = k p"
  shows "put_row k g rows = map (\<lambda>x. if x = p then g else x) rows"
  using put_row_map[OF assms, of "\<lambda>x. x"] by simp

text \<open>A loop over rows read before it writes each of them once.\<close>

lemma fold_put_row:
  assumes "distinct (map k rows)" and "\<And>x. k (g x) = k x" and "\<And>x. k (f x) = k x" and "set ps \<subseteq> set rows"
  shows "fold (\<lambda>p rows. if c p then put_row k (g p) rows else rows) ps (map f rows) =
    map (\<lambda>x. if x \<in> set ps \<and> c x then g x else f x) rows"
  using assms(3,4)
proof (induction ps arbitrary: f)
  case (Cons p ps)
  let ?f = "\<lambda>x. if x = p \<and> c p then g p else f x"
  have "(if c p then put_row k (g p) (map f rows) else map f rows) = map ?f rows"
    using put_row_map[OF assms(1), of p "g p" f] Cons.prems assms(2) by auto
  moreover have "fold (\<lambda>p rows. if c p then put_row k (g p) rows else rows) ps (map ?f rows) =
      map (\<lambda>x. if x \<in> set ps \<and> c x then g x else ?f x) rows"
    using Cons.IH[of ?f] Cons.prems assms(2) by auto
  ultimately show ?case by (auto simp: map_eq_conv)
qed simp

end
