(* ===== verification/Ipam.thy ===== *)
theory Ipam
  imports Prelude
begin

text \<open>
  The address manager \<open>Ipam\<close> of \<open>exordos_core/network/ipam.py\<close>, with the part of
  \<open>Subnet\<close> and \<open>Port\<close> (\<open>compute/dm/models.py\<close>) it reads.  An address is the integer
  \<open>int(netaddr.IPAddress(x))\<close>; a \<open>netaddr\<close> range or network is the pair of its first and
  last address.  The pool of a subnet is a list of closed intervals of free addresses; the
  abstraction \<open>pool_free\<close> is the set of free addresses, and the locale \<open>address_pool\<close> states
  what the clients of a pool rely on over that set.
\<close>

section \<open>State\<close>

text \<open>\<open>sn_netmask\<close> is \<open>cidr.netmask\<close>; a router is its pair \<open>to\<close>, \<open>via\<close>.\<close>

record subnet =
  sn_uuid :: uuid
  sn_name :: string
  sn_network :: uuid
  sn_project_id :: uuid
  sn_cidr :: "int \<times> int"
  sn_netmask :: int
  sn_ip_range :: "(int \<times> int) option"
  sn_dhcp :: bool
  sn_discovery :: "(int \<times> int) option"
  sn_dns_servers :: "string list option"
  sn_routers :: "(string \<times> string) list option"
  sn_next_server :: "string option"

datatype port_status = PNew | PInProgress | PActive | PError

record port =
  po_uuid :: uuid
  po_subnet :: uuid
  po_node :: "uuid option"
  po_machine :: "uuid option"
  po_interface :: "string option"
  po_target_ipv4 :: "int option"
  po_target_mask :: "int option"
  po_ipv4 :: "int option"
  po_mask :: "int option"
  po_mac :: "string option"
  po_status :: port_status
  po_source :: "string option"
  po_project_id :: uuid

text \<open>\<open>IpamIpNotFound\<close> is declared by the module and raised nowhere.\<close>

datatype ipam_error = IpamNoIPsAvailable | IpamUndefinedSubnet | IpamIpNotFound | IpamIpRangeOverlap

type_synonym pool = "(int \<times> int) list"
type_synonym ipam = "(uuid, pool) dict"

section \<open>Operations\<close>

definition in_range :: "int \<Rightarrow> int \<times> int \<Rightarrow> bool" where
  "in_range a r \<longleftrightarrow> fst r \<le> a \<and> a \<le> snd r"

text \<open>\<open>netaddr.IPSet(a) & netaddr.IPSet(b)\<close> is not empty; \<open>IPSet(None)\<close> is empty.\<close>

definition ranges_meet :: "int \<times> int \<Rightarrow> (int \<times> int) option \<Rightarrow> bool" where
  "ranges_meet a b = (case b of None \<Rightarrow> False
     | Some r \<Rightarrow> max (fst a) (fst r) \<le> min (snd a) (snd r))"

fun occupy_ip :: "int \<Rightarrow> pool \<Rightarrow> pool" where
  "occupy_ip address [] = []"
| "occupy_ip address ((s, e) # pool) =
     (if s = e \<and> s = address then pool
      else if address = s then (s + 1, e) # pool
      else if address = e then (s, e - 1) # pool
      else if s < address \<and> address < e then (s, address - 1) # (address + 1, e) # pool
      else (s, e) # occupy_ip address pool)"

definition ip_range_pair :: "subnet \<Rightarrow> (int \<times> int) option" where
  "ip_range_pair sn = sn_ip_range sn"

definition pool_bounds :: "subnet \<Rightarrow> int \<times> int" where
  "pool_bounds sn = (case ip_range_pair sn of None \<Rightarrow> sn_cidr sn | Some r \<Rightarrow> r)"

text \<open>The ports whose address is taken out of the pool: \<open>None\<close> and discovery addresses are skipped.\<close>

fun occupy_ports :: "subnet \<Rightarrow> port list \<Rightarrow> pool \<Rightarrow> pool" where
  "occupy_ports sn [] pool = pool"
| "occupy_ports sn (p # ps) pool =
     (case po_ipv4 p of
        None \<Rightarrow> occupy_ports sn ps pool
      | Some ip \<Rightarrow>
          (case sn_discovery sn of
             Some r \<Rightarrow> if in_range ip r then occupy_ports sn ps pool
                       else occupy_ports sn ps (occupy_ip ip pool)
           | None \<Rightarrow> occupy_ports sn ps (occupy_ip ip pool)))"

definition calculate_pool :: "subnet \<Rightarrow> port list \<Rightarrow> ipam_error + pool" where
  "calculate_pool sn ports =
     (if (case sn_discovery sn of None \<Rightarrow> False | Some d \<Rightarrow> ranges_meet d (sn_ip_range sn))
      then Inl IpamIpRangeOverlap
      else Inr (occupy_ports sn ports [pool_bounds sn]))"

definition add_subnet :: "subnet \<Rightarrow> port list \<Rightarrow> ipam \<Rightarrow> ipam_error + ipam" where
  "add_subnet sn ports m = ebind (calculate_pool sn ports) (\<lambda>p. Inr (dset (sn_uuid sn) p m))"

definition ipam_init :: "(subnet \<times> port list) list \<Rightarrow> ipam_error + ipam" where
  "ipam_init subnet_map = efold (\<lambda>(sn, ports) m. add_subnet sn ports m) subnet_map []"

fun take_first :: "pool \<Rightarrow> (int \<times> pool) option" where
  "take_first [] = None"
| "take_first ((s, e) # pool) = Some (s, if s = e then pool else (s + 1, e) # pool)"

definition allocate_ip :: "uuid \<Rightarrow> int option \<Rightarrow> ipam \<Rightarrow> ipam_error + (int \<times> ipam)" where
  "allocate_ip sn target_ip m =
     (case dget m sn of
        None \<Rightarrow> Inl IpamUndefinedSubnet
      | Some address_pool \<Rightarrow>
          (case take_first address_pool of
             None \<Rightarrow> Inl IpamNoIPsAvailable
           | Some (start, rest) \<Rightarrow>
               (case target_ip of
                  Some ip \<Rightarrow> Inr (ip, dset sn (occupy_ip ip address_pool) m)
                | None \<Rightarrow> Inr (start, dset sn rest m))))"

fun release_ip :: "int \<Rightarrow> pool \<Rightarrow> pool" where
  "release_ip address [] = [(address, address)]"
| "release_ip address ((s, e) # pool) =
     (if address < s - 1 then (address, address) # (s, e) # pool
      else if address = s - 1 then (s - 1, e) # pool
      else if address = e + 1 then
        (case pool of
           (next_start, next_end) # rest \<Rightarrow>
             if next_start - 1 = address then (s, next_end) # rest else (s, e + 1) # pool
         | [] \<Rightarrow> [(s, e + 1)])
      else if s < address \<and> address < e then (s, e) # pool
      else (s, e) # release_ip address pool)"

definition deallocate_ip :: "uuid \<Rightarrow> int \<Rightarrow> ipam \<Rightarrow> ipam_error + ipam" where
  "deallocate_ip sn address m =
     (case dget m sn of
        None \<Rightarrow> Inl IpamUndefinedSubnet
      | Some address_pool \<Rightarrow> Inr (dset sn (release_ip address address_pool) m))"

section \<open>The set of free addresses and the shape of a pool\<close>

fun pool_free :: "pool \<Rightarrow> int set" where
  "pool_free [] = {}"
| "pool_free ((s, e) # pool) = {s..e} \<union> pool_free pool"

text \<open>Intervals in ascending order, none empty, with at least one address between two of them.\<close>

fun pool_from :: "int \<Rightarrow> pool \<Rightarrow> bool" where
  "pool_from lo [] = True"
| "pool_from lo ((s, e) # pool) = (lo \<le> s \<and> s \<le> e \<and> pool_from (e + 2) pool)"

definition pool_ok :: "pool \<Rightarrow> bool" where
  "pool_ok pool = (case pool of [] \<Rightarrow> True | (s, e) # _ \<Rightarrow> pool_from s pool)"

lemma pool_from_mono: "pool_from lo p \<Longrightarrow> lo' \<le> lo \<Longrightarrow> pool_from lo' p"
  by (cases p) auto

lemma pool_from_free: "pool_from lo p \<Longrightarrow> a \<in> pool_free p \<Longrightarrow> lo \<le> a"
proof (induction p arbitrary: lo rule: pool_free.induct)
  case (2 s e p)
  then have "lo \<le> s" "s \<le> e" "a \<in> {s..e} \<or> e + 2 \<le> a" by auto
  then show ?case by auto
qed simp

lemma pool_ok_iff: "pool_ok p \<longleftrightarrow> (\<exists>lo. pool_from lo p)"
  by (cases p) (auto simp: pool_ok_def)

lemma pool_from_ok [intro]: "pool_from lo p \<Longrightarrow> pool_ok p"
  by (auto simp: pool_ok_iff)

lemma finite_pool_free [simp]: "finite (pool_free p)"
  by (induction p rule: pool_free.induct) auto

lemma occupy_ip_from:
  "pool_from lo p \<Longrightarrow> pool_from lo (occupy_ip a p) \<and> pool_free (occupy_ip a p) = pool_free p - {a}"
proof (induction a p arbitrary: lo rule: occupy_ip.induct)
  case (1 a)
  then show ?case by simp
next
  case (2 a s e p)
  then have p: "pool_from (e + 2) p" and b: "lo \<le> s" "s \<le> e" by auto
  show ?case
  proof (cases "s \<le> a \<and> a \<le> e")
    case True
    have ap: "a \<notin> pool_free p" using pool_from_free [OF p, of a] True by auto
    consider "s = e" "a = s" | "a = s" "s < e" | "a = e" "s < e" | "s < a" "a < e"
      using True by linarith
    then show ?thesis
    proof cases
      case 1
      with p b ap show ?thesis by (auto elim: pool_from_mono)
    next
      case 2
      with p b ap show ?thesis by auto
    next
      case 3
      with p b ap show ?thesis by (auto elim: pool_from_mono)
    next
      case 4
      with p b ap show ?thesis by auto
    qed
  next
    case False
    then have skip: "\<not> (s = e \<and> s = a)" "a \<noteq> s" "a \<noteq> e" "\<not> (s < a \<and> a < e)" using b by auto
    have IH: "pool_from (e + 2) (occupy_ip a p) \<and> pool_free (occupy_ip a p) = pool_free p - {a}"
      by (rule "2.IH" [OF skip p])
    have "occupy_ip a ((s, e) # p) = (s, e) # occupy_ip a p" using skip by simp
    moreover have "{s..e} \<union> (pool_free p - {a}) = {s..e} \<union> pool_free p - {a}" using False by auto
    ultimately show ?thesis using IH b by simp
  qed
qed

lemma take_first_from:
  assumes "pool_from lo p" and "take_first p = Some (a, q)"
  shows "pool_from lo q \<and> pool_free q = pool_free p - {a} \<and> a \<in> pool_free p
    \<and> (\<forall>b \<in> pool_free p. a \<le> b)"
proof (cases p)
  case Nil
  with assms show ?thesis by simp
next
  case (Cons se r)
  obtain s e where se: "se = (s, e)" by (cases se)
  with assms Cons have r: "pool_from (e + 2) r" and "lo \<le> s" and "s \<le> e" and "a = s"
    and q: "q = (if s = e then r else (s + 1, e) # r)" by auto
  have above: "\<forall>x \<in> pool_free r. e + 2 \<le> x"
    using pool_from_free [OF r] by blast
  show ?thesis
  proof (cases "s = e")
    case True
    with q have "q = r" by simp
    moreover have "pool_from lo r" using r \<open>lo \<le> s\<close> True by (auto elim: pool_from_mono)
    ultimately show ?thesis using above Cons se True \<open>a = s\<close> by auto
  next
    case False
    with q have "q = (s + 1, e) # r" by simp
    with False above r Cons se \<open>a = s\<close> \<open>lo \<le> s\<close> \<open>s \<le> e\<close> show ?thesis by auto
  qed
qed

lemma take_first_None: "take_first p = None \<longleftrightarrow> p = []"
  by (cases p rule: take_first.cases) auto

lemma pool_free_empty: "pool_ok p \<Longrightarrow> pool_free p = {} \<longleftrightarrow> p = []"
  by (cases p rule: pool_free.cases) (auto simp: pool_ok_def)

lemma release_ip_from:
  "pool_from lo p \<Longrightarrow> a \<notin> pool_free p \<Longrightarrow>
     pool_from (min lo a) (release_ip a p) \<and> pool_free (release_ip a p) = insert a (pool_free p)
     \<and> (lo \<le> a \<longrightarrow> pool_from lo (release_ip a p))"
proof (induction a p arbitrary: lo rule: release_ip.induct)
  case (1 a)
  then show ?case by simp
next
  case (2 a s e p)
  then have p: "pool_from (e + 2) p" and b: "lo \<le> s" "s \<le> e" and out: "a < s \<or> e < a"
    and ap: "a \<notin> pool_free p" by auto
  consider "a < s - 1" | "a = s - 1" | "a = e + 1" | "e + 1 < a"
    using out by linarith
  then show ?case
  proof cases
    case 1
    with b p show ?thesis by auto
  next
    case 2
    with b p show ?thesis by auto
  next
    case 3
    show ?thesis
    proof (cases p)
      case Nil
      with 3 b show ?thesis by auto
    next
      case (Cons q r)
      obtain s2 e2 where q: "q = (s2, e2)" by (cases q)
      with p Cons have "e + 2 \<le> s2" "s2 \<le> e2" "pool_from (e2 + 2) r" by auto
      with 3 b q Cons show ?thesis by (cases "s2 - 1 = a") auto
    qed
  next
    case 4
    then have "pool_from (e + 2) (release_ip a p) \<and>
        pool_free (release_ip a p) = insert a (pool_free p)"
      using "2.IH" p ap b by auto
    with 4 b show ?thesis by auto
  qed
qed

section \<open>The contract of a pool\<close>

locale address_pool =
  fixes free :: "'p \<Rightarrow> int set"
    and ok :: "'p \<Rightarrow> bool"
    and take_ip :: "'p \<Rightarrow> (int \<times> 'p) option"
    and mark :: "int \<Rightarrow> 'p \<Rightarrow> 'p"
    and give :: "int \<Rightarrow> 'p \<Rightarrow> 'p"
  assumes take_none: "ok p \<Longrightarrow> take_ip p = None \<longleftrightarrow> free p = {}"
    and take_some: "ok p \<Longrightarrow> take_ip p = Some (a, q) \<Longrightarrow>
      ok q \<and> a \<in> free p \<and> free q = free p - {a}"
    and mark_spec: "ok p \<Longrightarrow> ok (mark a p) \<and> free (mark a p) = free p - {a}"
    and give_spec: "ok p \<Longrightarrow> a \<notin> free p \<Longrightarrow> ok (give a p) \<and> free (give a p) = insert a (free p)"
begin

text \<open>What a holder of addresses may assume: the held and the free ones partition the range.\<close>

definition partitions :: "int set \<Rightarrow> 'p \<Rightarrow> int list \<Rightarrow> bool" where
  "partitions universe p held \<longleftrightarrow>
     ok p \<and> distinct held \<and> set held \<inter> free p = {} \<and> set held \<union> free p = universe"

lemma partitions_take:
  "partitions U p held \<Longrightarrow> take_ip p = Some (a, q) \<Longrightarrow> a \<notin> set held \<and> partitions U q (a # held)"
  unfolding partitions_def by (auto dest: take_some)

lemma partitions_mark:
  "partitions U p held \<Longrightarrow> a \<in> free p \<Longrightarrow> partitions U (mark a p) (a # held)"
  unfolding partitions_def by (auto simp: mark_spec)

lemma partitions_give:
  assumes "partitions U p held" and "a \<in> set held"
  shows "partitions U (give a p) (remove1 a held)"
proof -
  have "a \<notin> free p" and "ok p" using assms by (auto simp: partitions_def)
  then have "ok (give a p)" "free (give a p) = insert a (free p)" by (simp_all add: give_spec)
  then show ?thesis using assms by (auto simp: partitions_def)
qed

lemma mark_again: "ok p \<Longrightarrow> free (mark a (mark a p)) = free (mark a p)"
  using mark_spec by auto

lemma mark_list: "ok p \<Longrightarrow> ok (fold mark as p) \<and> free (fold mark as p) = free p - set as"
  using mark_spec by (induction as arbitrary: p) auto

end

interpretation ip: address_pool pool_free pool_ok take_first occupy_ip release_ip
proof unfold_locales
  fix p :: pool
  assume ok: "pool_ok p"
  show "take_first p = None \<longleftrightarrow> pool_free p = {}"
    using ok by (simp add: take_first_None pool_free_empty)
next
  fix p q :: pool and a
  assume "pool_ok p" and "take_first p = Some (a, q)"
  then show "pool_ok q \<and> a \<in> pool_free p \<and> pool_free q = pool_free p - {a}"
    unfolding pool_ok_iff using take_first_from by blast
next
  fix p :: pool and a
  assume "pool_ok p"
  then show "pool_ok (occupy_ip a p) \<and> pool_free (occupy_ip a p) = pool_free p - {a}"
    unfolding pool_ok_iff using occupy_ip_from by blast
next
  fix p :: pool and a
  assume "pool_ok p" and "a \<notin> pool_free p"
  then show "pool_ok (release_ip a p) \<and> pool_free (release_ip a p) = insert a (pool_free p)"
    unfolding pool_ok_iff using release_ip_from by blast
qed

lemmas pool_specs = ip.take_none ip.take_some ip.mark_spec ip.give_spec

section \<open>The initial pools\<close>

definition wf_subnet :: "subnet \<Rightarrow> bool" where
  "wf_subnet sn \<longleftrightarrow> fst (pool_bounds sn) \<le> snd (pool_bounds sn)"

text \<open>The addresses of the ports that count against the pool.\<close>

definition taken_ips :: "subnet \<Rightarrow> port list \<Rightarrow> int set" where
  "taken_ips sn ports = {a. \<exists>p \<in> set ports. po_ipv4 p = Some a \<and>
      (\<forall>r. sn_discovery sn = Some r \<longrightarrow> \<not> in_range a r)}"

lemma taken_ips_simps [simp]:
  "taken_ips sn [] = {}"
  "taken_ips sn (p # ps) = (case po_ipv4 p of None \<Rightarrow> {}
     | Some a \<Rightarrow> if \<exists>r. sn_discovery sn = Some r \<and> in_range a r then {} else {a}) \<union> taken_ips sn ps"
  by (auto simp: taken_ips_def split: option.splits)

lemma occupy_ports_spec:
  "pool_ok pool \<Longrightarrow> pool_ok (occupy_ports sn ports pool)
    \<and> pool_free (occupy_ports sn ports pool) = pool_free pool - taken_ips sn ports"
proof (induction sn ports pool rule: occupy_ports.induct)
  case (1 sn pool)
  then show ?case by simp
next
  case (2 sn p ps pool)
  then show ?case using ip.mark_spec [OF "2.prems"] by (auto split: option.splits)
qed

lemma calculate_pool_spec:
  assumes "wf_subnet sn" and "calculate_pool sn ports = Inr p"
  shows "pool_ok p
    \<and> pool_free p = {fst (pool_bounds sn)..snd (pool_bounds sn)} - taken_ips sn ports"
proof -
  obtain lo hi where b: "pool_bounds sn = (lo, hi)" by (cases "pool_bounds sn")
  with assms(1) have "pool_ok [(lo, hi)]" by (simp add: pool_ok_def wf_subnet_def)
  moreover have "p = occupy_ports sn ports [(lo, hi)]"
    using assms(2) b by (simp add: calculate_pool_def split: if_splits)
  ultimately show ?thesis using occupy_ports_spec [of "[(lo, hi)]" sn ports] b by simp
qed

section \<open>Sequences of leases\<close>

text \<open>
  The clients of \<open>Ipam\<close> hold addresses: they lease the first free one, reserve a free one by
  its value, and release one they hold.
\<close>

type_synonym lease_state = "ipam \<times> (uuid \<times> int) list"

inductive lease_step :: "lease_state \<Rightarrow> lease_state \<Rightarrow> bool" where
  lease: "allocate_ip sn None m = Inr (a, m') \<Longrightarrow> lease_step (m, h) (m', (sn, a) # h)"
| reserve: "dget m sn = Some p \<Longrightarrow> a \<in> pool_free p \<Longrightarrow> allocate_ip sn (Some a) m = Inr (b, m') \<Longrightarrow>
     lease_step (m, h) (m', (sn, b) # h)"
| release: "(sn, a) \<in> set h \<Longrightarrow> deallocate_ip sn a m = Inr m' \<Longrightarrow>
     lease_step (m, h) (m', remove1 (sn, a) h)"

definition held_in :: "uuid \<Rightarrow> (uuid \<times> int) list \<Rightarrow> int list" where
  "held_in sn h = map snd (filter (\<lambda>x. fst x = sn) h)"

definition lease_inv :: "ipam \<Rightarrow> lease_state \<Rightarrow> bool" where
  "lease_inv m0 st \<longleftrightarrow> (\<forall>sn. rel_option (\<lambda>p0 p. ip.partitions (pool_free p0) p (held_in sn (snd st)))
      (dget m0 sn) (dget (fst st) sn))
    \<and> (\<forall>x \<in> set (snd st). has_key m0 (fst x))"

lemma held_in_simps [simp]:
  "held_in sn [] = []" "held_in sn ((sn', a) # h) = (if sn' = sn then a # held_in sn h else held_in sn h)"
  by (simp_all add: held_in_def)

lemma held_in_set: "a \<in> set (held_in sn h) \<longleftrightarrow> (sn, a) \<in> set h"
  by (force simp: held_in_def)

lemma held_in_remove1:
  "held_in sn (remove1 (sn', a) h) = (if sn' = sn then remove1 a (held_in sn h) else held_in sn h)"
proof (induction h)
  case (Cons x h)
  then show ?case by (cases x) (auto split: if_splits)
qed simp

lemma distinct_held: "(\<And>sn. distinct (held_in sn h)) \<Longrightarrow> distinct h"
proof (induction h)
  case Nil
  then show ?case by simp
next
  case (Cons x h)
  obtain sn a where x: "x = (sn, a)" by (cases x)
  have "distinct (held_in s h)" for s
    using Cons.prems [of s] x by (simp split: if_splits)
  moreover have "(sn, a) \<notin> set h"
    using Cons.prems [of sn] x by (simp add: held_in_set)
  ultimately show ?case using Cons.IH x by simp
qed

lemma lease_inv_start:
  "(\<forall>sn p. dget m sn = Some p \<longrightarrow> pool_ok p) \<Longrightarrow> lease_inv m (m, [])"
  by (auto simp: lease_inv_def ip.partitions_def option.rel_sel)

lemma lease_inv_update:
  assumes "lease_inv m0 (m, h)" and "dget m sn = Some p"
    and "\<And>p0. dget m0 sn = Some p0 \<Longrightarrow> ip.partitions (pool_free p0) p (held_in sn h) \<Longrightarrow>
           ip.partitions (pool_free p0) q (held_in sn h')"
    and "\<And>s. s \<noteq> sn \<Longrightarrow> held_in s h' = held_in s h" and "set h' \<subseteq> insert (sn, a) (set h)"
  shows "lease_inv m0 (dset sn q m, h')"
proof -
  let ?R = "\<lambda>s h p0 p. ip.partitions (pool_free p0) p (held_in s h)"
  have R: "rel_option (?R s h) (dget m0 s) (dget m s)" for s
    using assms(1) by (simp add: lease_inv_def)
  from R [of sn] assms(2) have "rel_option (?R sn h) (dget m0 sn) (Some p)" by simp
  then obtain p0 where p0: "dget m0 sn = Some p0" "?R sn h p0 p"
    unfolding option_rel_Some2 by blast
  have "rel_option (?R s h') (dget m0 s) (dget (dset sn q m) s)" for s
    using p0 assms(3) [OF p0] assms(4) [of s] R [of s] by (cases "s = sn") simp_all
  moreover have "\<forall>x \<in> set h'. has_key m0 (fst x)"
    using assms(1,5) p0(1) by (auto simp: lease_inv_def has_key_def)
  ultimately show ?thesis by (simp add: lease_inv_def)
qed

lemma lease_step_inv: "lease_step st st' \<Longrightarrow> lease_inv m0 st \<Longrightarrow> lease_inv m0 st'"
proof (induction rule: lease_step.induct)
  case (lease sn m a m' h)
  then obtain p q where p: "dget m sn = Some p" "take_first p = Some (a, q)" "m' = dset sn q m"
    by (auto simp: allocate_ip_def split: option.splits)
  have "lease_inv m0 (dset sn q m, (sn, a) # h)"
    by (rule lease_inv_update [where a = a, OF lease.prems p(1)])
       (use ip.partitions_take [OF _ p(2)] in auto)
  then show ?case using p by simp
next
  case (reserve m sn p a b m' h)
  then have m': "m' = dset sn (occupy_ip a p) m" "b = a"
    by (auto simp: allocate_ip_def split: option.splits)
  have "lease_inv m0 (dset sn (occupy_ip a p) m, (sn, a) # h)"
    by (rule lease_inv_update [where a = a, OF reserve.prems reserve.hyps(1)])
       (use ip.partitions_mark [OF _ reserve.hyps(2)] in auto)
  then show ?case using m' by simp
next
  case (release sn a h m m')
  then obtain p where p: "dget m sn = Some p" "m' = dset sn (release_ip a p) m"
    by (auto simp: deallocate_ip_def split: option.splits)
  have "lease_inv m0 (dset sn (release_ip a p) m, remove1 (sn, a) h)"
    by (rule lease_inv_update [where a = a, OF release.prems p(1)])
       (use release.hyps(1) in \<open>auto simp: held_in_remove1 held_in_set
          intro!: ip.partitions_give dest: in_set_remove1 [THEN iffD1, rotated] notin_set_remove1\<close>)
  then show ?case using p by simp
qed

lemma lease_steps_inv: "lease_step\<^sup>*\<^sup>* st st' \<Longrightarrow> lease_inv m0 st \<Longrightarrow> lease_inv m0 st'"
  by (induction rule: rtranclp_induct) (auto intro: lease_step_inv)

section \<open>Properties\<close>

text \<open>\<open>calculate_pool\<close> of a subnet whose bounds are in order yields a well-formed pool that
  holds exactly the addresses of the range, less the addresses of the given ports that lie
  outside the discovery range.\<close>

theorem calculate_pool_free:
  assumes "wf_subnet sn" and "calculate_pool sn ports = Inr p"
  shows "pool_ok p \<and> pool_free p = {fst (pool_bounds sn)..snd (pool_bounds sn)} - taken_ips sn ports"
  using assms by (rule calculate_pool_spec)

definition demo_subnet :: subnet where
  "demo_subnet = \<lparr>sn_uuid = ''s1'', sn_name = ''main'', sn_network = ''n1'', sn_project_id = ''p0'',
     sn_cidr = (0, 255), sn_netmask = 4294967040, sn_ip_range = Some (10, 14),
     sn_dhcp = True, sn_discovery = Some (20, 30), sn_dns_servers = Some [], sn_routers = Some [],
     sn_next_server = None\<rparr>"

definition demo_port :: "int option \<Rightarrow> port" where
  "demo_port a = \<lparr>po_uuid = ''q'', po_subnet = ''s1'', po_node = None, po_machine = None,
     po_interface = None, po_target_ipv4 = None, po_target_mask = None, po_ipv4 = a, po_mask = None,
     po_mac = None, po_status = PNew, po_source = None, po_project_id = ''p0''\<rparr>"

theorem calculate_pool_free_witness:
  "pool_ok [(10, 11), (13, 14)] \<and>
   pool_free [(10, 11), (13, 14)] = {10..14} - taken_ips demo_subnet [demo_port (Some 12)]"
proof -
  have wf: "wf_subnet demo_subnet"
    by (simp add: wf_subnet_def pool_bounds_def ip_range_pair_def demo_subnet_def)
  have "calculate_pool demo_subnet [demo_port (Some 12)] = Inr [(10, 11), (13, 14)]"
    by (simp add: calculate_pool_def pool_bounds_def ip_range_pair_def demo_subnet_def demo_port_def
        ranges_meet_def in_range_def)
  from calculate_pool_free [OF wf this] show ?thesis
    by (simp add: pool_bounds_def ip_range_pair_def demo_subnet_def)
qed



text \<open>Without a target, \<open>allocate_ip\<close> returns the least free address of the subnet, removes
  exactly that address from its pool and leaves the pools of the other subnets alone.\<close>

theorem allocate_ip_lowest:
  assumes "dget m sn = Some p" and "pool_ok p" and "allocate_ip sn None m = Inr (a, m')"
  shows "a \<in> pool_free p \<and> (\<forall>b \<in> pool_free p. a \<le> b) \<and>
    (\<exists>q. dget m' sn = Some q \<and> pool_ok q \<and> pool_free q = pool_free p - {a}) \<and>
    (\<forall>s. s \<noteq> sn \<longrightarrow> dget m' s = dget m s)"
proof -
  obtain q where q: "take_first p = Some (a, q)" "m' = dset sn q m"
    using assms(1,3) by (auto simp: allocate_ip_def split: option.splits)
  obtain lo where "pool_from lo p" using assms(2) by (auto simp: pool_ok_iff)
  from take_first_from [OF this q(1)] q(2) show ?thesis by auto
qed

theorem allocate_ip_lowest_witness:
  "(11 :: int) \<in> pool_free [(11, 12), (20, 20)] \<and>
    (\<exists>q. dget [(''s1'', [(12, 12), (20, 20)])] ''s1'' = Some q \<and> pool_ok q \<and>
       pool_free q = pool_free [(11, 12), (20, 20)] - {11})"
  using allocate_ip_lowest [of "[(''s1'', [(11, 12), (20, 20)])]" "''s1''" "[(11, 12), (20, 20)]" 11
      "[(''s1'', [(12, 12), (20, 20)])]"]
  by (simp add: allocate_ip_def pool_ok_def)

text \<open>Releasing the last address of a free interval, one that is free already, is not
  detected: the pool then lists the address twice, and three allocations from the two free
  addresses of the subnet return it twice.  Only addresses strictly inside an interval are
  recognised as free.\<close>

theorem release_free_address_duplicates:
  assumes "dget m sn = Some [(s, s + 1)]" and "deallocate_ip sn (s + 1) m = Inr m1"
  shows "dget m1 sn = Some [(s, s + 1), (s + 1, s + 1)] \<and> \<not> pool_ok [(s, s + 1), (s + 1, s + 1)] \<and>
    (\<exists>m2 m3 m4. allocate_ip sn None m1 = Inr (s, m2) \<and> allocate_ip sn None m2 = Inr (s + 1, m3) \<and>
       allocate_ip sn None m3 = Inr (s + 1, m4))"
  using assms by (auto simp: deallocate_ip_def pool_ok_def allocate_ip_def)

theorem release_free_address_duplicates_witness:
  "\<exists>m1 m2 m3 m4. deallocate_ip ''s1'' 6 [(''s1'', [(5, 6)])] = Inr m1 \<and>
     allocate_ip ''s1'' None m1 = Inr (5, m2) \<and> allocate_ip ''s1'' None m2 = Inr (6, m3) \<and>
     allocate_ip ''s1'' None m3 = Inr (6, m4)"
proof -
  obtain m1 where "deallocate_ip ''s1'' (5 + 1) [(''s1'', [(5, 6)])] = Inr m1"
    by (simp add: deallocate_ip_def)
  with release_free_address_duplicates [of "[(''s1'', [(5, 6)])]" "''s1''" 5 m1] show ?thesis by simp
qed

text \<open>A target address is not checked: as long as the subnet has some free address,
  \<open>allocate_ip\<close> returns the target also when it is not free (another port holds it, or it lies
  outside the subnet), and the set of free addresses does not change.\<close>

theorem allocate_target_unchecked:
  assumes "dget m sn = Some p" and "pool_ok p" and "p \<noteq> []" and "ip \<notin> pool_free p"
  shows "\<exists>m' q. allocate_ip sn (Some ip) m = Inr (ip, m') \<and> dget m' sn = Some q \<and>
    pool_free q = pool_free p"
proof -
  obtain a r where "take_first p = Some (a, r)"
    using assms(3) take_first_None [of p] by (cases "take_first p") auto
  then have "allocate_ip sn (Some ip) m = Inr (ip, dset sn (occupy_ip ip p) m)"
    using assms(1) by (simp add: allocate_ip_def)
  then show ?thesis using ip.mark_spec [OF assms(2), of ip] assms(4) by auto
qed

theorem allocate_target_unchecked_witness:
  "\<exists>m' q. allocate_ip ''s1'' (Some 99) [(''s1'', [(5, 6)])] = Inr (99, m') \<and>
    dget m' ''s1'' = Some q \<and> pool_free q = pool_free [(5, 6)]"
  by (rule allocate_target_unchecked) (simp_all add: pool_ok_def)

end
