(* ===== verification/Flat_Driver.thy ===== *)
theory Flat_Driver
  imports Ipam
begin

text \<open>
  The data plane of a flat network: \<open>FlatBridgeNetworkDriver\<close> and its \<open>DHCPContext\<close> of
  \<open>exordos_core/network/driver/flat.py\<close>.  The driver keeps two files, the DHCP configuration
  and the JSON context it was rendered from; every operation loads the context, changes it,
  writes and reloads the configuration and only then saves the context with the hash of the
  configuration.  The renderer of the configuration (\<open>network/dhcp/isc.py\<close>), Python's string
  \<open>hash\<close> and the outcome of \<open>systemctl restart\<close> are parameters (record \<open>dhcp_env\<close>).  Models of
  restalchemy are equal when their uuids are.  File system errors other than an unreadable
  context are not modelled.
\<close>

section \<open>State\<close>

record dhcp_ctx =
  cx_hash :: string
  cx_subnets :: "subnet list"
  cx_ports :: "(uuid, port list) dict"

record flat =
  fl_cfg :: string
  fl_ctx :: "dhcp_ctx option"

record dhcp_env =
  render_cfg :: "(subnet \<times> port list) list \<Rightarrow> string"
  str_hash :: "string \<Rightarrow> string"
  restart_ok :: "string \<Rightarrow> bool"

datatype driver_error = DhcpSubnetAlreadyExists uuid | DhcpPortAlreadyExists uuid
  | ContextKeyError uuid | CalledProcessError

text \<open>An operation returns its outcome and the files as it leaves them, also when it raises.\<close>

type_synonym 'a driver_res = "(driver_error + 'a) \<times> flat"

section \<open>The DHCP context\<close>

definition empty_ctx :: dhcp_ctx where
  "empty_ctx = \<lparr>cx_hash = '''', cx_subnets = [], cx_ports = []\<rparr>"

definition ctx_is_empty :: "dhcp_ctx \<Rightarrow> bool" where
  "ctx_is_empty ctx \<longleftrightarrow> cx_hash ctx = ''''"

text \<open>\<open>port_map\<close> is a \<open>defaultdict(list)\<close>.\<close>

definition ports_of :: "dhcp_ctx \<Rightarrow> uuid \<Rightarrow> port list" where
  "ports_of ctx sn = dget_or (cx_ports ctx) sn []"

definition ctx_subnet_map :: "dhcp_ctx \<Rightarrow> (subnet \<times> port list) list" where
  "ctx_subnet_map ctx = map (\<lambda>s. (s, ports_of ctx (sn_uuid s))) (cx_subnets ctx)"

definition has_subnet :: "dhcp_ctx \<Rightarrow> uuid \<Rightarrow> bool" where
  "has_subnet ctx u \<longleftrightarrow> u \<in> set (map sn_uuid (cx_subnets ctx))"

definition has_port :: "dhcp_ctx \<Rightarrow> port \<Rightarrow> bool" where
  "has_port ctx p \<longleftrightarrow> po_uuid p \<in> set (map po_uuid (ports_of ctx (po_subnet p)))"

definition ctx_add_subnet :: "subnet \<Rightarrow> dhcp_ctx \<Rightarrow> driver_error + dhcp_ctx" where
  "ctx_add_subnet sn ctx =
     (if has_subnet ctx (sn_uuid sn) then Inl (DhcpSubnetAlreadyExists (sn_uuid sn))
      else Inr (ctx\<lparr>cx_subnets := cx_subnets ctx @ [sn],
                    cx_ports := dset (sn_uuid sn) [] (cx_ports ctx)\<rparr>))"

definition ctx_delete_subnet :: "uuid \<Rightarrow> dhcp_ctx \<Rightarrow> driver_error + dhcp_ctx" where
  "ctx_delete_subnet u ctx =
     (if \<not> has_subnet ctx u then Inr ctx
      else if \<not> has_key (cx_ports ctx) u then Inl (ContextKeyError u)
      else Inr (ctx\<lparr>cx_subnets := remove_by sn_uuid u (cx_subnets ctx),
                    cx_ports := ddel u (cx_ports ctx)\<rparr>))"

definition ctx_add_port :: "port \<Rightarrow> dhcp_ctx \<Rightarrow> driver_error + dhcp_ctx" where
  "ctx_add_port p ctx =
     (if has_port ctx p then Inl (DhcpPortAlreadyExists (po_uuid p))
      else Inr (ctx\<lparr>cx_ports := dset (po_subnet p) (ports_of ctx (po_subnet p) @ [p]) (cx_ports ctx)\<rparr>))"

definition ctx_delete_port :: "port \<Rightarrow> dhcp_ctx \<Rightarrow> dhcp_ctx" where
  "ctx_delete_port p ctx =
     (if \<not> has_port ctx p then ctx
      else ctx\<lparr>cx_ports := dset (po_subnet p)
             (remove_by po_uuid (po_uuid p) (ports_of ctx (po_subnet p))) (cx_ports ctx)\<rparr>)"

section \<open>The files\<close>

text \<open>An undecodable context, or one of another configuration, counts as empty.\<close>

definition load_ctx :: "dhcp_env \<Rightarrow> flat \<Rightarrow> dhcp_ctx" where
  "load_ctx env st = (case fl_ctx st of None \<Rightarrow> empty_ctx
     | Some ctx \<Rightarrow> if str_hash env (fl_cfg st) \<noteq> cx_hash ctx then empty_ctx else ctx)"

definition apply_cfg :: "dhcp_env \<Rightarrow> dhcp_ctx \<Rightarrow> flat \<Rightarrow> unit driver_res" where
  "apply_cfg env ctx st =
     (let content = render_cfg env (ctx_subnet_map ctx); st1 = st\<lparr>fl_cfg := content\<rparr>
      in if restart_ok env content
         then (Inr (), st1\<lparr>fl_ctx := Some (ctx\<lparr>cx_hash := str_hash env content\<rparr>)\<rparr>)
         else (Inl CalledProcessError, st1))"

text \<open>A change of the context, then \<open>_apply_cfg\<close>, then the result of the operation.\<close>

definition change_ctx :: "dhcp_env \<Rightarrow> (driver_error + dhcp_ctx) \<Rightarrow> 'a \<Rightarrow> flat \<Rightarrow> 'a driver_res" where
  "change_ctx env r x st = (case r of Inl e \<Rightarrow> (Inl e, st)
     | Inr ctx \<Rightarrow> (case apply_cfg env ctx st of (Inl e, st') \<Rightarrow> (Inl e, st')
         | (Inr _, st') \<Rightarrow> (Inr x, st')))"

section \<open>Operations of the driver\<close>

definition list_subnets :: "dhcp_env \<Rightarrow> flat \<Rightarrow> subnet list" where
  "list_subnets env st = cx_subnets (load_ctx env st)"

definition list_ports :: "dhcp_env \<Rightarrow> uuid \<Rightarrow> flat \<Rightarrow> port list" where
  "list_ports env sn st = ports_of (load_ctx env st) sn"

definition create_subnet :: "dhcp_env \<Rightarrow> subnet \<Rightarrow> flat \<Rightarrow> subnet driver_res" where
  "create_subnet env sn st =
     (let ctx = load_ctx env st in
      if has_subnet ctx (sn_uuid sn) then (Inl (DhcpSubnetAlreadyExists (sn_uuid sn)), st)
      else change_ctx env (ctx_add_subnet sn ctx) sn st)"

definition create_port :: "dhcp_env \<Rightarrow> port \<Rightarrow> flat \<Rightarrow> port driver_res" where
  "create_port env p st =
     (let ctx = load_ctx env st; q = p\<lparr>po_status := PActive\<rparr> in
      if has_port ctx p then (Inl (DhcpPortAlreadyExists (po_uuid p)), st)
      else change_ctx env (ctx_add_port q ctx) q st)"

fun add_ports :: "port list \<Rightarrow> dhcp_ctx \<Rightarrow> driver_error + dhcp_ctx" where
  "add_ports [] ctx = Inr ctx"
| "add_ports (p # ps) ctx =
     (if has_port ctx p then Inl (DhcpPortAlreadyExists (po_uuid p))
      else (case ctx_add_port (p\<lparr>po_status := PActive\<rparr>) ctx of
              Inl e \<Rightarrow> Inl e | Inr ctx' \<Rightarrow> add_ports ps ctx'))"

definition create_ports :: "dhcp_env \<Rightarrow> port list \<Rightarrow> flat \<Rightarrow> port list driver_res" where
  "create_ports env ps st =
     change_ctx env (add_ports ps (load_ctx env st)) (map (\<lambda>p. p\<lparr>po_status := PActive\<rparr>) ps) st"

definition delete_subnet :: "dhcp_env \<Rightarrow> uuid \<Rightarrow> flat \<Rightarrow> unit driver_res" where
  "delete_subnet env u st =
     (let ctx = load_ctx env st in
      if has_subnet ctx u then change_ctx env (ctx_delete_subnet u ctx) () st else (Inr (), st))"

definition delete_port :: "dhcp_env \<Rightarrow> port \<Rightarrow> flat \<Rightarrow> unit driver_res" where
  "delete_port env p st =
     (let ctx = load_ctx env st in
      if has_port ctx p then change_ctx env (Inr (ctx_delete_port p ctx)) () st else (Inr (), st))"

definition delete_ports :: "dhcp_env \<Rightarrow> port list \<Rightarrow> flat \<Rightarrow> unit driver_res" where
  "delete_ports env ps st =
     change_ctx env (Inr (fold ctx_delete_port ps (load_ctx env st))) () st"

definition update_port :: "dhcp_env \<Rightarrow> port \<Rightarrow> flat \<Rightarrow> port driver_res" where
  "update_port env p st =
     (let q = p\<lparr>po_status := PActive\<rparr> in
      change_ctx env (ctx_add_port q (ctx_delete_port p (load_ctx env st))) q st)"

definition update_subnet :: "dhcp_env \<Rightarrow> subnet \<Rightarrow> flat \<Rightarrow> subnet driver_res" where
  "update_subnet env sn st =
     change_ctx env (ebind (ctx_delete_subnet (sn_uuid sn) (load_ctx env st)) (ctx_add_subnet sn)) sn st"

section \<open>Facts\<close>

named_theorems flat_simps \<open>unfolding the driver\<close>

lemmas flat_defs [flat_simps] = list_subnets_def list_ports_def create_subnet_def create_port_def
  create_ports_def delete_subnet_def delete_port_def delete_ports_def update_port_def update_subnet_def

lemma ports_of_upd [simp, flat_simps]:
  "ports_of (ctx\<lparr>cx_ports := dset u ps d\<rparr>) v = (if v = u then ps else dget_or d v [])"
  "ports_of (ctx\<lparr>cx_subnets := ss\<rparr>) v = ports_of ctx v"
  "ports_of (ctx\<lparr>cx_hash := h\<rparr>) v = ports_of ctx v"
  by (simp_all add: ports_of_def dget_or_def)

lemma apply_cfg_ok [flat_simps]:
  "restart_ok env (render_cfg env (ctx_subnet_map ctx)) \<Longrightarrow>
   apply_cfg env ctx st = (Inr (), \<lparr>fl_cfg = render_cfg env (ctx_subnet_map ctx),
     fl_ctx = Some (ctx\<lparr>cx_hash := str_hash env (render_cfg env (ctx_subnet_map ctx))\<rparr>)\<rparr>)"
  by (cases st) (simp add: apply_cfg_def Let_def)

text \<open>What the next operation loads: the context just applied, or an empty one after a failure.\<close>

lemma load_after_apply:
  assumes "apply_cfg env ctx st = (Inr (), st')"
  shows "load_ctx env st' = ctx\<lparr>cx_hash := str_hash env (fl_cfg st')\<rparr>"
  using assms by (auto simp: apply_cfg_def load_ctx_def Let_def split: if_splits)

lemma change_ctx_Inr:
  assumes "change_ctx env r x st = (Inr y, st')"
  shows "\<exists>ctx. r = Inr ctx \<and> y = x \<and> apply_cfg env ctx st = (Inr (), st')"
  using assms by (auto simp: change_ctx_def split: sum.splits prod.splits)

lemma change_ctx_loaded:
  assumes "change_ctx env r x st = (Inr y, st')"
  shows "\<exists>ctx. r = Inr ctx \<and> y = x \<and> load_ctx env st' = ctx\<lparr>cx_hash := str_hash env (fl_cfg st')\<rparr>"
  using change_ctx_Inr [OF assms] load_after_apply by blast

lemma add_ports_ports:
  "add_ports ps ctx = Inr ctx' \<Longrightarrow>
     ports_of ctx' sn = ports_of ctx sn @ map (\<lambda>p. p\<lparr>po_status := PActive\<rparr>)
       (filter (\<lambda>p. po_subnet p = sn) ps)"
proof (induction ps arbitrary: ctx)
  case Nil
  then show ?case by simp
next
  case (Cons p ps)
  then obtain c where c: "ctx_add_port (p\<lparr>po_status := PActive\<rparr>) ctx = Inr c" "add_ports ps c = Inr ctx'"
    by (auto split: if_splits sum.splits)
  from c(1) have "ports_of c sn = ports_of ctx sn @ (if po_subnet p = sn then [p\<lparr>po_status := PActive\<rparr>] else [])"
    by (auto simp: ctx_add_port_def ports_of_def dget_or_def split: if_splits)
  then show ?case using Cons.IH [OF c(2)] by simp
qed

section \<open>The contract the network service relies on\<close>

text \<open>
  A store of ports: \<open>view\<close> reads the ports of a subnet, \<open>put\<close> replaces or adds one, and both
  may fail, in which case nothing is promised.
\<close>

locale port_store =
  fixes view :: "'s \<Rightarrow> uuid \<Rightarrow> port list"
    and put :: "port \<Rightarrow> 's \<Rightarrow> 's option"
  assumes put_view: "put p s = Some s' \<Longrightarrow> distinct (map po_uuid (view s (po_subnet p))) \<Longrightarrow>
      \<exists>q. set (view s' (po_subnet p)) = insert q {r \<in> set (view s (po_subnet p)). po_uuid r \<noteq> po_uuid p}
        \<and> po_uuid q = po_uuid p \<and> po_ipv4 q = po_ipv4 p \<and> po_mask q = po_mask p"
begin

text \<open>After a successful \<open>put\<close> the store reports the address that was put, for that uuid.\<close>

lemma put_address:
  assumes "put p s = Some s'" and "distinct (map po_uuid (view s (po_subnet p)))"
    and "r \<in> set (view s' (po_subnet p))" and "po_uuid r = po_uuid p"
  shows "po_ipv4 r = po_ipv4 p \<and> po_mask r = po_mask p"
  using put_view [OF assms(1,2)] assms(3,4) by auto

lemma put_present:
  assumes "put p s = Some s'" and "distinct (map po_uuid (view s (po_subnet p)))"
  shows "\<exists>r \<in> set (view s' (po_subnet p)). po_uuid r = po_uuid p \<and> po_ipv4 r = po_ipv4 p"
  using put_view [OF assms] by auto

end

definition put_port :: "dhcp_env \<Rightarrow> port \<Rightarrow> flat \<Rightarrow> flat option" where
  "put_port env p st = (case update_port env p st of (Inr _, st') \<Rightarrow> Some st' | _ \<Rightarrow> None)"

lemma update_port_ports:
  assumes "update_port env p st = (Inr q, st')"
  shows "q = p\<lparr>po_status := PActive\<rparr> \<and>
    list_ports env (po_subnet p) st' =
      remove_by po_uuid (po_uuid p) (list_ports env (po_subnet p) st) @ [q]"
proof -
  from assms obtain ctx where ctx: "ctx_add_port (p\<lparr>po_status := PActive\<rparr>)
        (ctx_delete_port p (load_ctx env st)) = Inr ctx"
      "load_ctx env st' = ctx\<lparr>cx_hash := str_hash env (fl_cfg st')\<rparr>" "q = p\<lparr>po_status := PActive\<rparr>"
    unfolding update_port_def Let_def by (blast dest: change_ctx_loaded)
  have "ports_of (ctx_delete_port p (load_ctx env st)) (po_subnet p) =
      remove_by po_uuid (po_uuid p) (ports_of (load_ctx env st) (po_subnet p))"
    by (auto simp: ctx_delete_port_def has_port_def remove_by_absent)
  then show ?thesis using ctx
    by (auto simp: list_ports_def ctx_add_port_def split: if_splits)
qed

interpretation flat: port_store "\<lambda>st sn. list_ports env sn st" "put_port env" for env
proof unfold_locales
  fix p :: port and st st' :: flat
  assume "put_port env p st = Some st'" and d: "distinct (map po_uuid (list_ports env (po_subnet p) st))"
  then obtain q where "update_port env p st = (Inr q, st')"
    by (auto simp: put_port_def split: prod.splits sum.splits)
  from update_port_ports [OF this] d
  show "\<exists>q. set (list_ports env (po_subnet p) st')
      = insert q {r \<in> set (list_ports env (po_subnet p) st). po_uuid r \<noteq> po_uuid p}
      \<and> po_uuid q = po_uuid p \<and> po_ipv4 q = po_ipv4 p \<and> po_mask q = po_mask p"
    by (intro exI [where x = q]) (simp add: remove_by_set)
qed

section \<open>Properties\<close>

text \<open>A subnet created without error is listed after the subnets there were, by every driver
  that hashes the configuration the same way; a driver that hashes it differently (Python salts the
  hash of a string per process) does not recognise the saved context and lists no subnet at all.\<close>

theorem create_subnet_listed:
  assumes "create_subnet env sn st = (Inr s, st')"
  shows "s = sn \<and> list_subnets env st' = list_subnets env st @ [sn]
    \<and> (str_hash env' (fl_cfg st') \<noteq> str_hash env (fl_cfg st') \<longrightarrow> list_subnets env' st' = [])"
proof -
  from assms have "change_ctx env (ctx_add_subnet sn (load_ctx env st)) sn st = (Inr s, st')"
    by (simp add: create_subnet_def Let_def split: if_splits)
  then obtain ctx where ctx: "ctx_add_subnet sn (load_ctx env st) = Inr ctx" "s = sn"
      "apply_cfg env ctx st = (Inr (), st')" by (blast dest: change_ctx_Inr)
  from load_after_apply [OF ctx(3)] ctx(1) have "list_subnets env st' = list_subnets env st @ [sn]"
    by (auto simp: list_subnets_def ctx_add_subnet_def split: if_splits)
  moreover from ctx(3) have "fl_ctx st' = Some (ctx\<lparr>cx_hash := str_hash env (fl_cfg st')\<rparr>)"
    by (auto simp: apply_cfg_def Let_def split: if_splits)
  ultimately show ?thesis using ctx(2) by (auto simp: list_subnets_def load_ctx_def empty_ctx_def)
qed

theorem create_subnet_listed_witness:
  "\<exists>st'. create_subnet \<lparr>render_cfg = (\<lambda>_. ''cfg''), str_hash = (\<lambda>x. x), restart_ok = (\<lambda>_. True)\<rparr> demo_subnet
      \<lparr>fl_cfg = '''', fl_ctx = None\<rparr> = (Inr demo_subnet, st')
    \<and> list_subnets \<lparr>render_cfg = (\<lambda>_. ''cfg''), str_hash = (\<lambda>x. x), restart_ok = (\<lambda>_. True)\<rparr> st' = [demo_subnet]
    \<and> list_subnets \<lparr>render_cfg = (\<lambda>_. ''cfg''), str_hash = (\<lambda>x. ''1''), restart_ok = (\<lambda>_. True)\<rparr> st' = []"
proof -
  let ?env = "\<lparr>render_cfg = (\<lambda>_. ''cfg''), str_hash = (\<lambda>x. x), restart_ok = (\<lambda>_. True)\<rparr>"
  obtain st' where st': "create_subnet ?env demo_subnet \<lparr>fl_cfg = '''', fl_ctx = None\<rparr> = (Inr demo_subnet, st')"
      and cfg: "fl_cfg st' = ''cfg''"
    by (simp add: create_subnet_def load_ctx_def empty_ctx_def has_subnet_def change_ctx_def
        ctx_add_subnet_def apply_cfg_def Let_def)
  from create_subnet_listed [OF st', of "?env\<lparr>str_hash := (\<lambda>x. ''1'')\<rparr>"] st' cfg show ?thesis
    by (simp add: list_subnets_def load_ctx_def empty_ctx_def)
qed

end
