(* ===== verification/Network_Service.thy ===== *)
theory Network_Service
  imports Flat_Driver
begin

text \<open>
  \<open>NetworkService\<close> of \<open>exordos_core/network/service.py\<close>: one iteration gives every new virtual
  machine node a port with an address from \<open>Ipam\<close>, gives addresses to the ports of new hardware
  nodes, and then brings the data plane in line (here the flat driver, the only one of the
  repository).  The state is what an iteration changes: the local variables \<open>ipam\<close>,
  \<open>subnet_map\<close> and \<open>port\<close>, the table of ports, the default networks of the nodes and the files
  of the driver.  Parameters: \<open>fresh\<close> gives the random uuid and MAC of the port made for a node,
  \<open>ins\<close> the outcome of inserting a port into the database.  Iteration over a set difference or
  intersection of keys, whose order Python leaves open, follows the order of the target list.
  Uuids are primary keys, so the key of a port or subnet in these maps is its uuid.
\<close>

section \<open>State\<close>

record vm_node =
  vn_uuid :: uuid
  vn_project_id :: uuid
  vn_target_ipv4 :: "int option"

record hw_node =
  hn_node :: uuid
  hn_machine :: uuid
  hn_mac :: string
  hn_ipv4 :: int

record net_state =
  ns_ipam :: "ipam option"
  ns_map :: "(subnet \<times> port list) list"
  ns_last :: "port option"
  ns_ports :: "(uuid, port) dict"
  ns_nets :: "(uuid, port) dict"
  ns_flat :: flat

datatype insert_outcome = InsertOk | InsertValueError | InsertOther

datatype net_error = NoSuitableSubnet | IpamFailed ipam_error | UnboundLocalError | IntOfNone

section \<open>Collecting the work\<close>

definition get_new_hw_ports :: "(hw_node \<Rightarrow> subnet \<Rightarrow> uuid) \<Rightarrow> hw_node list \<Rightarrow> subnet list \<Rightarrow> port list" where
  "get_new_hw_ports new_uuid nodes subnets =
     concat (map (\<lambda>n. map (\<lambda>sn. \<lparr>po_uuid = new_uuid n sn, po_subnet = sn_uuid sn,
            po_node = Some (hn_node n), po_machine = Some (hn_machine n), po_interface = None,
            po_target_ipv4 = None, po_target_mask = None, po_ipv4 = None,
            po_mask = Some (sn_netmask sn), po_mac = Some (hn_mac n), po_status = PNew,
            po_source = Some (sn_name sn), po_project_id = sn_project_id sn\<rparr>)
          (filter (\<lambda>sn. in_range (hn_ipv4 n) (sn_cidr sn)) subnets)) nodes)"

definition get_subnet_map :: "subnet list \<Rightarrow> port list \<Rightarrow> (subnet \<times> port list) list" where
  "get_subnet_map subnets ports = map (\<lambda>sn. (sn, filter (\<lambda>p. po_subnet p = sn_uuid sn) ports)) subnets"

definition build_network_map ::
  "(subnet \<times> port list) list \<Rightarrow> (uuid, (subnet \<times> port list) list) dict" where
  "build_network_map subnet_map =
     fold (\<lambda>(sn, ports) nm. dset (sn_network sn) (dget_or nm (sn_network sn) [] @ [(sn, ports)]) nm)
       subnet_map []"

section \<open>Ports for virtual machine nodes\<close>

text \<open>\<open>_is_subnet_match\<close> looks at the subnet only.\<close>

definition is_subnet_match :: "subnet \<Rightarrow> bool" where
  "is_subnet_match sn \<longleftrightarrow> sn_next_server sn = None"

definition append_port :: "port \<Rightarrow> (subnet \<times> port list) list \<Rightarrow> (subnet \<times> port list) list" where
  "append_port p m = map (\<lambda>(sn, ps). (sn, if sn_uuid sn = po_subnet p then ps @ [p] else ps)) m"

definition vm_port :: "(uuid \<Rightarrow> uuid \<times> string) \<Rightarrow> vm_node \<Rightarrow> subnet \<Rightarrow> int \<Rightarrow> port" where
  "vm_port fresh node sn ip =
     \<lparr>po_uuid = fst (fresh (vn_uuid node)), po_subnet = sn_uuid sn,
      po_node = Some (vn_uuid node), po_machine = None, po_interface = None,
      po_target_ipv4 = vn_target_ipv4 node,
      po_target_mask = (case vn_target_ipv4 node of None \<Rightarrow> None | Some _ \<Rightarrow> Some (sn_netmask sn)),
      po_ipv4 = Some ip, po_mask = Some (sn_netmask sn),
      po_mac = Some (snd (fresh (vn_uuid node))), po_status = PNew,
      po_source = Some (sn_name sn), po_project_id = vn_project_id node\<rparr>"

definition allocate_port ::
  "(uuid \<Rightarrow> uuid \<times> string) \<Rightarrow> vm_node \<Rightarrow> ipam \<Rightarrow> (subnet \<times> port list) list \<Rightarrow>
     net_error + (port \<times> ipam \<times> (subnet \<times> port list) list)" where
  "allocate_port fresh node m subnet_map =
     (case find (\<lambda>(sn, _). is_subnet_match sn) subnet_map of
        None \<Rightarrow> Inl NoSuitableSubnet
      | Some (sn, _) \<Rightarrow>
          (case allocate_ip (sn_uuid sn) (vn_target_ipv4 node) m of
             Inl e \<Rightarrow> Inl (IpamFailed e)
           | Inr (ip, m') \<Rightarrow>
               let port = vm_port fresh node sn ip
               in Inr (port, m', append_port port subnet_map)))"

definition ensure_ipam :: "net_state \<Rightarrow> net_error + (ipam \<times> net_state)" where
  "ensure_ipam st = (case ns_ipam st of Some m \<Rightarrow> Inr (m, st)
     | None \<Rightarrow> (case ipam_init (ns_map st) of Inl e \<Rightarrow> Inl (IpamFailed e)
         | Inr m \<Rightarrow> Inr (m, st\<lparr>ns_ipam := Some m\<rparr>)))"

text \<open>The handler \<open>ipam.deallocate_ip(port.subnet, port.ipv4)\<close> reads the variable \<open>port\<close>.\<close>

definition release_last :: "ipam \<Rightarrow> net_state \<Rightarrow> net_error + net_state" where
  "release_last m st = (case ns_last st of None \<Rightarrow> Inl UnboundLocalError
     | Some q \<Rightarrow> (case po_ipv4 q of None \<Rightarrow> Inl IntOfNone
         | Some a \<Rightarrow> (case deallocate_ip (po_subnet q) a m of Inl e \<Rightarrow> Inl (IpamFailed e)
             | Inr m' \<Rightarrow> Inr (st\<lparr>ns_ipam := Some m'\<rparr>))))"

definition vm_step ::
  "(uuid \<Rightarrow> uuid \<times> string) \<Rightarrow> (port \<Rightarrow> insert_outcome) \<Rightarrow> vm_node \<Rightarrow> net_state \<Rightarrow>
     net_error + net_state" where
  "vm_step fresh ins node st0 =
     (case ensure_ipam st0 of Inl e \<Rightarrow> Inl e
      | Inr (m, st) \<Rightarrow>
          (case allocate_port fresh node m (ns_map st) of
             Inl NoSuitableSubnet \<Rightarrow> Inr st
           | Inl _ \<Rightarrow> release_last m st
           | Inr (port, m', map') \<Rightarrow>
               let st' = st\<lparr>ns_ipam := Some m', ns_map := map', ns_last := Some port\<rparr>
               in (case ins port of
                     InsertOk \<Rightarrow> Inr (st'\<lparr>ns_ports := dset (po_uuid port) port (ns_ports st')\<rparr>)
                   | InsertValueError \<Rightarrow> Inr st'
                   | InsertOther \<Rightarrow> release_last m' st')))"

section \<open>Addresses for hardware ports\<close>

definition hw_step :: "(port \<Rightarrow> insert_outcome) \<Rightarrow> port \<Rightarrow> net_state \<Rightarrow> net_error + net_state" where
  "hw_step ins p st0 =
     (case ensure_ipam st0 of Inl e \<Rightarrow> Inl e
      | Inr (m, st1) \<Rightarrow>
          let st = st1\<lparr>ns_last := Some p\<rparr> in
          (case allocate_ip (po_subnet p) None m of
             Inl _ \<Rightarrow> Inr st
           | Inr (a, m') \<Rightarrow>
               let q = p\<lparr>po_ipv4 := Some a\<rparr>; st' = st\<lparr>ns_ipam := Some m', ns_last := Some q\<rparr>
               in (case ins q of
                     InsertOk \<Rightarrow> Inr (st'\<lparr>ns_ports := dset (po_uuid q) q (ns_ports st'),
                                         ns_map := append_port q (ns_map st')\<rparr>)
                   | _ \<Rightarrow> Inr st')))"

section \<open>The data plane\<close>

definition save_port :: "port \<Rightarrow> net_state \<Rightarrow> net_state" where
  "save_port p st = st\<lparr>ns_ports := dset (po_uuid p) p (ns_ports st)\<rparr>"

text \<open>A port the driver has just created: its values go to the target port and, the first time, to
  the default network of the node.  Without a node the attribute access raises and is logged.\<close>

definition port_created :: "(uuid, port) dict \<Rightarrow> port \<Rightarrow> net_state \<Rightarrow> net_state" where
  "port_created targets p st =
     (case dget targets (po_uuid p) of None \<Rightarrow> st
      | Some t \<Rightarrow>
          (let t' = t\<lparr>po_status := po_status p, po_ipv4 := po_ipv4 p, po_mask := po_mask p,
                      po_mac := po_mac p, po_interface := po_interface p\<rparr>
           in (case po_node t of None \<Rightarrow> st
               | Some n \<Rightarrow> save_port t'
                   (if has_key (ns_nets st) n then st else st\<lparr>ns_nets := dset n p (ns_nets st)\<rparr>))))"

definition actualize_port :: "dhcp_env \<Rightarrow> port \<Rightarrow> port \<Rightarrow> net_state \<Rightarrow> net_state" where
  "actualize_port env actual target st0 =
     (let moved = (po_ipv4 target \<noteq> po_ipv4 actual \<or> po_mask target \<noteq> po_mask actual);
          st = (if moved then st0\<lparr>ns_flat := snd (update_port env target (ns_flat st0))\<rparr> else st0)
      in if po_status target \<noteq> po_status actual \<or> moved then
           (let t = target\<lparr>po_status := po_status actual, po_ipv4 := po_ipv4 actual,
                           po_mask := po_mask actual\<rparr>
            in (case po_node t of None \<Rightarrow> st
                | Some n \<Rightarrow> save_port t
                    (if map_option po_uuid (dget (ns_nets st) n) = Some (po_uuid t)
                     then st\<lparr>ns_nets := dset n actual (ns_nets st)\<rparr> else st)))
         else st)"

definition actualize_subnet ::
  "dhcp_env \<Rightarrow> subnet \<Rightarrow> subnet \<Rightarrow> port list \<Rightarrow> net_state \<Rightarrow> net_state" where
  "actualize_subnet env actual_subnet target_subnet target_list st0 =
     (let actual_list = list_ports env (sn_uuid actual_subnet) (ns_flat st0);
          actuals = map (\<lambda>p. (po_uuid p, p)) actual_list;
          targets = map (\<lambda>p. (po_uuid p, p)) target_list;
          st1 = (if sn_cidr target_subnet \<noteq> sn_cidr actual_subnet
                    \<or> sn_next_server target_subnet \<noteq> sn_next_server actual_subnet
                 then st0\<lparr>ns_flat := snd (update_subnet env target_subnet (ns_flat st0))\<rparr> else st0);
          new = filter (\<lambda>p. \<not> has_key actuals (po_uuid p)) target_list;
          (created, fl2) = (if new = [] then ([], ns_flat st1)
             else (case create_ports env new (ns_flat st1) of (Inl _, fl) \<Rightarrow> ([], fl) | (Inr ps, fl) \<Rightarrow> (ps, fl)));
          st2 = fold (port_created targets) created (st1\<lparr>ns_flat := fl2\<rparr>);
          gone = filter (\<lambda>p. \<not> has_key targets (po_uuid p)) actual_list;
          st3 = (if gone = [] then st2 else st2\<lparr>ns_flat := snd (delete_ports env gone (ns_flat st2))\<rparr>)
      in fold (\<lambda>t st. case dget actuals (po_uuid t) of None \<Rightarrow> st | Some a \<Rightarrow> actualize_port env a t st)
           target_list st3)"

definition actualize_network ::
  "dhcp_env \<Rightarrow> (subnet \<times> port list) list \<Rightarrow> net_state \<Rightarrow> net_state" where
  "actualize_network env subnet_map st0 =
     (let actual_list = list_subnets env (ns_flat st0);
          actuals = map (\<lambda>s. (sn_uuid s, s)) actual_list;
          target_list = map fst subnet_map;
          targets = map (\<lambda>s. (sn_uuid s, s)) target_list;
          create = (\<lambda>s st. st\<lparr>ns_flat := snd (create_subnet env s (ns_flat st))\<rparr>);
          delete = (\<lambda>s st. st\<lparr>ns_flat := snd (delete_subnet env (sn_uuid s) (ns_flat st))\<rparr>);
          st1 = fold create (filter (\<lambda>s. \<not> has_key actuals (sn_uuid s)) target_list) st0;
          st2 = fold delete (filter (\<lambda>s. \<not> has_key targets (sn_uuid s)) actual_list) st1
      in fold (\<lambda>(t, ports) st. case dget actuals (sn_uuid t) of None \<Rightarrow> st
             | Some a \<Rightarrow> actualize_subnet env a t ports st) subnet_map st2)"

definition net_iteration ::
  "dhcp_env \<Rightarrow> (uuid \<Rightarrow> uuid \<times> string) \<Rightarrow> (hw_node \<Rightarrow> subnet \<Rightarrow> uuid) \<Rightarrow> (port \<Rightarrow> insert_outcome) \<Rightarrow>
     vm_node list \<Rightarrow> hw_node list \<Rightarrow> subnet list \<Rightarrow> net_state \<Rightarrow> net_error + net_state" where
  "net_iteration env fresh hw_uuid ins vm_nodes hw_nodes subnets st =
     (let subnet_map = get_subnet_map subnets (dvals (ns_ports st));
          hw_ports = get_new_hw_ports hw_uuid hw_nodes subnets;
          st0 = st\<lparr>ns_ipam := None, ns_map := subnet_map, ns_last := None\<rparr>
      in ebind (efold (vm_step fresh ins) vm_nodes st0)
           (\<lambda>st1. ebind (efold (hw_step ins) hw_ports st1)
             (\<lambda>st2. Inr (fold (\<lambda>(_, sm). actualize_network env sm) (build_network_map (ns_map st2)) st2))))"

section \<open>Facts\<close>

lemma vm_port_simps [simp]:
  "po_ipv4 (vm_port fresh node sn a) = Some a" "po_subnet (vm_port fresh node sn a) = sn_uuid sn"
  "po_node (vm_port fresh node sn a) = Some (vn_uuid node)"
  by (simp_all add: vm_port_def)

lemma vm_step_alloc:
  assumes "ns_ipam st = Some m" and "find (\<lambda>(sn, _). is_subnet_match sn) (ns_map st) = Some (sn, ps)"
    and "dget m (sn_uuid sn) = Some p" and "pool_ok p" and "pool_free p \<noteq> {}"
    and "vn_target_ipv4 node = None"
  shows "\<exists>st' a q. vm_step fresh (\<lambda>_. InsertOk) node st = Inr st' \<and> a \<in> pool_free p
    \<and> ns_map st' = append_port (vm_port fresh node sn a) (ns_map st)
    \<and> ns_ipam st' = Some (dset (sn_uuid sn) q m) \<and> pool_ok q \<and> pool_free q = pool_free p - {a}"
proof -
  obtain a q where q: "take_first p = Some (a, q)"
    using ip.take_none [OF assms(4)] assms(5) by (cases "take_first p") auto
  from ip.take_some [OF assms(4) q] q assms show ?thesis
    by (simp add: vm_step_def ensure_ipam_def allocate_port_def allocate_ip_def Let_def) blast
qed

lemma find_append_port:
  "find (\<lambda>(sn, _). is_subnet_match sn) (append_port p m) =
     map_option (\<lambda>(sn, ps). (sn, if sn_uuid sn = po_subnet p then ps @ [p] else ps))
       (find (\<lambda>(sn, _). is_subnet_match sn) m)"
  by (induction m) (auto simp: append_port_def)

lemma vm_loop_alloc:
  assumes "ns_ipam st = Some m" and "find (\<lambda>(sn, _). is_subnet_match sn) (ns_map st) = Some (sn, ps)"
    and "dget m (sn_uuid sn) = Some p" and "pool_ok p" and "length nodes \<le> card (pool_free p)"
    and "\<forall>n \<in> set nodes. vn_target_ipv4 n = None"
  shows "\<exists>st' new. efold (vm_step fresh (\<lambda>_. InsertOk)) nodes st = Inr st'
    \<and> find (\<lambda>(sn, _). is_subnet_match sn) (ns_map st') = Some (sn, ps @ new)
    \<and> map po_node new = map (Some \<circ> vn_uuid) nodes
    \<and> distinct (map po_ipv4 new) \<and> set (map po_ipv4 new) \<subseteq> Some ` pool_free p"
  using assms
proof (induction nodes arbitrary: st m ps p)
  case Nil
  then show ?case by simp
next
  case (Cons n nodes)
  from Cons.prems(5) have "pool_free p \<noteq> {}" by auto
  with Cons.prems obtain st1 a q where step: "vm_step fresh (\<lambda>_. InsertOk) n st = Inr st1"
    and a: "a \<in> pool_free p"
    and st1: "ns_map st1 = append_port (vm_port fresh n sn a) (ns_map st)"
      "ns_ipam st1 = Some (dset (sn_uuid sn) q m)"
    and q: "pool_ok q" "pool_free q = pool_free p - {a}"
    using vm_step_alloc [of st m sn ps p n fresh] by auto
  have "find (\<lambda>(sn, _). is_subnet_match sn) (ns_map st1) = Some (sn, ps @ [vm_port fresh n sn a])"
    using st1 Cons.prems(2) by (simp add: find_append_port)
  moreover have "dget (dset (sn_uuid sn) q m) (sn_uuid sn) = Some q" by simp
  moreover have "length nodes \<le> card (pool_free q)"
    using Cons.prems(5) q a by simp
  ultimately have "\<exists>st' new. efold (vm_step fresh (\<lambda>_. InsertOk)) nodes st1 = Inr st'
    \<and> find (\<lambda>(sn, _). is_subnet_match sn) (ns_map st') = Some (sn, (ps @ [vm_port fresh n sn a]) @ new)
    \<and> map po_node new = map (Some \<circ> vn_uuid) nodes
    \<and> distinct (map po_ipv4 new) \<and> set (map po_ipv4 new) \<subseteq> Some ` pool_free q"
    by (rule Cons.IH [OF st1(2) _ _ q(1)]) (use Cons.prems(6) in auto)
  then obtain st' new where "efold (vm_step fresh (\<lambda>_. InsertOk)) nodes st1 = Inr st'"
    "find (\<lambda>(sn, _). is_subnet_match sn) (ns_map st') = Some (sn, ps @ vm_port fresh n sn a # new)"
    "map po_node new = map (Some \<circ> vn_uuid) nodes"
    "distinct (map po_ipv4 new)" "set (map po_ipv4 new) \<subseteq> Some ` pool_free q" by auto
  with step a q show ?case
    by (intro exI [where x = st'] exI [where x = "vm_port fresh n sn a # new"]) auto
qed

section \<open>Properties\<close>


definition demo_node :: "uuid \<Rightarrow> vm_node" where
  "demo_node u = \<lparr>vn_uuid = u, vn_project_id = ''p0'', vn_target_ipv4 = None\<rparr>"

definition demo_state :: "pool \<Rightarrow> net_state" where
  "demo_state p = \<lparr>ns_ipam = Some [(''s1'', p)], ns_map = [(demo_subnet, [])], ns_last = None,
     ns_ports = [], ns_nets = [], ns_flat = \<lparr>fl_cfg = '''', fl_ctx = None\<rparr>\<rparr>"


text \<open>When the subnet is exhausted, the handler of the failed allocation releases the address
  of the port of the previous node, because the variable \<open>port\<close> still refers to it: that port
  stays in the database, its address counts as free again, and the next new node is given the same
  address.\<close>

theorem exhausted_subnet_duplicates_address:
  assumes "ns_ipam st = Some m" and "find (\<lambda>(sn, _). is_subnet_match sn) (ns_map st) = Some (sn, ps)"
    and "dget m (sn_uuid sn) = Some []" and "ns_last st = Some q" and "po_subnet q = sn_uuid sn"
    and "po_ipv4 q = Some a" and "vn_target_ipv4 n2 = None"
  shows "\<exists>st1 st2. vm_step fresh ins n1 st = Inr st1 \<and> ns_ports st1 = ns_ports st
    \<and> vm_step fresh (\<lambda>_. InsertOk) n2 st1 = Inr st2
    \<and> dget (ns_ports st2) (fst (fresh (vn_uuid n2))) = Some (vm_port fresh n2 sn a)"
  using assms
  by (simp add: vm_step_def ensure_ipam_def allocate_port_def allocate_ip_def release_last_def
      deallocate_ip_def Let_def vm_port_def)

theorem exhausted_subnet_duplicates_address_witness:
  "\<exists>st1 st2. vm_step (\<lambda>u. (u, '''')) (\<lambda>_. InsertOk) (demo_node ''b'')
        (demo_state []\<lparr>ns_last := Some (demo_port (Some 10))\<rparr>) = Inr st1
    \<and> ns_ports st1 = []
    \<and> vm_step (\<lambda>u. (u, '''')) (\<lambda>_. InsertOk) (demo_node ''c'') st1 = Inr st2
    \<and> dget (ns_ports st2) ''c'' = Some (vm_port (\<lambda>u. (u, '''')) (demo_node ''c'') demo_subnet 10)"
  using exhausted_subnet_duplicates_address [of "demo_state []\<lparr>ns_last := Some (demo_port (Some 10))\<rparr>"
      "[(''s1'', [])]" demo_subnet "[]" "demo_port (Some 10)" 10 "demo_node ''c''" "\<lambda>u. (u, '''')"
      "\<lambda>_. InsertOk" "demo_node ''b''"]
  by (simp add: demo_state_def demo_subnet_def demo_node_def demo_port_def is_subnet_match_def)

text \<open>Changing the address of a port does not converge.  When the data plane reports another
  address than the target port and accepts the update, the driver ends up with the target's
  address and the target port is overwritten with the driver's old one: the two have exchanged
  their addresses and differ again in the next iteration.\<close>

theorem port_address_exchanged:
  assumes "po_ipv4 target \<noteq> po_ipv4 actual" and "po_uuid target = po_uuid actual"
    and "put_port env target (ns_flat st) = Some fl" and "po_node target = Some n"
    and "distinct (map po_uuid (list_ports env (po_subnet target) (ns_flat st)))"
  shows "\<exists>t. dget (ns_ports (actualize_port env actual target st)) (po_uuid target) = Some t
    \<and> po_ipv4 t = po_ipv4 actual
    \<and> (\<exists>r \<in> set (list_ports env (po_subnet target) (ns_flat (actualize_port env actual target st))).
         po_uuid r = po_uuid target \<and> po_ipv4 r = po_ipv4 target)"
proof -
  have fl: "snd (update_port env target (ns_flat st)) = fl"
    using assms(3) by (auto simp: put_port_def split: prod.splits sum.splits)
  have "\<exists>r \<in> set (list_ports env (po_subnet target) fl). po_uuid r = po_uuid target \<and> po_ipv4 r = po_ipv4 target"
    by (rule flat.put_present [OF assms(3,5)])
  then show ?thesis using assms(1,4) fl
    by (simp add: actualize_port_def save_port_def Let_def)
qed

definition demo_env :: dhcp_env where
  "demo_env = \<lparr>render_cfg = (\<lambda>_. ''cfg''), str_hash = (\<lambda>x. x), restart_ok = (\<lambda>_. True)\<rparr>"

definition demo_flat :: flat where
  "demo_flat = \<lparr>fl_cfg = ''cfg'', fl_ctx = Some \<lparr>cx_hash = ''cfg'', cx_subnets = [demo_subnet],
     cx_ports = [(''s1'', [demo_port (Some 10)])]\<rparr>\<rparr>"

theorem port_address_exchanged_witness:
  "\<exists>t. dget (ns_ports (actualize_port demo_env (demo_port (Some 10))
          (demo_port (Some 11)\<lparr>po_node := Some ''a''\<rparr>) (demo_state []\<lparr>ns_flat := demo_flat\<rparr>))) ''q'' = Some t
    \<and> po_ipv4 t = Some 10"
proof -
  let ?t = "demo_port (Some 11)\<lparr>po_node := Some ''a''\<rparr>"
  have "put_port demo_env ?t demo_flat = Some (snd (update_port demo_env ?t demo_flat))"
    by (simp add: put_port_def update_port_def change_ctx_def apply_cfg_def Let_def ctx_add_port_def
        ctx_delete_port_def has_port_def ports_of_def dget_or_def load_ctx_def demo_flat_def
        demo_env_def demo_port_def)
  from port_address_exchanged [of ?t "demo_port (Some 10)" demo_env "demo_state []\<lparr>ns_flat := demo_flat\<rparr>"
      _ "''a''"] this
  show ?thesis
    by (auto simp: demo_port_def list_ports_def ports_of_def dget_or_def load_ctx_def demo_flat_def
        demo_env_def)
qed

end
