(* ===== verification/Quota.thy ===== *)
theory Quota
  imports Prelude
begin

text \<open>
  Quotas of \<open>exordos_core/quota/dm/models.py\<close>: the limits in force for a project and a table
  (\<open>_quota_limits\<close>), the check before an insert (\<open>_quota_check\<close>) and the insert of a
  \<open>QuotaModelMixin\<close> model.  A table is the list of its rows; the aggregates \<open>COUNT\<close> and
  \<open>SUM\<close> of the query are computed from it, and \<open>SUM\<close> of no row is \<open>NULL\<close>.  Concurrent
  transactions are not modelled: each check sees the rows of all earlier inserts.
\<close>

section \<open>State\<close>

record quota_limit =
  ql_project_id :: uuid
  ql_resource_name :: string
  ql_field_name :: string
  ql_limit :: int

text \<open>A row: the project it belongs to and its integer columns.\<close>

record entity =
  en_project_id :: uuid
  en_fields :: "(string, int) dict"

record quota_exceeded =
  qe_resource_name :: string
  qe_limit :: int
  qe_current :: int
  qe_project_id :: uuid

datatype quota_error = QuotaExceeded quota_exceeded | UnknownColumn string

definition default_quota_limit :: int where
  "default_quota_limit = 1000"

definition default_quota_limits :: "(string, int) dict" where
  "default_quota_limits =
     [(''net_lb'', default_quota_limit), (''compute_sets'', default_quota_limit),
      (''nodes'', default_quota_limit), (''secret_secrets'', default_quota_limit),
      (''secret_passwords'', default_quota_limit), (''secret_certificates'', default_quota_limit),
      (''secret_rsa_keys'', default_quota_limit), (''secret_ssh_keys'', default_quota_limit)]"

definition default_quota_field_limits :: "(string, (string, int) dict) dict" where
  "default_quota_field_limits = [(''nodes'', [(''cores'', 10000)])]"

section \<open>The limits in force\<close>

definition stored_limits :: "quota_limit list \<Rightarrow> uuid \<Rightarrow> string \<Rightarrow> quota_limit list" where
  "stored_limits all project table =
     filter (\<lambda>l. ql_project_id l = project \<and> ql_resource_name l = table) all"

definition quota_limits :: "quota_limit list \<Rightarrow> uuid \<Rightarrow> string \<Rightarrow> quota_limit list" where
  "quota_limits all project table =
     (let limits = stored_limits all project table;
          limit_fields = map ql_field_name limits;
          mk = (\<lambda>f n. \<lparr>ql_project_id = project, ql_resource_name = table, ql_field_name = f, ql_limit = n\<rparr>);
          count_default = (if '''' \<notin> set limit_fields
             then (case dget default_quota_limits table of None \<Rightarrow> [] | Some n \<Rightarrow> [mk '''' n]) else []);
          field_defaults = map (\<lambda>(f, n). mk f n)
             (filter (\<lambda>(f, _). f \<notin> set limit_fields) (dget_or default_quota_field_limits table []))
      in limits @ count_default @ field_defaults)"

section \<open>The check\<close>

definition project_rows :: "entity list \<Rightarrow> uuid \<Rightarrow> entity list" where
  "project_rows rows project = filter (\<lambda>r. en_project_id r = project) rows"

definition sum_column :: "entity list \<Rightarrow> string \<Rightarrow> int option" where
  "sum_column rows f = (if rows = [] then None
     else Some (sum_list (map (\<lambda>r. dget_or (en_fields r) f 0) rows)))"

fun check_fields :: "string \<Rightarrow> entity list \<Rightarrow> entity \<Rightarrow> quota_limit list \<Rightarrow> quota_error + unit" where
  "check_fields table rows self [] = Inr ()"
| "check_fields table rows self (l # ls) =
     (case dget (en_fields self) (ql_field_name l) of
        None \<Rightarrow> Inl (UnknownColumn (ql_field_name l))
      | Some v \<Rightarrow>
          (let current = (case sum_column rows (ql_field_name l) of None \<Rightarrow> 0 | Some s \<Rightarrow> s) + v
           in if current > ql_limit l
              then Inl (QuotaExceeded \<lparr>qe_resource_name = table @ ''.'' @ ql_field_name l,
                     qe_limit = ql_limit l, qe_current = current, qe_project_id = en_project_id self\<rparr>)
              else check_fields table rows self ls))"

fun check_counts :: "string \<Rightarrow> entity list \<Rightarrow> entity \<Rightarrow> quota_limit list \<Rightarrow> quota_error + unit" where
  "check_counts table rows self [] = Inr ()"
| "check_counts table rows self (l # ls) =
     (if int (length rows) + 1 > ql_limit l
      then Inl (QuotaExceeded \<lparr>qe_resource_name = table, qe_limit = ql_limit l,
             qe_current = int (length rows) + 1, qe_project_id = en_project_id self\<rparr>)
      else check_counts table rows self ls)"

text \<open>The query names every limited column, so an unknown one fails before any comparison.\<close>

definition quota_check :: "quota_limit list \<Rightarrow> string \<Rightarrow> entity list \<Rightarrow> entity \<Rightarrow> quota_error + unit" where
  "quota_check all table rows self =
     (let limits = quota_limits all (en_project_id self) table in
      if limits = [] then Inr ()
      else (let field_limits = filter (\<lambda>l. ql_field_name l \<noteq> '''') limits;
                count_limits = filter (\<lambda>l. ql_field_name l = '''') limits;
                mine = project_rows rows (en_project_id self)
            in (case find (\<lambda>l. \<not> has_key (en_fields self) (ql_field_name l)) field_limits of
                  Some l \<Rightarrow> Inl (UnknownColumn (ql_field_name l))
                | None \<Rightarrow> ebind (check_fields table mine self field_limits)
                    (\<lambda>_. check_counts table mine self count_limits))))"

definition quota_insert ::
  "quota_limit list \<Rightarrow> string \<Rightarrow> entity \<Rightarrow> entity list \<Rightarrow> quota_error + entity list" where
  "quota_insert all table self rows =
     ebind (quota_check all table rows self) (\<lambda>_. Inr (rows @ [self]))"

section \<open>Facts\<close>

text \<open>What a project uses of a limit: its number of rows, or the sum of a column.\<close>

definition usage :: "entity list \<Rightarrow> uuid \<Rightarrow> string \<Rightarrow> int" where
  "usage rows project f =
     (let mine = project_rows rows project in
      if f = '''' then int (length mine) else sum_list (map (\<lambda>r. dget_or (en_fields r) f 0) mine))"

definition within_quota :: "quota_limit list \<Rightarrow> string \<Rightarrow> entity list \<Rightarrow> uuid \<Rightarrow> bool" where
  "within_quota all table rows project \<longleftrightarrow>
     (\<forall>l \<in> set (quota_limits all project table). usage rows project (ql_field_name l) \<le> ql_limit l)"

lemma sum_column_or_0:
  "(case sum_column rows f of None \<Rightarrow> 0 | Some s \<Rightarrow> s) = sum_list (map (\<lambda>r. dget_or (en_fields r) f 0) rows)"
  by (simp add: sum_column_def)

lemma check_fields_ok: "check_fields table rows self ls = Inr () \<longleftrightarrow>
   (\<forall>l \<in> set ls. \<exists>v. dget (en_fields self) (ql_field_name l) = Some v \<and>
      sum_list (map (\<lambda>r. dget_or (en_fields r) (ql_field_name l) 0) rows) + v \<le> ql_limit l)"
  by (induction table rows self ls rule: check_fields.induct)
     (auto simp: sum_column_or_0 Let_def not_less split: option.splits)

lemma check_counts_ok: "check_counts table rows self ls = Inr () \<longleftrightarrow>
   (\<forall>l \<in> set ls. int (length rows) + 1 \<le> ql_limit l)"
  by (induction table rows self ls rule: check_counts.induct) auto

lemma project_rows_snoc: "project_rows (rows @ [r]) p =
   (if en_project_id r = p then project_rows rows p @ [r] else project_rows rows p)"
  by (simp add: project_rows_def)

lemma usage_snoc: "usage (rows @ [r]) p f = usage rows p f +
   (if en_project_id r = p then (if f = '''' then 1 else dget_or (en_fields r) f 0) else 0)"
  by (simp add: usage_def project_rows_snoc Let_def)

lemma quota_insert_Inr: "quota_insert all table r rows = Inr rows' \<longleftrightarrow>
    quota_check all table rows r = Inr () \<and> rows' = rows @ [r]"
  by (auto simp: quota_insert_def ebind_Inr_iff)

lemma quota_check_ok:
  "quota_check all table rows self = Inr () \<longleftrightarrow>
     (\<forall>l \<in> set (quota_limits all (en_project_id self) table).
        (ql_field_name l \<noteq> '''' \<longrightarrow> has_key (en_fields self) (ql_field_name l)) \<and>
        usage (rows @ [self]) (en_project_id self) (ql_field_name l) \<le> ql_limit l)"
proof -
  let ?p = "en_project_id self" and ?L = "quota_limits all (en_project_id self) table"
  let ?F = "filter (\<lambda>l. ql_field_name l \<noteq> '''') ?L" and ?C = "filter (\<lambda>l. ql_field_name l = '''') ?L"
  have known: "find (\<lambda>l. \<not> has_key (en_fields self) (ql_field_name l)) ?F = None"
    if "check_fields table (project_rows rows ?p) self ?F = Inr ()"
    using that unfolding check_fields_ok find_None_iff has_key_def by fastforce
  have "quota_check all table rows self = Inr () \<longleftrightarrow>
      check_fields table (project_rows rows ?p) self ?F = Inr () \<and>
      check_counts table (project_rows rows ?p) self ?C = Inr ()"
  proof (cases "find (\<lambda>l. \<not> has_key (en_fields self) (ql_field_name l)) ?F")
    case None
    then show ?thesis by (cases "?L = []") (auto simp: quota_check_def Let_def ebind_Inr_iff)
  next
    case (Some l)
    then have "?L \<noteq> []" by auto
    with Some known show ?thesis by (auto simp: quota_check_def Let_def)
  qed
  also have "\<dots> \<longleftrightarrow> (\<forall>l \<in> set ?L.
        (ql_field_name l \<noteq> '''' \<longrightarrow> has_key (en_fields self) (ql_field_name l)) \<and>
        usage (rows @ [self]) ?p (ql_field_name l) \<le> ql_limit l)"
    unfolding check_fields_ok check_counts_ok usage_snoc
    by (auto simp: usage_def Let_def has_key_def dget_or_def)
  finally show ?thesis .
qed

section \<open>Properties\<close>

text \<open>The check before an insert accepts a row exactly when the row has every limited column
  and, with the row included, no limit in force for its project is exceeded: neither the number of
  rows nor the sum of a limited column.\<close>

theorem quota_check_exact:
  "is_ok (quota_check all table rows self) \<longleftrightarrow>
     (\<forall>l \<in> set (quota_limits all (en_project_id self) table).
        (ql_field_name l \<noteq> '''' \<longrightarrow> has_key (en_fields self) (ql_field_name l)) \<and>
        usage (rows @ [self]) (en_project_id self) (ql_field_name l) \<le> ql_limit l)"
  unfolding is_ok_iff using quota_check_ok by auto

theorem quota_check_exact_witness:
  "is_ok (quota_check [] ''nodes'' [] \<lparr>en_project_id = ''p'', en_fields = [(''cores'', 10000)]\<rparr>) \<and>
   \<not> is_ok (quota_check [] ''nodes'' [] \<lparr>en_project_id = ''p'', en_fields = [(''cores'', 10001)]\<rparr>)"
  unfolding quota_check_exact
  by (simp add: quota_limits_def stored_limits_def default_quota_limits_def dget_or_def
      default_quota_field_limits_def default_quota_limit_def usage_def project_rows_def has_key_def Let_def)

text \<open>C3. Inserts keep every project within its quota: when a project is within its limits and a
  sequence of rows (of any projects) is inserted without error, it is still within them.\<close>

theorem inserts_keep_quota:
  assumes "efold (quota_insert all table) new rows = Inr rows'" and "within_quota all table rows p"
  shows "within_quota all table rows' p \<and> rows' = rows @ new"
  using assms
proof (induction new arbitrary: rows)
  case Nil
  then show ?case by simp
next
  case (Cons r new)
  then have ok: "quota_check all table rows r = Inr ()"
    and rest: "efold (quota_insert all table) new (rows @ [r]) = Inr rows'"
    by (auto simp: quota_insert_Inr split: sum.splits)
  from ok Cons.prems(2) have "within_quota all table (rows @ [r]) p"
    by (cases "en_project_id r = p") (auto simp: within_quota_def quota_check_ok usage_snoc)
  from Cons.IH [OF rest this] show ?case by auto
qed

theorem inserts_keep_quota_witness:
  "within_quota [] ''net_lb'' [\<lparr>en_project_id = ''p'', en_fields = []\<rparr>] ''p'' \<and>
   [\<lparr>en_project_id = ''p'', en_fields = []\<rparr>] = [] @ [\<lparr>en_project_id = ''p'', en_fields = []\<rparr>]"
  by (rule inserts_keep_quota)
     (simp_all add: quota_insert_def quota_check_def quota_limits_def stored_limits_def
        default_quota_limits_def dget_or_def default_quota_field_limits_def default_quota_limit_def
        within_quota_def usage_def project_rows_def Let_def)

end
