(* ===== verification/Compute_Model.thy ===== *)
theory Compute_Model
  imports Complex_Main Prelude
begin

text \<open>
  The data of the compute component (\<open>exordos_core/compute/dm/models.py\<close> and
  \<open>compute/constants.py\<close>) that the scheduler and the builders share.  The statuses and power
  states are those the code names; they are enumerations of the SDK (\<open>ua_pool\<close>, \<open>ic\<close>) and of
  \<open>nc.NodeStatus\<close>, compared and assigned across models by their common values, so one type
  holds them.  A storage pool is a class of the SDK, which is not part of this repository: the
  record has the attributes the code reads, and the SDK's operations on it are the parameters
  \<open>sdk\<close>, with \<open>sdk_ok\<close> the documented behaviour the code relies on.
\<close>

section \<open>Enumerations\<close>

datatype status = StNew | StIdle | StScheduled | StInProgress | StStarted | StFlashed | StActive
  | StError | StDisabled

datatype power_state = PowerOn | PowerOff | PowerReboot | PowerRebooted

datatype node_type = NodeVM | NodeHW

datatype boot = BootNetwork | BootHd0

definition target_power_states :: "power_state list" where
  "target_power_states = [PowerOn, PowerOff, PowerReboot]"

section \<open>Models\<close>

record storage_pool =
  sp_name :: string
  sp_tier :: string
  sp_ephemeral :: bool
  sp_usable :: int
  sp_provisioned :: int

record machine_pool =
  mp_uuid :: uuid
  mp_kind :: string
  mp_spec_node :: "uuid option"
  mp_agent :: "uuid option"
  mp_builder :: "uuid option"
  mp_machine_type :: node_type
  mp_status :: status
  mp_avail_cores :: int
  mp_avail_ram :: int
  mp_all_cores :: int
  mp_all_ram :: int
  mp_cores_ratio :: rat
  mp_ram_ratio :: rat
  mp_storage_pools :: "storage_pool list"

record volume =
  vl_uuid :: uuid
  vl_name :: string
  vl_description :: string
  vl_project_id :: uuid
  vl_node :: "uuid option"
  vl_index :: int
  vl_size :: int
  vl_image :: "string option"
  vl_boot :: bool
  vl_label :: "string option"
  vl_device_type :: string
  vl_tier :: string
  vl_ephemeral :: bool
  vl_status :: status
  vl_pool :: "uuid option"

record machine_volume =
  mv_uuid :: uuid
  mv_name :: string
  mv_project_id :: uuid
  mv_pool :: "uuid option"
  mv_machine :: "uuid option"
  mv_node_volume :: "uuid option"
  mv_size :: int
  mv_image :: "string option"
  mv_boot :: bool
  mv_label :: "string option"
  mv_device_type :: string
  mv_tier :: string
  mv_ephemeral :: bool
  mv_storage_pool :: "string option"
  mv_status :: status
  mv_index :: int

text \<open>A disk of a disk specification as its simple view has it; absent fields have defaults.\<close>

record disk =
  dk_tier :: "string option"
  dk_ephemeral :: "bool option"

datatype disk_spec = RootDisk disk | DisksSpec "disk list"

record node =
  nd_uuid :: uuid
  nd_name :: string
  nd_description :: string
  nd_project_id :: uuid
  nd_cores :: int
  nd_ram :: int
  nd_node_type :: node_type
  nd_hostname :: "string option"
  nd_disk_spec :: disk_spec
  nd_status :: status
  nd_node_set :: "uuid option"
  nd_pool :: "uuid option"
  nd_target_power_state :: power_state
  nd_power_state :: "power_state option"

record machine =
  mc_uuid :: uuid
  mc_name :: string
  mc_description :: string
  mc_project_id :: uuid
  mc_cores :: int
  mc_ram :: int
  mc_status :: status
  mc_machine_type :: node_type
  mc_node :: "uuid option"
  mc_pool :: "uuid option"
  mc_boot :: boot
  mc_image :: "string option"
  mc_firmware_uuid :: "uuid option"
  mc_target_power_state :: power_state
  mc_power_state :: "power_state option"

section \<open>Storage pools of the SDK\<close>

datatype sched_error = NoStoragePool | UnknownStoragePool string | AmbiguousStoragePool string
  | SdkError | ZeroDivisionError | AttributeError | KeyError | ValueError

record sdk =
  sdk_available :: "storage_pool \<Rightarrow> int"
  sdk_allocate :: "int \<Rightarrow> storage_pool \<Rightarrow> sched_error + storage_pool"
  sdk_select :: "storage_pool list \<Rightarrow> string \<Rightarrow> bool \<Rightarrow> int \<Rightarrow> string option \<Rightarrow> storage_pool option"

text \<open>
  What the code relies on: \<open>allocate_capacity(n)\<close> adds \<open>n\<close> to the provisioned capacity of a pool
  that has that much available, which lowers what is available by \<open>n\<close>, and changes nothing else;
  \<open>select_storage_pool\<close> returns one of the given pools, of the requested ephemeral kind, with the
  size available, and the named one when a name is given.
\<close>

definition sdk_ok :: "sdk \<Rightarrow> bool" where
  "sdk_ok k \<longleftrightarrow>
     (\<forall>n sp. n \<le> sdk_available k sp \<longrightarrow>
        sdk_allocate k n sp = Inr (sp\<lparr>sp_provisioned := sp_provisioned sp + n\<rparr>)) \<and>
     (\<forall>n sp. sdk_available k (sp\<lparr>sp_provisioned := sp_provisioned sp + n\<rparr>) = sdk_available k sp - n) \<and>
     (\<forall>n sp r. sdk_allocate k n sp = Inr r \<longrightarrow> r = sp\<lparr>sp_provisioned := sp_provisioned sp + n\<rparr>) \<and>
     (\<forall>sps tier eph size name sp. sdk_select k sps tier eph size name = Some sp \<longrightarrow>
        sp \<in> set sps \<and> sp_ephemeral sp = eph \<and> size \<le> sdk_available k sp \<and>
        (\<forall>s. name = Some s \<longrightarrow> sp_name sp = s))"

text \<open>A concrete SDK that shows the assumptions can hold: thin pools without oversubscription.\<close>

definition thin_sdk :: sdk where
  "thin_sdk = \<lparr>sdk_available = (\<lambda>sp. sp_usable sp - sp_provisioned sp),
     sdk_allocate = (\<lambda>n sp. if n \<le> sp_usable sp - sp_provisioned sp
        then Inr (sp\<lparr>sp_provisioned := sp_provisioned sp + n\<rparr>) else Inl SdkError),
     sdk_select = (\<lambda>sps tier eph size name. find (\<lambda>sp. sp_ephemeral sp = eph \<and>
        size \<le> sp_usable sp - sp_provisioned sp \<and>
        (case name of None \<Rightarrow> True | Some s \<Rightarrow> sp_name sp = s)) sps)\<rparr>"

lemma thin_sdk_ok: "sdk_ok thin_sdk"
  by (auto simp: sdk_ok_def thin_sdk_def find_Some_iff split: if_splits option.splits)

section \<open>Disk policies\<close>

datatype disk_error = ImmutableDiskPolicyError

definition spec_disks :: "disk_spec \<Rightarrow> disk list" where
  "spec_disks spec = (case spec of RootDisk d \<Rightarrow> [d] | DisksSpec ds \<Rightarrow> ds)"

definition disk_policy :: "disk \<Rightarrow> string \<times> bool" where
  "disk_policy d = ((case dk_tier d of None \<Rightarrow> ''WARM'' | Some t \<Rightarrow> t),
     (case dk_ephemeral d of None \<Rightarrow> True | Some e \<Rightarrow> e))"

definition validate_disk_policy_update :: "disk_spec \<Rightarrow> disk_spec \<Rightarrow> disk_error + unit" where
  "validate_disk_policy_update old_spec new_spec =
     (if \<exists>(old, new) \<in> set (zip (spec_disks old_spec) (spec_disks new_spec)).
           disk_policy old \<noteq> disk_policy new
      then Inl ImmutableDiskPolicyError else Inr ())"

text \<open>\<open>ImmutableDiskPolicyMixin.update_dm\<close>: the check runs when the update names a disk specification.\<close>

definition update_dm :: "disk_spec option \<Rightarrow> node \<Rightarrow> disk_error + node" where
  "update_dm new_spec n = (case new_spec of None \<Rightarrow> Inr n
     | Some s \<Rightarrow> ebind (validate_disk_policy_update (nd_disk_spec n) s) (\<lambda>_. Inr (n\<lparr>nd_disk_spec := s\<rparr>)))"

lemma validate_disk_policy_ok:
  "validate_disk_policy_update old new = Inr () \<longleftrightarrow>
     (\<forall>i < min (length (spec_disks old)) (length (spec_disks new)).
        disk_policy (spec_disks old ! i) = disk_policy (spec_disks new ! i))"
  by (auto simp: validate_disk_policy_update_def set_zip split: if_splits)

section \<open>Projects of volumes\<close>

definition em_project_id :: uuid where
  "em_project_id = ''12345678-c625-4fee-81d5-f691897b8142''"

definition em_hidden_project_id :: uuid where
  "em_hidden_project_id = ''12345670-6f3a-402e-acf8-0319d53eab58''"

definition volume_project_id :: "node \<Rightarrow> uuid" where
  "volume_project_id n = (if nd_project_id n \<noteq> em_project_id then nd_project_id n else em_hidden_project_id)"

section \<open>Placement in a list by key\<close>

text \<open>Writing back an object of a list that is identified by a key.\<close>

definition put_by :: "('a \<Rightarrow> 'k) \<Rightarrow> 'a \<Rightarrow> 'a list \<Rightarrow> 'a list" where
  "put_by f x xs = map (\<lambda>y. if f y = f x then x else y) xs"

lemma put_by_keys [simp]: "map f (put_by f x xs) = map f xs"
  by (induction xs) (auto simp: put_by_def)

lemma put_by_length [simp]: "length (put_by f x xs) = length xs"
  by (simp add: put_by_def)

lemma put_by_set: "y \<in> set (put_by f x xs) \<Longrightarrow> y = x \<or> (y \<in> set xs \<and> f y \<noteq> f x)"
  by (auto simp: put_by_def split: if_splits)

lemma put_by_same: "(\<And>y. y \<in> set xs \<Longrightarrow> f y = f x \<Longrightarrow> y = x) \<Longrightarrow> put_by f x xs = xs"
  unfolding put_by_def by (rule map_idI) auto

lemma put_by_mem: "f y = f x \<Longrightarrow> y \<in> set xs \<Longrightarrow> x \<in> set (put_by f x xs)"
  by (auto simp: put_by_def image_iff)

lemma put_by_other: "y \<in> set xs \<Longrightarrow> f y \<noteq> f x \<Longrightarrow> y \<in> set (put_by f x xs)"
  by (force simp: put_by_def image_iff)

text \<open>Saving a row: \<open>save()\<close> updates the row of the same identifier or inserts a new one.\<close>

definition save_row :: "('a \<Rightarrow> 'k) \<Rightarrow> 'a \<Rightarrow> 'a list \<Rightarrow> 'a list" where
  "save_row f x rows = (if f x \<in> f ` set rows then put_by f x rows else rows @ [x])"

lemma save_row_mem [simp]: "x \<in> set (save_row f x rows)"
  by (auto simp: save_row_def put_by_def image_iff)

lemma save_row_set: "y \<in> set (save_row f x rows) \<Longrightarrow> y = x \<or> (y \<in> set rows \<and> f y \<noteq> f x)"
  by (auto simp: save_row_def image_iff dest: put_by_set split: if_splits)

lemma save_row_other: "y \<in> set rows \<Longrightarrow> f y \<noteq> f x \<Longrightarrow> y \<in> set (save_row f x rows)"
  by (auto simp: save_row_def put_by_other)

lemma save_row_keys: "f ` set (save_row f x rows) = insert (f x) (f ` set rows)"
proof -
  have "f ` set (put_by f x rows) = f ` set rows" by (metis list.set_map put_by_keys)
  then show ?thesis by (auto simp: save_row_def)
qed

lemma save_row_distinct: "distinct (map f rows) \<Longrightarrow> distinct (map f (save_row f x rows))"
  by (auto simp: save_row_def)

lemma put_by_fresh: "f x \<notin> f ` set xs \<Longrightarrow> put_by f x xs = xs"
  unfolding put_by_def by (rule map_idI) (auto simp: image_iff)

lemma distinct_key_unique:
  "distinct (map f xs) \<Longrightarrow> x \<in> set xs \<Longrightarrow> y \<in> set xs \<Longrightarrow> f x = f y \<Longrightarrow> x = y"
  by (induction xs) (auto simp: image_iff)

lemma put_by_mem_iff:
  "distinct (map f xs) \<Longrightarrow> x' \<in> set xs \<Longrightarrow> f x' = f x \<Longrightarrow>
     y \<in> set (put_by f x xs) \<longleftrightarrow> y = x \<or> (y \<in> set xs \<and> y \<noteq> x')"
  by (auto dest: put_by_set intro: put_by_mem) (metis distinct_key_unique put_by_other)

end
