(* ===== verification/Placement.thy ===== *)
theory Placement
  imports Compute_Model
begin

text \<open>
  Placing the volumes of a node in a machine pool: the part of
  \<open>exordos_core/compute/scheduler/service.py\<close> from \<open>_select_storage_pool\<close> to
  \<open>_place_node_into_pool\<close>, over the bundles of \<open>scheduler/driver/base.py\<close>.  A bundle is an
  object the code mutates in place; here every function returns the bundle it leaves, also
  when it raises, so that the rollback of \<open>_allocate_node_volumes\<close> is visible.
\<close>

section \<open>Bundles\<close>

record node_bundle =
  nb_node :: node
  nb_volumes :: "volume list"

record machine_bundle =
  mb_machine :: machine
  mb_volumes :: "machine_volume list"

record pool_bundle =
  pb_pool :: machine_pool
  pb_volumes :: "machine_volume list"

definition pb_uuid :: "pool_bundle \<Rightarrow> uuid" where
  "pb_uuid pb = mp_uuid (pb_pool pb)"

definition pb_storage_pools :: "pool_bundle \<Rightarrow> storage_pool list" where
  "pb_storage_pools pb = mp_storage_pools (pb_pool pb)"

section \<open>Storage pools of a bundle\<close>

text \<open>\<open>_select_storage_pool\<close>: only pools whose name is unique in the machine pool are offered.\<close>

definition uniquely_named :: "storage_pool list \<Rightarrow> storage_pool list" where
  "uniquely_named sps = filter (\<lambda>sp. count_list (map sp_name sps) (sp_name sp) = 1) sps"

definition select_storage_pool :: "sdk \<Rightarrow> pool_bundle \<Rightarrow> volume \<Rightarrow> int option \<Rightarrow> sched_error + storage_pool" where
  "select_storage_pool k pb v size_opt =
     (let size = (case size_opt of None \<Rightarrow> vl_size v | Some n \<Rightarrow> n) in
      case sdk_select k (uniquely_named (pb_storage_pools pb)) (vl_tier v) (vl_ephemeral v) size None of
        Some sp \<Rightarrow> Inr sp
      | None \<Rightarrow> Inl NoStoragePool)"

definition find_storage_pool_by_name :: "pool_bundle \<Rightarrow> string \<Rightarrow> sched_error + storage_pool" where
  "find_storage_pool_by_name pb name =
     (case filter (\<lambda>sp. sp_name sp = name) (pb_storage_pools pb) of
        [] \<Rightarrow> Inl (UnknownStoragePool name)
      | [sp] \<Rightarrow> Inr sp
      | _ \<Rightarrow> Inl (AmbiguousStoragePool name))"

text \<open>
  \<open>storage_pool.allocate_capacity(n)\<close> on an object of the bundle: the pool found has a unique
  name, so writing it back by name is the mutation in place.
\<close>

definition set_storage_pool :: "storage_pool \<Rightarrow> pool_bundle \<Rightarrow> pool_bundle" where
  "set_storage_pool sp pb = pb\<lparr>pb_pool := (pb_pool pb)\<lparr>mp_storage_pools :=
     put_by sp_name sp (mp_storage_pools (pb_pool pb))\<rparr>\<rparr>"

definition allocate_in :: "sdk \<Rightarrow> int \<Rightarrow> storage_pool \<Rightarrow> pool_bundle \<Rightarrow> sched_error + pool_bundle" where
  "allocate_in k n sp pb =
     (case sdk_allocate k n sp of Inl e \<Rightarrow> Inl e | Inr sp' \<Rightarrow> Inr (set_storage_pool sp' pb))"

definition build_machine_volume :: "sdk \<Rightarrow> pool_bundle \<Rightarrow> volume \<Rightarrow> sched_error + machine_volume \<times> pool_bundle" where
  "build_machine_volume k pb v =
     ebind (select_storage_pool k pb v None) (\<lambda>sp.
     ebind (allocate_in k (vl_size v) sp pb) (\<lambda>pb'.
     Inr (\<lparr>mv_uuid = vl_uuid v, mv_name = vl_uuid v, mv_project_id = vl_project_id v,
       mv_pool = None, mv_machine = None, mv_node_volume = Some (vl_uuid v),
       mv_size = vl_size v, mv_image = vl_image v, mv_boot = vl_boot v, mv_label = vl_label v,
       mv_device_type = vl_device_type v, mv_tier = vl_tier v, mv_ephemeral = vl_ephemeral v,
       mv_storage_pool = Some (sp_name sp), mv_status = StNew, mv_index = vl_index v\<rparr>, pb')))"

text \<open>\<open>if not pool_volume.storage_pool\<close> treats the empty name as no name.\<close>

definition existing_storage_pool :: "pool_bundle \<Rightarrow> machine_volume \<Rightarrow> storage_pool option" where
  "existing_storage_pool pb mv =
     (case mv_storage_pool mv of
        None \<Rightarrow> None
      | Some name \<Rightarrow>
          if name = [] then None
          else (case find_storage_pool_by_name pb name of Inl _ \<Rightarrow> None | Inr sp \<Rightarrow> Some sp))"

section \<open>Placing one volume\<close>

definition reusable :: "volume \<Rightarrow> pool_bundle \<Rightarrow> machine_volume \<Rightarrow> bool" where
  "reusable v pb mv \<longleftrightarrow> mv_image mv = vl_image v \<and> mv_size mv \<le> vl_size v \<and>
     (case existing_storage_pool pb mv of None \<Rightarrow> False
      | Some sp \<Rightarrow> sp_ephemeral sp = vl_ephemeral v)"

definition exact_match :: "volume \<Rightarrow> pool_bundle \<Rightarrow> machine_volume \<Rightarrow> bool" where
  "exact_match v pb mv \<longleftrightarrow>
     (case existing_storage_pool pb mv of None \<Rightarrow> False
      | Some sp \<Rightarrow> sp_tier sp = vl_tier v \<and> sp_ephemeral sp = vl_ephemeral v)"

definition reuse_candidates :: "volume \<Rightarrow> pool_bundle \<Rightarrow> machine_volume list" where
  "reuse_candidates v pb =
     (let volumes = filter (reusable v pb) (pb_volumes pb);
          exact_volumes = filter (exact_match v pb) volumes;
          other_volumes = filter (\<lambda>mv. mv_uuid mv \<notin> mv_uuid ` set exact_volumes) volumes
      in sort_key (\<lambda>mv. vl_size v - mv_size mv) exact_volumes @
         sort_key (\<lambda>mv. vl_size v - mv_size mv) other_volumes)"

fun try_candidates :: "sdk \<Rightarrow> volume \<Rightarrow> pool_bundle \<Rightarrow> machine_volume list \<Rightarrow> sched_error + machine_volume \<times> pool_bundle" where
  "try_candidates k v pb [] = build_machine_volume k pb v"
| "try_candidates k v pb (mv # rest) =
     (let need_size = vl_size v - mv_size mv;
          name = (case mv_storage_pool mv of None \<Rightarrow> [] | Some s \<Rightarrow> s) in
      ebind (find_storage_pool_by_name pb name) (\<lambda>sp.
      if need_size \<noteq> 0 \<and> sdk_available k sp < need_size then try_candidates k v pb rest
      else ebind (allocate_in k need_size sp pb) (\<lambda>pb'.
        Inr (mv\<lparr>mv_node_volume := Some (vl_uuid v)\<rparr>,
             pb'\<lparr>pb_volumes := remove_by mv_uuid (mv_uuid mv) (pb_volumes pb')\<rparr>))))"

definition place_volume_into_pool :: "sdk \<Rightarrow> volume \<Rightarrow> pool_bundle \<Rightarrow> sched_error + machine_volume \<times> pool_bundle" where
  "place_volume_into_pool k v pb =
     (if vl_image v = None then build_machine_volume k pb v
      else try_candidates k v pb (reuse_candidates v pb))"

section \<open>Placing the volumes of a node\<close>

text \<open>The comprehension over the volumes; the bundle is the one the code leaves when it raises.\<close>

fun place_volumes :: "sdk \<Rightarrow> volume list \<Rightarrow> pool_bundle \<Rightarrow> (sched_error + machine_volume list) \<times> pool_bundle" where
  "place_volumes k [] pb = (Inr [], pb)"
| "place_volumes k (v # vs) pb =
     (case place_volume_into_pool k v pb of
        Inl e \<Rightarrow> (Inl e, pb)
      | Inr (mv, pb') \<Rightarrow>
          (case place_volumes k vs pb' of
             (Inl e, pb'') \<Rightarrow> (Inl e, pb'')
           | (Inr mvs, pb'') \<Rightarrow> (Inr (mv # mvs), pb'')))"

definition restore_pool :: "int list \<Rightarrow> (machine_volume \<times> uuid option) list \<Rightarrow> pool_bundle \<Rightarrow> pool_bundle" where
  "restore_pool capacities owners pb =
     pb\<lparr>pb_pool := (pb_pool pb)\<lparr>mp_storage_pools :=
          map (\<lambda>(sp, capacity). sp\<lparr>sp_provisioned := capacity\<rparr>) (zip (pb_storage_pools pb) capacities)\<rparr>,
        pb_volumes := map (\<lambda>(v, owner). v\<lparr>mv_node_volume := owner\<rparr>) owners\<rparr>"

definition allocate_node_volumes :: "sdk \<Rightarrow> node_bundle \<Rightarrow> pool_bundle \<Rightarrow> (sched_error + machine_volume list) \<times> pool_bundle" where
  "allocate_node_volumes k nb pb =
     (let capacities = map sp_provisioned (pb_storage_pools pb);
          idle_volumes = pb_volumes pb;
          owners = map (\<lambda>v. (v, mv_node_volume v)) idle_volumes in
      case place_volumes k (nb_volumes nb) pb of
        (Inr mvs, pb') \<Rightarrow> (Inr mvs, pb')
      | (Inl e, pb') \<Rightarrow> (Inl e, restore_pool capacities owners pb'))"

section \<open>Lemmas\<close>

lemma filter_name_unique:
  assumes "filter (\<lambda>s. sp_name s = n) sps = [sp]" and "s \<in> set sps" and "sp_name s = n"
  shows "s = sp"
proof -
  have "s \<in> set (filter (\<lambda>s. sp_name s = n) sps)" using assms(2,3) by simp
  with assms(1) show ?thesis by simp
qed

lemma count_list_filter: "count_list (map f xs) y = length (filter (\<lambda>x. f x = y) xs)"
  by (induction xs) auto

lemma uniquely_named_filter:
  assumes "sp \<in> set (uniquely_named sps)"
  shows "filter (\<lambda>s. sp_name s = sp_name sp) sps = [sp]"
proof -
  have *: "sp \<in> set sps" "length (filter (\<lambda>s. sp_name s = sp_name sp) sps) = 1"
    using assms by (auto simp: uniquely_named_def count_list_filter)
  then obtain x where x: "filter (\<lambda>s. sp_name s = sp_name sp) sps = [x]"
    by (auto simp: length_Suc_conv)
  moreover have "sp \<in> set (filter (\<lambda>s. sp_name s = sp_name sp) sps)" using *(1) by simp
  ultimately show ?thesis by simp
qed

lemma find_storage_pool_by_name_iff:
  "find_storage_pool_by_name pb n = Inr sp \<longleftrightarrow> filter (\<lambda>s. sp_name s = n) (pb_storage_pools pb) = [sp]"
  by (auto simp: find_storage_pool_by_name_def split: list.splits)

lemma find_storage_pool_by_name_mem:
  "find_storage_pool_by_name pb n = Inr sp \<Longrightarrow> sp \<in> set (pb_storage_pools pb) \<and> sp_name sp = n"
  unfolding find_storage_pool_by_name_iff
  by (auto simp: filter_eq_Cons_iff)

text \<open>What an allocation leaves alone: everything but the provisioned capacities.\<close>

definition unprovisioned :: "storage_pool list \<Rightarrow> storage_pool list" where
  "unprovisioned sps = map (\<lambda>sp. sp\<lparr>sp_provisioned := 0\<rparr>) sps"

definition same_pool :: "pool_bundle \<Rightarrow> pool_bundle \<Rightarrow> bool" where
  "same_pool pb pb' \<longleftrightarrow>
     (pb_pool pb')\<lparr>mp_storage_pools := []\<rparr> = (pb_pool pb)\<lparr>mp_storage_pools := []\<rparr> \<and>
     unprovisioned (pb_storage_pools pb') = unprovisioned (pb_storage_pools pb)"

lemma same_pool_refl [simp, intro]: "same_pool pb pb"
  by (simp add: same_pool_def)

lemma same_pool_trans: "same_pool a b \<Longrightarrow> same_pool b c \<Longrightarrow> same_pool a c"
  by (simp add: same_pool_def)

lemma same_pool_volumes [simp]: "same_pool pb (pb'\<lparr>pb_volumes := vs\<rparr>) = same_pool pb pb'"
  by (simp add: same_pool_def pb_storage_pools_def)

lemma same_pool_length: "same_pool a b \<Longrightarrow> length (pb_storage_pools b) = length (pb_storage_pools a)"
  unfolding same_pool_def unprovisioned_def by (metis length_map)

lemma same_pool_uuid: "same_pool a b \<Longrightarrow> pb_uuid b = pb_uuid a"
  unfolding same_pool_def pb_uuid_def by (metis machine_pool.select_convs(1) machine_pool.surjective machine_pool.update_convs(14))

lemma pb_storage_pools_set [simp]:
  "pb_storage_pools (set_storage_pool sp pb) = put_by sp_name sp (pb_storage_pools pb)"
  by (simp add: pb_storage_pools_def set_storage_pool_def)

lemma pb_volumes_set [simp]: "pb_volumes (set_storage_pool sp pb) = pb_volumes pb"
  by (simp add: set_storage_pool_def)

lemma set_storage_pool_same:
  assumes "filter (\<lambda>s. sp_name s = sp_name sp) (pb_storage_pools pb) = [sp]"
  shows "same_pool pb (set_storage_pool (sp\<lparr>sp_provisioned := c\<rparr>) pb)"
proof -
  have "\<And>s. s \<in> set (pb_storage_pools pb) \<Longrightarrow> sp_name s = sp_name sp \<Longrightarrow> s = sp"
    using filter_name_unique [OF assms] by blast
  then have "unprovisioned (put_by sp_name (sp\<lparr>sp_provisioned := c\<rparr>) (pb_storage_pools pb))
      = unprovisioned (pb_storage_pools pb)"
    by (auto simp: unprovisioned_def put_by_def)
  then show ?thesis
    by (simp add: same_pool_def) (simp add: set_storage_pool_def)
qed

text \<open>The documented behaviour of the SDK, in the form the proofs use.\<close>

lemma sdk_allocate_Inr: "sdk_ok k \<Longrightarrow> sdk_allocate k n sp = Inr r \<Longrightarrow> r = sp\<lparr>sp_provisioned := sp_provisioned sp + n\<rparr>"
  unfolding sdk_ok_def by blast

lemma sdk_allocate_fits: "sdk_ok k \<Longrightarrow> n \<le> sdk_available k sp \<Longrightarrow> sdk_allocate k n sp = Inr (sp\<lparr>sp_provisioned := sp_provisioned sp + n\<rparr>)"
  unfolding sdk_ok_def by blast

lemma sdk_available_provisioned: "sdk_ok k \<Longrightarrow> sdk_available k (sp\<lparr>sp_provisioned := sp_provisioned sp + n\<rparr>) = sdk_available k sp - n"
  unfolding sdk_ok_def by blast

lemma sdk_select_Some:
  "sdk_ok k \<Longrightarrow> sdk_select k sps tier eph sz name = Some sp \<Longrightarrow>
     sp \<in> set sps \<and> sp_ephemeral sp = eph \<and> sz \<le> sdk_available k sp \<and> (\<forall>s. name = Some s \<longrightarrow> sp_name sp = s)"
  unfolding sdk_ok_def by blast

text \<open>
  What one placement does: a storage pool \<open>sp\<close> with a unique name and the requested ephemeral
  kind gives \<open>d\<close> of its free capacity; the machine volume is a new one of the full size, or an
  idle volume of the pool with the requested image that is enlarged by \<open>d\<close> and leaves the pool.
\<close>

definition placed :: "sdk \<Rightarrow> volume \<Rightarrow> pool_bundle \<Rightarrow> machine_volume \<Rightarrow> pool_bundle \<Rightarrow> bool" where
  "placed k v pb mv pb' \<longleftrightarrow> (\<exists>sp d.
     filter (\<lambda>s. sp_name s = sp_name sp) (pb_storage_pools pb) = [sp] \<and>
     sp_ephemeral sp = vl_ephemeral v \<and> mv_storage_pool mv = Some (sp_name sp) \<and>
     (d = 0 \<or> d \<le> sdk_available k sp) \<and>
     mv_node_volume mv = Some (vl_uuid v) \<and> mv_image mv = vl_image v \<and>
     (mv_uuid mv = vl_uuid v \<and> d = vl_size v \<and> mv_size mv = d \<and> pb_volumes pb' = pb_volumes pb \<or>
      (\<exists>mv0 \<in> set (pb_volumes pb). mv = mv0\<lparr>mv_node_volume := Some (vl_uuid v)\<rparr> \<and>
         0 \<le> d \<and> d = vl_size v - mv_size mv0 \<and>
         pb_volumes pb' = remove_by mv_uuid (mv_uuid mv0) (pb_volumes pb))) \<and>
     pb' = (set_storage_pool (sp\<lparr>sp_provisioned := sp_provisioned sp + d\<rparr>) pb)\<lparr>pb_volumes := pb_volumes pb'\<rparr>)"

lemma build_machine_volume_placed:
  assumes k: "sdk_ok k" and b: "build_machine_volume k pb v = Inr (mv, pb')"
  shows "placed k v pb mv pb'"
proof -
  obtain sp sp' where sel: "sdk_select k (uniquely_named (pb_storage_pools pb)) (vl_tier v) (vl_ephemeral v) (vl_size v) None = Some sp"
    and al: "sdk_allocate k (vl_size v) sp = Inr sp'" and pb': "pb' = set_storage_pool sp' pb"
    and mv: "mv_uuid mv = vl_uuid v" "mv_node_volume mv = Some (vl_uuid v)" "mv_size mv = vl_size v"
      "mv_image mv = vl_image v" "mv_storage_pool mv = Some (sp_name sp)"
    using b by (auto simp: build_machine_volume_def select_storage_pool_def allocate_in_def ebind_Inr_iff
        split: option.splits sum.splits)
  have s: "sp \<in> set (uniquely_named (pb_storage_pools pb))" "sp_ephemeral sp = vl_ephemeral v"
      "vl_size v \<le> sdk_available k sp"
    using sdk_select_Some [OF k sel] by auto
  from sdk_allocate_Inr [OF k al] pb' mv s(2,3) uniquely_named_filter [OF s(1)]
  show ?thesis unfolding placed_def by (intro exI [of _ sp] exI [of _ "vl_size v"]) simp
qed

lemma existing_storage_pool_Some:
  "existing_storage_pool pb mv = Some sp \<longleftrightarrow>
     (\<exists>n. mv_storage_pool mv = Some n \<and> n \<noteq> [] \<and> find_storage_pool_by_name pb n = Inr sp)"
  by (cases "mv_storage_pool mv"; cases "find_storage_pool_by_name pb (the (mv_storage_pool mv))")
    (simp_all add: existing_storage_pool_def)

lemma reusableE:
  assumes "reusable v pb c"
  obtains n sp where "mv_storage_pool c = Some n" "find_storage_pool_by_name pb n = Inr sp"
      "sp_ephemeral sp = vl_ephemeral v" "mv_image c = vl_image v" "mv_size c \<le> vl_size v"
proof (cases "existing_storage_pool pb c")
  case None
  with assms show ?thesis by (simp add: reusable_def)
next
  case (Some sp)
  with assms that show ?thesis by (auto simp: reusable_def existing_storage_pool_Some)
qed

lemma try_candidates_placed:
  assumes k: "sdk_ok k" and t: "try_candidates k v pb cs = Inr (mv, pb')"
    and cs: "\<And>c. c \<in> set cs \<Longrightarrow> c \<in> set (pb_volumes pb) \<and> reusable v pb c"
  shows "placed k v pb mv pb'"
  using t cs
proof (induction cs)
  case Nil
  then show ?case using build_machine_volume_placed [OF k] by simp
next
  case (Cons c cs)
  have c: "c \<in> set (pb_volumes pb)" "reusable v pb c" using Cons.prems(2) by auto
  then obtain n sp where n: "mv_storage_pool c = Some n" "find_storage_pool_by_name pb n = Inr sp"
      "sp_ephemeral sp = vl_ephemeral v" "mv_image c = vl_image v" "mv_size c \<le> vl_size v"
    by (elim conjE reusableE)
  have f: "filter (\<lambda>s. sp_name s = n) (pb_storage_pools pb) = [sp]" "sp_name sp = n"
    using n(2) find_storage_pool_by_name_mem [OF n(2)] find_storage_pool_by_name_iff by simp_all
  show ?case
  proof (cases "vl_size v - mv_size c \<noteq> 0 \<and> sdk_available k sp < vl_size v - mv_size c")
    case True
    then have "try_candidates k v pb cs = Inr (mv, pb')" using Cons.prems(1) n by (simp add: Let_def)
    with Cons show ?thesis by auto
  next
    case False
    then obtain pb1 where al: "allocate_in k (vl_size v - mv_size c) sp pb = Inr pb1"
      and mv: "mv = c\<lparr>mv_node_volume := Some (vl_uuid v)\<rparr>"
      and pb': "pb' = pb1\<lparr>pb_volumes := remove_by mv_uuid (mv_uuid c) (pb_volumes pb1)\<rparr>"
      using Cons.prems(1) n by (auto simp: Let_def ebind_Inr_iff)
    then have pb1: "pb1 = set_storage_pool (sp\<lparr>sp_provisioned := sp_provisioned sp + (vl_size v - mv_size c)\<rparr>) pb"
      using sdk_allocate_Inr [OF k] by (auto simp: allocate_in_def split: sum.splits)
    show ?thesis unfolding placed_def
      using False f n mv pb' pb1 c
      by (intro exI [of _ sp] exI [of _ "vl_size v - mv_size c"]) auto
  qed
qed

lemma reuse_candidates_set: "c \<in> set (reuse_candidates v pb) \<longleftrightarrow> c \<in> set (pb_volumes pb) \<and> reusable v pb c \<and>
    (exact_match v pb c \<or> mv_uuid c \<notin> mv_uuid ` {m \<in> set (pb_volumes pb). reusable v pb m \<and> exact_match v pb m})"
  by (auto simp: reuse_candidates_def Let_def)

lemma place_volume_placed:
  assumes "sdk_ok k" and "place_volume_into_pool k v pb = Inr (mv, pb')"
  shows "placed k v pb mv pb'"
proof (cases "vl_image v = None")
  case True
  with assms build_machine_volume_placed show ?thesis by (simp add: place_volume_into_pool_def)
next
  case False
  with assms(2) have "try_candidates k v pb (reuse_candidates v pb) = Inr (mv, pb')"
    by (simp add: place_volume_into_pool_def)
  then show ?thesis by (rule try_candidates_placed [OF assms(1)]) (simp add: reuse_candidates_set)
qed

lemma placed_same_pool: "placed k v pb mv pb' \<Longrightarrow> same_pool pb pb'"
  unfolding placed_def by (metis set_storage_pool_same same_pool_volumes)

text \<open>No storage pool is oversubscribed by a placement.\<close>

definition storage_ok :: "sdk \<Rightarrow> pool_bundle \<Rightarrow> bool" where
  "storage_ok k pb \<longleftrightarrow> (\<forall>sp \<in> set (pb_storage_pools pb). 0 \<le> sdk_available k sp)"

lemma pb_storage_pools_volumes [simp]: "pb_storage_pools (pb\<lparr>pb_volumes := vs\<rparr>) = pb_storage_pools pb"
  by (simp add: pb_storage_pools_def)

lemma placed_storage_ok:
  assumes k: "sdk_ok k" and p: "placed k v pb mv pb'" and ok: "storage_ok k pb"
  shows "storage_ok k pb'"
proof -
  obtain sp d where sp: "filter (\<lambda>s. sp_name s = sp_name sp) (pb_storage_pools pb) = [sp]"
    and d: "d = 0 \<or> d \<le> sdk_available k sp"
    and pb': "pb' = (set_storage_pool (sp\<lparr>sp_provisioned := sp_provisioned sp + d\<rparr>) pb)\<lparr>pb_volumes := pb_volumes pb'\<rparr>"
    using p unfolding placed_def by blast
  have "sp \<in> set (pb_storage_pools pb)" using sp by (auto simp: filter_eq_Cons_iff)
  then have "0 \<le> sdk_available k (sp\<lparr>sp_provisioned := sp_provisioned sp + d\<rparr>)"
    using d ok sdk_available_provisioned [OF k, of sp d] by (auto simp: storage_ok_def)
  moreover have "pb_storage_pools pb' = put_by sp_name (sp\<lparr>sp_provisioned := sp_provisioned sp + d\<rparr>) (pb_storage_pools pb)"
    by (subst pb') simp
  ultimately show ?thesis using ok by (auto simp: storage_ok_def dest!: put_by_set)
qed

lemma build_machine_volume_error:
  assumes k: "sdk_ok k" and "build_machine_volume k pb v = Inl e"
  shows "e = NoStoragePool"
proof (cases "sdk_select k (uniquely_named (pb_storage_pools pb)) (vl_tier v) (vl_ephemeral v) (vl_size v) None")
  case None
  with assms show ?thesis by (simp add: build_machine_volume_def select_storage_pool_def)
next
  case (Some sp)
  then have "vl_size v \<le> sdk_available k sp" using sdk_select_Some [OF k] by blast
  from sdk_allocate_fits [OF k this] Some assms(2) show ?thesis
    by (simp add: build_machine_volume_def select_storage_pool_def allocate_in_def)
qed

lemma try_candidates_error:
  assumes k: "sdk_ok k" and ok: "storage_ok k pb" and "try_candidates k v pb cs = Inl e"
    and "\<And>c. c \<in> set cs \<Longrightarrow> reusable v pb c"
  shows "e = NoStoragePool"
  using assms(3,4)
proof (induction cs)
  case Nil
  then show ?case using build_machine_volume_error [OF k] by simp
next
  case (Cons c cs)
  from Cons.prems(2) have "reusable v pb c" by simp
  then obtain n sp where n: "mv_storage_pool c = Some n" "find_storage_pool_by_name pb n = Inr sp"
    by (elim reusableE)
  show ?case
  proof (cases "vl_size v - mv_size c \<noteq> 0 \<and> sdk_available k sp < vl_size v - mv_size c")
    case True
    then have "try_candidates k v pb cs = Inl e" using Cons.prems(1) n by (simp add: Let_def)
    with Cons show ?thesis by auto
  next
    case False
    moreover have "0 \<le> sdk_available k sp"
      using ok find_storage_pool_by_name_mem [OF n(2)] by (auto simp: storage_ok_def)
    ultimately have "vl_size v - mv_size c \<le> sdk_available k sp" by auto
    from sdk_allocate_fits [OF k this] False Cons.prems(1) n show ?thesis
      by (simp add: Let_def allocate_in_def split: if_splits)
  qed
qed

lemma place_volume_error:
  assumes "sdk_ok k" and "storage_ok k pb" and "place_volume_into_pool k v pb = Inl e"
  shows "e = NoStoragePool"
proof (cases "vl_image v = None")
  case True
  with assms build_machine_volume_error show ?thesis by (simp add: place_volume_into_pool_def)
next
  case False
  with assms(3) have "try_candidates k v pb (reuse_candidates v pb) = Inl e"
    by (simp add: place_volume_into_pool_def)
  then show ?thesis by (rule try_candidates_error [OF assms(1,2)]) (simp add: reuse_candidates_set)
qed

lemma place_volumes_same_pool:
  assumes "sdk_ok k" and "place_volumes k vs pb = (r, pb')"
  shows "same_pool pb pb'"
  using assms(2)
proof (induction vs arbitrary: pb r pb')
  case (Cons v vs)
  show ?case
  proof (cases "place_volume_into_pool k v pb")
    case (Inl e)
    with Cons.prems show ?thesis by simp
  next
    case (Inr p)
    obtain mv pb1 where p: "p = (mv, pb1)" by (cases p)
    obtain r2 pb2 where r2: "place_volumes k vs pb1 = (r2, pb2)" by fastforce
    have "pb' = pb2" using Cons.prems Inr p r2 by (cases r2) auto
    moreover have "same_pool pb pb1" using placed_same_pool place_volume_placed assms(1) Inr p by blast
    moreover have "same_pool pb1 pb2" using Cons.IH r2 by blast
    ultimately show ?thesis using same_pool_trans by blast
  qed
qed simp

lemma place_volumes_storage_ok:
  assumes "sdk_ok k" and "place_volumes k vs pb = (r, pb')" and "storage_ok k pb"
  shows "storage_ok k pb' \<and> (\<forall>e. r = Inl e \<longrightarrow> e = NoStoragePool)"
  using assms(2,3)
proof (induction vs arbitrary: pb r pb')
  case (Cons v vs)
  show ?case
  proof (cases "place_volume_into_pool k v pb")
    case (Inl e)
    with Cons.prems place_volume_error [OF assms(1) Cons.prems(2)] show ?thesis by auto
  next
    case (Inr p)
    obtain mv pb1 where p: "p = (mv, pb1)" by (cases p)
    obtain r2 pb2 where r2: "place_volumes k vs pb1 = (r2, pb2)" by fastforce
    have "pb' = pb2" and r: "\<forall>e. r = Inl e \<longrightarrow> r2 = Inl e" using Cons.prems Inr p r2 by (cases r2; auto)+
    moreover have "storage_ok k pb1"
      using placed_storage_ok [OF assms(1)] place_volume_placed [OF assms(1)] Inr p Cons.prems(2) by blast
    ultimately show ?thesis using Cons.IH r2 by blast
  qed
qed simp

text \<open>Undoing a failed placement.\<close>

lemma restore_provisioned:
  "unprovisioned xs = unprovisioned ys \<Longrightarrow>
     map (\<lambda>(sp, c). sp\<lparr>sp_provisioned := c\<rparr>) (zip xs (map sp_provisioned ys)) = ys"
proof (induction xs arbitrary: ys)
  case (Cons x xs)
  then obtain y ys' where ys: "ys = y # ys'" "x\<lparr>sp_provisioned := 0\<rparr> = y\<lparr>sp_provisioned := 0\<rparr>"
      "unprovisioned xs = unprovisioned ys'"
    by (cases ys) (auto simp: unprovisioned_def)
  then have "x\<lparr>sp_provisioned := sp_provisioned y\<rparr> = y"
    by (cases x; cases y) simp
  with ys Cons.IH show ?case by simp
qed (simp add: unprovisioned_def)

lemma restore_pool_same:
  assumes "same_pool pb pb'"
  shows "restore_pool (map sp_provisioned (pb_storage_pools pb))
           (map (\<lambda>v. (v, mv_node_volume v)) (pb_volumes pb)) pb' = pb"
proof -
  have "map (\<lambda>(v, owner). v\<lparr>mv_node_volume := owner\<rparr>) (map (\<lambda>v. (v, mv_node_volume v)) (pb_volumes pb))
      = pb_volumes pb"
    by (induction "pb_volumes pb") (auto intro: map_idI)
  moreover have "map (\<lambda>(sp, c). sp\<lparr>sp_provisioned := c\<rparr>)
      (zip (pb_storage_pools pb') (map sp_provisioned (pb_storage_pools pb))) = pb_storage_pools pb"
    using assms restore_provisioned by (auto simp: same_pool_def)
  moreover have "(pb_pool pb')\<lparr>mp_storage_pools := pb_storage_pools pb\<rparr> = pb_pool pb"
  proof -
    have "(pb_pool pb')\<lparr>mp_storage_pools := []\<rparr> = (pb_pool pb)\<lparr>mp_storage_pools := []\<rparr>"
      using assms by (simp add: same_pool_def)
    then show ?thesis
      by (cases "pb_pool pb'"; cases "pb_pool pb") (simp add: pb_storage_pools_def)
  qed
  ultimately show ?thesis
    unfolding restore_pool_def by (cases pb; cases pb') simp
qed

lemma failed_allocation_restores:
  assumes "sdk_ok k" and "allocate_node_volumes k nb pb = (Inl e, pb')"
  shows "pb' = pb"
proof -
  obtain r pb1 where r: "place_volumes k (nb_volumes nb) pb = (r, pb1)" by fastforce
  with assms(2) have "pb' = restore_pool (map sp_provisioned (pb_storage_pools pb))
      (map (\<lambda>v. (v, mv_node_volume v)) (pb_volumes pb)) pb1"
    by (auto simp: allocate_node_volumes_def Let_def split: sum.splits)
  with restore_pool_same place_volumes_same_pool [OF assms(1) r] show ?thesis by simp
qed

text \<open>The first candidate that fits is taken.\<close>

definition fits :: "sdk \<Rightarrow> volume \<Rightarrow> pool_bundle \<Rightarrow> machine_volume \<Rightarrow> bool" where
  "fits k v pb mv \<longleftrightarrow> (case existing_storage_pool pb mv of None \<Rightarrow> False
     | Some sp \<Rightarrow> vl_size v = mv_size mv \<or> vl_size v - mv_size mv \<le> sdk_available k sp)"

lemma try_candidates_find:
  assumes k: "sdk_ok k" and ok: "storage_ok k pb" and "\<And>c. c \<in> set cs \<Longrightarrow> reusable v pb c"
  shows "(case find (fits k v pb) cs of
            None \<Rightarrow> try_candidates k v pb cs = build_machine_volume k pb v
          | Some c \<Rightarrow> (\<exists>pb'. try_candidates k v pb cs = Inr (c\<lparr>mv_node_volume := Some (vl_uuid v)\<rparr>, pb')))"
  using assms(3)
proof (induction cs)
  case (Cons c cs)
  have "reusable v pb c" using Cons.prems by simp
  then obtain sp where sp: "existing_storage_pool pb c = Some sp"
    by (auto simp: reusable_def split: option.splits)
  then obtain n where n: "mv_storage_pool c = Some n" "find_storage_pool_by_name pb n = Inr sp"
    by (auto simp: existing_storage_pool_Some)
  have "0 \<le> sdk_available k sp"
    using ok find_storage_pool_by_name_mem [OF n(2)] by (auto simp: storage_ok_def)
  then have al: "sdk_allocate k (vl_size v - mv_size c) sp
        = Inr (sp\<lparr>sp_provisioned := sp_provisioned sp + (vl_size v - mv_size c)\<rparr>)"
    if "fits k v pb c"
    using that sp by (intro sdk_allocate_fits [OF k]) (auto simp: fits_def)
  show ?case
  proof (cases "fits k v pb c")
    case True
    with sp have nf: "\<not> (vl_size v - mv_size c \<noteq> 0 \<and> sdk_available k sp < vl_size v - mv_size c)"
      by (auto simp: fits_def)
    show ?thesis using True n al [OF True] nf by (auto simp: Let_def allocate_in_def)
  next
    case False
    with sp have "vl_size v - mv_size c \<noteq> 0 \<and> sdk_available k sp < vl_size v - mv_size c"
      by (auto simp: fits_def)
    then have step: "try_candidates k v pb (c # cs) = try_candidates k v pb cs"
      using n by (simp add: Let_def)
    have "find (fits k v pb) (c # cs) = find (fits k v pb) cs" using False by simp
    then show ?thesis unfolding step using Cons by simp
  qed
qed simp

lemma find_sorted_least:
  assumes "find P (sort_key f xs) = Some x" and "y \<in> set xs" and "P y"
  shows "f x \<le> f y"
proof -
  obtain i where i: "i < length (sort_key f xs)" "x = sort_key f xs ! i"
      "\<forall>j<i. \<not> P (sort_key f xs ! j)"
    using assms(1) by (auto simp: find_Some_iff)
  obtain j where j: "j < length (sort_key f xs)" "sort_key f xs ! j = y"
    using assms(2) by (metis in_set_conv_nth set_sort)
  then have "i \<le> j" using i(3) assms(3) by (metis not_less)
  then have "map f (sort_key f xs) ! i \<le> map f (sort_key f xs) ! j"
    using sorted_sort_key j(1) by (intro sorted_nth_mono) auto
  then show ?thesis using i j by simp
qed

lemma find_Some_mem: "find P xs = Some x \<Longrightarrow> x \<in> set xs \<and> P x"
  by (induction xs) (auto split: if_splits)

lemma find_append: "find P (xs @ ys) = (case find P xs of None \<Rightarrow> find P ys | Some x \<Rightarrow> Some x)"
  by (induction xs) auto

section \<open>Properties\<close>

text \<open>Concrete bundles for the witnesses.\<close>

definition demo_storage :: "string \<Rightarrow> string \<Rightarrow> int \<Rightarrow> storage_pool" where
  "demo_storage name tier usable = \<lparr>sp_name = name, sp_tier = tier, sp_ephemeral = True,
     sp_usable = usable, sp_provisioned = 0\<rparr>"

definition demo_machine_pool :: "uuid \<Rightarrow> int \<Rightarrow> int \<Rightarrow> storage_pool list \<Rightarrow> machine_pool" where
  "demo_machine_pool u cores ram sps = \<lparr>mp_uuid = u, mp_kind = ''libvirt'', mp_spec_node = None,
     mp_agent = Some ''agent'', mp_builder = Some ''builder'', mp_machine_type = NodeVM,
     mp_status = StActive, mp_avail_cores = cores, mp_avail_ram = ram, mp_all_cores = 10,
     mp_all_ram = 100, mp_cores_ratio = 1, mp_ram_ratio = 1, mp_storage_pools = sps\<rparr>"

definition demo_volume :: "uuid \<Rightarrow> uuid option \<Rightarrow> int \<Rightarrow> string option \<Rightarrow> volume" where
  "demo_volume u n sz img = \<lparr>vl_uuid = u, vl_name = u, vl_description = [], vl_project_id = ''p'',
     vl_node = n, vl_index = 0, vl_size = sz, vl_image = img, vl_boot = True, vl_label = None,
     vl_device_type = [], vl_tier = ''WARM'', vl_ephemeral = True, vl_status = StNew, vl_pool = None\<rparr>"

definition demo_mvolume :: "uuid \<Rightarrow> int \<Rightarrow> string \<Rightarrow> machine_volume" where
  "demo_mvolume u sz sp = \<lparr>mv_uuid = u, mv_name = u, mv_project_id = ''p'', mv_pool = Some ''pool'',
     mv_machine = None, mv_node_volume = None, mv_size = sz, mv_image = Some ''img'', mv_boot = True,
     mv_label = None, mv_device_type = [], mv_tier = ''WARM'', mv_ephemeral = True,
     mv_storage_pool = Some sp, mv_status = StActive, mv_index = 0\<rparr>"

definition demo_bundle :: pool_bundle where
  "demo_bundle = \<lparr>pb_pool = demo_machine_pool ''pool'' 4 40 [demo_storage ''a'' ''WARM'' 10, demo_storage ''b'' ''HOT'' 10],
     pb_volumes = [demo_mvolume ''x'' 3 ''b'', demo_mvolume ''y'' 2 ''a'', demo_mvolume ''z'' 4 ''a'']\<rparr>"

definition demo_node_of :: "uuid \<Rightarrow> int \<Rightarrow> int \<Rightarrow> node_type \<Rightarrow> node" where
  "demo_node_of u cores ram t = \<lparr>nd_uuid = u, nd_name = u, nd_description = [], nd_project_id = ''p'',
     nd_cores = cores, nd_ram = ram, nd_node_type = t, nd_hostname = None,
     nd_disk_spec = DisksSpec [], nd_status = StNew, nd_node_set = None, nd_pool = None,
     nd_target_power_state = PowerOn, nd_power_state = Some PowerOn\<rparr>"

lemmas demo_placement_defs = demo_storage_def demo_machine_pool_def demo_volume_def demo_mvolume_def
  demo_bundle_def demo_node_of_def

text \<open>Placing a volume in a pool takes exactly the capacity it needs: a storage pool with a
  unique name and the requested ephemeral kind is charged the full size of a new volume, or the
  growth of an idle volume with the same image, which then belongs to the node volume and leaves
  the idle list; nothing else of the pool changes and no storage pool is oversubscribed.\<close>

theorem volume_placement_charges_capacity:
  assumes "sdk_ok k" and "storage_ok k pb" and "place_volume_into_pool k v pb = Inr (mv, pb')"
  shows "placed k v pb mv pb' \<and> storage_ok k pb' \<and> same_pool pb pb'"
  using assms place_volume_placed placed_storage_ok placed_same_pool by blast

lemma demo_bundle_ok: "storage_ok thin_sdk demo_bundle"
  by (simp add: storage_ok_def pb_storage_pools_def thin_sdk_def demo_placement_defs)

theorem volume_placement_charges_capacity_witness:
  "storage_ok thin_sdk (snd (projr (place_volume_into_pool thin_sdk (demo_volume ''v'' None 9 (Some ''img'')) demo_bundle)))"
proof -
  have "is_ok (place_volume_into_pool thin_sdk (demo_volume ''v'' None 9 (Some ''img'')) demo_bundle)"
    by code_simp
  then obtain mv pb' where "place_volume_into_pool thin_sdk (demo_volume ''v'' None 9 (Some ''img'')) demo_bundle = Inr (mv, pb')"
    by (auto simp: is_ok_iff)
  with volume_placement_charges_capacity [OF thin_sdk_ok demo_bundle_ok this] show ?thesis by simp
qed

text \<open>A volume with an image reuses an idle volume whenever one fits: the one taken is on the
  requested tier if any fitting one is, and among those of the same kind it is a largest one,
  so that the least capacity is added.\<close>

theorem volume_placement_prefers_closest:
  assumes k: "sdk_ok k" and ok: "storage_ok k pb" and dist: "distinct (map mv_uuid (pb_volumes pb))"
    and img: "vl_image v \<noteq> None" and c: "c \<in> set (pb_volumes pb)" "reusable v pb c" "fits k v pb c"
  shows "\<exists>mv pb'. place_volume_into_pool k v pb = Inr (mv\<lparr>mv_node_volume := Some (vl_uuid v)\<rparr>, pb') \<and>
     mv \<in> set (pb_volumes pb) \<and> reusable v pb mv \<and> fits k v pb mv \<and>
     (exact_match v pb c \<longrightarrow> exact_match v pb mv) \<and>
     (exact_match v pb c = exact_match v pb mv \<longrightarrow> mv_size c \<le> mv_size mv)"
proof -
  let ?vs = "filter (reusable v pb) (pb_volumes pb)"
  let ?key = "\<lambda>mv. vl_size v - mv_size mv"
  let ?exact = "sort_key ?key (filter (exact_match v pb) ?vs)"
  let ?other = "sort_key ?key (filter (\<lambda>mv. mv_uuid mv \<notin> mv_uuid ` set (filter (exact_match v pb) ?vs)) ?vs)"
  have cands: "reuse_candidates v pb = ?exact @ ?other" by (simp add: reuse_candidates_def Let_def)
  have other: "m \<in> set ?other \<longleftrightarrow> m \<in> set ?vs \<and> \<not> exact_match v pb m" for m
    using distinct_key_unique [OF dist] by (auto simp: image_iff)
  then obtain m where m: "find (fits k v pb) (reuse_candidates v pb) = Some m"
    using c cands by (cases "find (fits k v pb) (reuse_candidates v pb)") (auto simp: find_None_iff)
  have "m \<in> set (reuse_candidates v pb)" and fm: "fits k v pb m"
    using m by (auto simp: find_Some_iff)
  then have mem: "m \<in> set (pb_volumes pb)" "reusable v pb m" by (auto simp: reuse_candidates_set)
  have best: "(exact_match v pb c \<longrightarrow> exact_match v pb m) \<and>
      (exact_match v pb c = exact_match v pb m \<longrightarrow> mv_size c \<le> mv_size m)"
  proof (cases "find (fits k v pb) ?exact")
    case None
    have other_m: "find (fits k v pb) ?other = Some m"
      using m None unfolding cands find_append by (simp only: option.case)
    have nc: "\<not> exact_match v pb c" using None c by (auto simp: find_None_iff)
    have "c \<in> set ?other" using c(1,2) nc other by simp
    then have "?key m \<le> ?key c"
      using find_sorted_least [OF other_m, of c] c(3) by (simp only: set_sort)
    then show ?thesis using nc by simp
  next
    case (Some m')
    then have [simp]: "m' = m" using m cands by (simp add: find_append)
    have "exact_match v pb m" using find_Some_mem [OF Some] by simp
    moreover have "mv_size c \<le> mv_size m" if "exact_match v pb c"
      using find_sorted_least [OF Some, of c] c that by simp
    ultimately show ?thesis by simp
  qed
  have cr: "x \<in> set (reuse_candidates v pb) \<Longrightarrow> reusable v pb x" for x
    by (simp add: reuse_candidates_set)
  have "\<exists>pb'. try_candidates k v pb (reuse_candidates v pb) = Inr (m\<lparr>mv_node_volume := Some (vl_uuid v)\<rparr>, pb')"
    using try_candidates_find [OF k ok cr, of "reuse_candidates v pb"] m by simp
  then have "\<exists>pb'. place_volume_into_pool k v pb = Inr (m\<lparr>mv_node_volume := Some (vl_uuid v)\<rparr>, pb')"
    using img by (auto simp add: place_volume_into_pool_def)
  with mem fm best show ?thesis by blast
qed

theorem volume_placement_prefers_closest_witness:
  "\<exists>mv pb'. place_volume_into_pool thin_sdk (demo_volume ''v'' None 9 (Some ''img'')) demo_bundle = Inr (mv, pb')
     \<and> mv_node_volume mv = Some ''v''"
proof -
  let ?v = "demo_volume ''v'' None 9 (Some ''img'')"
  have c: "demo_mvolume ''y'' 2 ''a'' \<in> set (pb_volumes demo_bundle)"
    by (simp add: demo_bundle_def)
  have r: "reusable ?v demo_bundle (demo_mvolume ''y'' 2 ''a'')" by code_simp
  have f: "fits thin_sdk ?v demo_bundle (demo_mvolume ''y'' 2 ''a'')" by code_simp
  have d: "distinct (map mv_uuid (pb_volumes demo_bundle))" by code_simp
  have i: "vl_image ?v \<noteq> None" by code_simp
  show ?thesis
    using volume_placement_prefers_closest [OF thin_sdk_ok demo_bundle_ok d i c r f]
    by (auto simp: demo_volume_def)
qed

text \<open>When one volume of a node cannot be placed, the pool is as it was: the capacities, the idle
  volumes and their owners are put back, whatever the volumes placed before the failure took.\<close>

theorem failed_allocation_restores_pool:
  assumes "sdk_ok k" and "allocate_node_volumes k nb pb = (Inl e, pb')"
  shows "pb' = pb"
  using assms by (rule failed_allocation_restores)

theorem failed_allocation_restores_pool_witness:
  "snd (allocate_node_volumes thin_sdk \<lparr>nb_node = demo_node_of ''n'' 1 1 NodeVM,
     nb_volumes = [demo_volume ''v'' None 6 (Some ''img''), demo_volume ''w'' None 20 None]\<rparr> demo_bundle) = demo_bundle"
    (is "snd (allocate_node_volumes _ ?nb _) = _")
proof -
  have "\<not> is_ok (fst (allocate_node_volumes thin_sdk ?nb demo_bundle))" by code_simp
  then obtain e pb' where "allocate_node_volumes thin_sdk ?nb demo_bundle = (Inl e, pb')"
    by (metis eq_fst_iff is_ok_simps(2) old.sum.exhaust)
  with failed_allocation_restores_pool [OF thin_sdk_ok this] show ?thesis by simp
qed

end
