(* ===== verification/Scheduler.thy ===== *)
theory Scheduler
  imports Placement
begin

text \<open>
  The scheduler of the compute component: the filters of \<open>scheduler/driver/filters\<close>, the
  weighters of \<open>scheduler/driver/weighter/relative.py\<close> and the service of
  \<open>scheduler/service.py\<close>.  The tables of the database are lists of rows in the order a query
  returns them; queries keep at most \<open>def_sql_limit\<close> rows, as the code's limits do, and a save
  succeeds.  The bundles of pools that one iteration fetches are its own copy: the capacities
  it takes are in that copy and are not saved.  \<open>random.choice\<close>, the capabilities of the agents
  and the SDK are parameters.
\<close>

section \<open>State\<close>

record agent =
  ag_uuid :: uuid
  ag_name :: string
  ag_node :: uuid
  ag_status :: status
  ag_capabilities :: "string list"

record sched_state =
  ss_nodes :: "node list"
  ss_volumes :: "volume list"
  ss_machines :: "machine list"
  ss_mvolumes :: "machine_volume list"
  ss_pools :: "machine_pool list"
  ss_allocations :: "(uuid \<times> uuid) list"
  ss_agents :: "agent list"

definition def_sql_limit :: nat where
  "def_sql_limit = 300"

definition save_node :: "node \<Rightarrow> sched_state \<Rightarrow> sched_state" where
  "save_node n st = st\<lparr>ss_nodes := save_row nd_uuid n (ss_nodes st)\<rparr>"

definition save_machine :: "machine \<Rightarrow> sched_state \<Rightarrow> sched_state" where
  "save_machine m st = st\<lparr>ss_machines := save_row mc_uuid m (ss_machines st)\<rparr>"

definition save_mvolume :: "machine_volume \<Rightarrow> sched_state \<Rightarrow> sched_state" where
  "save_mvolume v st = st\<lparr>ss_mvolumes := save_row mv_uuid v (ss_mvolumes st)\<rparr>"

definition save_volume :: "volume \<Rightarrow> sched_state \<Rightarrow> sched_state" where
  "save_volume v st = st\<lparr>ss_volumes := save_row vl_uuid v (ss_volumes st)\<rparr>"

definition save_pool :: "machine_pool \<Rightarrow> sched_state \<Rightarrow> sched_state" where
  "save_pool p st = st\<lparr>ss_pools := save_row mp_uuid p (ss_pools st)\<rparr>"

section \<open>Filters\<close>

definition cores_ram_filter :: "sched_state \<Rightarrow> node_bundle \<Rightarrow> pool_bundle list \<Rightarrow> pool_bundle list" where
  "cores_ram_filter st nb pools =
     filter (\<lambda>p. mp_avail_cores (pb_pool p) \<ge> nd_cores (nb_node nb) \<and>
                 mp_avail_ram (pb_pool p) \<ge> nd_ram (nb_node nb)) pools"

definition hw_cores_ram_filter :: "node_bundle \<Rightarrow> machine_bundle list \<Rightarrow> machine_bundle list" where
  "hw_cores_ram_filter nb machines =
     filter (\<lambda>m. mc_cores (mb_machine m) \<ge> nd_cores (nb_node nb) \<and>
                 mc_ram (mb_machine m) \<ge> nd_ram (nb_node nb)) machines"

text \<open>The pools that hold a machine of another node of one of the node's placement policies.\<close>

definition policy_pools :: "sched_state \<Rightarrow> uuid \<Rightarrow> uuid option list" where
  "policy_pools st n =
     (let policies = map snd (filter (\<lambda>(x, p). x = n) (ss_allocations st));
          others = map fst (filter (\<lambda>(x, p). p \<in> set policies \<and> x \<noteq> n) (ss_allocations st)) in
      map mc_pool (filter (\<lambda>m. mc_node m \<in> Some ` set others) (ss_machines st)))"

definition anti_affinity_filter :: "sched_state \<Rightarrow> node_bundle \<Rightarrow> pool_bundle list \<Rightarrow> pool_bundle list" where
  "anti_affinity_filter st nb pools =
     (let n = nd_uuid (nb_node nb) in
      if filter (\<lambda>(x, p). x = n) (ss_allocations st) = [] then pools
      else
        let avail = filter (\<lambda>p. Some (pb_uuid p) \<notin> set (policy_pools st n)) pools in
        if avail = [] then pools else avail)"

section \<open>Weighters\<close>

definition almost_overused_threshold :: rat where
  "almost_overused_threshold = 4 / 5"

definition usage_ratio :: "machine_pool \<Rightarrow> rat" where
  "usage_ratio p =
     (if mp_avail_cores p < 0 \<or> mp_avail_ram p < 0 then 1
      else if mp_all_cores p = 0 \<or> mp_all_ram p = 0 then 1
      else
        let r1 = (of_int (mp_all_cores p) - of_int (mp_avail_cores p)) / of_int (mp_all_cores p);
            r2 = (of_int (mp_all_ram p) - of_int (mp_avail_ram p)) / of_int (mp_all_ram p) in
        if r1 > almost_overused_threshold \<or> r2 > almost_overused_threshold then max r1 r2
        else (r1 + r2) / 2)"

definition relative_weight :: "pool_bundle list \<Rightarrow> sched_error + rat list" where
  "relative_weight pools =
     (let usages = map (\<lambda>p. usage_ratio (pb_pool p)) pools in
      if sum_list usages = 0 then Inr (map (\<lambda>_. 1 / of_nat (length pools)) pools)
      else Inr (map (\<lambda>u. 1 - u / sum_list usages) usages))"

definition machine_ratio :: "machine \<Rightarrow> rat" where
  "machine_ratio m = of_int (mc_cores m * 8192 + mc_ram m)"

definition simple_machine_weight :: "machine_bundle list \<Rightarrow> sched_error + rat list" where
  "simple_machine_weight machines =
     (if machines = [] then Inr []
      else
        let ratios = map (\<lambda>m. machine_ratio (mb_machine m)) machines in
        if sum_list ratios = 0 then Inl ZeroDivisionError
        else Inr (map (\<lambda>r. 1 - r / sum_list ratios) ratios))"

text \<open>The weights of all weighters are added up.\<close>

definition accumulate :: "('b list \<Rightarrow> sched_error + rat list) list \<Rightarrow> 'b list \<Rightarrow> sched_error + rat list" where
  "accumulate weighters xs =
     efold (\<lambda>weigh acc. ebind (weigh xs) (\<lambda>ws. Inr (map2 (+) acc ws))) weighters
       (replicate (length xs) 0)"

definition index_of_max :: "rat list \<Rightarrow> sched_error + nat" where
  "index_of_max ws = (if ws = [] then Inl ValueError
     else Inr (length (takeWhile (\<lambda>w. w \<noteq> Max (set ws)) ws)))"

definition rank_pools :: "rat list \<Rightarrow> pool_bundle list \<Rightarrow> (rat \<times> pool_bundle) list" where
  "rank_pools ws pools = sort_key (\<lambda>(w, _). - w) (zip ws pools)"

record sched_config =
  sc_pool_filters :: "(sched_state \<Rightarrow> node_bundle \<Rightarrow> pool_bundle list \<Rightarrow> pool_bundle list) list"
  sc_pool_weighters :: "(pool_bundle list \<Rightarrow> sched_error + rat list) list"
  sc_machine_filters :: "(node_bundle \<Rightarrow> machine_bundle list \<Rightarrow> machine_bundle list) list"
  sc_machine_weighters :: "(machine_bundle list \<Rightarrow> sched_error + rat list) list"

text \<open>The configuration of the general service (\<open>gservice/service.py\<close>).\<close>

definition core_config :: sched_config where
  "core_config = \<lparr>sc_pool_filters = [cores_ram_filter, anti_affinity_filter],
     sc_pool_weighters = [relative_weight],
     sc_machine_filters = [hw_cores_ram_filter],
     sc_machine_weighters = [simple_machine_weight]\<rparr>"

section \<open>Queries\<close>

definition get_pool_builders :: "sched_state \<Rightarrow> agent list" where
  "get_pool_builders st = take def_sql_limit (filter (\<lambda>a. ag_status a = StActive \<and>
     starts_with (ag_name a) ''compute_pool_builder'') (ss_agents st))"

definition get_machines_for_nodes :: "uuid list \<Rightarrow> sched_state \<Rightarrow> machine list" where
  "get_machines_for_nodes nodes st = filter (\<lambda>m. mc_node m \<in> Some ` set nodes) (ss_machines st)"

text \<open>The view \<open>unscheduled_nodes\<close>: nodes without a machine; and \<open>_get_unscheduled_nodes\<close>.\<close>

definition get_unscheduled_nodes :: "sched_state \<Rightarrow> node_bundle list" where
  "get_unscheduled_nodes st =
     map (\<lambda>n. \<lparr>nb_node = n, nb_volumes = filter (\<lambda>v. vl_node v = Some (nd_uuid n)) (ss_volumes st)\<rparr>)
       (take def_sql_limit (filter (\<lambda>n. Some (nd_uuid n) \<notin> mc_node ` set (ss_machines st)) (ss_nodes st)))"

text \<open>The view \<open>compute_unscheduled_volumes\<close>: volumes without a machine volume.\<close>

definition get_unscheduled_volumes :: "sched_state \<Rightarrow> volume list" where
  "get_unscheduled_volumes st = take def_sql_limit
     (filter (\<lambda>v. Some (vl_uuid v) \<notin> mv_node_volume ` set (ss_mvolumes st)) (ss_volumes st))"

definition get_idle_machines :: "sched_state \<Rightarrow> machine_bundle list" where
  "get_idle_machines st =
     map (\<lambda>m. \<lparr>mb_machine = m, mb_volumes = filter (\<lambda>v. mv_machine v = Some (mc_uuid m)) (ss_mvolumes st)\<rparr>)
       (take def_sql_limit (filter (\<lambda>m. mc_node m = None \<and> mc_status m = StIdle) (ss_machines st)))"

definition get_unscheduled_pools :: "sched_state \<Rightarrow> machine_pool list" where
  "get_unscheduled_pools st = take def_sql_limit (filter (\<lambda>p. mp_builder p = None) (ss_pools st))"

definition get_pools :: "sched_state \<Rightarrow> pool_bundle list" where
  "get_pools st =
     map (\<lambda>p. \<lparr>pb_pool = p, pb_volumes = filter (\<lambda>v. mv_pool v = Some (mp_uuid p) \<and>
            mv_machine v = None \<and> mv_node_volume v = None) (ss_mvolumes st)\<rparr>)
       (take def_sql_limit (filter (\<lambda>p. mp_status p = StActive \<and> mp_machine_type p = NodeVM \<and>
            mp_builder p \<noteq> None) (ss_pools st)))"

definition find_pool :: "pool_bundle list \<Rightarrow> uuid option \<Rightarrow> pool_bundle option" where
  "find_pool pools u = find (\<lambda>p. Some (pb_uuid p) = u) pools"

section \<open>Nodes on existing machines\<close>

text \<open>The trial runs on a deep copy of the bundle, so only its outcome remains; a \<open>ValueError\<close> is a
  refusal, any other exception leaves the method.\<close>

definition is_value_error :: "sched_error \<Rightarrow> bool" where
  "is_value_error e = (case e of NoStoragePool \<Rightarrow> True | UnknownStoragePool _ \<Rightarrow> True
     | AmbiguousStoragePool _ \<Rightarrow> True | ValueError \<Rightarrow> True | _ \<Rightarrow> False)"

definition machine_has_disk_capacity :: "sdk \<Rightarrow> node_bundle \<Rightarrow> pool_bundle list \<Rightarrow> machine_bundle \<Rightarrow> sched_error + bool" where
  "machine_has_disk_capacity k nb pools mb =
     (if nb_volumes nb = [] then Inr True
      else case find_pool pools (mc_pool (mb_machine mb)) of
        None \<Rightarrow> Inr False
      | Some pb \<Rightarrow>
          (case fst (allocate_node_volumes k nb pb) of
             Inl e \<Rightarrow> if is_value_error e then Inr False else Inl e
           | Inr _ \<Rightarrow> Inr True))"

record existing_loop =
  el_hws :: "machine_bundle list"
  el_vms :: "machine_bundle list"
  el_unscheduled :: "node_bundle list"
  el_state :: sched_state

definition no_machine_description :: string where
  "no_machine_description = ''No suitable HW machines found''"

definition mb_uuid :: "machine_bundle \<Rightarrow> uuid" where
  "mb_uuid mb = mc_uuid (mb_machine mb)"

text \<open>The machine that a node takes, and the loop state after it.\<close>

definition assign_machine :: "node \<Rightarrow> machine_bundle \<Rightarrow> existing_loop \<Rightarrow> existing_loop" where
  "assign_machine n mb el =
     (let m = (mb_machine mb)\<lparr>mc_node := Some (nd_uuid n), mc_status := StScheduled,
                mc_target_power_state := nd_target_power_state n\<rparr>;
          st = save_machine m (save_node (n\<lparr>nd_status := StScheduled\<rparr>) (el_state el)) in
      if nd_node_type n = NodeHW
      then el\<lparr>el_hws := remove_by mb_uuid (mb_uuid mb) (el_hws el), el_state := st\<rparr>
      else el\<lparr>el_vms := remove_by mb_uuid (mb_uuid mb) (el_vms el), el_state := st\<rparr>)"

definition existing_step :: "sched_config \<Rightarrow> sdk \<Rightarrow> pool_bundle list \<Rightarrow> node_bundle \<Rightarrow> existing_loop \<Rightarrow> sched_error + existing_loop" where
  "existing_step cfg k pools nb el =
     (let n = nb_node nb;
          idle = (if nd_node_type n = NodeHW then el_hws el else el_vms el);
          filtered = fold (\<lambda>flt ms. flt nb ms) (sc_machine_filters cfg) idle in
      ebind (efilter (machine_has_disk_capacity k nb pools) filtered) (\<lambda>ms.
      if ms = [] \<and> nd_node_type n = NodeHW then
        Inr (if nd_status n \<noteq> StError
             then el\<lparr>el_state := save_node (n\<lparr>nd_status := StError,
                        nd_description := no_machine_description\<rparr>) (el_state el)\<rparr>
             else el)
      else if ms = [] \<and> nd_node_type n = NodeVM then
        Inr (el\<lparr>el_unscheduled := el_unscheduled el @ [nb]\<rparr>)
      else
        ebind (accumulate (sc_machine_weighters cfg) ms) (\<lambda>ws.
        ebind (index_of_max ws) (\<lambda>i. Inr (assign_machine n (ms ! i) el)))))"

definition schedule_on_existing_machines ::
  "sched_config \<Rightarrow> sdk \<Rightarrow> pool_bundle list \<Rightarrow> sched_state \<Rightarrow> (sched_error + node_bundle list) \<times> sched_state" where
  "schedule_on_existing_machines cfg k pools st =
     (let idle = get_idle_machines st;
          el0 = \<lparr>el_hws = filter (\<lambda>m. mc_machine_type (mb_machine m) = NodeHW) idle,
                 el_vms = filter (\<lambda>m. mc_machine_type (mb_machine m) = NodeVM) idle,
                 el_unscheduled = [], el_state = st\<rparr>;
          (r, el) = erun (existing_step cfg k pools) (get_unscheduled_nodes st) el0 in
      ((case r of None \<Rightarrow> Inr (el_unscheduled el) | Some e \<Rightarrow> Inl e), el_state el))"

section \<open>Nodes on pools\<close>

definition new_machine :: "node \<Rightarrow> uuid \<Rightarrow> machine" where
  "new_machine n pool = \<lparr>mc_uuid = nd_uuid n, mc_name = nd_name n, mc_description = [],
     mc_project_id = nd_project_id n, mc_cores = nd_cores n, mc_ram = nd_ram n,
     mc_status = StScheduled, mc_machine_type = NodeVM, mc_node = Some (nd_uuid n),
     mc_pool = Some pool, mc_boot = BootNetwork, mc_image = None,
     mc_firmware_uuid = Some (nd_uuid n), mc_target_power_state = nd_target_power_state n,
     mc_power_state = Some PowerOn\<rparr>"

text \<open>\<open>_place_node_into_pool\<close>, with the bundle it leaves.\<close>

definition charge_pool :: "node \<Rightarrow> pool_bundle \<Rightarrow> pool_bundle" where
  "charge_pool n pb = pb\<lparr>pb_pool := (pb_pool pb)\<lparr>mp_avail_cores := mp_avail_cores (pb_pool pb) - nd_cores n,
     mp_avail_ram := mp_avail_ram (pb_pool pb) - nd_ram n\<rparr>\<rparr>"

definition place_node_into_pool ::
  "sdk \<Rightarrow> node_bundle \<Rightarrow> pool_bundle \<Rightarrow> sched_state \<Rightarrow> (sched_error + unit) \<times> pool_bundle \<times> sched_state" where
  "place_node_into_pool k nb pb st =
     (let n = nb_node nb in
      case allocate_node_volumes k nb pb of
        (Inl e, pb') \<Rightarrow> (Inl e, pb', st)
      | (Inr mvs, pb') \<Rightarrow>
          let u = pb_uuid pb;
              st1 = save_machine (new_machine n u) (save_node (n\<lparr>nd_pool := Some u\<rparr>) st);
              st2 = fold (\<lambda>mv. save_mvolume (mv\<lparr>mv_pool := Some u, mv_machine := Some (nd_uuid n)\<rparr>)) mvs st1
          in (Inr (), charge_pool n pb', st2))"

text \<open>The eligible pools are tried in the order of their weights.\<close>

fun try_pools :: "sdk \<Rightarrow> node_bundle \<Rightarrow> pool_bundle list \<Rightarrow> pool_bundle list \<times> sched_state \<Rightarrow> pool_bundle list \<times> sched_state" where
  "try_pools k nb [] (pools, st) = (pools, st)"
| "try_pools k nb (pb # rest) (pools, st) =
     (case place_node_into_pool k nb pb st of
        (Inr _, pb', st') \<Rightarrow> (put_by pb_uuid pb' pools, st')
      | (Inl _, pb', st') \<Rightarrow> try_pools k nb rest (put_by pb_uuid pb' pools, st'))"

definition pools_step ::
  "sched_config \<Rightarrow> sdk \<Rightarrow> node_bundle \<Rightarrow> pool_bundle list \<times> sched_state \<Rightarrow> sched_error + pool_bundle list \<times> sched_state" where
  "pools_step cfg k nb ps =
     (let (pools, st) = ps;
          eligible = fold (\<lambda>flt ps. flt st nb ps) (sc_pool_filters cfg) pools in
      if eligible = [] then Inr (pools, st)
      else ebind (accumulate (sc_pool_weighters cfg) eligible) (\<lambda>ws.
        Inr (try_pools k nb (map snd (rank_pools ws eligible)) (pools, st))))"

definition schedule_on_pools ::
  "sched_config \<Rightarrow> sdk \<Rightarrow> node_bundle list \<Rightarrow> pool_bundle list \<Rightarrow> sched_state
     \<Rightarrow> sched_error option \<times> pool_bundle list \<times> sched_state" where
  "schedule_on_pools cfg k nodes pools st =
     (if nodes = [] then (None, pools, st)
      else if pools = [] then (None, pools, st)
      else erun (pools_step cfg k) nodes (pools, st))"

section \<open>Machine pools on agents\<close>

definition machine_pool_cap :: string where
  "machine_pool_cap = ''pool''"

definition local_hyper_kind :: string where
  "local_hyper_kind = ''exordos_local_hyper''"

definition available_agents :: "agent list \<Rightarrow> machine_pool \<Rightarrow> agent list" where
  "available_agents agents p =
     (if mp_kind p = local_hyper_kind
      then filter (\<lambda>a. Some (ag_node a) = mp_spec_node p) agents
      else filter (\<lambda>a. ''local_pool'' \<notin> set (ag_capabilities a)) agents)"

text \<open>\<open>random.choice\<close>: the random numbers are an argument, one for each choice.\<close>

definition choice :: "nat \<Rightarrow> 'a list \<Rightarrow> 'a" where
  "choice r xs = xs ! (r mod length xs)"

definition schedule_pool_step ::
  "(uuid \<Rightarrow> nat \<times> nat) \<Rightarrow> agent list \<Rightarrow> (string, agent list) dict \<Rightarrow> machine_pool \<Rightarrow> sched_state \<Rightarrow> sched_error + sched_state" where
  "schedule_pool_step rnd builders machine_agents p st =
     (let builder = choice (fst (rnd (mp_uuid p))) builders in
      case dget machine_agents machine_pool_cap of
        None \<Rightarrow> Inl KeyError
      | Some agents \<Rightarrow>
          if available_agents agents p = [] then Inr st
          else
            let ag = choice (snd (rnd (mp_uuid p))) (available_agents agents p) in
            Inr (save_pool (p\<lparr>mp_builder := Some (ag_uuid builder), mp_agent := Some (ag_uuid ag)\<rparr>) st))"

definition schedule_pools ::
  "(uuid \<Rightarrow> nat \<times> nat) \<Rightarrow> (string, agent list) dict \<Rightarrow> agent list \<Rightarrow> sched_state \<Rightarrow> sched_error option \<times> sched_state" where
  "schedule_pools rnd machine_agents builders st =
     (if get_unscheduled_pools st = [] then (None, st)
      else if builders = [] then (None, st)
      else if machine_agents = [] then (None, st)
      else erun (schedule_pool_step rnd builders machine_agents) (get_unscheduled_pools st) st)"

section \<open>Volumes on pools\<close>

text \<open>
  One round of the loop of \<open>_schedule_volume_on_pools\<close>.  The handler of a failed placement reads
  \<open>pool.uuid\<close> to log it, but \<open>pool\<close> is a bundle, which has no such attribute: the
  \<open>AttributeError\<close> leaves the loop.
\<close>

definition volume_step :: "sdk \<Rightarrow> machine list \<Rightarrow> volume \<Rightarrow> pool_bundle list \<times> sched_state \<Rightarrow> sched_error + pool_bundle list \<times> sched_state" where
  "volume_step k machines v ps =
     (let (pools, st) = ps in
      case vl_node v of
        None \<Rightarrow> Inr (pools, st)
      | Some n \<Rightarrow>
          (case find (\<lambda>m. mc_node m = Some n) (rev machines) of
             None \<Rightarrow> Inr (pools, st)
           | Some m \<Rightarrow>
               (case find_pool pools (mc_pool m) of
                  None \<Rightarrow> Inr (pools, st)
                | Some pb \<Rightarrow>
                    (case place_volume_into_pool k v pb of
                       Inl e \<Rightarrow> Inl AttributeError
                     | Inr (mv, pb') \<Rightarrow>
                         let mv' = mv\<lparr>mv_pool := Some (pb_uuid pb), mv_machine := Some (mc_uuid m)\<rparr> in
                         Inr (put_by pb_uuid pb' pools,
                              save_volume (v\<lparr>vl_pool := Some (pb_uuid pb)\<rparr>) (save_mvolume mv' st))))))"

definition schedule_volume_on_pools ::
  "sdk \<Rightarrow> pool_bundle list \<Rightarrow> sched_state \<Rightarrow> sched_error option \<times> pool_bundle list \<times> sched_state" where
  "schedule_volume_on_pools k pools st =
     (let unscheduled = get_unscheduled_volumes st in
      if unscheduled = [] \<or> pools = [] then (None, pools, st)
      else
        let nodes = List.map_filter vl_node unscheduled;
            machines = get_machines_for_nodes nodes st in
        erun (volume_step k machines) unscheduled (pools, st))"

section \<open>One iteration\<close>

definition sched_iteration ::
  "sched_config \<Rightarrow> sdk \<Rightarrow> (uuid \<Rightarrow> nat \<times> nat) \<Rightarrow> (string, agent list) dict \<Rightarrow> sched_state \<Rightarrow> sched_state" where
  "sched_iteration cfg k rnd machine_agents st =
     (let builders = get_pool_builders st;
          pools = get_pools st in
      if builders = [] then st
      else
        let st1 = snd (schedule_pools rnd machine_agents builders st);
            (r, st2) = schedule_on_existing_machines cfg k pools st1;
            nodes = (case r of Inl _ \<Rightarrow> [] | Inr ns \<Rightarrow> ns);
            (_, pools3, st3) = schedule_on_pools cfg k nodes pools st2;
            (_, _, st4) = schedule_volume_on_pools k pools3 st3
        in st4)"

section \<open>Lemmas: filters and weights\<close>

lemma cores_ram_filter_subset: "set (cores_ram_filter st nb ps) \<subseteq> set ps"
  by (auto simp: cores_ram_filter_def)

lemma hw_cores_ram_filter_subset: "set (hw_cores_ram_filter nb ms) \<subseteq> set ms"
  by (auto simp: hw_cores_ram_filter_def)

lemma anti_affinity_filter_subset: "set (anti_affinity_filter st nb ps) \<subseteq> set ps"
  by (auto simp: anti_affinity_filter_def Let_def)

lemma relative_weight_length: "relative_weight ps = Inr ws \<Longrightarrow> length ws = length ps"
  by (auto simp: relative_weight_def Let_def split: if_splits)

lemma simple_machine_weight_length: "simple_machine_weight ms = Inr ws \<Longrightarrow> length ws = length ms"
  by (auto simp: simple_machine_weight_def Let_def split: if_splits)

lemma usage_ratio_bounds:
  assumes "mp_avail_cores p \<le> mp_all_cores p" and "mp_avail_ram p \<le> mp_all_ram p"
  shows "0 \<le> usage_ratio p \<and> usage_ratio p \<le> 1"
proof (cases "mp_avail_cores p < 0 \<or> mp_avail_ram p < 0 \<or> mp_all_cores p = 0 \<or> mp_all_ram p = 0")
  case True
  then show ?thesis by (auto simp: usage_ratio_def)
next
  case False
  let ?r1 = "(of_int (mp_all_cores p) - of_int (mp_avail_cores p)) / of_int (mp_all_cores p) :: rat"
  let ?r2 = "(of_int (mp_all_ram p) - of_int (mp_avail_ram p)) / of_int (mp_all_ram p) :: rat"
  have pos: "0 < mp_all_cores p" "0 < mp_all_ram p" using False assms by linarith+
  then have "0 \<le> ?r1 \<and> ?r1 \<le> 1" "0 \<le> ?r2 \<and> ?r2 \<le> 1"
    using False assms by (simp_all add: divide_le_eq_1)
  moreover have "usage_ratio p = max ?r1 ?r2 \<or> usage_ratio p = (?r1 + ?r2) / 2"
    using False by (simp add: usage_ratio_def Let_def)
  ultimately show ?thesis by (auto simp: max_def)
qed

lemma sum_list_member_le:
  "x \<in> set xs \<Longrightarrow> (\<And>y. y \<in> set xs \<Longrightarrow> (0 :: rat) \<le> y) \<Longrightarrow> x \<le> sum_list xs"
proof (induction xs)
  case (Cons a xs)
  then have "0 \<le> sum_list xs" by (intro sum_list_nonneg) simp
  with Cons show ?case by (auto simp: add_increasing add_increasing2)
qed simp

lemma relative_weight_nth:
  assumes "relative_weight ps = Inr ws" and "i < length ps"
  shows "ws ! i = (let us = map (\<lambda>p. usage_ratio (pb_pool p)) ps in
     if sum_list us = 0 then 1 / of_nat (length ps) else 1 - us ! i / sum_list us)"
  using assms by (auto simp: relative_weight_def Let_def split: if_splits)

lemma fold_subset:
  "(\<And>f ys. f \<in> set fs \<Longrightarrow> set (g f ys) \<subseteq> set ys) \<Longrightarrow> set (fold g fs xs) \<subseteq> set xs"
proof (induction fs arbitrary: xs)
  case (Cons f fs)
  have "set (fold g fs (g f xs)) \<subseteq> set (g f xs)" using Cons.IH Cons.prems by simp
  also have "set (g f xs) \<subseteq> set xs" using Cons.prems by simp
  finally show ?case by simp
qed simp

section \<open>The contract of a configuration\<close>

text \<open>
  The service relies on its filters and weighters: a filter selects among what it is given, a
  weighter gives one weight to each.  The lemmas hold for every configuration of that kind.
\<close>

locale scheduler_config =
  fixes cfg :: sched_config
  assumes pool_filter_subset: "f \<in> set (sc_pool_filters cfg) \<Longrightarrow> set (f st nb ps) \<subseteq> set ps"
    and machine_filter_subset: "g \<in> set (sc_machine_filters cfg) \<Longrightarrow> set (g nb ms) \<subseteq> set ms"
    and pool_weight_length: "w \<in> set (sc_pool_weighters cfg) \<Longrightarrow> w ps = Inr ws \<Longrightarrow> length ws = length ps"
    and machine_weight_length: "v \<in> set (sc_machine_weighters cfg) \<Longrightarrow> v ms = Inr ws \<Longrightarrow> length ws = length ms"
begin

lemma eligible_subset: "set (fold (\<lambda>flt ps. flt st nb ps) (sc_pool_filters cfg) ps) \<subseteq> set ps"
  using pool_filter_subset by (intro fold_subset) blast

lemma suitable_subset: "set (fold (\<lambda>flt ms. flt nb ms) (sc_machine_filters cfg) ms) \<subseteq> set ms"
  using machine_filter_subset by (intro fold_subset) blast

lemma accumulate_length:
  assumes "accumulate ws xs = Inr acc" and "\<And>w r. w \<in> set ws \<Longrightarrow> w xs = Inr r \<Longrightarrow> length r = length xs"
  shows "length acc = length xs"
proof -
  have "length acc = length xs" if "efold (\<lambda>weigh acc. ebind (weigh xs) (\<lambda>ws. Inr (map2 (+) acc ws))) ws z = Inr acc"
    "length z = length xs" for z
    using that(1)
    by (rule efold_invariant [where I = "\<lambda>a. length a = length xs"])
      (use that(2) assms(2) in \<open>auto simp: ebind_Inr_iff\<close>)
  then show ?thesis using assms(1) by (simp add: accumulate_def)
qed

lemma machine_weights_length: "accumulate (sc_machine_weighters cfg) ms = Inr ws \<Longrightarrow> length ws = length ms"
  using accumulate_length machine_weight_length by blast

lemma pool_weights_length: "accumulate (sc_pool_weighters cfg) ps = Inr ws \<Longrightarrow> length ws = length ps"
  using accumulate_length pool_weight_length by blast

lemma ranked_set:
  "accumulate (sc_pool_weighters cfg) ps = Inr ws \<Longrightarrow> set (map snd (rank_pools ws ps)) = set ps"
  using pool_weights_length [of ps ws] set_zip_rightD
  by (auto simp: rank_pools_def set_zip in_set_conv_nth image_iff)

end

text \<open>The configuration of the general service meets the contract.\<close>

interpretation core: scheduler_config core_config
  by unfold_locales (auto simp: core_config_def relative_weight_length simple_machine_weight_length
    dest!: subsetD [OF cores_ram_filter_subset] subsetD [OF anti_affinity_filter_subset]
      subsetD [OF hw_cores_ram_filter_subset])

lemma index_of_max_bound: "index_of_max ws = Inr i \<Longrightarrow> i < length ws \<and> ws ! i = Max (set ws)"
proof -
  assume a: "index_of_max ws = Inr i"
  then have ne: "ws \<noteq> []" and i: "i = length (takeWhile (\<lambda>w. w \<noteq> Max (set ws)) ws)"
    by (auto simp: index_of_max_def split: if_splits)
  have "Max (set ws) \<in> set ws" using ne by (intro Max_in) auto
  then have l: "length (takeWhile (\<lambda>w. w \<noteq> Max (set ws)) ws) < length ws"
    by (metis (mono_tags, lifting) length_takeWhile_le nat_less_le takeWhile_eq_all_conv takeWhile_eq_take take_all_iff less_or_eq_imp_le)
  then have "\<not> (ws ! i \<noteq> Max (set ws))"
    unfolding i by (rule nth_length_takeWhile)
  with l i show ?thesis by simp
qed

section \<open>Lemmas: placing a node\<close>

definition can_hold :: "sdk \<Rightarrow> node_bundle \<Rightarrow> pool_bundle \<Rightarrow> bool" where
  "can_hold k nb pb \<longleftrightarrow> is_ok (fst (allocate_node_volumes k nb pb))"

lemma allocate_node_volumes_same:
  assumes "sdk_ok k" and "allocate_node_volumes k nb pb = (Inr mvs, pb')"
  shows "same_pool pb pb' \<and> (storage_ok k pb \<longrightarrow> storage_ok k pb')"
proof -
  have "place_volumes k (nb_volumes nb) pb = (Inr mvs, pb')"
    using assms(2) by (auto simp: allocate_node_volumes_def Let_def split: prod.splits sum.splits)
  then show ?thesis
    using place_volumes_same_pool place_volumes_storage_ok assms(1) by blast
qed

lemma place_node_refused:
  assumes "sdk_ok k" and "\<not> can_hold k nb pb"
  shows "\<exists>e. place_node_into_pool k nb pb st = (Inl e, pb, st)"
proof -
  obtain r pb' where r: "allocate_node_volumes k nb pb = (r, pb')" by fastforce
  then obtain e where "r = Inl e" using assms(2) by (cases r) (auto simp: can_hold_def)
  with r failed_allocation_restores [OF assms(1)] show ?thesis
    by (auto simp: place_node_into_pool_def Let_def)
qed

lemma place_node_accepted:
  assumes "can_hold k nb pb"
  shows "\<exists>mvs pb'. allocate_node_volumes k nb pb = (Inr mvs, pb')"
  using assms by (cases "allocate_node_volumes k nb pb") (auto simp: can_hold_def is_ok_iff)

lemma try_pools_find:
  assumes "sdk_ok k" and "distinct (map pb_uuid pools)" and "set ps \<subseteq> set pools"
  shows "try_pools k nb ps (pools, st) =
     (case find (can_hold k nb) ps of None \<Rightarrow> (pools, st)
      | Some pb \<Rightarrow> (let (_, pb', st') = place_node_into_pool k nb pb st in (put_by pb_uuid pb' pools, st')))"
  using assms(3)
proof (induction ps)
  case (Cons pb ps)
  show ?case
  proof (cases "can_hold k nb pb")
    case True
    then obtain mvs pb' where "allocate_node_volumes k nb pb = (Inr mvs, pb')"
      using place_node_accepted by blast
    with True show ?thesis by (simp add: place_node_into_pool_def Let_def)
  next
    case False
    then obtain e where e: "place_node_into_pool k nb pb st = (Inl e, pb, st)"
      using place_node_refused assms(1) by blast
    have "put_by pb_uuid pb pools = pools"
      using distinct_key_unique [OF assms(2)] Cons.prems by (intro put_by_same) auto
    with e False Cons show ?thesis by simp
  qed
qed simp

lemma find_map_snd: "find P (map snd xs) = map_option snd (find (\<lambda>x. P (snd x)) xs)"
  by (induction xs) auto

context scheduler_config
begin

lemma pools_step_best:
  assumes k: "sdk_ok k" and d: "distinct (map pb_uuid pools)"
    and el: "eligible = fold (\<lambda>flt ps. flt st nb ps) (sc_pool_filters cfg) pools"
    and ws: "accumulate (sc_pool_weighters cfg) eligible = Inr ws"
    and p: "p \<in> set eligible" "can_hold k nb p"
  shows "\<exists>i < length eligible. can_hold k nb (eligible ! i) \<and>
     (\<forall>j < length eligible. can_hold k nb (eligible ! j) \<longrightarrow> ws ! j \<le> ws ! i) \<and>
     pools_step cfg k nb (pools, st) =
       Inr (let (_, pb', st') = place_node_into_pool k nb (eligible ! i) st in (put_by pb_uuid pb' pools, st'))"
proof -
  let ?rank = "rank_pools ws eligible"
  have len: "length ws = length eligible" using ws by (rule pool_weights_length)
  have sub: "set (map snd ?rank) \<subseteq> set pools"
    unfolding ranked_set [OF ws] using eligible_subset el by simp
  have "p \<in> set (map snd ?rank)" using p(1) ranked_set [OF ws] by simp
  then obtain x where x: "find (can_hold k nb) (map snd ?rank) = Some x"
    using p(2) by (cases "find (can_hold k nb) (map snd ?rank)") (auto simp: find_None_iff)
  then obtain w where w: "find (\<lambda>y. can_hold k nb (snd y)) ?rank = Some (w, x)"
    by (auto simp: find_map_snd)
  then have wx: "(w, x) \<in> set (zip ws eligible)" "can_hold k nb x"
    using find_Some_mem [OF w] by (auto simp: rank_pools_def)
  then obtain i where i: "i < length eligible" "eligible ! i = x" "ws ! i = w"
    using len by (auto simp: set_zip)
  have "ws ! j \<le> ws ! i" if "j < length eligible" "can_hold k nb (eligible ! j)" for j
  proof -
    have "(ws ! j, eligible ! j) \<in> set (zip ws eligible)" using that(1) len by (auto simp: set_zip)
    from find_sorted_least [OF w [unfolded rank_pools_def] this] that(2) i show ?thesis by simp
  qed
  moreover have "pools_step cfg k nb (pools, st) =
      Inr (let (_, pb', st') = place_node_into_pool k nb x st in (put_by pb_uuid pb' pools, st'))"
    using p(1) ws try_pools_find [OF k d sub, of nb st] x
    by (auto simp: pools_step_def el [symmetric])
  ultimately show ?thesis using i wx(2) by auto
qed

end

section \<open>Lemmas: capacity accounting\<close>

definition pool_ok :: "sdk \<Rightarrow> pool_bundle \<Rightarrow> bool" where
  "pool_ok k pb \<longleftrightarrow> 0 \<le> mp_avail_cores (pb_pool pb) \<and> 0 \<le> mp_avail_ram (pb_pool pb) \<and> storage_ok k pb"

definition used_cores :: "sched_state \<Rightarrow> uuid \<Rightarrow> int" where
  "used_cores st u = sum_list (map mc_cores (filter (\<lambda>m. mc_pool m = Some u) (ss_machines st)))"

definition used_ram :: "sched_state \<Rightarrow> uuid \<Rightarrow> int" where
  "used_ram st u = sum_list (map mc_ram (filter (\<lambda>m. mc_pool m = Some u) (ss_machines st)))"

text \<open>The total of a pool as the bundles and the machines account for it.\<close>

definition pool_total :: "sched_state \<Rightarrow> pool_bundle \<Rightarrow> uuid \<times> int \<times> int" where
  "pool_total st pb = (pb_uuid pb,
     mp_avail_cores (pb_pool pb) + used_cores st (pb_uuid pb),
     mp_avail_ram (pb_pool pb) + used_ram st (pb_uuid pb))"

lemma same_pool_avail:
  assumes "same_pool a b"
  shows "mp_avail_cores (pb_pool b) = mp_avail_cores (pb_pool a) \<and> mp_avail_ram (pb_pool b) = mp_avail_ram (pb_pool a)"
proof -
  have "(pb_pool b)\<lparr>mp_storage_pools := []\<rparr> = (pb_pool a)\<lparr>mp_storage_pools := []\<rparr>"
    using assms by (simp add: same_pool_def)
  then show ?thesis by (cases "pb_pool a"; cases "pb_pool b") simp
qed

lemma ss_machines_save_mvolumes [simp]:
  "ss_machines (fold (\<lambda>mv. save_mvolume (g mv)) mvs st) = ss_machines st"
  by (induction mvs arbitrary: st) (auto simp: save_mvolume_def)

lemma charge_pool_simps [simp]:
  "pb_uuid (charge_pool n pb) = pb_uuid pb"
  "mp_avail_cores (pb_pool (charge_pool n pb)) = mp_avail_cores (pb_pool pb) - nd_cores n"
  "mp_avail_ram (pb_pool (charge_pool n pb)) = mp_avail_ram (pb_pool pb) - nd_ram n"
  "storage_ok k (charge_pool n pb) = storage_ok k pb"
  by (simp_all add: charge_pool_def pb_uuid_def storage_ok_def pb_storage_pools_def)

text \<open>A placement moves cores and memory from the pool to a new machine of the pool.\<close>

lemma place_node_accounts:
  assumes k: "sdk_ok k" and h: "can_hold k nb pb"
    and fresh: "nd_uuid (nb_node nb) \<notin> mc_uuid ` set (ss_machines st)"
  shows "\<exists>pb' st'. place_node_into_pool k nb pb st = (Inr (), pb', st') \<and> pb_uuid pb' = pb_uuid pb \<and>
    mp_avail_cores (pb_pool pb') = mp_avail_cores (pb_pool pb) - nd_cores (nb_node nb) \<and>
    mp_avail_ram (pb_pool pb') = mp_avail_ram (pb_pool pb) - nd_ram (nb_node nb) \<and>
    (storage_ok k pb \<longrightarrow> storage_ok k pb') \<and>
    ss_machines st' = ss_machines st @ [new_machine (nb_node nb) (pb_uuid pb)]"
proof -
  obtain mvs pb1 where a: "allocate_node_volumes k nb pb = (Inr mvs, pb1)"
    using place_node_accepted [OF h] by blast
  note s = allocate_node_volumes_same [OF k a]
  have "mc_uuid (new_machine n u) = nd_uuid n" for n u by (simp add: new_machine_def)
  with a s same_pool_avail [of pb pb1] same_pool_uuid [of pb pb1] fresh show ?thesis
    by (auto simp: place_node_into_pool_def Let_def save_machine_def save_node_def save_row_def)
qed

lemma used_append:
  assumes "ss_machines st' = ss_machines st @ [new_machine n u]"
  shows "used_cores st' v = used_cores st v + (if v = u then nd_cores n else 0)"
    and "used_ram st' v = used_ram st v + (if v = u then nd_ram n else 0)"
  by (auto simp: used_cores_def used_ram_def assms new_machine_def)

definition accounts :: "sdk \<Rightarrow> (uuid \<times> int \<times> int) list \<Rightarrow> pool_bundle list \<times> sched_state \<Rightarrow> bool" where
  "accounts k totals ps \<longleftrightarrow> (case ps of (pools, st) \<Rightarrow>
     distinct (map pb_uuid pools) \<and> list_all (pool_ok k) pools \<and> map (pool_total st) pools = totals)"

lemma place_node_keeps_accounts:
  assumes k: "sdk_ok k" and inv: "accounts k totals (pools, st)" and pb: "pb \<in> set pools" "can_hold k nb pb"
    and room: "nd_cores (nb_node nb) \<le> mp_avail_cores (pb_pool pb)" "nd_ram (nb_node nb) \<le> mp_avail_ram (pb_pool pb)"
    and fresh: "nd_uuid (nb_node nb) \<notin> mc_uuid ` set (ss_machines st)"
    and p: "place_node_into_pool k nb pb st = (r, pb', st')"
  shows "accounts k totals (put_by pb_uuid pb' pools, st') \<and>
    mc_uuid ` set (ss_machines st') = insert (nd_uuid (nb_node nb)) (mc_uuid ` set (ss_machines st))"
proof -
  let ?n = "nb_node nb"
  from place_node_accounts [OF k pb(2) fresh] p have
    u: "pb_uuid pb' = pb_uuid pb" and c: "mp_avail_cores (pb_pool pb') = mp_avail_cores (pb_pool pb) - nd_cores ?n"
    and m: "mp_avail_ram (pb_pool pb') = mp_avail_ram (pb_pool pb) - nd_ram ?n"
    and so: "storage_ok k pb \<longrightarrow> storage_ok k pb'"
    and ms: "ss_machines st' = ss_machines st @ [new_machine ?n (pb_uuid pb)]"
    by auto
  have d: "distinct (map pb_uuid pools)" and ok: "\<forall>q \<in> set pools. pool_ok k q"
    and t: "map (pool_total st) pools = totals"
    using inv by (auto simp: accounts_def list_all_iff)
  have "pool_ok k pb'" using ok pb(1) so c m room by (simp add: pool_ok_def)
  then have "\<forall>q \<in> set (put_by pb_uuid pb' pools). pool_ok k q" using ok by (auto dest!: put_by_set)
  moreover have "pool_total st' (if pb_uuid q = pb_uuid pb' then pb' else q) = pool_total st q" if "q \<in> set pools" for q
    using distinct_key_unique [OF d that pb(1)] u c m
    by (auto simp: pool_total_def used_append [OF ms])
  then have "map (pool_total st') (put_by pb_uuid pb' pools) = totals"
    unfolding put_by_def t [symmetric] by simp
  ultimately show ?thesis using d ms by (auto simp: accounts_def list_all_iff new_machine_def)
qed

lemma core_eligible:
  assumes "pb \<in> set (fold (\<lambda>flt ps. flt st nb ps) (sc_pool_filters core_config) pools)"
  shows "pb \<in> set pools \<and> nd_cores (nb_node nb) \<le> mp_avail_cores (pb_pool pb) \<and>
    nd_ram (nb_node nb) \<le> mp_avail_ram (pb_pool pb)"
proof -
  have "pb \<in> set (cores_ram_filter st nb pools)"
    using assms anti_affinity_filter_subset by (auto simp: core_config_def)
  then show ?thesis by (simp add: cores_ram_filter_def)
qed

lemma core_pools_step_cases:
  assumes k: "sdk_ok k" and d: "distinct (map pb_uuid pools)"
    and s: "pools_step core_config k nb (pools, st) = Inr (pools', st')"
  obtains "pools' = pools" "st' = st" |
    pb pb' r where "pb \<in> set pools" "can_hold k nb pb" "nd_cores (nb_node nb) \<le> mp_avail_cores (pb_pool pb)"
      "nd_ram (nb_node nb) \<le> mp_avail_ram (pb_pool pb)" "place_node_into_pool k nb pb st = (r, pb', st')"
      "pools' = put_by pb_uuid pb' pools"
proof -
  let ?el = "fold (\<lambda>flt ps. flt st nb ps) (sc_pool_filters core_config) pools"
  show ?thesis
  proof (cases "?el = []")
    case True
    with s that(1) show ?thesis by (auto simp: pools_step_def)
  next
    case False
    then obtain ws where ws: "accumulate (sc_pool_weighters core_config) ?el = Inr ws"
      and t: "try_pools k nb (map snd (rank_pools ws ?el)) (pools, st) = (pools', st')"
      using s by (auto simp: pools_step_def Let_def ebind_Inr_iff)
    have sub: "set (map snd (rank_pools ws ?el)) \<subseteq> set pools"
      unfolding core.ranked_set [OF ws] by (rule core.eligible_subset)
    show ?thesis
    proof (cases "find (can_hold k nb) (map snd (rank_pools ws ?el))")
      case None
      with t that(1) try_pools_find [OF k d sub, of nb st] show ?thesis by simp
    next
      case (Some pb)
      have "pb \<in> set ?el" "can_hold k nb pb"
        using find_Some_mem [OF Some] unfolding core.ranked_set [OF ws] by auto
      moreover obtain r pb' st1 where "place_node_into_pool k nb pb st = (r, pb', st1)"
        by (metis prod_cases3)
      ultimately show ?thesis
        using that(2) [of pb] core_eligible t Some try_pools_find [OF k d sub, of nb st] by simp
    qed
  qed
qed

lemma core_pools_step_accounts:
  assumes "sdk_ok k" and "accounts k totals ps" and "pools_step core_config k nb ps = Inr ps'"
    and "nd_uuid (nb_node nb) \<notin> mc_uuid ` set (ss_machines (snd ps))"
  shows "accounts k totals ps' \<and>
    mc_uuid ` set (ss_machines (snd ps')) \<subseteq> insert (nd_uuid (nb_node nb)) (mc_uuid ` set (ss_machines (snd ps)))"
proof -
  obtain pools st pools' st' where ps: "ps = (pools, st)" "ps' = (pools', st')" by (cases ps; cases ps')
  have "distinct (map pb_uuid pools)" using assms(2) ps by (simp add: accounts_def)
  then show ?thesis
  proof (rule core_pools_step_cases [OF assms(1)])
    show "pools_step core_config k nb (pools, st) = Inr (pools', st')" using assms(3) ps by simp
  next
    assume "pools' = pools" "st' = st"
    then show ?thesis using assms(2) ps by auto
  next
    fix pb pb' r
    assume "pb \<in> set pools" "can_hold k nb pb" "nd_cores (nb_node nb) \<le> mp_avail_cores (pb_pool pb)"
      "nd_ram (nb_node nb) \<le> mp_avail_ram (pb_pool pb)" "place_node_into_pool k nb pb st = (r, pb', st')"
      "pools' = put_by pb_uuid pb' pools"
    then show ?thesis using place_node_keeps_accounts [OF assms(1)] assms(2,4) ps by (metis snd_conv subset_refl)
  qed
qed

lemma core_run_accounts:
  assumes k: "sdk_ok k" and "accounts k totals ps" and "distinct (map (nd_uuid \<circ> nb_node) nodes)"
    and "\<forall>nb \<in> set nodes. nd_uuid (nb_node nb) \<notin> mc_uuid ` set (ss_machines (snd ps))"
  shows "accounts k totals (snd (erun (pools_step core_config k) nodes ps))"
  using assms(2-)
proof (induction nodes arbitrary: ps)
  case (Cons nb nodes)
  show ?case
  proof (cases "pools_step core_config k nb ps")
    case (Inr ps')
    have step: "accounts k totals ps'"
      "mc_uuid ` set (ss_machines (snd ps')) \<subseteq> insert (nd_uuid (nb_node nb)) (mc_uuid ` set (ss_machines (snd ps)))"
      using core_pools_step_accounts [OF k Cons.prems(1) Inr] Cons.prems(3) by auto
    have "nd_uuid (nb_node b) \<noteq> nd_uuid (nb_node nb)" if "b \<in> set nodes" for b
      using Cons.prems(2) that by (auto simp: image_iff)
    with step Cons.prems(3)
    have "\<forall>b \<in> set nodes. nd_uuid (nb_node b) \<notin> mc_uuid ` set (ss_machines (snd ps'))"
      by (metis insertE list.set_intros(2) subsetD)
    with Cons step(1) Inr show ?thesis by simp
  qed (use Cons.prems in simp)
qed simp

section \<open>Lemmas: nodes on existing machines\<close>

text \<open>
  The loop over the unscheduled nodes, seen from the tables \<open>st0\<close> it started with: the listed idle
  machines are still free, machines with a node are kept, a machine that changed took one of the
  nodes it is big enough for, and every virtual node seen is returned or has a machine.
\<close>

definition took_node :: "node \<Rightarrow> machine \<Rightarrow> machine" where
  "took_node n m = m\<lparr>mc_node := Some (nd_uuid n), mc_status := StScheduled,
     mc_target_power_state := nd_target_power_state n\<rparr>"

definition enough :: "node \<Rightarrow> machine \<Rightarrow> bool" where
  "enough n m \<longleftrightarrow> mc_machine_type m = nd_node_type n \<and> nd_cores n \<le> mc_cores m \<and> nd_ram n \<le> mc_ram m"

definition idle_listed :: "node_type \<Rightarrow> machine_bundle list \<Rightarrow> sched_state \<Rightarrow> bool" where
  "idle_listed t mbs st \<longleftrightarrow> distinct (map mb_uuid mbs) \<and>
     (\<forall>mb \<in> set mbs. mb_machine mb \<in> set (ss_machines st) \<and> mc_node (mb_machine mb) = None \<and>
        mc_machine_type (mb_machine mb) = t)"

definition existing_inv :: "sched_state \<Rightarrow> node_bundle set \<Rightarrow> existing_loop \<Rightarrow> bool" where
  "existing_inv st0 seen el \<longleftrightarrow>
     distinct (map mc_uuid (ss_machines (el_state el))) \<and>
     idle_listed NodeHW (el_hws el) (el_state el) \<and> idle_listed NodeVM (el_vms el) (el_state el) \<and>
     (\<forall>m \<in> set (ss_machines st0). mc_node m \<noteq> None \<longrightarrow> m \<in> set (ss_machines (el_state el))) \<and>
     (\<forall>m \<in> set (ss_machines (el_state el)). m \<in> set (ss_machines st0) \<or>
        (\<exists>m0 \<in> set (ss_machines st0). \<exists>nb \<in> seen. mc_node m0 = None \<and> m = took_node (nb_node nb) m0 \<and> enough (nb_node nb) m0)) \<and>
     (\<forall>nb \<in> seen. nd_node_type (nb_node nb) = NodeVM \<longrightarrow> nb \<in> set (el_unscheduled el) \<or>
        (\<exists>m \<in> set (ss_machines (el_state el)). mc_node m = Some (nd_uuid (nb_node nb))))"

lemma ss_machines_save [simp]:
  "ss_machines (save_node n st) = ss_machines st"
  "ss_machines (save_machine m st) = save_row mc_uuid m (ss_machines st)"
  by (simp_all add: save_node_def save_machine_def)

lemma took_node_uuid [simp]: "mc_uuid (took_node n m) = mc_uuid m" "mc_node (took_node n m) = Some (nd_uuid n)"
  by (simp_all add: took_node_def)

lemma idle_listed_keep:
  assumes "idle_listed t mbs st" and "distinct (map mc_uuid (ss_machines st))" and "set mbs' \<subseteq> set mbs"
    and "distinct (map mb_uuid mbs')" and "\<forall>mb \<in> set mbs'. mb_uuid mb \<noteq> mc_uuid m"
    and "ss_machines st' = save_row mc_uuid m (ss_machines st)"
  shows "idle_listed t mbs' st'"
proof -
  have "mb_machine mb \<in> set (ss_machines st')" if "mb \<in> set mbs'" for mb
  proof -
    have "mb_machine mb \<in> set (ss_machines st)" using assms(1,3) that by (auto simp: idle_listed_def)
    moreover have "mc_uuid (mb_machine mb) \<noteq> mc_uuid m" using assms(5) that by (simp add: mb_uuid_def)
    ultimately show ?thesis by (simp add: assms(6) save_row_other)
  qed
  then show ?thesis using assms(1,3,4) by (auto simp: idle_listed_def)
qed

lemma remove_by_subset: "set (remove_by f u xs) \<subseteq> set xs"
  by (induction f u xs rule: remove_by.induct) auto

lemma remove_by_distinct: "distinct (map f xs) \<Longrightarrow> distinct (map f (remove_by f u xs)) \<and> (\<forall>x \<in> set (remove_by f u xs). f x \<noteq> u)"
proof (induction f u xs rule: remove_by.induct)
  case (2 f u x xs)
  then show ?case using remove_by_subset [of f u xs] by (auto simp: image_iff)
qed simp

lemma existing_inv_assign:
  assumes inv: "existing_inv st0 seen el" and mb: "mb \<in> set (if nd_node_type (nb_node nb) = NodeHW then el_hws el else el_vms el)"
    and big: "enough (nb_node nb) (mb_machine mb)"
  shows "existing_inv st0 (insert nb seen) (assign_machine (nb_node nb) mb el)"
proof -
  let ?n = "nb_node nb" and ?m = "mb_machine mb" and ?st = "el_state el"
  let ?el = "assign_machine ?n mb el"
  have d: "distinct (map mc_uuid (ss_machines ?st))" and hw: "idle_listed NodeHW (el_hws el) ?st"
    and vm: "idle_listed NodeVM (el_vms el) ?st"
    using inv by (simp_all add: existing_inv_def)
  have m: "?m \<in> set (ss_machines ?st)" "mc_node ?m = None"
    using mb hw vm by (auto simp: idle_listed_def split: if_splits)
  have st': "ss_machines (el_state ?el) = save_row mc_uuid (took_node ?n ?m) (ss_machines ?st)"
    by (simp add: assign_machine_def Let_def took_node_def)
  have hws: "set (el_hws ?el) \<subseteq> set (el_hws el)" "distinct (map mb_uuid (el_hws ?el))"
    and vms: "set (el_vms ?el) \<subseteq> set (el_vms el)" "distinct (map mb_uuid (el_vms ?el))"
    using hw vm remove_by_subset [of mb_uuid] remove_by_distinct [of mb_uuid]
    by (auto simp: assign_machine_def Let_def idle_listed_def)
  have other: "mb_uuid b \<noteq> mc_uuid ?m" if "b \<in> set (el_hws ?el) \<union> set (el_vms ?el)" for b
  proof
    assume eq: "mb_uuid b = mc_uuid ?m"
    have b: "mb_machine b \<in> set (ss_machines ?st)" using that hws(1) vms(1) hw vm by (auto simp: idle_listed_def)
    then have same: "mb_machine b = ?m" using distinct_key_unique [OF d b m(1)] eq by (simp add: mb_uuid_def)
    show False
    proof (cases "nd_node_type ?n = NodeHW")
      case True
      then have "\<forall>x \<in> set (el_hws ?el). mb_uuid x \<noteq> mb_uuid mb" "el_vms ?el = el_vms el"
        using hw remove_by_distinct [of mb_uuid] by (auto simp: assign_machine_def Let_def idle_listed_def)
      then show ?thesis using that eq same mb True hw vm by (auto simp: mb_uuid_def idle_listed_def)
    next
      case False
      then have "\<forall>x \<in> set (el_vms ?el). mb_uuid x \<noteq> mb_uuid mb" "el_hws ?el = el_hws el"
        using vm remove_by_distinct [of mb_uuid] by (auto simp: assign_machine_def Let_def idle_listed_def)
      then show ?thesis using that eq same mb False hw vm by (auto simp: mb_uuid_def idle_listed_def)
    qed
  qed
  have keep: "x \<in> set (ss_machines (el_state ?el))" if "x \<in> set (ss_machines ?st)" "mc_node x \<noteq> None" for x
  proof -
    have "mc_uuid x \<noteq> mc_uuid ?m" using distinct_key_unique [OF d that(1) m(1)] m(2) that(2) by auto
    then show ?thesis unfolding st' using that(1) by (intro save_row_other) simp_all
  qed
  have "idle_listed NodeHW (el_hws ?el) (el_state ?el)" "idle_listed NodeVM (el_vms ?el) (el_state ?el)"
    using idle_listed_keep [OF hw d hws _ st'] idle_listed_keep [OF vm d vms _ st'] other by auto
  moreover have "distinct (map mc_uuid (ss_machines (el_state ?el)))" unfolding st' using d by (rule save_row_distinct)
  moreover have "\<forall>x \<in> set (ss_machines (el_state ?el)). x = took_node ?n ?m \<or> x \<in> set (ss_machines ?st)"
    unfolding st' by (auto dest: save_row_set)
  moreover have "took_node ?n ?m \<in> set (ss_machines (el_state ?el))" unfolding st' by simp
  moreover have "el_unscheduled ?el = el_unscheduled el" by (simp add: assign_machine_def Let_def)
  moreover have orig: "?m \<in> set (ss_machines st0)"
  proof -
    have "\<And>n m0. ?m \<noteq> took_node n m0" using m(2) by (metis option.distinct(1) took_node_uuid(2))
    then show ?thesis using inv m(1) unfolding existing_inv_def by blast
  qed
  moreover have "\<forall>x \<in> set (ss_machines st0). mc_node x \<noteq> None \<longrightarrow> x \<in> set (ss_machines (el_state ?el))"
    using inv keep unfolding existing_inv_def by blast
  moreover have "mc_node (took_node ?n ?m) = Some (nd_uuid ?n)" by simp
  moreover have "\<forall>b \<in> seen. nd_node_type (nb_node b) = NodeVM \<longrightarrow> b \<in> set (el_unscheduled el) \<or>
      (\<exists>x \<in> set (ss_machines (el_state ?el)). mc_node x = Some (nd_uuid (nb_node b)))"
    using inv keep unfolding existing_inv_def by (metis option.distinct(1))
  moreover have "\<forall>x \<in> set (ss_machines ?st). x \<in> set (ss_machines st0) \<or>
      (\<exists>m0 \<in> set (ss_machines st0). \<exists>b \<in> seen. mc_node m0 = None \<and> x = took_node (nb_node b) m0 \<and> enough (nb_node b) m0)"
    using inv unfolding existing_inv_def by blast
  ultimately show ?thesis using m(2) big unfolding existing_inv_def by (intro conjI) (blast | metis insert_iff)+
qed

lemma existing_inv_seen:
  assumes inv: "existing_inv st0 seen el" and same: "ss_machines (el_state el') = ss_machines (el_state el)"
      "el_hws el' = el_hws el" "el_vms el' = el_vms el" "set (el_unscheduled el) \<subseteq> set (el_unscheduled el')"
    and nb: "nd_node_type (nb_node nb) = NodeHW \<or> nb \<in> set (el_unscheduled el')"
  shows "existing_inv st0 (insert nb seen) el'"
proof -
  have idle: "idle_listed t mbs (el_state el') = idle_listed t mbs (el_state el)" for t mbs
    by (simp add: idle_listed_def same(1))
  have "\<forall>b \<in> insert nb seen. nd_node_type (nb_node b) = NodeVM \<longrightarrow> b \<in> set (el_unscheduled el') \<or>
        (\<exists>m \<in> set (ss_machines (el_state el)). mc_node m = Some (nd_uuid (nb_node b)))"
    using inv same(4) nb unfolding existing_inv_def by auto
  moreover have "\<forall>m \<in> set (ss_machines (el_state el)). m \<in> set (ss_machines st0) \<or>
        (\<exists>m0 \<in> set (ss_machines st0). \<exists>b \<in> insert nb seen. mc_node m0 = None \<and> m = took_node (nb_node b) m0 \<and> enough (nb_node b) m0)"
    using inv unfolding existing_inv_def by blast
  ultimately show ?thesis using inv unfolding existing_inv_def idle same
    by (elim conjE, intro conjI) assumption+
qed

lemma existing_inv_state:
  assumes "existing_inv st0 seen el" and "nd_node_type (nb_node nb) = NodeHW"
  shows "existing_inv st0 (insert nb seen) (el\<lparr>el_state := save_node n (el_state el)\<rparr>)"
    and "existing_inv st0 (insert nb seen) el"
  using assms existing_inv_seen by simp_all

lemma existing_inv_return:
  assumes "existing_inv st0 seen el"
  shows "existing_inv st0 (insert nb seen) (el\<lparr>el_unscheduled := el_unscheduled el @ [nb]\<rparr>)"
  using assms by (rule existing_inv_seen) auto

lemma core_existing_step_inv:
  assumes inv: "existing_inv st0 seen el" and s: "existing_step core_config k pools nb el = Inr el'"
  shows "existing_inv st0 (insert nb seen) el'"
proof -
  let ?n = "nb_node nb"
  let ?idle = "if nd_node_type ?n = NodeHW then el_hws el else el_vms el"
  let ?suit = "fold (\<lambda>flt ms. flt nb ms) (sc_machine_filters core_config) ?idle"
  obtain ms where ms: "efilter (machine_has_disk_capacity k nb pools) ?suit = Inr ms"
    using s by (auto simp: existing_step_def Let_def ebind_Inr_iff)
  show ?thesis
  proof (cases "ms = []")
    case True
    then show ?thesis using s ms inv
      by (cases "nd_node_type ?n") (auto simp: existing_step_def Let_def ebind_Inr_iff
          intro: existing_inv_state existing_inv_return split: if_splits)
  next
    case False
    then obtain ws i where ws: "accumulate (sc_machine_weighters core_config) ms = Inr ws"
      and i: "index_of_max ws = Inr i" and el': "el' = assign_machine ?n (ms ! i) el"
      using s ms by (auto simp: existing_step_def Let_def ebind_Inr_iff)
    have "ms ! i \<in> set ms" using index_of_max_bound [OF i] core.machine_weights_length [OF ws] by simp
    then have suit: "ms ! i \<in> set ?suit" using efilter_subset [OF ms] by blast
    then have mem: "ms ! i \<in> set ?idle" using core.suitable_subset by blast
    have "nd_cores ?n \<le> mc_cores (mb_machine (ms ! i)) \<and> nd_ram ?n \<le> mc_ram (mb_machine (ms ! i))"
      using suit by (simp add: core_config_def hw_cores_ram_filter_def)
    moreover have "mc_machine_type (mb_machine (ms ! i)) = nd_node_type ?n"
      using mem inv by (cases "nd_node_type ?n") (auto simp: existing_inv_def idle_listed_def)
    ultimately show ?thesis unfolding el' using existing_inv_assign [OF inv mem] by (simp add: enough_def)
  qed
qed

lemma core_existing_run_inv:
  assumes "existing_inv st0 seen el" and "erun (existing_step core_config k pools) nodes el = (r, el')"
  shows "\<exists>seen'. existing_inv st0 seen' el' \<and> seen' \<subseteq> seen \<union> set nodes \<and> (r = None \<longrightarrow> seen' = seen \<union> set nodes)"
  using assms
proof (induction nodes arbitrary: seen el)
  case (Cons nb nodes)
  show ?case
  proof (cases "existing_step core_config k pools nb el")
    case (Inl e)
    with Cons.prems show ?thesis by auto
  next
    case (Inr el1)
    with Cons.prems(2) have "erun (existing_step core_config k pools) nodes el1 = (r, el')" by simp
    from Cons.IH [OF core_existing_step_inv [OF Cons.prems(1) Inr] this] show ?thesis by auto
  qed
qed auto

lemma idle_listed_init:
  assumes "distinct (map mc_uuid (ss_machines st))"
  shows "idle_listed t (filter (\<lambda>m. mc_machine_type (mb_machine m) = t) (get_idle_machines st)) st"
proof -
  have "map mb_uuid (get_idle_machines st) = map mc_uuid (take def_sql_limit (filter (\<lambda>m. mc_node m = None \<and> mc_status m = StIdle) (ss_machines st)))"
    by (simp add: get_idle_machines_def mb_uuid_def comp_def)
  then have "distinct (map mb_uuid (get_idle_machines st))"
    using distinct_map_filter [OF assms] by (simp flip: take_map)
  then show ?thesis
    by (auto simp: idle_listed_def distinct_map_filter get_idle_machines_def dest!: in_set_takeD)
qed

section \<open>Properties\<close>

definition demo_pools :: "pool_bundle list" where
  "demo_pools = [demo_bundle, \<lparr>pb_pool = demo_machine_pool ''pool2'' 8 80 [demo_storage ''a'' ''WARM'' 30],
     pb_volumes = []\<rparr>]"

definition demo_nb :: "uuid \<Rightarrow> int \<Rightarrow> node_type \<Rightarrow> int \<Rightarrow> node_bundle" where
  "demo_nb u cores t sz = \<lparr>nb_node = demo_node_of u cores 8 t, nb_volumes = [demo_volume u (Some u) sz (Some ''img'')]\<rparr>"

definition empty_sched :: sched_state where
  "empty_sched = \<lparr>ss_nodes = [], ss_volumes = [], ss_machines = [], ss_mvolumes = [], ss_pools = [],
     ss_allocations = [], ss_agents = []\<rparr>"

text \<open>C4. Scheduling nodes on pools never overcommits: whatever nodes are placed in a run, no pool ends
  with negative free cores or memory or an oversubscribed storage pool, and for every pool the
  free cores and memory plus those of the machines placed in it are what they were.\<close>

theorem pools_never_overcommitted:
  assumes "sdk_ok k" and "distinct (map pb_uuid pools)" and "list_all (pool_ok k) pools"
    and "distinct (map (nd_uuid \<circ> nb_node) nodes)"
    and "\<forall>nb \<in> set nodes. nd_uuid (nb_node nb) \<notin> mc_uuid ` set (ss_machines st)"
    and "schedule_on_pools core_config k nodes pools st = (r, pools', st')"
  shows "list_all (pool_ok k) pools' \<and> map (pool_total st') pools' = map (pool_total st) pools"
proof -
  have "accounts k (map (pool_total st) pools) (pools, st)"
    using assms(2,3) by (simp add: accounts_def)
  with core_run_accounts [OF assms(1) this] assms(4,5,6)
  have "accounts k (map (pool_total st) pools) (pools', st')"
    by (auto simp: schedule_on_pools_def split: if_splits) (metis snd_conv)+
  then show ?thesis by (simp add: accounts_def)
qed

theorem pools_never_overcommitted_witness:
  "list_all (pool_ok thin_sdk) (fst (snd (schedule_on_pools core_config thin_sdk
     [demo_nb ''m'' 3 NodeVM 9, demo_nb ''n'' 3 NodeVM 9] demo_pools empty_sched)))"
proof -
  let ?nodes = "[demo_nb ''m'' 3 NodeVM 9, demo_nb ''n'' 3 NodeVM 9]"
  obtain r pools' st' where r: "schedule_on_pools core_config thin_sdk ?nodes demo_pools empty_sched = (r, pools', st')"
    by (metis prod_cases3)
  have 1: "distinct (map pb_uuid demo_pools)" by code_simp
  have 2: "list_all (pool_ok thin_sdk) demo_pools" by code_simp
  have 3: "distinct (map (nd_uuid \<circ> nb_node) ?nodes)" by code_simp
  have 4: "\<forall>nb \<in> set ?nodes. nd_uuid (nb_node nb) \<notin> mc_uuid ` set (ss_machines empty_sched)"
    by (simp add: empty_sched_def)
  from pools_never_overcommitted [OF thin_sdk_ok 1 2 3 4 r] r show ?thesis by simp
qed

text \<open>A node goes to the best pool that can hold it: among the pools that pass the filters and can
  take all its volumes, one with the greatest weight; pools with more weight that lack disk
  capacity are passed over without being changed.\<close>

theorem node_goes_to_heaviest_pool:
  assumes "sdk_ok k" and "distinct (map pb_uuid pools)"
    and "eligible = fold (\<lambda>flt ps. flt st nb ps) (sc_pool_filters core_config) pools"
    and "accumulate (sc_pool_weighters core_config) eligible = Inr ws"
    and "p \<in> set eligible" and "can_hold k nb p"
  shows "\<exists>i < length eligible. can_hold k nb (eligible ! i) \<and>
     (\<forall>j < length eligible. can_hold k nb (eligible ! j) \<longrightarrow> ws ! j \<le> ws ! i) \<and>
     pools_step core_config k nb (pools, st) =
       Inr (let (_, pb', st') = place_node_into_pool k nb (eligible ! i) st in (put_by pb_uuid pb' pools, st'))"
  using core.pools_step_best assms .

theorem node_goes_to_heaviest_pool_witness:
  "\<exists>i<2. can_hold thin_sdk (demo_nb ''n'' 2 NodeVM 25) (demo_pools ! i)"
proof -
  let ?nb = "demo_nb ''n'' 2 NodeVM 25"
  let ?el = "fold (\<lambda>flt ps. flt empty_sched ?nb ps) (sc_pool_filters core_config) demo_pools"
  have el: "?el = demo_pools" by code_simp
  have "is_ok (accumulate (sc_pool_weighters core_config) ?el)" by code_simp
  then obtain ws where ws: "accumulate (sc_pool_weighters core_config) ?el = Inr ws"
    by (auto simp: is_ok_iff)
  have d: "distinct (map pb_uuid demo_pools)" by code_simp
  have m: "demo_pools ! 1 \<in> set ?el" by (simp only: el) (simp add: demo_pools_def)
  have h: "can_hold thin_sdk ?nb (demo_pools ! 1)" by code_simp
  have "length demo_pools = 2" by (simp add: demo_pools_def)
  with node_goes_to_heaviest_pool [OF thin_sdk_ok d refl ws m h] show ?thesis
    unfolding el by auto
qed

text \<open>The anti-affinity of a placement policy is soft: the filter lets through a pool that holds a
  machine of another node of the policy only when every pool does, and then it lets all through.\<close>

theorem anti_affinity_only_when_forced:
  assumes "p \<in> set (anti_affinity_filter st nb pools)"
    and "(nd_uuid (nb_node nb), pol) \<in> set (ss_allocations st)"
    and "(x, pol) \<in> set (ss_allocations st)" and "x \<noteq> nd_uuid (nb_node nb)"
    and "m \<in> set (ss_machines st)" and "mc_node m = Some x" and "mc_pool m = Some (pb_uuid p)"
  shows "anti_affinity_filter st nb pools = pools \<and>
    (\<forall>q \<in> set pools. Some (pb_uuid q) \<in> set (policy_pools st (nd_uuid (nb_node nb))))"
proof -
  let ?n = "nd_uuid (nb_node nb)"
  have allocated: "filter (\<lambda>(y, _). y = ?n) (ss_allocations st) \<noteq> []"
    using assms(2) by (auto simp: filter_empty_conv)
  have "pol \<in> set (map snd (filter (\<lambda>(y, _). y = ?n) (ss_allocations st)))"
    using assms(2) by force
  then have "x \<in> set (map fst (filter (\<lambda>(y, q). q \<in> set (map snd (filter (\<lambda>(y, _). y = ?n) (ss_allocations st))) \<and> y \<noteq> ?n)
      (ss_allocations st)))"
    using assms(3,4) by (force simp: image_iff)
  then have "Some (pb_uuid p) \<in> set (policy_pools st ?n)"
    using assms(5,6,7) unfolding policy_pools_def Let_def by (force simp: image_iff)
  then have "filter (\<lambda>q. Some (pb_uuid q) \<notin> set (policy_pools st ?n)) pools = []"
    using assms(1) allocated by (auto simp: anti_affinity_filter_def Let_def split: if_splits)
  then show ?thesis using allocated by (auto simp: anti_affinity_filter_def Let_def filter_empty_conv)
qed

definition affinity_state :: sched_state where
  "affinity_state = empty_sched\<lparr>ss_allocations := [(''n'', ''pol''), (''m'', ''pol''), (''l'', ''pol'')],
     ss_machines := [new_machine (demo_node_of ''m'' 1 1 NodeVM) ''pool'', new_machine (demo_node_of ''l'' 1 1 NodeVM) ''pool2'']\<rparr>"

theorem anti_affinity_only_when_forced_witness:
  "anti_affinity_filter affinity_state (demo_nb ''n'' 2 NodeVM 5) demo_pools = demo_pools"
proof -
  have 1: "demo_bundle \<in> set (anti_affinity_filter affinity_state (demo_nb ''n'' 2 NodeVM 5) demo_pools)"
    by code_simp
  have 2: "(nd_uuid (nb_node (demo_nb ''n'' 2 NodeVM 5)), ''pol'') \<in> set (ss_allocations affinity_state)" by code_simp
  have 3: "(''m'', ''pol'') \<in> set (ss_allocations affinity_state)" by code_simp
  have 4: "''m'' \<noteq> nd_uuid (nb_node (demo_nb ''n'' 2 NodeVM 5))" by code_simp
  have 5: "new_machine (demo_node_of ''m'' 1 1 NodeVM) ''pool'' \<in> set (ss_machines affinity_state)" by code_simp
  have 6: "mc_node (new_machine (demo_node_of ''m'' 1 1 NodeVM) ''pool'') = Some ''m''" by code_simp
  have 7: "mc_pool (new_machine (demo_node_of ''m'' 1 1 NodeVM) ''pool'') = Some (pb_uuid demo_bundle)" by code_simp
  from anti_affinity_only_when_forced [OF 1 2 3 4 5 6 7] show ?thesis by simp
qed

text \<open>Pool weights lie in [0, 1] and order the pools by use: a pool that is used no more than another
  one weighs no less.\<close>

theorem relative_weight_orders_by_usage:
  assumes "relative_weight ps = Inr ws" and "i < length ps" and "j < length ps"
    and "\<forall>p \<in> set ps. mp_avail_cores (pb_pool p) \<le> mp_all_cores (pb_pool p) \<and>
           mp_avail_ram (pb_pool p) \<le> mp_all_ram (pb_pool p)"
  shows "0 \<le> ws ! i \<and> ws ! i \<le> 1 \<and>
    (usage_ratio (pb_pool (ps ! i)) \<le> usage_ratio (pb_pool (ps ! j)) \<longrightarrow> ws ! j \<le> ws ! i)"
proof -
  let ?us = "map (\<lambda>p. usage_ratio (pb_pool p)) ps"
  have b: "0 \<le> u" "u \<le> 1" if "u \<in> set ?us" for u
    using that assms(4) usage_ratio_bounds by auto
  have n: "0 < length ps" using assms(2) by linarith
  have nonneg: "0 \<le> sum_list ?us" using b(1) by (intro sum_list_nonneg) blast
  show ?thesis
  proof (cases "sum_list ?us = 0")
    case True
    then have "ws ! l = 1 / of_nat (length ps)" if "l < length ps" for l
      using relative_weight_nth [OF assms(1) that] by (simp add: Let_def)
    moreover have "(1 :: rat) / of_nat (length ps) \<le> 1" using n by (simp add: divide_le_eq_1 Suc_le_eq)
    ultimately show ?thesis using assms(2,3) by simp
  next
    case False
    with nonneg have pos: "0 < sum_list ?us" by linarith
    have w: "ws ! l = 1 - ?us ! l / sum_list ?us" if "l < length ps" for l
      using relative_weight_nth [OF assms(1) that] False by (simp add: Let_def)
    have mem: "?us ! i \<in> set ?us" using assms(2) by (metis length_map nth_mem)
    then have "?us ! i \<le> sum_list ?us" using sum_list_member_le b(1) by blast
    then have "?us ! i / sum_list ?us \<le> 1" "0 \<le> ?us ! i / sum_list ?us"
      using pos b(1) [OF mem] by simp_all
    then have "0 \<le> ws ! i" "ws ! i \<le> 1" unfolding w [OF assms(2)] by linarith+
    moreover have "ws ! j \<le> ws ! i" if "usage_ratio (pb_pool (ps ! i)) \<le> usage_ratio (pb_pool (ps ! j))"
      using that pos assms(2,3) unfolding w [OF assms(2)] w [OF assms(3)] by (simp add: divide_right_mono)
    ultimately show ?thesis by blast
  qed
qed

theorem relative_weight_orders_by_usage_witness:
  "\<exists>ws. relative_weight demo_pools = Inr ws \<and> ws ! 0 \<le> ws ! 1"
proof -
  have "is_ok (relative_weight demo_pools)" by code_simp
  then obtain ws where ws: "relative_weight demo_pools = Inr ws" by (auto simp: is_ok_iff)
  have l: "1 < length demo_pools" "0 < length demo_pools" by (simp_all add: demo_pools_def)
  have a: "\<forall>p \<in> set demo_pools. mp_avail_cores (pb_pool p) \<le> mp_all_cores (pb_pool p) \<and>
      mp_avail_ram (pb_pool p) \<le> mp_all_ram (pb_pool p)"
    by (simp add: demo_pools_def demo_placement_defs)
  have "usage_ratio (pb_pool (demo_pools ! 1)) \<le> usage_ratio (pb_pool (demo_pools ! 0))" by code_simp
  with relative_weight_orders_by_usage [OF ws l a] ws show ?thesis by blast
qed

text \<open>Assigning nodes to existing machines: a machine that already had a node is untouched; a
  machine that changes was free and takes one unscheduled node of its own type, with the cores
  and the memory the node asks for; and unless the round is cut short by an exception, every
  virtual node of the round has a machine or is returned to be placed on a pool.\<close>

theorem existing_machines_assigned_once:
  assumes "distinct (map mc_uuid (ss_machines st))"
    and "schedule_on_existing_machines core_config k pools st = (r, st')"
  shows "(\<forall>m \<in> set (ss_machines st). mc_node m \<noteq> None \<longrightarrow> m \<in> set (ss_machines st')) \<and>
    (\<forall>m \<in> set (ss_machines st'). m \<in> set (ss_machines st) \<or>
       (\<exists>m0 \<in> set (ss_machines st). \<exists>nb \<in> set (get_unscheduled_nodes st).
          mc_node m0 = None \<and> m = took_node (nb_node nb) m0 \<and> enough (nb_node nb) m0)) \<and>
    (\<forall>rest nb. r = Inr rest \<longrightarrow> nb \<in> set (get_unscheduled_nodes st) \<longrightarrow> nd_node_type (nb_node nb) = NodeVM \<longrightarrow>
       nb \<in> set rest \<or> (\<exists>m \<in> set (ss_machines st'). mc_node m = Some (nd_uuid (nb_node nb))))"
proof -
  let ?el0 = "\<lparr>el_hws = filter (\<lambda>m. mc_machine_type (mb_machine m) = NodeHW) (get_idle_machines st),
     el_vms = filter (\<lambda>m. mc_machine_type (mb_machine m) = NodeVM) (get_idle_machines st),
     el_unscheduled = [], el_state = st\<rparr>"
  have inv0: "existing_inv st {} ?el0"
    using assms(1) idle_listed_init by (auto simp: existing_inv_def)
  obtain e el where e: "erun (existing_step core_config k pools) (get_unscheduled_nodes st) ?el0 = (e, el)"
    by fastforce
  then have st': "st' = el_state el" "r = (case e of None \<Rightarrow> Inr (el_unscheduled el) | Some x \<Rightarrow> Inl x)"
    using assms(2) by (auto simp: schedule_on_existing_machines_def Let_def)
  obtain seen where s: "existing_inv st seen el" "seen \<subseteq> set (get_unscheduled_nodes st)"
      "e = None \<longrightarrow> seen = set (get_unscheduled_nodes st)"
    using core_existing_run_inv [OF inv0 e] by auto
  have "\<And>rest. r = Inr rest \<Longrightarrow> e = None \<and> rest = el_unscheduled el"
    using st'(2) by (auto split: option.splits)
  note e0 = this
  have a: "\<forall>m \<in> set (ss_machines st). mc_node m \<noteq> None \<longrightarrow> m \<in> set (ss_machines st')"
    using s(1) unfolding existing_inv_def st'(1) by (elim conjE)
  have b: "\<forall>m \<in> set (ss_machines st'). m \<in> set (ss_machines st) \<or>
       (\<exists>m0 \<in> set (ss_machines st). \<exists>nb \<in> seen. mc_node m0 = None \<and> m = took_node (nb_node nb) m0 \<and> enough (nb_node nb) m0)"
    using s(1) unfolding existing_inv_def st'(1) by (elim conjE)
  have c: "\<forall>nb \<in> seen. nd_node_type (nb_node nb) = NodeVM \<longrightarrow> nb \<in> set (el_unscheduled el) \<or>
        (\<exists>m \<in> set (ss_machines st'). mc_node m = Some (nd_uuid (nb_node nb)))"
    using s(1) unfolding existing_inv_def st'(1) by (elim conjE)
  show ?thesis
  proof (intro conjI allI impI)
    fix rest nb
    assume "r = Inr rest" "nb \<in> set (get_unscheduled_nodes st)" "nd_node_type (nb_node nb) = NodeVM"
    then show "nb \<in> set rest \<or> (\<exists>m \<in> set (ss_machines st'). mc_node m = Some (nd_uuid (nb_node nb)))"
      using c s(3) e0 by blast
  qed (use a in assumption, use b s(2) in \<open>meson subsetD\<close>)
qed

definition idle_state :: sched_state where
  "idle_state = empty_sched\<lparr>ss_nodes := [demo_node_of ''n'' 1 8 NodeVM, demo_node_of ''h'' 1 8 NodeHW],
     ss_machines := [(new_machine (demo_node_of ''m'' 2 16 NodeVM) ''pool'')\<lparr>mc_node := None, mc_status := StIdle\<rparr>]\<rparr>"

theorem existing_machines_assigned_once_witness:
  "\<exists>st'. snd (schedule_on_existing_machines core_config thin_sdk demo_pools idle_state) = st' \<and>
     (\<exists>m \<in> set (ss_machines st'). mc_node m = Some ''n'')"
proof -
  obtain r st' where r: "schedule_on_existing_machines core_config thin_sdk demo_pools idle_state = (r, st')"
    by fastforce
  have d: "distinct (map mc_uuid (ss_machines idle_state))" by code_simp
  have "fst (schedule_on_existing_machines core_config thin_sdk demo_pools idle_state) = Inr []" by code_simp
  then have "r = Inr []" using r by simp
  moreover have "\<lparr>nb_node = demo_node_of ''n'' 1 8 NodeVM, nb_volumes = []\<rparr> \<in> set (get_unscheduled_nodes idle_state)"
    by code_simp
  moreover have "nd_node_type (demo_node_of ''n'' 1 8 NodeVM) = NodeVM" "nd_uuid (demo_node_of ''n'' 1 8 NodeVM) = ''n''"
    by code_simp+
  moreover note existing_machines_assigned_once [OF d r, THEN conjunct2, THEN conjunct2, rule_format,
      of "[]" "\<lparr>nb_node = demo_node_of ''n'' 1 8 NodeVM, nb_volumes = []\<rparr>"]
  ultimately have "\<exists>m \<in> set (ss_machines st'). mc_node m = Some ''n''" by simp
  with r show ?thesis by auto
qed

text \<open>A hardware node with volumes is never scheduled: the pools offered for the disk check are only
  those of virtual machines, so no idle machine of a hardware pool passes it, and the node is
  marked as failed.\<close>

theorem hw_node_with_volumes_fails:
  assumes "nd_node_type (nb_node nb) = NodeHW" and "nb_volumes nb \<noteq> []"
    and "\<forall>mb \<in> set (el_hws el). \<forall>p \<in> set (ss_pools st). mc_pool (mb_machine mb) = Some (mp_uuid p) \<longrightarrow> mp_machine_type p = NodeHW"
  shows "\<exists>st'. existing_step core_config k (get_pools st) nb el = Inr (el\<lparr>el_state := st'\<rparr>) \<and>
    ss_machines st' = ss_machines (el_state el) \<and>
    (nd_status (nb_node nb) \<noteq> StError \<longrightarrow>
       (nb_node nb)\<lparr>nd_status := StError, nd_description := no_machine_description\<rparr> \<in> set (ss_nodes st'))"
proof -
  let ?suit = "fold (\<lambda>flt ms. flt nb ms) (sc_machine_filters core_config) (el_hws el)"
  have no: "machine_has_disk_capacity k nb (get_pools st) mb = Inr False" if "mb \<in> set ?suit" for mb
  proof -
    have "mb \<in> set (el_hws el)" using that core.suitable_subset by blast
    then have "Some (pb_uuid p) \<noteq> mc_pool (mb_machine mb)" if "p \<in> set (get_pools st)" for p
      using that assms(3) by (fastforce simp: get_pools_def pb_uuid_def dest!: in_set_takeD)
    then have "find_pool (get_pools st) (mc_pool (mb_machine mb)) = None"
      by (auto simp: find_pool_def find_None_iff)
    then show ?thesis using assms(2) by (simp add: machine_has_disk_capacity_def)
  qed
  have "efilter (machine_has_disk_capacity k nb (get_pools st)) xs = Inr []" if "set xs \<subseteq> set ?suit" for xs
    using that by (induction xs) (auto simp: no)
  then have "efilter (machine_has_disk_capacity k nb (get_pools st)) ?suit = Inr []" by simp
  then have step: "existing_step core_config k (get_pools st) nb el =
      Inr (if nd_status (nb_node nb) \<noteq> StError
        then el\<lparr>el_state := save_node ((nb_node nb)\<lparr>nd_status := StError,
               nd_description := no_machine_description\<rparr>) (el_state el)\<rparr> else el)"
    using assms(1) by (simp add: existing_step_def Let_def)
  show ?thesis
  proof (cases "nd_status (nb_node nb) = StError")
    case True
    then show ?thesis unfolding step by (intro exI [of _ "el_state el"]) simp
  next
    case False
    let ?st = "save_node ((nb_node nb)\<lparr>nd_status := StError, nd_description := no_machine_description\<rparr>) (el_state el)"
    show ?thesis unfolding step using False by (intro exI [of _ ?st]) (simp add: save_node_def)
  qed
qed

theorem hw_node_with_volumes_fails_witness:
  "is_ok (existing_step core_config thin_sdk (get_pools empty_sched) (demo_nb ''h'' 1 NodeHW 5)
     \<lparr>el_hws = [], el_vms = [], el_unscheduled = [], el_state = empty_sched\<rparr>)"
proof -
  let ?el = "\<lparr>el_hws = [], el_vms = [], el_unscheduled = [], el_state = empty_sched\<rparr>"
  have 1: "nd_node_type (nb_node (demo_nb ''h'' 1 NodeHW 5)) = NodeHW" by code_simp
  have 2: "nb_volumes (demo_nb ''h'' 1 NodeHW 5) \<noteq> []" by code_simp
  have 3: "\<forall>mb \<in> set (el_hws ?el). \<forall>p \<in> set (ss_pools empty_sched).
      mc_pool (mb_machine mb) = Some (mp_uuid p) \<longrightarrow> mp_machine_type p = NodeHW" by simp
  from hw_node_with_volumes_fails [OF 1 2 3, of thin_sdk] show ?thesis by auto
qed

text \<open>One volume that cannot be placed stops the round: no volume after it is looked at, although
  the handler is written to go on with the next one.\<close>

theorem unplaceable_volume_stops_round:
  assumes "get_unscheduled_volumes st = v # rest" and "pools \<noteq> []" and "vl_node v = Some n"
    and "find (\<lambda>m. mc_node m = Some n) (rev (get_machines_for_nodes (List.map_filter vl_node (v # rest)) st)) = Some m"
    and "find_pool pools (mc_pool m) = Some pb" and "place_volume_into_pool k v pb = Inl e"
  shows "schedule_volume_on_pools k pools st = (Some AttributeError, pools, st)"
  using assms by (simp add: schedule_volume_on_pools_def Let_def volume_step_def)

definition big_volume_state :: sched_state where
  "big_volume_state = empty_sched\<lparr>ss_volumes := [demo_volume ''v'' (Some ''m'') 50 None, demo_volume ''w'' (Some ''m'') 1 None],
     ss_machines := [new_machine (demo_node_of ''m'' 1 1 NodeVM) ''pool'']\<rparr>"

theorem unplaceable_volume_stops_round_witness:
  "schedule_volume_on_pools thin_sdk demo_pools big_volume_state = (Some AttributeError, demo_pools, big_volume_state)"
proof (rule unplaceable_volume_stops_round)
  show "get_unscheduled_volumes big_volume_state = [demo_volume ''v'' (Some ''m'') 50 None, demo_volume ''w'' (Some ''m'') 1 None]"
    by code_simp
  show "demo_pools \<noteq> []" by (simp add: demo_pools_def)
  show "vl_node (demo_volume ''v'' (Some ''m'') 50 None) = Some ''m''" by code_simp
  show "find (\<lambda>m. mc_node m = Some ''m'') (rev (get_machines_for_nodes (List.map_filter vl_node
      [demo_volume ''v'' (Some ''m'') 50 None, demo_volume ''w'' (Some ''m'') 1 None]) big_volume_state))
      = Some (new_machine (demo_node_of ''m'' 1 1 NodeVM) ''pool'')"
    by code_simp
  show "find_pool demo_pools (mc_pool (new_machine (demo_node_of ''m'' 1 1 NodeVM) ''pool'')) = Some demo_bundle"
    by code_simp
  show "place_volume_into_pool thin_sdk (demo_volume ''v'' (Some ''m'') 50 None) demo_bundle = Inl NoStoragePool"
    by code_simp
qed

end
