(* ===== verification/Pool_Builder.thy ===== *)
theory Pool_Builder
  imports Placement Ipam
begin

text \<open>
  The pool builder (\<open>exordos_core/compute/builders/pool.py\<close>, with the models of
  \<open>compute/pool/dm/models.py\<close>): what it decides about a machine and a machine volume before it
  hands them to the agent of their pool.  The lifecycle of the builder (when a hook is called)
  belongs to the SDK; every hook of the class is a definition here.  A hook returns its result
  with the tables it leaves; of a hook that raises only the exception (\<open>Inl\<close>) is kept.  The MAC address of the port of the boot network is random in the code and an
  argument here.
\<close>

section \<open>Models\<close>

record port_info =
  pi_ipv4 :: "int option"
  pi_mask :: "int option"
  pi_mac :: "string option"
  pi_source :: "string option"

record pool_machine =
  pm_uuid :: uuid
  pm_name :: string
  pm_project_id :: uuid
  pm_cores :: int
  pm_ram :: int
  pm_status :: status
  pm_machine_type :: node_type
  pm_node :: uuid
  pm_pool :: "uuid option"
  pm_boot :: boot
  pm_image :: "string option"
  pm_power_state :: "power_state option"
  pm_agent :: "uuid option"
  pm_port_info :: port_info

record guest_machine =
  gm_uuid :: uuid
  gm_image :: string
  gm_hostname :: string
  gm_boot :: boot
  gm_status :: status
  gm_agent :: uuid

datatype derivative = PoolM pool_machine | GuestM guest_machine

record artifact =
  ar_urn :: string
  ar_uri :: string
  ar_priority :: int

datatype builder_error = PoolNotFound | ArtifactNotFound string | NoPortOrVolume | DerivativeMissing
  | BuilderIndexError | NoNode | NoNodeVolume | BootSubnetLookup | ImageRequired | ImmutableUuid | BuilderSdkError

text \<open>The rows the hooks read and write, and the iteration context.\<close>

record builder_state =
  bs_machines :: "machine list"
  bs_nodes :: "node list"
  bs_mvolumes :: "machine_volume list"
  bs_ports :: "port list"
  bs_subnets :: "subnet list"
  bs_artifacts :: "artifact list"
  bs_guest_agents :: "(uuid \<times> uuid) list"
  bs_pools :: "machine_pool list"
  bs_context :: "(uuid, port \<times> machine_volume) dict"

section \<open>Machines\<close>

definition agent_by_pool :: "builder_state \<Rightarrow> uuid option \<Rightarrow> builder_error + uuid option" where
  "agent_by_pool st pool_uuid = (case find (\<lambda>p. Some (mp_uuid p) = pool_uuid) (bs_pools st) of
     Some p \<Rightarrow> Inr (mp_agent p)
   | None \<Rightarrow> Inl PoolNotFound)"

definition core_machine_name_prefix :: string where
  "core_machine_name_prefix = ''core-set-node''"

definition is_core_machine :: "machine \<Rightarrow> bool" where
  "is_core_machine m = starts_with (mc_name m) core_machine_name_prefix"

definition set_machine_ctx :: "machine \<Rightarrow> port list \<Rightarrow> machine_volume list \<Rightarrow> builder_state \<Rightarrow> builder_error + builder_state" where
  "set_machine_ctx m ports vols st = (case (ports, vols) of
     (p # _, v # _) \<Rightarrow> Inr (st\<lparr>bs_context := dset (mc_uuid m) (p, v) (bs_context st)\<rparr>)
   | _ \<Rightarrow> Inl BuilderIndexError)"

definition fetch_machine_deps :: "machine \<Rightarrow> builder_state \<Rightarrow> builder_error + port list \<times> machine_volume list" where
  "fetch_machine_deps m st = (case mc_node m of
     None \<Rightarrow> Inl NoNode
   | Some n \<Rightarrow> Inr (filter (\<lambda>p. po_node p = Some n) (bs_ports st),
       sort_key mv_index (filter (\<lambda>v. mv_machine v = Some (mc_uuid m)) (bs_mvolumes st))))"

definition get_or_fetch_machine_ctx :: "machine \<Rightarrow> builder_state \<Rightarrow> builder_error + (port \<times> machine_volume) \<times> builder_state" where
  "get_or_fetch_machine_ctx m st = (case dget (bs_context st) (mc_uuid m) of
     Some pv \<Rightarrow> Inr (pv, st)
   | None \<Rightarrow>
       ebind (fetch_machine_deps m st) (\<lambda>(ports, vols).
       ebind (set_machine_ctx m ports vols st) (\<lambda>st'.
       Inr ((hd ports, hd vols), st'))))"

definition reschedule_machine :: "uuid \<Rightarrow> builder_state \<Rightarrow> builder_state" where
  "reschedule_machine u st = st\<lparr>bs_machines := remove_by mc_uuid u (bs_machines st)\<rparr>"

definition has_enough_resources_in_pool :: "machine_pool \<Rightarrow> machine \<Rightarrow> machine option \<Rightarrow> bool" where
  "has_enough_resources_in_pool p target actual =
     (let cores = (case actual of None \<Rightarrow> 0 | Some a \<Rightarrow> mc_cores a);
          ram = (case actual of None \<Rightarrow> 0 | Some a \<Rightarrow> mc_ram a) in
      mp_avail_cores p \<ge> mc_cores target - cores \<and> mp_avail_ram p \<ge> mc_ram target - ram)"

definition can_create_machine :: "machine_pool \<Rightarrow> machine \<Rightarrow> builder_state \<Rightarrow> builder_error + bool \<times> builder_state" where
  "can_create_machine p m st =
     (if \<not> has_enough_resources_in_pool p m None then Inr (False, reschedule_machine (mc_uuid m) st)
      else
        ebind (fetch_machine_deps m st) (\<lambda>(ports, vols).
        if ports = [] \<or> vols = [] then Inr (False, st)
        else if po_status (hd ports) \<noteq> PActive then Inr (False, st)
        else ebind (set_machine_ctx m ports vols st) (\<lambda>st'. Inr (True, st'))))"

text \<open>The machine keeps its own copy of the node; the update fails if it has none.\<close>

definition can_update_machine :: "machine_pool \<Rightarrow> machine \<Rightarrow> node option \<Rightarrow> machine \<Rightarrow> builder_state \<Rightarrow> builder_error + bool \<times> builder_state" where
  "can_update_machine p target n actual st =
     (if \<not> has_enough_resources_in_pool p target (Some actual) then
        (case n of
           None \<Rightarrow> Inl NoNode
         | Some nd \<Rightarrow> Inr (False, st\<lparr>
             bs_machines := save_row mc_uuid (target\<lparr>mc_status := StError\<rparr>) (bs_machines st),
             bs_nodes := save_row nd_uuid (nd\<lparr>nd_status := StError\<rparr>) (bs_nodes st)\<rparr>))
      else Inr (True, st))"

text \<open>\<open>max(..., key=...)\<close> returns the first of the greatest.\<close>

fun max_priority :: "artifact \<Rightarrow> artifact list \<Rightarrow> artifact" where
  "max_priority a [] = a"
| "max_priority a (b # bs) = max_priority (if ar_priority b > ar_priority a then b else a) bs"

definition resolve_image :: "builder_state \<Rightarrow> string option \<Rightarrow> builder_error + string option" where
  "resolve_image st image_opt = (case image_opt of
     None \<Rightarrow> Inr None
   | Some img \<Rightarrow>
       if \<not> starts_with img ''urn:'' then Inr (Some img)
       else (case filter (\<lambda>a. ar_urn a = img) (bs_artifacts st) of
               [] \<Rightarrow> Inl (ArtifactNotFound img)
             | [a] \<Rightarrow> Inr (Some (ar_uri a))
             | a # as \<Rightarrow> Inr (Some (ar_uri (max_priority a as)))))"

definition zero_uuid :: uuid where
  "zero_uuid = ''00000000-0000-0000-0000-000000000000''"

definition from_boot_network :: "string \<Rightarrow> builder_state \<Rightarrow> builder_error + port" where
  "from_boot_network mac st = (case filter (\<lambda>s. sn_next_server s \<noteq> None) (bs_subnets st) of
     [s] \<Rightarrow> Inr \<lparr>po_uuid = zero_uuid, po_subnet = sn_uuid s, po_node = None, po_machine = None,
              po_interface = None, po_target_ipv4 = None, po_target_mask = None, po_ipv4 = None,
              po_mask = None, po_mac = Some mac, po_status = PActive, po_source = Some (sn_name s),
              po_project_id = zero_uuid\<rparr>
   | _ \<Rightarrow> Inl BootSubnetLookup)"

definition from_machine_and_port :: "machine \<Rightarrow> uuid \<Rightarrow> port \<Rightarrow> uuid option \<Rightarrow> pool_machine" where
  "from_machine_and_port m n p agent_uuid =
     \<lparr>pm_uuid = mc_uuid m, pm_name = mc_name m, pm_project_id = mc_project_id m, pm_cores = mc_cores m,
      pm_ram = mc_ram m, pm_status = StNew, pm_machine_type = mc_machine_type m, pm_node = n,
      pm_pool = mc_pool m, pm_boot = mc_boot m, pm_image = mc_image m,
      pm_power_state = Some (mc_target_power_state m), pm_agent = agent_uuid,
      pm_port_info = \<lparr>pi_ipv4 = po_ipv4 p, pi_mask = po_mask p, pi_mac = po_mac p, pi_source = po_source p\<rparr>\<rparr>"

text \<open>
  Whether a machine boots from the network: a new one, and one whose guest reports another image
  than the one wanted; never one of the core set.
\<close>

definition boot_from_network :: "machine \<Rightarrow> (guest_machine \<times> guest_machine option) option \<Rightarrow> string option \<Rightarrow> bool" where
  "boot_from_network m guest_pair resolved =
     (case guest_pair of
        None \<Rightarrow> \<not> is_core_machine m
      | Some (_, guest_actual) \<Rightarrow>
          \<not> is_core_machine m \<and>
          (case guest_actual of None \<Rightarrow> False | Some g \<Rightarrow> Some (gm_image g) \<noteq> resolved))"

definition register_guest_agent :: "machine \<Rightarrow> uuid \<Rightarrow> builder_state \<Rightarrow> builder_state" where
  "register_guest_agent m n st =
     (if mc_uuid m \<in> fst ` set (bs_guest_agents st) then st
      else st\<lparr>bs_guest_agents := bs_guest_agents st @ [(mc_uuid m, n)]\<rparr>)"

definition actualize_on_create_update ::
  "string \<Rightarrow> machine \<Rightarrow> node option \<Rightarrow> (guest_machine \<times> guest_machine option) option \<Rightarrow> builder_state
     \<Rightarrow> builder_error + machine \<times> pool_machine \<times> guest_machine \<times> builder_state" where
  "actualize_on_create_update mac m nd guest_pair st =
     ebind (get_or_fetch_machine_ctx m st) (\<lambda>((port0, vol), st1).
     ebind (resolve_image st1 (mv_image vol)) (\<lambda>resolved.
     ebind (case nd of None \<Rightarrow> Inl NoNode | Some n \<Rightarrow> Inr n) (\<lambda>n.
     let st2 = register_guest_agent m (nd_uuid n) st1;
         network = boot_from_network m guest_pair resolved;
         boot_mode = (if network then BootNetwork else BootHd0) in
     ebind (if network then from_boot_network mac st2 else Inr port0) (\<lambda>prt.
     let m' = m\<lparr>mc_boot := boot_mode, mc_image := mv_image vol\<rparr> in
     ebind (agent_by_pool st2 (mc_pool m)) (\<lambda>agent_uuid.
     ebind (case resolved of None \<Rightarrow> Inl ImageRequired | Some i \<Rightarrow> Inr i) (\<lambda>img.
     Inr (m', from_machine_and_port m' (nd_uuid n) prt agent_uuid,
          \<lparr>gm_uuid = mc_uuid m, gm_image = img,
           gm_hostname = (case nd_hostname n of None \<Rightarrow> nd_name n | Some h \<Rightarrow> if h = [] then nd_name n else h),
           gm_boot = boot_mode, gm_status = StNew, gm_agent = mc_uuid m\<rparr>, st2)))))))"

text \<open>The two hooks that call it: creation, and an update with the pairs of derivatives.\<close>

definition guest_pair_of :: "(derivative \<times> derivative option) list \<Rightarrow> (guest_machine \<times> guest_machine option) option" where
  "guest_pair_of ps = fold (\<lambda>p acc. case p of
       (GuestM t, a) \<Rightarrow> Some (t, case a of Some (GuestM g) \<Rightarrow> Some g | _ \<Rightarrow> None)
     | _ \<Rightarrow> acc) ps None"

definition pool_pair_of :: "(derivative \<times> derivative option) list \<Rightarrow> (pool_machine \<times> pool_machine option) option" where
  "pool_pair_of ps = fold (\<lambda>p acc. case p of
       (PoolM t, a) \<Rightarrow> Some (t, case a of Some (PoolM g) \<Rightarrow> Some g | _ \<Rightarrow> None)
     | _ \<Rightarrow> acc) ps None"

definition create_instance_derivatives where
  "create_instance_derivatives mac m nd st = actualize_on_create_update mac m nd None st"

definition update_instance_derivatives where
  "update_instance_derivatives mac m nd ps st = actualize_on_create_update mac m nd (guest_pair_of ps) st"

section \<open>Status of a machine\<close>

definition actualize_machine_status :: "builder_state \<Rightarrow> machine \<Rightarrow> pool_machine option \<Rightarrow> guest_machine option \<Rightarrow> builder_error + machine" where
  "actualize_machine_status st m pool_opt guest_opt = (case (pool_opt, guest_opt) of
     (Some pm, Some gm) \<Rightarrow>
       (let m1 = m\<lparr>mc_power_state := pm_power_state pm\<rparr> in
        if pm_status pm = StError \<or> gm_status gm = StError then Inr (m1\<lparr>mc_status := StError\<rparr>)
        else if pm_status pm = StNew \<or> gm_status gm = StNew then Inr (m1\<lparr>mc_status := StNew\<rparr>)
        else if pm_status pm = StActive \<and> gm_status gm = StActive then
          ebind (resolve_image st (mc_image m)) (\<lambda>resolved.
          if mc_image m = pm_image pm \<and> resolved = Some (gm_image gm) \<and>
             Some (mc_target_power_state m) = pm_power_state pm
          then Inr (m1\<lparr>mc_status := StActive\<rparr>)
          else Inr (m1\<lparr>mc_status := StInProgress\<rparr>))
        else Inr (m1\<lparr>mc_status := StInProgress\<rparr>))
   | _ \<Rightarrow> Inr m)"

definition actualize_on_outdate ::
  "machine \<Rightarrow> node option \<Rightarrow> (derivative \<times> derivative option) list \<Rightarrow> builder_state
     \<Rightarrow> builder_error + machine \<times> pool_machine \<times> guest_machine \<times> builder_state" where
  "actualize_on_outdate m nd ps st = (case (pool_pair_of ps, guest_pair_of ps) of
     (Some (tpm, pm), Some (tgm, gm)) \<Rightarrow>
       ebind
         (if (case gm of None \<Rightarrow> False | Some g \<Rightarrow> gm_boot g = BootNetwork \<and> gm_status g = StFlashed) then
            ebind (get_or_fetch_machine_ctx m st) (\<lambda>((prt, _), st1).
            ebind (agent_by_pool st1 (mc_pool m)) (\<lambda>agent_uuid.
            ebind (case nd of None \<Rightarrow> Inl NoNode | Some n \<Rightarrow> Inr n) (\<lambda>n.
            let m1 = m\<lparr>mc_boot := BootHd0\<rparr> in
            Inr (m1, from_machine_and_port m1 (nd_uuid n) prt agent_uuid, tgm\<lparr>gm_boot := BootHd0\<rparr>, st1))))
          else Inr (m, tpm, tgm, st))
         (\<lambda>(m1, tpm1, tgm1, st1).
       ebind (actualize_machine_status st1 m1 pm gm) (\<lambda>m2. Inr (m2, tpm1, tgm1, st1)))
   | _ \<Rightarrow> Inl DerivativeMissing)"

section \<open>Volumes\<close>

text \<open>A volume that names a storage pool may only use that one, and only if the name is unique.\<close>

definition wanted_pool :: "machine_volume \<Rightarrow> string option" where
  "wanted_pool v = (case mv_storage_pool v of None \<Rightarrow> None | Some s \<Rightarrow> if s = [] then None else Some s)"

definition select_pinned_pool :: "sdk \<Rightarrow> machine_pool \<Rightarrow> machine_volume \<Rightarrow> int \<Rightarrow> storage_pool option" where
  "select_pinned_pool k p v n =
     (if (case wanted_pool v of None \<Rightarrow> False
          | Some s \<Rightarrow> count_list (map sp_name (mp_storage_pools p)) s \<noteq> 1)
      then None
      else sdk_select k (uniquely_named (mp_storage_pools p)) (mv_tier v) (mv_ephemeral v) n (wanted_pool v))"

definition has_enough_space_in_pool :: "sdk \<Rightarrow> machine_pool \<Rightarrow> machine_volume \<Rightarrow> machine_volume option \<Rightarrow> bool" where
  "has_enough_space_in_pool k p target actual =
     (let n = mv_size target - (case actual of None \<Rightarrow> 0 | Some a \<Rightarrow> mv_size a) in
      select_pinned_pool k p target n \<noteq> None)"

definition reschedule_volume :: "uuid \<Rightarrow> builder_state \<Rightarrow> builder_state" where
  "reschedule_volume u st = st\<lparr>bs_mvolumes := remove_by mv_uuid u (bs_mvolumes st)\<rparr>"

definition charge_storage :: "sdk \<Rightarrow> int \<Rightarrow> storage_pool \<Rightarrow> machine_pool \<Rightarrow> builder_error + machine_pool" where
  "charge_storage k n sp p = (case sdk_allocate k n sp of
     Inl e \<Rightarrow> Inl BuilderSdkError
   | Inr sp' \<Rightarrow> Inr (p\<lparr>mp_storage_pools := put_by sp_name sp' (mp_storage_pools p)\<rparr>))"

text \<open>The pool is the one the volume refers to; it is returned as the hook leaves it.\<close>

definition can_create_volume :: "sdk \<Rightarrow> machine_pool \<Rightarrow> machine_volume \<Rightarrow> builder_state \<Rightarrow> builder_error + bool \<times> machine_pool \<times> builder_state" where
  "can_create_volume k p v st =
     (if \<not> has_enough_space_in_pool k p v None then
        (case mv_machine v of
           Some m \<Rightarrow> if mv_index v = 0 then Inr (False, p, reschedule_machine m (reschedule_volume (mv_uuid v) st))
                      else Inr (False, p, reschedule_volume (mv_uuid v) st)
         | None \<Rightarrow> Inr (False, p, reschedule_volume (mv_uuid v) st))
      else
        (case select_pinned_pool k p v (mv_size v) of
           None \<Rightarrow> Inl BuilderSdkError
         | Some sp \<Rightarrow> ebind (charge_storage k (mv_size v) sp p) (\<lambda>p'. Inr (True, p', st))))"

text \<open>
  \<open>node_volume\<close> is a plain UUID in the model the builder uses, so the assignment to its
  \<open>status\<close> raises before anything is saved.
\<close>

definition can_update_volume :: "sdk \<Rightarrow> machine_pool \<Rightarrow> machine_volume \<Rightarrow> machine_volume \<Rightarrow> builder_state \<Rightarrow> builder_error + bool \<times> machine_pool \<times> builder_state" where
  "can_update_volume k p target actual st =
     (if \<not> has_enough_space_in_pool k p target (Some actual) then
        (case mv_node_volume target of None \<Rightarrow> Inl NoNodeVolume | Some _ \<Rightarrow> Inl ImmutableUuid)
      else
        let n = mv_size target - mv_size actual in
        (case select_pinned_pool k p target n of
           None \<Rightarrow> Inl BuilderSdkError
         | Some sp \<Rightarrow> ebind (charge_storage k n sp p) (\<lambda>p'. Inr (True, p', st))))"

section \<open>Hooks of the builder\<close>

definition prepare_iteration :: "uuid \<Rightarrow> machine_pool list \<Rightarrow> builder_state \<Rightarrow> builder_state" where
  "prepare_iteration builder all_pools st =
     st\<lparr>bs_pools := filter (\<lambda>p. mp_builder p = Some builder) all_pools, bs_context := []\<rparr>"

text \<open>The instances the hooks dispatch on, with the objects they refer to.\<close>

datatype builder_instance = MachineI machine_pool machine "node option" | VolumeI machine_pool machine_volume
  | PoolI machine_pool

definition can_create_instance_resource :: "sdk \<Rightarrow> builder_instance \<Rightarrow> builder_state \<Rightarrow> builder_error + bool \<times> builder_instance \<times> builder_state" where
  "can_create_instance_resource k i st = (case i of
     MachineI p m n \<Rightarrow> ebind (can_create_machine p m st) (\<lambda>(b, st'). Inr (b, i, st'))
   | VolumeI p v \<Rightarrow> ebind (can_create_volume k p v st) (\<lambda>(b, p', st'). Inr (b, VolumeI p' v, st'))
   | PoolI p \<Rightarrow> Inr (True, i, st))"

definition can_update_instance_resource :: "sdk \<Rightarrow> builder_instance \<Rightarrow> builder_instance \<Rightarrow> builder_state \<Rightarrow> (builder_error + bool \<times> builder_instance \<times> builder_state) option" where
  "can_update_instance_resource k i actual st = (case (i, actual) of
     (MachineI p m n, MachineI _ a _) \<Rightarrow> Some (ebind (can_update_machine p m n a st) (\<lambda>(b, st'). Inr (b, i, st')))
   | (VolumeI p v, VolumeI _ a) \<Rightarrow> Some (ebind (can_update_volume k p v a st) (\<lambda>(b, p', st'). Inr (b, VolumeI p' v, st')))
   | (PoolI p, PoolI _) \<Rightarrow> Some (Inr (True, i, st))
   | _ \<Rightarrow> None)"

definition actualize_outdated_pool :: "machine_pool \<Rightarrow> machine_pool \<Rightarrow> machine_pool" where
  "actualize_outdated_pool p actual = p\<lparr>mp_all_cores := mp_all_cores actual, mp_all_ram := mp_all_ram actual,
     mp_avail_cores := mp_avail_cores actual, mp_avail_ram := mp_avail_ram actual,
     mp_storage_pools := mp_storage_pools actual, mp_status := mp_status actual\<rparr>"

definition actualize_outdated_volume :: "machine_volume \<Rightarrow> machine_volume \<Rightarrow> machine_volume" where
  "actualize_outdated_volume v actual = v\<lparr>mv_status := mv_status actual\<rparr>"

text \<open>Before a machine goes, everything placed on its node goes and what its agents served is unscheduled.\<close>

record agent_tables =
  at_resources :: "(uuid \<times> uuid option) list"
  at_agents :: "(uuid \<times> uuid option) list"
  at_targets :: "(uuid \<times> uuid option) list"

definition pre_delete_machine_resource :: "uuid \<Rightarrow> agent_tables \<Rightarrow> agent_tables" where
  "pre_delete_machine_resource u t =
     (let agents = map fst (filter (\<lambda>(_, n). n = Some u) (at_agents t)) in
      t\<lparr>at_resources := filter (\<lambda>(_, n). n \<noteq> Some u) (at_resources t),
        at_agents := filter (\<lambda>(_, n). n \<noteq> Some u) (at_agents t),
        at_targets := map (\<lambda>(x, a). (x, if a \<in> Some ` set agents then None else a)) (at_targets t)\<rparr>)"

definition pre_delete_instance_resource :: "string \<Rightarrow> uuid \<Rightarrow> agent_tables \<Rightarrow> agent_tables" where
  "pre_delete_instance_resource kind u t =
     (if kind = ''machine'' then pre_delete_machine_resource u t else t)"

section \<open>Lemmas\<close>

lemma max_priority_mem: "max_priority a as \<in> set (a # as)"
  by (induction a as rule: max_priority.induct) (auto split: if_splits)

lemma max_priority_greatest: "x \<in> set (a # as) \<Longrightarrow> ar_priority x \<le> ar_priority (max_priority a as)"
proof (induction a as arbitrary: x rule: max_priority.induct)
  case (2 a b bs)
  let ?c = "if ar_priority b > ar_priority a then b else a"
  have "ar_priority ?c \<le> ar_priority (max_priority ?c bs)" using "2.IH" [of ?c] by simp
  moreover have "ar_priority x \<le> ar_priority (max_priority ?c bs)" if "x \<in> set bs" using "2.IH" that by simp
  ultimately show ?case using "2.prems" by (auto split: if_splits)
qed simp

lemma resolve_image_urn:
  assumes "starts_with img ''urn:''" and "resolve_image st (Some img) = Inr r"
  shows "\<exists>a \<in> set (bs_artifacts st). ar_urn a = img \<and> r = Some (ar_uri a) \<and>
    (\<forall>b \<in> set (bs_artifacts st). ar_urn b = img \<longrightarrow> ar_priority b \<le> ar_priority a)"
proof -
  obtain a as where f: "filter (\<lambda>a. ar_urn a = img) (bs_artifacts st) = a # as"
    and r: "r = Some (ar_uri (max_priority a as))"
    using assms by (auto simp: resolve_image_def split: list.splits)
  have "set (a # as) = {x \<in> set (bs_artifacts st). ar_urn x = img}" unfolding f [symmetric] by auto
  with r max_priority_mem [of a as] max_priority_greatest [of _ a as] show ?thesis by blast
qed

lemma set_machine_ctx_keeps: "set_machine_ctx m ps vs st = Inr st' \<Longrightarrow> \<exists>c. st' = st\<lparr>bs_context := c\<rparr>"
  by (auto simp: set_machine_ctx_def split: list.splits)

lemma get_or_fetch_keeps:
  assumes "get_or_fetch_machine_ctx m st = Inr (pv, st')"
  shows "\<exists>c. st' = st\<lparr>bs_context := c\<rparr>"
proof (cases "dget (bs_context st) (mc_uuid m)")
  case None
  with assms obtain ps vs where "set_machine_ctx m ps vs st = Inr st'"
    by (auto simp: get_or_fetch_machine_ctx_def ebind_Inr_iff)
  then show ?thesis by (rule set_machine_ctx_keeps)
next
  case (Some x)
  with assms have "st' = st\<lparr>bs_context := bs_context st\<rparr>" by (simp add: get_or_fetch_machine_ctx_def)
  then show ?thesis by blast
qed

lemma resolve_image_cong: "bs_artifacts st' = bs_artifacts st \<Longrightarrow> resolve_image st' i = resolve_image st i"
  unfolding resolve_image_def by (erule ssubst) (rule refl)

lemma register_guest_agent_keeps [simp]:
  "bs_artifacts (register_guest_agent m n st) = bs_artifacts st"
  "bs_pools (register_guest_agent m n st) = bs_pools st"
  "bs_subnets (register_guest_agent m n st) = bs_subnets st"
  by (simp_all add: register_guest_agent_def)

lemma from_machine_and_port_simps [simp]:
  "pm_boot (from_machine_and_port m n p a) = mc_boot m" "pm_image (from_machine_and_port m n p a) = mc_image m"
  "pm_uuid (from_machine_and_port m n p a) = mc_uuid m" "pm_agent (from_machine_and_port m n p a) = a"
  "pm_port_info (from_machine_and_port m n p a) = \<lparr>pi_ipv4 = po_ipv4 p, pi_mask = po_mask p, pi_mac = po_mac p, pi_source = po_source p\<rparr>"
  by (simp_all add: from_machine_and_port_def)

lemma from_boot_network_port:
  "from_boot_network mac st = Inr p \<Longrightarrow> po_mac p = Some mac \<and> po_ipv4 p = None \<and>
     (\<exists>sn \<in> set (bs_subnets st). sn_next_server sn \<noteq> None \<and> po_source p = Some (sn_name sn))"
  by (force simp: from_boot_network_def filter_eq_Cons_iff split: list.splits)

text \<open>The parts of a successful creation or update.\<close>

lemma actualize_on_create_updateE:
  assumes "actualize_on_create_update mac m nd guest_pair st = Inr (m', pm, gm, st')"
  obtains port0 vol n st1 prt where "get_or_fetch_machine_ctx m st = Inr ((port0, vol), st1)"
    "resolve_image st (mv_image vol) = Inr (Some (gm_image gm))" "nd = Some n"
    "(if boot_from_network m guest_pair (Some (gm_image gm)) then from_boot_network mac st' else Inr port0) = Inr prt"
    "st' = register_guest_agent m (nd_uuid n) st1" "agent_by_pool st' (mc_pool m) = Inr (pm_agent pm)"
    "m' = m\<lparr>mc_boot := (if boot_from_network m guest_pair (Some (gm_image gm)) then BootNetwork else BootHd0),
            mc_image := mv_image vol\<rparr>"
    "pm = from_machine_and_port m' (nd_uuid n) prt (pm_agent pm)" "gm_boot gm = mc_boot m'"
proof -
  obtain port0 vol st1 where c: "get_or_fetch_machine_ctx m st = Inr ((port0, vol), st1)"
    using assms by (cases "get_or_fetch_machine_ctx m st") (auto simp: actualize_on_create_update_def)
  have art: "resolve_image st1 i = resolve_image st i" for i
  proof (rule resolve_image_cong)
    obtain ctx where "st1 = st\<lparr>bs_context := ctx\<rparr>" using get_or_fetch_keeps [OF c] by blast
    then show "bs_artifacts st1 = bs_artifacts st" by simp
  qed
  obtain n where n: "nd = Some n"
    using assms c by (cases nd) (auto simp: actualize_on_create_update_def ebind_Inr_iff)
  let ?st2 = "register_guest_agent m (nd_uuid n) st1"
  let ?mode = "\<lambda>r. if boot_from_network m guest_pair r then BootNetwork else BootHd0"
  let ?m = "\<lambda>r. m\<lparr>mc_boot := ?mode r, mc_image := mv_image vol\<rparr>"
  let ?gm = "\<lambda>r img. \<lparr>gm_uuid = mc_uuid m, gm_image = img,
           gm_hostname = (case nd_hostname n of None \<Rightarrow> nd_name n | Some h \<Rightarrow> if h = [] then nd_name n else h),
           gm_boot = ?mode r, gm_status = StNew, gm_agent = mc_uuid m\<rparr>"
  have "ebind (resolve_image st (mv_image vol)) (\<lambda>r.
      ebind (if boot_from_network m guest_pair r then from_boot_network mac ?st2 else Inr port0) (\<lambda>prt.
      ebind (agent_by_pool ?st2 (mc_pool m)) (\<lambda>ag.
      ebind (case r of None \<Rightarrow> Inl ImageRequired | Some i \<Rightarrow> Inr i) (\<lambda>img.
      Inr (?m r, from_machine_and_port (?m r) (nd_uuid n) prt ag, ?gm r img, ?st2))))) = Inr (m', pm, gm, st')"
    using assms by (simp add: actualize_on_create_update_def c n art Let_def)
  then obtain r prt ag img where r: "resolve_image st (mv_image vol) = Inr r"
    and p: "(if boot_from_network m guest_pair r then from_boot_network mac ?st2 else Inr port0) = Inr prt"
    and ag: "agent_by_pool ?st2 (mc_pool m) = Inr ag"
    and img: "(case r of None \<Rightarrow> Inl ImageRequired | Some i \<Rightarrow> Inr i) = Inr img"
    and res: "(?m r, from_machine_and_port (?m r) (nd_uuid n) prt ag, ?gm r img, ?st2) = (m', pm, gm, st')"
    unfolding ebind_Inr_iff by blast
  have "r = Some img" using img by (cases r) simp_all
  with res have "r = Some (gm_image gm)" "st' = ?st2" "m' = ?m r" "pm = from_machine_and_port m' (nd_uuid n) prt (pm_agent pm)"
      "gm_boot gm = mc_boot m'" "pm_agent pm = ag" by auto
  with c n r p ag show ?thesis using that by metis
qed

lemma select_pinned_pool_Some:
  assumes "sdk_ok k" and "select_pinned_pool k p v n = Some sp"
  shows "filter (\<lambda>x. sp_name x = sp_name sp) (mp_storage_pools p) = [sp] \<and> sp_ephemeral sp = mv_ephemeral v \<and>
    n \<le> sdk_available k sp \<and> (\<forall>s. wanted_pool v = Some s \<longrightarrow> sp_name sp = s)"
proof -
  have "sdk_select k (uniquely_named (mp_storage_pools p)) (mv_tier v) (mv_ephemeral v) n (wanted_pool v) = Some sp"
    using assms(2) by (auto simp: select_pinned_pool_def split: if_splits option.splits)
  from sdk_select_Some [OF assms(1) this] uniquely_named_filter show ?thesis by blast
qed

lemma charge_storage_fits:
  "sdk_ok k \<Longrightarrow> n \<le> sdk_available k sp \<Longrightarrow> charge_storage k n sp p =
     Inr (p\<lparr>mp_storage_pools := put_by sp_name (sp\<lparr>sp_provisioned := sp_provisioned sp + n\<rparr>) (mp_storage_pools p)\<rparr>)"
  using sdk_allocate_fits by (simp add: charge_storage_def)

text \<open>The growth of one storage pool, which keeps all of them within their capacity.\<close>

definition grown :: "sdk \<Rightarrow> int \<Rightarrow> machine_volume \<Rightarrow> machine_pool \<Rightarrow> machine_pool \<Rightarrow> bool" where
  "grown k n v p p' \<longleftrightarrow> (\<exists>sp. filter (\<lambda>x. sp_name x = sp_name sp) (mp_storage_pools p) = [sp] \<and>
     sp_ephemeral sp = mv_ephemeral v \<and> n \<le> sdk_available k sp \<and> (\<forall>s. wanted_pool v = Some s \<longrightarrow> sp_name sp = s) \<and>
     p' = p\<lparr>mp_storage_pools := put_by sp_name (sp\<lparr>sp_provisioned := sp_provisioned sp + n\<rparr>) (mp_storage_pools p)\<rparr>)"

lemma charge_selected_grown:
  assumes "sdk_ok k" and "select_pinned_pool k p v n = Some sp"
  shows "\<exists>p'. charge_storage k n sp p = Inr p' \<and> grown k n v p p'"
  using select_pinned_pool_Some [OF assms] charge_storage_fits [OF assms(1)] unfolding grown_def by blast

lemma grown_available:
  assumes k: "sdk_ok k" and g: "grown k n v p p'" and ok: "\<forall>sp \<in> set (mp_storage_pools p). 0 \<le> sdk_available k sp"
  shows "\<forall>sp \<in> set (mp_storage_pools p'). 0 \<le> sdk_available k sp"
proof -
  obtain sp where "n \<le> sdk_available k sp"
    and p': "p' = p\<lparr>mp_storage_pools := put_by sp_name (sp\<lparr>sp_provisioned := sp_provisioned sp + n\<rparr>) (mp_storage_pools p)\<rparr>"
    using g unfolding grown_def by blast
  then have "0 \<le> sdk_available k (sp\<lparr>sp_provisioned := sp_provisioned sp + n\<rparr>)"
    using sdk_available_provisioned [OF k, of sp n] by simp
  with ok p' show ?thesis by (auto dest!: put_by_set)
qed

section \<open>Properties\<close>

text \<open>The records sent to the agents agree with each other and with the machine: one boot mode in
  all three, the image of the root volume for the pool machine and what it resolves to for the
  guest, the agent of the machine's pool.  The machine boots from the network exactly when it is
  not of the core set and is new or its guest reports another image; then it is attached to the
  subnet that serves network boot.\<close>

theorem derivatives_agree:
  assumes "actualize_on_create_update mac m nd guest_pair st = Inr (m', pm, gm, st')"
  shows "pm_boot pm = mc_boot m' \<and> gm_boot gm = mc_boot m' \<and> pm_image pm = mc_image m' \<and>
    resolve_image st (mc_image m') = Inr (Some (gm_image gm)) \<and>
    (mc_boot m' = BootNetwork \<longleftrightarrow> \<not> is_core_machine m \<and>
       (guest_pair = None \<or> (\<exists>t g. guest_pair = Some (t, Some g) \<and> gm_image g \<noteq> gm_image gm))) \<and>
    (mc_boot m' = BootNetwork \<longrightarrow> (\<exists>sn \<in> set (bs_subnets st). sn_next_server sn \<noteq> None \<and>
       pi_source (pm_port_info pm) = Some (sn_name sn))) \<and>
    agent_by_pool st (mc_pool m) = Inr (pm_agent pm)"
proof -
  obtain port0 vol n st1 prt where c: "get_or_fetch_machine_ctx m st = Inr ((port0, vol), st1)"
    and r: "resolve_image st (mv_image vol) = Inr (Some (gm_image gm))" and "nd = Some n"
    and p: "(if boot_from_network m guest_pair (Some (gm_image gm)) then from_boot_network mac st' else Inr port0) = Inr prt"
    and st': "st' = register_guest_agent m (nd_uuid n) st1" and ag: "agent_by_pool st' (mc_pool m) = Inr (pm_agent pm)"
    and m': "m' = m\<lparr>mc_boot := (if boot_from_network m guest_pair (Some (gm_image gm)) then BootNetwork else BootHd0),
            mc_image := mv_image vol\<rparr>"
    and pm: "pm = from_machine_and_port m' (nd_uuid n) prt (pm_agent pm)" and gm: "gm_boot gm = mc_boot m'"
    using actualize_on_create_updateE [OF assms] .
  obtain ctx where "st1 = st\<lparr>bs_context := ctx\<rparr>" using get_or_fetch_keeps [OF c] by blast
  then have same: "bs_subnets st' = bs_subnets st" "bs_pools st' = bs_pools st" by (simp_all add: st')
  have boot: "boot_from_network m guest_pair (Some (gm_image gm)) \<longleftrightarrow> \<not> is_core_machine m \<and>
      (guest_pair = None \<or> (\<exists>t g. guest_pair = Some (t, Some g) \<and> gm_image g \<noteq> gm_image gm))"
    by (auto simp: boot_from_network_def split: option.splits)
  have "pm_boot pm = mc_boot m'" "pm_image pm = mc_image m'" "pi_source (pm_port_info pm) = po_source prt"
    using pm by (metis from_machine_and_port_simps(1), metis from_machine_and_port_simps(2),
        metis from_machine_and_port_simps(5) port_info.select_convs(4))
  moreover have "\<exists>sn \<in> set (bs_subnets st). sn_next_server sn \<noteq> None \<and> po_source prt = Some (sn_name sn)"
    if "boot_from_network m guest_pair (Some (gm_image gm))"
    using from_boot_network_port p that same by (metis (no_types, lifting))
  moreover have "agent_by_pool st (mc_pool m) = Inr (pm_agent pm)" using ag same by (simp add: agent_by_pool_def)
  ultimately show ?thesis using r gm boot by (auto simp: m')
qed

definition demo_guest :: "boot \<Rightarrow> string \<Rightarrow> status \<Rightarrow> guest_machine" where
  "demo_guest b img s = \<lparr>gm_uuid = ''m'', gm_image = img, gm_hostname = ''m'', gm_boot = b, gm_status = s, gm_agent = ''m''\<rparr>"

definition demo_pm :: "boot \<Rightarrow> status \<Rightarrow> pool_machine" where
  "demo_pm b s = \<lparr>pm_uuid = ''m'', pm_name = ''m'', pm_project_id = ''p'', pm_cores = 1, pm_ram = 1, pm_status = s,
     pm_machine_type = NodeVM, pm_node = ''m'', pm_pool = Some ''pool'', pm_boot = b, pm_image = Some ''urn:i'',
     pm_power_state = Some PowerOn, pm_agent = Some ''agent'',
     pm_port_info = \<lparr>pi_ipv4 = None, pi_mask = None, pi_mac = None, pi_source = None\<rparr>\<rparr>"

definition demo_bm :: "string \<Rightarrow> boot \<Rightarrow> machine" where
  "demo_bm name b = \<lparr>mc_uuid = ''m'', mc_name = name, mc_description = [], mc_project_id = ''p'', mc_cores = 1, mc_ram = 1,
     mc_status = StScheduled, mc_machine_type = NodeVM, mc_node = Some ''m'', mc_pool = Some ''pool'', mc_boot = b,
     mc_image = Some ''urn:i'', mc_firmware_uuid = None, mc_target_power_state = PowerOn, mc_power_state = Some PowerOn\<rparr>"

definition demo_mport :: port where
  "demo_mport = \<lparr>po_uuid = ''port'', po_subnet = ''main'', po_node = Some ''m'', po_machine = None, po_interface = None,
     po_target_ipv4 = Some 5, po_target_mask = None, po_ipv4 = Some 5, po_mask = Some 24, po_mac = Some ''mac'',
     po_status = PActive, po_source = Some ''main'', po_project_id = ''p''\<rparr>"

definition demo_netboot :: subnet where
  "demo_netboot = \<lparr>sn_uuid = ''boot'', sn_name = ''bootnet'', sn_network = ''net'', sn_project_id = ''p'', sn_cidr = (0, 255),
     sn_netmask = 24, sn_ip_range = None, sn_dhcp = True, sn_discovery = None, sn_dns_servers = None, sn_routers = None,
     sn_next_server = Some ''tftp''\<rparr>"

definition demo_builder :: builder_state where
  "demo_builder = \<lparr>bs_machines = [demo_bm ''m'' BootNetwork], bs_nodes = [demo_node_of ''m'' 1 1 NodeVM],
     bs_mvolumes = [(demo_mvolume ''v'' 3 ''a'')\<lparr>mv_machine := Some ''m'', mv_image := Some ''urn:i''\<rparr>],
     bs_ports = [demo_mport], bs_subnets = [demo_netboot],
     bs_artifacts = [\<lparr>ar_urn = ''urn:i'', ar_uri = ''http://low'', ar_priority = 1\<rparr>,
       \<lparr>ar_urn = ''urn:i'', ar_uri = ''http://high'', ar_priority = 7\<rparr>],
     bs_guest_agents = [], bs_pools = [demo_machine_pool ''pool'' 4 40 []], bs_context = []\<rparr>"

theorem derivatives_agree_witness:
  "\<exists>m' pm gm st'. create_instance_derivatives ''mac'' (demo_bm ''m'' BootHd0) (Some (demo_node_of ''m'' 1 1 NodeVM)) demo_builder
      = Inr (m', pm, gm, st') \<and> pm_boot pm = BootNetwork \<and> gm_boot gm = BootNetwork"
proof -
  let ?r = "actualize_on_create_update ''mac'' (demo_bm ''m'' BootHd0) (Some (demo_node_of ''m'' 1 1 NodeVM)) None demo_builder"
  have "is_ok ?r" by code_simp
  then obtain m' pm gm st' where r: "?r = Inr (m', pm, gm, st')" by (auto simp: is_ok_iff)
  moreover have "\<not> is_core_machine (demo_bm ''m'' BootHd0)" by code_simp
  ultimately show ?thesis
    using derivatives_agree [OF r] by (auto simp: create_instance_derivatives_def)
qed

text \<open>A machine outside the core set that is still to be flashed is switched to its disk by any update
  that comes before its guest has reported: the update computes \<open>hd0\<close> whenever there is no guest
  report to compare with, and attaches the machine to its own port, although the image was never
  written.\<close>

theorem update_before_report_boots_from_disk:
  assumes "mc_boot m = BootNetwork" and "\<not> is_core_machine m"
    and "guest_pair_of ps = Some (t, None)"
    and "update_instance_derivatives mac m nd ps st = Inr (m', pm, gm, st')"
  shows "mc_boot m' = BootHd0 \<and> pm_boot pm = BootHd0 \<and> gm_boot gm = BootHd0 \<and>
    (\<exists>prt vol st1. get_or_fetch_machine_ctx m st = Inr ((prt, vol), st1) \<and>
       pi_source (pm_port_info pm) = po_source prt)"
proof -
  note u = assms(4) [unfolded update_instance_derivatives_def assms(3)]
  obtain port0 vol n st1 prt where c: "get_or_fetch_machine_ctx m st = Inr ((port0, vol), st1)"
    and "resolve_image st (mv_image vol) = Inr (Some (gm_image gm))" and "nd = Some n"
    and p: "(if boot_from_network m (Some (t, None)) (Some (gm_image gm)) then from_boot_network mac st' else Inr port0) = Inr prt"
    and "st' = register_guest_agent m (nd_uuid n) st1" and "agent_by_pool st' (mc_pool m) = Inr (pm_agent pm)"
    and m': "m' = m\<lparr>mc_boot := (if boot_from_network m (Some (t, None)) (Some (gm_image gm)) then BootNetwork else BootHd0),
            mc_image := mv_image vol\<rparr>"
    and pm: "pm = from_machine_and_port m' (nd_uuid n) prt (pm_agent pm)" and gm: "gm_boot gm = mc_boot m'"
    using actualize_on_create_updateE [OF u] .
  have "\<not> boot_from_network m (Some (t, None)) (Some (gm_image gm))" by (simp add: boot_from_network_def)
  with p m' have "prt = port0" "mc_boot m' = BootHd0" by simp_all
  moreover have "pi_source (pm_port_info pm) = po_source prt"
    using pm by (metis from_machine_and_port_simps(5) port_info.select_convs(4))
  moreover have "pm_boot pm = mc_boot m'" using pm by (metis from_machine_and_port_simps(1))
  ultimately show ?thesis using c gm by auto
qed

theorem update_before_report_boots_from_disk_witness:
  "\<exists>m' pm gm st'. update_instance_derivatives ''mac'' (demo_bm ''m'' BootNetwork) (Some (demo_node_of ''m'' 1 1 NodeVM))
     [(PoolM (demo_pm BootNetwork StNew), None), (GuestM (demo_guest BootNetwork ''http://high'' StNew), None)] demo_builder
     = Inr (m', pm, gm, st') \<and> pm_boot pm = BootHd0"
proof -
  let ?ps = "[(PoolM (demo_pm BootNetwork StNew), None), (GuestM (demo_guest BootNetwork ''http://high'' StNew), None)]"
  let ?r = "update_instance_derivatives ''mac'' (demo_bm ''m'' BootNetwork) (Some (demo_node_of ''m'' 1 1 NodeVM)) ?ps demo_builder"
  have "is_ok ?r" by code_simp
  then obtain m' pm gm st' where r: "?r = Inr (m', pm, gm, st')" by (auto simp: is_ok_iff)
  have "mc_boot (demo_bm ''m'' BootNetwork) = BootNetwork" "\<not> is_core_machine (demo_bm ''m'' BootNetwork)" by code_simp+
  moreover have "guest_pair_of ?ps = Some (demo_guest BootNetwork ''http://high'' StNew, None)" by (simp add: guest_pair_of_def)
  ultimately show ?thesis using update_before_report_boots_from_disk r by blast
qed

text \<open>What a report of the agents does to a machine.  Once the guest reports that it has been flashed
  in network boot, the machine, its pool machine and its guest all boot from the disk; otherwise
  the records are sent unchanged.  The machine becomes active exactly when both agents report
  active with the images wanted now and the power state asked for.\<close>

theorem report_settles_machine:
  assumes "pool_pair_of ps = Some (tpm, Some pm)" and "guest_pair_of ps = Some (tgm, Some gm)"
    and "actualize_on_outdate m nd ps st = Inr (m', tpm', tgm', st')"
  shows "(if gm_boot gm = BootNetwork \<and> gm_status gm = StFlashed
          then mc_boot m' = BootHd0 \<and> pm_boot tpm' = BootHd0 \<and> gm_boot tgm' = BootHd0
          else mc_boot m' = mc_boot m \<and> tpm' = tpm \<and> tgm' = tgm) \<and>
    (mc_status m' = StActive \<longleftrightarrow> pm_status pm = StActive \<and> gm_status gm = StActive \<and>
       mc_image m = pm_image pm \<and> resolve_image st (mc_image m) = Inr (Some (gm_image gm)) \<and>
       pm_power_state pm = Some (mc_target_power_state m)) \<and>
    mc_power_state m' = pm_power_state pm"
proof -
  have status: "mc_boot m2 = mc_boot m1 \<and> mc_power_state m2 = pm_power_state pm \<and>
      (mc_status m2 = StActive \<longleftrightarrow> pm_status pm = StActive \<and> gm_status gm = StActive \<and>
       mc_image m1 = pm_image pm \<and> resolve_image st1 (mc_image m1) = Inr (Some (gm_image gm)) \<and>
       pm_power_state pm = Some (mc_target_power_state m1))"
    if "actualize_machine_status st1 m1 (Some pm) (Some gm) = Inr m2" for st1 m1 m2
    using that by (cases "resolve_image st1 (mc_image m1)")
      (auto simp: actualize_machine_status_def Let_def split: if_splits)
  show ?thesis
  proof (cases "gm_boot gm = BootNetwork \<and> gm_status gm = StFlashed")
    case True
    have "actualize_on_outdate m nd ps st =
        ebind (get_or_fetch_machine_ctx m st) (\<lambda>((prt, _), st1).
        ebind (agent_by_pool st1 (mc_pool m)) (\<lambda>agent_uuid.
        ebind (case nd of None \<Rightarrow> Inl NoNode | Some n \<Rightarrow> Inr n) (\<lambda>n.
        ebind (actualize_machine_status st1 (m\<lparr>mc_boot := BootHd0\<rparr>) (Some pm) (Some gm)) (\<lambda>m2.
        Inr (m2, from_machine_and_port (m\<lparr>mc_boot := BootHd0\<rparr>) (nd_uuid n) prt agent_uuid, tgm\<lparr>gm_boot := BootHd0\<rparr>, st1)))))"
      using True by (cases "get_or_fetch_machine_ctx m st"; cases nd)
        (auto simp: actualize_on_outdate_def assms(1,2) Let_def ebind_def split: sum.splits prod.splits)
    with assms(3) obtain x prt st1 ag and n :: node where c: "get_or_fetch_machine_ctx m st = Inr ((prt, x), st1)"
      and a: "actualize_machine_status st1 (m\<lparr>mc_boot := BootHd0\<rparr>) (Some pm) (Some gm) = Inr m'"
      and t: "tpm' = from_machine_and_port (m\<lparr>mc_boot := BootHd0\<rparr>) (nd_uuid n) prt ag" "tgm' = tgm\<lparr>gm_boot := BootHd0\<rparr>"
      by (auto simp: ebind_Inr_iff)
    obtain ctx where "st1 = st\<lparr>bs_context := ctx\<rparr>" using get_or_fetch_keeps [OF c] by blast
    then have "bs_artifacts st1 = bs_artifacts st" by simp
    then have "resolve_image st1 i = resolve_image st i" for i by (rule resolve_image_cong)
    with status [OF a] True t show ?thesis by simp
  next
    case False
    then have "ebind (actualize_machine_status st m (Some pm) (Some gm)) (\<lambda>m2. Inr (m2, tpm, tgm, st)) = Inr (m', tpm', tgm', st')"
      using assms(3) by (auto simp: actualize_on_outdate_def assms(1,2))
    then have "actualize_machine_status st m (Some pm) (Some gm) = Inr m'" "tpm' = tpm" "tgm' = tgm"
      by (auto simp: ebind_Inr_iff)
    with status [of st m m'] show ?thesis unfolding if_not_P [OF False] by simp
  qed
qed

theorem report_settles_machine_witness:
  "\<exists>m' tpm tgm st'. actualize_on_outdate (demo_bm ''m'' BootNetwork) (Some (demo_node_of ''m'' 1 1 NodeVM))
     [(PoolM (demo_pm BootNetwork StActive), Some (PoolM (demo_pm BootNetwork StActive))),
      (GuestM (demo_guest BootNetwork ''http://high'' StNew), Some (GuestM (demo_guest BootNetwork ''http://high'' StFlashed)))]
     demo_builder = Inr (m', tpm, tgm, st') \<and> mc_boot m' = BootHd0 \<and> pm_boot tpm = BootHd0 \<and> gm_boot tgm = BootHd0"
proof -
  let ?ps = "[(PoolM (demo_pm BootNetwork StActive), Some (PoolM (demo_pm BootNetwork StActive))),
      (GuestM (demo_guest BootNetwork ''http://high'' StNew), Some (GuestM (demo_guest BootNetwork ''http://high'' StFlashed)))]"
  let ?r = "actualize_on_outdate (demo_bm ''m'' BootNetwork) (Some (demo_node_of ''m'' 1 1 NodeVM)) ?ps demo_builder"
  have "is_ok ?r" by code_simp
  then obtain m' tpm tgm st' where r: "?r = Inr (m', tpm, tgm, st')" by (auto simp: is_ok_iff)
  have "pool_pair_of ?ps = Some (demo_pm BootNetwork StActive, Some (demo_pm BootNetwork StActive))"
    "guest_pair_of ?ps = Some (demo_guest BootNetwork ''http://high'' StNew, Some (demo_guest BootNetwork ''http://high'' StFlashed))"
    by (simp_all add: pool_pair_of_def guest_pair_of_def)
  from report_settles_machine [OF this r] have "mc_boot m' = BootHd0 \<and> pm_boot tpm = BootHd0 \<and> gm_boot tgm = BootHd0"
    by (simp add: demo_guest_def)
  with r show ?thesis by blast
qed

text \<open>A new volume is admitted exactly when a storage pool can take it: the one it names, if it names
  one, with a unique name and the wanted ephemeral kind; the pool is charged its size and stays
  within its capacity.  A refused volume is deleted so that it is scheduled again, and its
  machine with it when it is the root volume.\<close>

theorem new_volume_admitted_iff_fits:
  assumes k: "sdk_ok k" and ok: "\<forall>sp \<in> set (mp_storage_pools p). 0 \<le> sdk_available k sp"
  shows "(if select_pinned_pool k p v (mv_size v) \<noteq> None
     then \<exists>p'. can_create_volume k p v st = Inr (True, p', st) \<and> grown k (mv_size v) v p p' \<and>
            (\<forall>sp \<in> set (mp_storage_pools p'). 0 \<le> sdk_available k sp)
     else \<exists>st'. can_create_volume k p v st = Inr (False, p, st') \<and>
            bs_mvolumes st' = remove_by mv_uuid (mv_uuid v) (bs_mvolumes st) \<and>
            bs_machines st' = (if mv_index v = 0 \<and> mv_machine v \<noteq> None
              then remove_by mc_uuid (the (mv_machine v)) (bs_machines st) else bs_machines st))"
proof (cases "select_pinned_pool k p v (mv_size v)")
  case None
  then show ?thesis
    by (cases "mv_machine v") (auto simp: can_create_volume_def has_enough_space_in_pool_def Let_def
        reschedule_volume_def reschedule_machine_def)
next
  case (Some sp)
  then obtain p' where "charge_storage k (mv_size v) sp p = Inr p'" and g: "grown k (mv_size v) v p p'"
    using charge_selected_grown [OF k] by blast
  with Some grown_available [OF k g ok] show ?thesis
    by (simp add: can_create_volume_def has_enough_space_in_pool_def)
qed

theorem new_volume_admitted_iff_fits_witness:
  "\<exists>p'. can_create_volume thin_sdk (pb_pool demo_bundle) (demo_mvolume ''v'' 5 ''a'') demo_builder = Inr (True, p', demo_builder)"
proof -
  have "\<forall>sp \<in> set (mp_storage_pools (pb_pool demo_bundle)). 0 \<le> sdk_available thin_sdk sp"
    using demo_bundle_ok by (simp add: storage_ok_def pb_storage_pools_def)
  moreover have "select_pinned_pool thin_sdk (pb_pool demo_bundle) (demo_mvolume ''v'' 5 ''a'') (mv_size (demo_mvolume ''v'' 5 ''a'')) \<noteq> None"
    by code_simp
  ultimately show ?thesis
    using new_volume_admitted_iff_fits [OF thin_sdk_ok, of "pb_pool demo_bundle" "demo_mvolume ''v'' 5 ''a''" demo_builder]
    by (auto split: if_splits)
qed

text \<open>The growth of a volume is either charged to its storage pool or raises: the hook never returns a
  refusal, because marking the node volume as failed assigns to an attribute of a UUID; neither
  the volume nor its node volume is saved with the error status.\<close>

theorem volume_growth_never_refused:
  assumes k: "sdk_ok k"
  shows "(if select_pinned_pool k p v (mv_size v - mv_size actual) \<noteq> None
     then \<exists>p'. can_update_volume k p v actual st = Inr (True, p', st) \<and> grown k (mv_size v - mv_size actual) v p p'
     else can_update_volume k p v actual st = Inl (if mv_node_volume v = None then NoNodeVolume else ImmutableUuid))"
proof (cases "select_pinned_pool k p v (mv_size v - mv_size actual)")
  case None
  then show ?thesis
    by (cases "mv_node_volume v") (auto simp: can_update_volume_def has_enough_space_in_pool_def Let_def)
next
  case (Some sp)
  then obtain p' where "charge_storage k (mv_size v - mv_size actual) sp p = Inr p'"
      and g: "grown k (mv_size v - mv_size actual) v p p'"
    using charge_selected_grown [OF k] by blast
  with Some show ?thesis
    by (simp add: can_update_volume_def has_enough_space_in_pool_def Let_def)
qed

theorem volume_growth_never_refused_witness:
  "can_update_volume thin_sdk (pb_pool demo_bundle) ((demo_mvolume ''v'' 50 ''a'')\<lparr>mv_node_volume := Some ''n''\<rparr>)
     (demo_mvolume ''v'' 5 ''a'') demo_builder = Inl ImmutableUuid"
proof -
  let ?v = "(demo_mvolume ''v'' 50 ''a'')\<lparr>mv_node_volume := Some ''n''\<rparr>"
  have "select_pinned_pool thin_sdk (pb_pool demo_bundle) ?v (mv_size ?v - mv_size (demo_mvolume ''v'' 5 ''a'')) = None"
    by code_simp
  then show ?thesis
    using volume_growth_never_refused [OF thin_sdk_ok, of "pb_pool demo_bundle" ?v "demo_mvolume ''v'' 5 ''a''" demo_builder]
    by simp
qed

end
