(* ===== verification/Node_Builder.thy ===== *)
theory Node_Builder
  imports Placement
begin

text \<open>
  The builders of nodes, volumes and node sets (\<open>exordos_core/compute/builders/node.py\<close>,
  \<open>volume.py\<close>, \<open>node_set.py\<close> with \<open>compute/node_set/dm/models.py\<close>) and the power actions of the
  node API (\<open>user_api/compute/api/controllers.py\<close>): how a change of a node reaches its machine and
  its volumes, and how the state of the machines comes back.  Tables are lists of rows; sets of
  identifiers, whose order Python leaves open, are taken in the order of the rows.  The volumes a
  disk specification stands for, with distinct identifiers, are computed by the SDK and are the
  argument \<open>spec_volumes\<close>; the
  random identifiers of new nodes are an argument.
\<close>

datatype node_error = UnsupportedPolicyChange | RebootNotFinishedError

section \<open>Nodes to machines\<close>

definition machine_current :: "node \<Rightarrow> machine \<Rightarrow> bool" where
  "machine_current n m \<longleftrightarrow> mc_cores m = nd_cores n \<and> mc_ram m = nd_ram n \<and> mc_name m = nd_name n \<and>
     mc_description m = nd_description n \<and> mc_target_power_state m = nd_target_power_state n"

definition find_machine :: "machine list \<Rightarrow> uuid \<Rightarrow> machine option" where
  "find_machine ms u = find (\<lambda>m. mc_uuid m = u) ms"

text \<open>
  \<open>_update_machine\<close>: the tables of machines and nodes, and the target node, which the builder
  keeps in memory (and saves itself when the hook has not).
\<close>

definition update_machine :: "node \<Rightarrow> node \<Rightarrow> bool \<Rightarrow> machine list \<times> node list \<Rightarrow> node \<times> machine list \<times> node list" where
  "update_machine target actual force0 tabs =
     (let (ms, ns) = tabs;
          force = (force0 \<or> nd_hostname target \<noteq> nd_hostname actual) in
      case find_machine ms (nd_uuid target) of
        None \<Rightarrow> (target, ms, ns)
      | Some m \<Rightarrow>
          if \<not> force \<and> machine_current target m then (target\<lparr>nd_status := mc_status m\<rparr>, ms, ns)
          else
            let m' = m\<lparr>mc_cores := nd_cores target, mc_ram := nd_ram target, mc_name := nd_name target,
                       mc_description := nd_description target, mc_target_power_state := nd_target_power_state target,
                       mc_status := StInProgress\<rparr>;
                ms' = put_by mc_uuid m' ms in
            if nd_status target \<noteq> StInProgress then
              (let t = target\<lparr>nd_status := StInProgress\<rparr> in (t, ms', save_row nd_uuid t ns))
            else (target, ms', ns))"

section \<open>Nodes to volumes\<close>

definition is_root_volume :: "volume \<Rightarrow> bool" where
  "is_root_volume v \<longleftrightarrow> vl_index v = 0"

definition actualize_volume :: "volume \<Rightarrow> volume \<Rightarrow> node_error + volume" where
  "actualize_volume target actual =
     (if (vl_tier target, vl_ephemeral target) \<noteq> (vl_tier actual, vl_ephemeral actual)
      then Inl UnsupportedPolicyChange
      else Inr (actual\<lparr>vl_size := vl_size target, vl_image := vl_image target, vl_name := vl_name target,
        vl_description := vl_description target, vl_boot := vl_boot target,
        vl_device_type := vl_device_type target, vl_label := vl_label target, vl_status := StInProgress\<rparr>))"

definition volume_differs :: "volume \<Rightarrow> volume \<Rightarrow> bool" where
  "volume_differs target actual \<longleftrightarrow> vl_size target \<noteq> vl_size actual \<or> vl_image target \<noteq> vl_image actual \<or>
     vl_label target \<noteq> vl_label actual \<or> vl_device_type target \<noteq> vl_device_type actual \<or>
     vl_tier target \<noteq> vl_tier actual \<or> vl_ephemeral target \<noteq> vl_ephemeral actual \<or> vl_boot target \<noteq> vl_boot actual"

definition find_volume :: "volume list \<Rightarrow> uuid \<Rightarrow> volume option" where
  "find_volume vs u = find (\<lambda>v. vl_uuid v = u) vs"

text \<open>The targets of the volumes in both lists that differ from the actual ones.\<close>

definition need_update :: "volume list \<Rightarrow> volume list \<Rightarrow> volume list" where
  "need_update targets actuals = filter (\<lambda>t. case find_volume actuals (vl_uuid t) of
     None \<Rightarrow> False | Some a \<Rightarrow> volume_differs t a) targets"

definition create_missing :: "volume list \<Rightarrow> volume list \<Rightarrow> volume list \<Rightarrow> volume list" where
  "create_missing targets actuals db = db @ filter (\<lambda>t. vl_uuid t \<notin> vl_uuid ` set actuals) targets"

definition delete_removed :: "volume list \<Rightarrow> volume list \<Rightarrow> volume list \<Rightarrow> volume list" where
  "delete_removed targets actuals db =
     filter (\<lambda>v. \<not> (vl_uuid v \<in> vl_uuid ` set actuals \<and> vl_uuid v \<notin> vl_uuid ` set targets)) db"

definition update_row :: "volume list \<Rightarrow> volume \<Rightarrow> node_error + volume" where
  "update_row needed v = (case find_volume needed (vl_uuid v) of None \<Rightarrow> Inr v | Some t \<Rightarrow> actualize_volume t v)"

definition actualize_volumes :: "volume list \<Rightarrow> volume list \<Rightarrow> volume list \<Rightarrow> node_error + bool \<times> volume list" where
  "actualize_volumes targets actuals db =
     (let needed = need_update targets actuals;
          db1 = delete_removed targets actuals (create_missing targets actuals db) in
      ebind (emap (update_row needed) db1) (\<lambda>db2. Inr (list_ex is_root_volume needed, db2)))"

definition update_volumes :: "(disk_spec \<Rightarrow> node \<Rightarrow> uuid \<Rightarrow> volume list) \<Rightarrow> node \<Rightarrow> node \<Rightarrow> volume list \<Rightarrow> node_error + bool \<times> volume list" where
  "update_volumes spec_volumes target actual db =
     (if nd_disk_spec target = nd_disk_spec actual then Inr (False, db)
      else actualize_volumes (spec_volumes (nd_disk_spec target) target (volume_project_id target))
             (spec_volumes (nd_disk_spec actual) actual (nd_project_id actual)) db)"

definition pre_update_node ::
  "(disk_spec \<Rightarrow> node \<Rightarrow> uuid \<Rightarrow> volume list) \<Rightarrow> node \<Rightarrow> node \<Rightarrow> volume list \<Rightarrow> machine list \<times> node list
     \<Rightarrow> node_error + volume list \<times> node \<times> machine list \<times> node list" where
  "pre_update_node spec_volumes target actual db tabs =
     ebind (update_volumes spec_volumes target actual db) (\<lambda>(force, db').
     Inr (db', update_machine target actual force tabs))"

section \<open>Machines to nodes\<close>

definition actualize_node_with_machine :: "node \<Rightarrow> machine list \<Rightarrow> machine list \<Rightarrow> node \<times> machine list" where
  "actualize_node_with_machine n tracked ms = (case tracked of
     [m] \<Rightarrow>
       (let n1 = n\<lparr>nd_status := mc_status m,
                    nd_power_state := mc_power_state m\<rparr> in
        if mc_power_state m = Some PowerRebooted \<and> nd_target_power_state n = PowerReboot then
          (n1\<lparr>nd_target_power_state := PowerOn\<rparr>,
           put_by mc_uuid (m\<lparr>mc_target_power_state := PowerOn, mc_status := StInProgress\<rparr>) ms)
        else (n1, ms))
   | _ \<Rightarrow> (n, ms))"

text \<open>The power actions of the API: \<open>_set_target_power_state\<close>.\<close>

definition set_target_power_state :: "node \<Rightarrow> power_state \<Rightarrow> node_error + node" where
  "set_target_power_state n p =
     (if p = PowerReboot \<and> nd_power_state n = Some PowerRebooted then Inl RebootNotFinishedError
      else if nd_target_power_state n = p then Inr n
      else Inr (n\<lparr>nd_target_power_state := p, nd_status := StInProgress\<rparr>))"

section \<open>Volumes to machine volumes\<close>

definition volume_current :: "volume \<Rightarrow> volume \<Rightarrow> bool" where
  "volume_current target actual \<longleftrightarrow> vl_size target = vl_size actual \<and> vl_image target = vl_image actual \<and>
     vl_label target = vl_label actual \<and> vl_device_type target = vl_device_type actual \<and>
     vl_tier target = vl_tier actual \<and> vl_ephemeral target = vl_ephemeral actual \<and>
     vl_boot target = vl_boot actual \<and> vl_index target = vl_index actual \<and> vl_node target = vl_node actual"

definition actualize_machine_volume :: "volume \<Rightarrow> volume option \<Rightarrow> machine list \<Rightarrow> machine_volume list \<Rightarrow> machine_volume list" where
  "actualize_machine_volume target actual ms mvs =
     (if (case actual of None \<Rightarrow> False | Some a \<Rightarrow> volume_current target a) then mvs
      else (case find (\<lambda>v. mv_node_volume v = Some (vl_uuid target)) mvs of
        None \<Rightarrow> mvs
      | Some mv \<Rightarrow>
          let machine_uuid = (case vl_node target of None \<Rightarrow> None
                | Some n \<Rightarrow> map_option mc_uuid (find (\<lambda>m. mc_node m = Some n) ms)) in
          put_by mv_uuid (mv\<lparr>mv_size := vl_size target, mv_image := vl_image target, mv_label := vl_label target,
            mv_device_type := vl_device_type target, mv_tier := vl_tier target, mv_ephemeral := vl_ephemeral target,
            mv_boot := vl_boot target, mv_index := vl_index target, mv_machine := machine_uuid,
            mv_status := StInProgress\<rparr>) mvs))"

definition post_create_volume :: "volume \<Rightarrow> machine list \<Rightarrow> machine_volume list \<Rightarrow> machine_volume list" where
  "post_create_volume v ms mvs = actualize_machine_volume v None ms mvs"

definition pre_update_volume :: "volume \<Rightarrow> volume \<Rightarrow> machine list \<Rightarrow> machine_volume list \<Rightarrow> machine_volume list" where
  "pre_update_volume target actual ms mvs = actualize_machine_volume target (Some actual) ms mvs"

definition actualize_volume_with_tracked :: "volume \<Rightarrow> machine_volume list \<Rightarrow> volume" where
  "actualize_volume_with_tracked v tracked = (case tracked of [mv] \<Rightarrow> v\<lparr>vl_status := mv_status mv\<rparr> | _ \<Rightarrow> v)"

section \<open>Node sets\<close>

record node_set =
  nst_uuid :: uuid
  nst_name :: string
  nst_cores :: int
  nst_ram :: int
  nst_replicas :: nat
  nst_node_type :: node_type
  nst_disk_spec :: disk_spec
  nst_status :: status
  nst_nodes :: "(uuid, string option) dict"

text \<open>What the SDK and the random generator give.\<close>

record set_env =
  se_uuid5 :: "uuid \<Rightarrow> string \<Rightarrow> uuid"
  se_fresh :: "nat \<Rightarrow> uuid"
  se_node_spec :: "disk_spec \<Rightarrow> node_set \<Rightarrow> uuid \<Rightarrow> disk_spec"
  se_volumes :: "disk_spec \<Rightarrow> node_set \<Rightarrow> volume list"

definition policy_uuid :: "set_env \<Rightarrow> node_set \<Rightarrow> uuid" where
  "policy_uuid env ns = se_uuid5 env (nst_uuid ns) ''soft-anti-affinity''"

definition get_or_create_placement_policy :: "set_env \<Rightarrow> node_set \<Rightarrow> uuid list \<Rightarrow> uuid list" where
  "get_or_create_placement_policy env ns policies =
     (if policy_uuid env ns \<in> set policies then policies else policies @ [policy_uuid env ns])"

definition gen_node :: "set_env \<Rightarrow> node_set \<Rightarrow> uuid \<Rightarrow> uuid \<Rightarrow> node" where
  "gen_node env ns project_id u = \<lparr>nd_uuid = u, nd_name = nst_name ns @ ''-node-'' @ take 4 u, nd_description = [],
     nd_project_id = project_id, nd_cores = nst_cores ns, nd_ram = nst_ram ns, nd_node_type = nst_node_type ns,
     nd_hostname = None, nd_disk_spec = se_node_spec env (nst_disk_spec ns) ns u, nd_status = StNew,
     nd_node_set = Some (nst_uuid ns), nd_pool = None, nd_target_power_state = PowerOn, nd_power_state = Some PowerOn\<rparr>"

definition gen_nodes :: "set_env \<Rightarrow> node_set \<Rightarrow> uuid \<Rightarrow> uuid list \<Rightarrow> node list" where
  "gen_nodes env ns project_id node_uuids =
     map (\<lambda>idx. gen_node env ns project_id (if idx < length node_uuids then node_uuids ! idx else se_fresh env idx))
       [0 ..< nst_replicas ns]"

definition gen_volumes :: "set_env \<Rightarrow> node_set \<Rightarrow> uuid \<Rightarrow> volume list" where
  "gen_volumes env ns project_id = map (\<lambda>v. v\<lparr>vl_project_id := project_id\<rparr>) (se_volumes env (nst_disk_spec ns) ns)"

definition create_infra :: "set_env \<Rightarrow> node_set \<Rightarrow> uuid \<Rightarrow> uuid list \<Rightarrow> node list \<times> volume list \<times> uuid list" where
  "create_infra env ns project_id policies =
     (gen_nodes env ns project_id [], gen_volumes env ns project_id, get_or_create_placement_policy env ns policies)"

text \<open>An infrastructure object: a node with the address of its default network, or a volume.\<close>

datatype infra = InfraNode node "string option" | InfraVolume volume

definition target_node_uuids :: "(infra \<times> infra option) list \<Rightarrow> uuid list" where
  "target_node_uuids objs = List.map_filter (\<lambda>(t, _). case t of InfraNode n _ \<Rightarrow> Some (nd_uuid n) | _ \<Rightarrow> None) objs"

definition actual_set_nodes :: "uuid list \<Rightarrow> (infra \<times> infra option) list \<Rightarrow> (node \<times> string option) list" where
  "actual_set_nodes wanted objs = List.map_filter (\<lambda>(_, a). case a of
       Some (InfraNode n ip) \<Rightarrow> if nd_uuid n \<in> set wanted then Some (n, if ip = Some [] then None else ip) else None
     | _ \<Rightarrow> None) objs"

definition set_status :: "node_set \<Rightarrow> status list \<Rightarrow> status" where
  "set_status ns statuses =
     (if length statuses \<ge> nst_replicas ns \<and> list_all (\<lambda>s. s = StActive) statuses then StActive
      else if StError \<in> set statuses then StError
      else if StNew \<in> set statuses then StNew
      else if StInProgress \<in> set statuses then StInProgress
      else nst_status ns)"

definition actualize_infra :: "set_env \<Rightarrow> node_set \<Rightarrow> uuid \<Rightarrow> (infra \<times> infra option) list \<Rightarrow> uuid list
     \<Rightarrow> node_set \<times> node list \<times> volume list \<times> uuid list" where
  "actualize_infra env ns project_id objs policies =
     (let nodes = gen_nodes env ns project_id (target_node_uuids objs);
          actual = actual_set_nodes (map nd_uuid nodes) objs;
          ns' = ns\<lparr>nst_nodes := fold (\<lambda>(n, ip) d. dset (nd_uuid n) ip d) actual [],
                   nst_status := set_status ns (map (nd_status \<circ> fst) actual)\<rparr> in
      (ns', nodes, gen_volumes env ns project_id, get_or_create_placement_policy env ns policies))"

section \<open>Lemmas\<close>

lemma find_volume_Some: "find_volume vs u = Some v \<Longrightarrow> v \<in> set vs \<and> vl_uuid v = u"
  unfolding find_volume_def by (auto dest: find_Some_mem)

lemma find_volume_None: "find_volume vs u = None \<longleftrightarrow> u \<notin> vl_uuid ` set vs"
  by (auto simp: find_volume_def find_None_iff)

lemma find_volume_distinct:
  "distinct (map vl_uuid vs) \<Longrightarrow> v \<in> set vs \<Longrightarrow> find_volume vs (vl_uuid v) = Some v"
  by (cases "find_volume vs (vl_uuid v)") (auto simp: find_volume_None dest: find_volume_Some distinct_key_unique)

lemma actualize_volume_uuid: "actualize_volume t v = Inr w \<Longrightarrow> vl_uuid w = vl_uuid v"
  by (auto simp: actualize_volume_def split: if_splits)

lemma update_row_uuid: "update_row needed v = Inr w \<Longrightarrow> vl_uuid w = vl_uuid v"
  by (auto simp: update_row_def dest: actualize_volume_uuid split: option.splits)

lemma emap_mem: "emap f xs = Inr ys \<Longrightarrow> y \<in> set ys \<longleftrightarrow> (\<exists>x \<in> set xs. f x = Inr y)"
  by (induction xs arbitrary: ys) (auto split: sum.splits)

text \<open>The rows after a reconciliation are those it keeps, each updated.\<close>

lemma actualize_volumes_rows:
  assumes "actualize_volumes targets actuals db = Inr (b, db')"
  shows "w \<in> set db' \<longleftrightarrow> (\<exists>v \<in> set (delete_removed targets actuals (create_missing targets actuals db)).
     update_row (need_update targets actuals) v = Inr w)"
  using assms emap_mem by (fastforce simp: actualize_volumes_def Let_def ebind_Inr_iff)

lemma need_update_iff:
  assumes "distinct (map vl_uuid targets)" and "distinct (map vl_uuid actuals)"
    and "t \<in> set targets" "a \<in> set actuals" "vl_uuid a = vl_uuid t"
  shows "t \<in> set (need_update targets actuals) \<longleftrightarrow> volume_differs t a"
  using assms find_volume_distinct [OF assms(2) assms(4)] by (simp add: need_update_def)

lemma need_update_absent: "u \<notin> vl_uuid ` set actuals \<Longrightarrow> find_volume (need_update targets actuals) u = None"
  by (auto simp: find_volume_None need_update_def image_iff split: option.splits)
    (metis find_volume_Some)

lemma find_need_update:
  assumes "distinct (map vl_uuid targets)" and "distinct (map vl_uuid actuals)"
    and "t \<in> set targets" "a \<in> set actuals" "vl_uuid a = vl_uuid t"
  shows "find_volume (need_update targets actuals) (vl_uuid t) = (if volume_differs t a then Some t else None)"
proof (cases "volume_differs t a")
  case True
  have "distinct (map vl_uuid (need_update targets actuals))"
    unfolding need_update_def by (rule distinct_map_filter [OF assms(1)])
  with True show ?thesis using find_volume_distinct need_update_iff [OF assms] by simp
next
  case False
  have "x = t" if "x \<in> set (need_update targets actuals)" "vl_uuid x = vl_uuid t" for x
    using distinct_key_unique [OF assms(1) _ assms(3)] that by (auto simp: need_update_def)
  then have "vl_uuid t \<notin> vl_uuid ` set (need_update targets actuals)"
    using False need_update_iff [OF assms] by (metis imageE)
  with False show ?thesis by (simp add: find_volume_None)
qed

definition follows :: "volume \<Rightarrow> volume \<Rightarrow> volume \<Rightarrow> bool" where
  "follows t v w \<longleftrightarrow> w = v\<lparr>vl_size := vl_size t, vl_image := vl_image t, vl_name := vl_name t,
     vl_description := vl_description t, vl_boot := vl_boot t, vl_device_type := vl_device_type t,
     vl_label := vl_label t, vl_status := StInProgress\<rparr> \<and> vl_tier v = vl_tier t \<and> vl_ephemeral v = vl_ephemeral t"

lemma emap_each: "emap f xs = Inr ys \<Longrightarrow> x \<in> set xs \<Longrightarrow> \<exists>y \<in> set ys. f x = Inr y"
  by (induction xs arbitrary: ys) (auto split: sum.splits)

lemma actualize_volumes_unchanged:
  assumes "actualize_volumes targets actuals db = Inr (b, db')"
    and "v \<in> set (delete_removed targets actuals (create_missing targets actuals db))"
    and "find_volume (need_update targets actuals) (vl_uuid v) = None"
  shows "v \<in> set db'"
proof -
  have "update_row (need_update targets actuals) v = Inr v" using assms(3) by (simp add: update_row_def)
  with assms(2) show ?thesis unfolding actualize_volumes_rows [OF assms(1)] by blast
qed

lemma actualize_volumes_changed:
  assumes a: "actualize_volumes targets actuals db = Inr (b, db')"
    and v: "v \<in> set (delete_removed targets actuals (create_missing targets actuals db))"
    and t: "find_volume (need_update targets actuals) (vl_uuid v) = Some t"
  shows "\<exists>w \<in> set db'. follows t v w"
proof -
  have "emap (update_row (need_update targets actuals)) (delete_removed targets actuals (create_missing targets actuals db)) = Inr db'"
    using a by (auto simp: actualize_volumes_def Let_def ebind_Inr_iff)
  from emap_each [OF this v] obtain w where "w \<in> set db'" and w: "update_row (need_update targets actuals) v = Inr w"
    by blast
  moreover have "follows t v w" using w t
    by (auto simp: update_row_def actualize_volume_def follows_def split: if_splits)
  ultimately show ?thesis by blast
qed

lemma actualize_volumes_flag:
  assumes "actualize_volumes targets actuals db = Inr (b, db')"
    and "distinct (map vl_uuid targets)" and "distinct (map vl_uuid actuals)"
  shows "b \<longleftrightarrow> (\<exists>t \<in> set targets. \<exists>a \<in> set actuals. vl_uuid a = vl_uuid t \<and> is_root_volume t \<and> volume_differs t a)"
proof -
  have "b = list_ex is_root_volume (need_update targets actuals)"
    using assms(1) by (auto simp: actualize_volumes_def Let_def ebind_Inr_iff)
  moreover have "t \<in> set (need_update targets actuals) \<longleftrightarrow> t \<in> set targets \<and> (\<exists>a \<in> set actuals. vl_uuid a = vl_uuid t \<and> volume_differs t a)" for t
    using need_update_iff [OF assms(2,3)] find_volume_Some
    by (auto simp: need_update_def split: option.splits) (metis find_volume_None imageI option.exhaust)+
  ultimately show ?thesis unfolding list_ex_iff by blast
qed

lemma gen_nodes_length [simp]: "length (gen_nodes env ns p us) = nst_replicas ns"
  by (simp add: gen_nodes_def)

lemma gen_nodes_uuid:
  "i < nst_replicas ns \<Longrightarrow> nd_uuid (gen_nodes env ns p us ! i) = (if i < length us then us ! i else se_fresh env i)"
  by (simp add: gen_nodes_def gen_node_def)

lemma dkeys_fold_dset: "set (dkeys (fold (\<lambda>(n, ip) d. dset (nd_uuid n) ip d) xs d)) = nd_uuid ` fst ` set xs \<union> set (dkeys d)"
  by (induction xs arbitrary: d) auto

lemma actual_set_nodes_wanted: "x \<in> set (actual_set_nodes us objs) \<Longrightarrow> nd_uuid (fst x) \<in> set us"
  by (auto simp: actual_set_nodes_def List.map_filter_def split: option.splits infra.splits if_splits)

section \<open>Properties\<close>



text \<open>After an update the machine of a node has the cores, memory, name, description and target power
  state of the node and both have the same status; no other machine is touched; and repeating the
  update changes nothing.\<close>

theorem machine_follows_node:
  assumes "distinct (map mc_uuid ms)" and "find_machine ms (nd_uuid target) = Some m"
    and "update_machine target actual force (ms, ns) = (target', ms', ns')"
  shows "(\<exists>m'. find_machine ms' (nd_uuid target) = Some m' \<and> machine_current target m' \<and> nd_status target' = mc_status m') \<and>
    (\<forall>x \<in> set ms. mc_uuid x \<noteq> nd_uuid target \<longrightarrow> x \<in> set ms') \<and>
    update_machine target' target' False (ms', ns') = (target', ms', ns')"
proof (cases "\<not> (force \<or> nd_hostname target \<noteq> nd_hostname actual) \<and> machine_current target m")
  case True
  then have u: "target' = target\<lparr>nd_status := mc_status m\<rparr>" "ms' = ms" "ns' = ns"
    using assms(2,3) by (auto simp: update_machine_def Let_def)
  with True assms(2) show ?thesis by (auto simp: update_machine_def Let_def machine_current_def)
next
  case False
  let ?m = "m\<lparr>mc_cores := nd_cores target, mc_ram := nd_ram target, mc_name := nd_name target,
     mc_description := nd_description target, mc_target_power_state := nd_target_power_state target, mc_status := StInProgress\<rparr>"
  have u: "ms' = put_by mc_uuid ?m ms" "target' = target\<lparr>nd_status := StInProgress\<rparr>"
    using False assms(2,3) by (auto simp: update_machine_def Let_def split: if_splits)
  have mem: "m \<in> set ms" "mc_uuid m = nd_uuid target" using find_Some_mem [OF assms(2) [unfolded find_machine_def]] by simp_all
  have "find_machine (put_by mc_uuid ?m xs) (nd_uuid target) = Some ?m" if "m \<in> set xs" for xs
    using that mem(2) by (induction xs) (auto simp: find_machine_def put_by_def)
  then have f: "find_machine ms' (nd_uuid target) = Some ?m" using mem(1) u(1) by simp
  moreover have "x \<in> set ms'" if "x \<in> set ms" "mc_uuid x \<noteq> nd_uuid target" for x
    using that put_by_other [of x ms mc_uuid ?m] u(1) mem(2) by simp
  ultimately show ?thesis by (simp add: u(2) update_machine_def machine_current_def Let_def)
qed

definition small_machine :: "uuid \<Rightarrow> machine" where
  "small_machine u = \<lparr>mc_uuid = u, mc_name = u, mc_description = [], mc_project_id = ''p'', mc_cores = 1, mc_ram = 1,
     mc_status = StActive, mc_machine_type = NodeVM, mc_node = Some u, mc_pool = Some ''pool'', mc_boot = BootHd0,
     mc_image = None, mc_firmware_uuid = None, mc_target_power_state = PowerOn, mc_power_state = Some PowerOn\<rparr>"

theorem machine_follows_node_witness:
  "\<exists>t ms' ns' m'. update_machine (demo_node_of ''n'' 4 4 NodeVM) (demo_node_of ''n'' 1 1 NodeVM) False
      ([small_machine ''n'', small_machine ''o''], []) = (t, ms', ns') \<and>
     find_machine ms' ''n'' = Some m' \<and> mc_cores m' = 4 \<and> small_machine ''o'' \<in> set ms'"
proof -
  let ?ms = "[small_machine ''n'', small_machine ''o'']" and ?t = "demo_node_of ''n'' 4 4 NodeVM"
  obtain t ms' ns' where r: "update_machine ?t (demo_node_of ''n'' 1 1 NodeVM) False (?ms, []) = (t, ms', ns')"
    by (metis prod_cases3)
  have d: "distinct (map mc_uuid ?ms)" by code_simp
  have f: "find_machine ?ms (nd_uuid ?t) = Some (small_machine ''n'')" by code_simp
  have "nd_uuid ?t = ''n''" "nd_cores ?t = 4" "mc_uuid (small_machine ''o'') \<noteq> ''n''" by code_simp+
  with machine_follows_node [OF d f r] have
    "(\<exists>m'. find_machine ms' ''n'' = Some m' \<and> mc_cores m' = 4)" "small_machine ''o'' \<in> set ms'"
    by (auto simp: machine_current_def)
  with r show ?thesis by blast
qed

text \<open>A node set keeps as many nodes as it has replicas: the existing ones in order, the surplus
  dropped, the missing ones new; the set lists only nodes it keeps; and it turns active only when
  at least as many kept nodes as replicas report, all of them active.\<close>

theorem node_set_scales:
  assumes "actualize_infra env ns p objs policies = (ns', nodes, vols, policies')"
  shows "length nodes = nst_replicas ns \<and>
    map nd_uuid (take (length (target_node_uuids objs)) nodes) = take (nst_replicas ns) (target_node_uuids objs) \<and>
    set (dkeys (nst_nodes ns')) \<subseteq> nd_uuid ` set nodes \<and>
    policy_uuid env ns \<in> set policies' \<and>
    (nst_status ns' = StActive \<longrightarrow> nst_status ns \<noteq> StActive \<longrightarrow>
       (let actual = actual_set_nodes (map nd_uuid nodes) objs in
        nst_replicas ns \<le> length actual \<and> list_all (\<lambda>a. nd_status (fst a) = StActive) actual))"
proof (intro conjI)
  let ?us = "target_node_uuids objs"
  have n: "nodes = gen_nodes env ns p ?us" and ns: "ns' = ns\<lparr>nst_nodes := fold (\<lambda>(n, ip) d. dset (nd_uuid n) ip d)
        (actual_set_nodes (map nd_uuid nodes) objs) [],
      nst_status := set_status ns (map (nd_status \<circ> fst) (actual_set_nodes (map nd_uuid nodes) objs))\<rparr>"
    and pol: "policies' = get_or_create_placement_policy env ns policies"
    using assms by (auto simp: actualize_infra_def Let_def)
  show "length nodes = nst_replicas ns" by (simp add: n)
  show "map nd_uuid (take (length ?us) nodes) = take (nst_replicas ns) ?us"
    by (rule nth_equalityI) (auto simp: n gen_nodes_uuid)
  show "set (dkeys (nst_nodes ns')) \<subseteq> nd_uuid ` set nodes"
  proof -
    have "set (dkeys (nst_nodes ns')) = nd_uuid ` fst ` set (actual_set_nodes (map nd_uuid nodes) objs)"
      by (simp add: ns dkeys_fold_dset)
    then show ?thesis using actual_set_nodes_wanted [of _ "map nd_uuid nodes" objs] by auto
  qed
  show "policy_uuid env ns \<in> set policies'" by (simp add: pol get_or_create_placement_policy_def)
  show "nst_status ns' = StActive \<longrightarrow> nst_status ns \<noteq> StActive \<longrightarrow>
       (let actual = actual_set_nodes (map nd_uuid nodes) objs in
        nst_replicas ns \<le> length actual \<and> list_all (\<lambda>a. nd_status (fst a) = StActive) actual)"
    by (auto simp: ns set_status_def Let_def list_all_iff split: if_splits)
qed

definition demo_set :: node_set where
  "demo_set = \<lparr>nst_uuid = ''s'', nst_name = ''web'', nst_cores = 1, nst_ram = 1, nst_replicas = 2, nst_node_type = NodeVM,
     nst_disk_spec = DisksSpec [], nst_status = StInProgress, nst_nodes = []\<rparr>"

definition demo_set_env :: set_env where
  "demo_set_env = \<lparr>se_uuid5 = (\<lambda>u s. u @ s), se_fresh = (\<lambda>i. ''fresh'' @ replicate i CHR ''x''),
     se_node_spec = (\<lambda>d s u. d), se_volumes = (\<lambda>d s. [])\<rparr>"

theorem node_set_scales_witness:
  "\<exists>ns' nodes vols pols. actualize_infra demo_set_env demo_set ''p''
     (map (\<lambda>u. (InfraNode (demo_node_of u 1 1 NodeVM) None, None)) [''a'', ''b'', ''c'']) [] = (ns', nodes, vols, pols) \<and>
     map nd_uuid (take 3 nodes) = [''a'', ''b'']"
proof -
  let ?objs = "map (\<lambda>u. (InfraNode (demo_node_of u 1 1 NodeVM) None, None)) [''a'', ''b'', ''c'']"
  obtain ns' nodes vols pols where r: "actualize_infra demo_set_env demo_set ''p'' ?objs [] = (ns', nodes, vols, pols)"
    by (metis prod_cases4)
  have t: "target_node_uuids ?objs = [''a'', ''b'', ''c'']" "nst_replicas demo_set = 2" by code_simp+
  have "map nd_uuid (take (length [''a'', ''b'', ''c'']) nodes) = take 2 [''a'', ''b'', ''c'']"
    using node_set_scales [OF r, THEN conjunct2, THEN conjunct1] unfolding t .
  then have n: "map nd_uuid (take 3 nodes) = [''a'', ''b'']" by (simp add: numeral_eq_Suc)
  show ?thesis by (intro exI conjI) (rule r, rule n)
qed

text \<open>A changed volume is carried over to its machine volume: size, image, label, device type, tier,
  ephemeral kind, boot flag and index, attached to the machine that runs the node it is attached
  to (or to none); other machine volumes stay, and an unchanged volume touches nothing.\<close>

theorem machine_volume_follows_volume:
  assumes "find (\<lambda>v. mv_node_volume v = Some (vl_uuid target)) mvs = Some mv"
  shows "(if volume_current target actual then pre_update_volume target actual ms mvs = mvs
    else (\<exists>w \<in> set (pre_update_volume target actual ms mvs). mv_uuid w = mv_uuid mv \<and> mv_node_volume w = Some (vl_uuid target) \<and>
        (mv_size w, mv_image w, mv_label w, mv_device_type w, mv_tier w, mv_ephemeral w, mv_boot w, mv_index w) =
        (vl_size target, vl_image target, vl_label target, vl_device_type target, vl_tier target, vl_ephemeral target,
         vl_boot target, vl_index target) \<and>
        mv_status w = StInProgress \<and>
        (case mv_machine w of
           None \<Rightarrow> \<forall>m \<in> set ms. vl_node target = None \<or> mc_node m \<noteq> vl_node target
         | Some u \<Rightarrow> \<exists>m \<in> set ms. mc_uuid m = u \<and> mc_node m = vl_node target \<and> vl_node target \<noteq> None))) \<and>
    (\<forall>w \<in> set mvs. mv_uuid w \<noteq> mv_uuid mv \<longrightarrow> w \<in> set (pre_update_volume target actual ms mvs))"
proof (cases "volume_current target actual")
  case True
  then show ?thesis by (simp add: pre_update_volume_def actualize_machine_volume_def)
next
  case False
  let ?u = "case vl_node target of None \<Rightarrow> None | Some n \<Rightarrow> map_option mc_uuid (find (\<lambda>m. mc_node m = Some n) ms)"
  let ?w = "mv\<lparr>mv_size := vl_size target, mv_image := vl_image target, mv_label := vl_label target,
            mv_device_type := vl_device_type target, mv_tier := vl_tier target, mv_ephemeral := vl_ephemeral target,
            mv_boot := vl_boot target, mv_index := vl_index target, mv_machine := ?u, mv_status := StInProgress\<rparr>"
  have res: "pre_update_volume target actual ms mvs = put_by mv_uuid ?w mvs"
    using False assms by (simp add: pre_update_volume_def actualize_machine_volume_def)
  have mv: "mv \<in> set mvs" "mv_node_volume mv = Some (vl_uuid target)" using find_Some_mem [OF assms] by simp_all
  have "?w \<in> set (put_by mv_uuid ?w mvs)" by (rule put_by_mem [OF _ mv(1)]) simp
  moreover have "case ?u of
           None \<Rightarrow> \<forall>m \<in> set ms. vl_node target = None \<or> mc_node m \<noteq> vl_node target
         | Some u \<Rightarrow> \<exists>m \<in> set ms. mc_uuid m = u \<and> mc_node m = vl_node target \<and> vl_node target \<noteq> None"
  proof (cases "vl_node target")
    case (Some n)
    show ?thesis
    proof (cases "find (\<lambda>m. mc_node m = Some n) ms")
      case None
      then have "\<forall>m \<in> set ms. mc_node m \<noteq> Some n" by (auto simp: find_None_iff)
      then show ?thesis using None \<open>vl_node target = Some n\<close> by simp
    next
      case (Some m)
      from find_Some_mem [OF this] Some \<open>vl_node target = Some n\<close> show ?thesis by auto
    qed
  qed simp
  moreover have "w \<in> set (put_by mv_uuid ?w mvs)" if "w \<in> set mvs" "mv_uuid w \<noteq> mv_uuid mv" for w
    using that by (intro put_by_other) simp_all
  ultimately show ?thesis unfolding res using False mv(2) by (intro conjI) (simp, rule bexI [of _ ?w], simp_all)
qed

theorem machine_volume_follows_volume_witness:
  "(\<exists>w \<in> set (pre_update_volume (demo_volume ''v'' (Some ''n'') 9 None) (demo_volume ''v'' None 9 None) [small_machine ''n'']
       [(demo_mvolume ''v'' 9 ''a'')\<lparr>mv_node_volume := Some ''v''\<rparr>]). mv_machine w = Some ''n'')"
proof -
  let ?t = "demo_volume ''v'' (Some ''n'') 9 None" and ?a = "demo_volume ''v'' None 9 None"
  let ?mvs = "[(demo_mvolume ''v'' 9 ''a'')\<lparr>mv_node_volume := Some ''v''\<rparr>]"
  have f: "find (\<lambda>v. mv_node_volume v = Some (vl_uuid ?t)) ?mvs = Some (hd ?mvs)" by code_simp
  have c: "\<not> volume_current ?t ?a" by code_simp
  have n: "vl_node ?t = Some ''n''" "mc_node (small_machine ''n'') = Some ''n''" "mc_uuid (small_machine ''n'') = ''n''" by code_simp+
  show ?thesis
    using machine_volume_follows_volume [OF f, of ?a "[small_machine ''n'']"] c n by (auto split: option.splits)
qed

end
