(* ===== verification/Element_Links.thy ===== *)
theory Element_Links
  imports Prelude
begin

text \<open>
  Links and schemas of the element manager (\<open>exordos_core/elements/dm/utils.py\<close> and
  \<open>LinkResolver._extract_resource_link\<close> of \<open>elements/dm/models.py\<close>): the values a manifest holds,
  the syntax of links, and the functions that copy and follow component schemas.  A link names a
  resource as \<open>$element.type.$name\<close>, with an optional parameter after a colon.  JSON numbers that
  are not integers are kept as the text they are written as.
\<close>

section \<open>Values\<close>

datatype json = JNull | JBool bool | JInt int | JFloat string | JStr string | JList "json list"
  | JDict "(string \<times> json) list"

lemma json_size_vals [termination_simp]: "v \<in> set (dvals d) \<Longrightarrow> size v < Suc (size_list (\<lambda>x. Suc (size (snd x))) d)"
proof (induction d)
  case (Cons x d)
  show ?case
  proof (cases "v = snd x")
    case False
    with Cons have "size v < Suc (size_list (\<lambda>x. Suc (size (snd x))) d)" by (simp add: dvals_def)
    then show ?thesis by simp
  qed simp
qed (simp add: dvals_def)

lemma json_size_list [termination_simp]: "v \<in> set xs \<Longrightarrow> size v < Suc (size_list size xs)"
  by (induction xs) auto

text \<open>\<open>str(value)\<close> of the values of a manifest.\<close>

definition show_int :: "int \<Rightarrow> string" where
  "show_int i = (if i < 0 then CHR ''-'' # show_nat (nat (- i)) else show_nat (nat i))"

definition newline :: char where
  "newline = char_of (10 :: nat)"

definition backslash :: char where
  "backslash = char_of (92 :: nat)"

definition apostrophe :: char where
  "apostrophe = char_of (39 :: nat)"

definition hex_digit :: "nat \<Rightarrow> char" where
  "hex_digit n = (if n < 10 then char_of (48 + n) else char_of (87 + n))"

definition escape_char :: "char \<Rightarrow> char \<Rightarrow> string" where
  "escape_char q c = (let n = of_char c :: nat in
     if c = q \<or> c = backslash then [backslash, c]
     else if n = 10 then [backslash, CHR ''n'']
     else if n = 13 then [backslash, CHR ''r'']
     else if n = 9 then [backslash, CHR ''t'']
     else if n < 32 \<or> n = 127 then [backslash, CHR ''x'', hex_digit (n div 16), hex_digit (n mod 16)]
     else [c])"

definition repr_str :: "string \<Rightarrow> string" where
  "repr_str s = (let q = (if apostrophe \<in> set s \<and> CHR 0x22 \<notin> set s then CHR 0x22 else apostrophe) in
     q # concat (map (escape_char q) s) @ [q])"

fun py_repr :: "json \<Rightarrow> string" where
  "py_repr JNull = ''None''"
| "py_repr (JBool b) = (if b then ''True'' else ''False'')"
| "py_repr (JInt i) = show_int i"
| "py_repr (JFloat t) = t"
| "py_repr (JStr s) = repr_str s"
| "py_repr (JList xs) = ''['' @ join_with '', '' (map py_repr xs) @ '']''"
| "py_repr (JDict d) = ''{'' @ join_with '', '' (map (\<lambda>(k, v). repr_str k @ '': '' @ py_repr v) d) @ ''}''"

definition py_str :: "json \<Rightarrow> string" where
  "py_str v = (case v of JStr s \<Rightarrow> s | _ \<Rightarrow> py_repr v)"

section \<open>Uuids\<close>

text \<open>\<open>uuid.UUID(text)\<close>: 32 hexadecimal digits with optional braces, dashes and prefixes.\<close>

definition is_hex :: "char \<Rightarrow> bool" where
  "is_hex c \<longleftrightarrow> (let n = of_char (lower_char c) :: nat in 48 \<le> n \<and> n \<le> 57 \<or> 97 \<le> n \<and> n \<le> 102)"

definition uuid_digits :: "string \<Rightarrow> string" where
  "uuid_digits s = (let a = (if starts_with s ''urn:'' then drop 4 s else s);
       b = (if starts_with a ''uuid:'' then drop 5 a else a);
       braces = (\<lambda>c. c = CHR ''{'' \<or> c = CHR ''}'') in
     filter (\<lambda>c. c \<noteq> CHR ''-'') (rstrip_by braces (dropWhile braces b)))"

definition uuid_of_text :: "string \<Rightarrow> uuid option" where
  "uuid_of_text s = (let d = lower (uuid_digits s) in
     if length d = 32 \<and> list_all is_hex d
     then Some (take 8 d @ ''-'' @ take 4 (drop 8 d) @ ''-'' @ take 4 (drop 12 d) @ ''-'' @ take 4 (drop 16 d) @ ''-'' @ drop 20 d)
     else None)"

section \<open>Links\<close>

definition clear_parameters :: "string \<Rightarrow> string" where
  "clear_parameters link = (let parts = split_on CHR ''.'' link in
     join_with ''.'' (butlast parts @ [hd (split_on CHR '':'' (last parts))]))"

definition link_location :: "string \<Rightarrow> string" where
  "link_location link = clear_parameters link"

definition link_parameter :: "string \<Rightarrow> string" where
  "link_parameter link = last (split_on CHR ''.'' link)"

definition is_dollar :: "string \<Rightarrow> bool" where
  "is_dollar part = starts_with part ''$''"

text \<open>\<open>_extract_resource_link\<close>: up to the last part with a dollar, found by its first occurrence.\<close>

fun upto_part :: "string \<Rightarrow> string list \<Rightarrow> string list" where
  "upto_part p [] = []"
| "upto_part p (x # xs) = (if x = p then [x] else x # upto_part p xs)"

definition extract_resource_link :: "string \<Rightarrow> string option" where
  "extract_resource_link full_link =
     (let parts = split_on CHR ''.'' (before_first CHR '':'' full_link);
          dollars = filter is_dollar parts in
      if dollars = [] then None else Some (join_with ''.'' (upto_part (last dollars) parts)))"

section \<open>Variables\<close>

text \<open>
  The first match of \<open>\$(.+?)(?:\:(.+))?$\<close>.  The lazy group grows until what follows it is the end
  of the text, or a colon with the rest of the text; \<open>.\<close> matches no newline, and the end may be
  before a final newline.
\<close>

definition at_end :: "string \<Rightarrow> bool" where
  "at_end s \<longleftrightarrow> s = [] \<or> s = [newline]"

definition value_part :: "string \<Rightarrow> string option" where
  "value_part s = (case s of
     [] \<Rightarrow> Some []
   | c # t \<Rightarrow>
       let body = takeWhile (\<lambda>x. x \<noteq> newline) t in
       if c = CHR '':'' \<and> body \<noteq> [] \<and> at_end (drop (length body) t) then Some body
       else if at_end s then Some [] else None)"

fun scan_var :: "string \<Rightarrow> string \<Rightarrow> (string \<times> string) option" where
  "scan_var acc [] = None"
| "scan_var acc (c # r) =
     (if c = newline then None
      else case value_part r of Some v \<Rightarrow> Some (acc @ [c], v) | None \<Rightarrow> scan_var (acc @ [c]) r)"

fun search_var :: "string \<Rightarrow> (string \<times> string) option" where
  "search_var [] = None"
| "search_var (c # r) =
     (if c = CHR ''$'' then (case scan_var [] r of Some m \<Rightarrow> Some m | None \<Rightarrow> search_var r) else search_var r)"

record parsed =
  pr_input :: string
  pr_valid :: bool
  pr_error :: "string option"
  pr_resource_type :: "string option"
  pr_element_name :: "string option"
  pr_resource_paths :: "string list option"
  pr_resource_name :: "string option"
  pr_value :: "string option"
  pr_is_variable :: bool
  pr_is_resource :: bool
  pr_is_resource_type :: bool

definition new_parsed :: "string \<Rightarrow> parsed" where
  "new_parsed s = \<lparr>pr_input = s, pr_valid = True, pr_error = None, pr_resource_type = None, pr_element_name = None,
     pr_resource_paths = None, pr_resource_name = None, pr_value = None, pr_is_variable = False,
     pr_is_resource = False, pr_is_resource_type = False\<rparr>"

definition invalid_parsed :: "string \<Rightarrow> string \<Rightarrow> parsed" where
  "invalid_parsed s err = (new_parsed s)\<lparr>pr_valid := False, pr_error := Some err\<rparr>"

definition resource_parsed :: "string \<Rightarrow> string list \<Rightarrow> string option \<Rightarrow> parsed" where
  "resource_parsed s parts v = (new_parsed s)\<lparr>pr_element_name := Some (hd parts),
     pr_resource_paths := Some (butlast (tl parts)), pr_resource_name := Some (tl (last parts)), pr_value := v,
     pr_is_variable := (v \<noteq> None), pr_is_resource := True,
     pr_resource_type := Some (''$'' @ hd parts @ ''.'' @ join_with ''.'' (butlast (tl parts)))\<rparr>"

definition type_parsed :: "string \<Rightarrow> string list \<Rightarrow> parsed" where
  "type_parsed s parts = (new_parsed s)\<lparr>pr_element_name := Some (hd parts),
     pr_resource_paths := Some (tl parts), pr_is_resource_type := True\<rparr>"

definition parse_variable :: "string \<Rightarrow> parsed" where
  "parse_variable s = (case search_var s of
     None \<Rightarrow> invalid_parsed s ''Invalid format''
   | Some (g1, g2) \<Rightarrow>
       let parts = split_on CHR ''.'' g1 in
       if length parts \<le> 1 then invalid_parsed s ''Invalid format''
       else if length parts = 2 then type_parsed s parts
       else if length parts = 3 then
         (if is_dollar (last parts) then resource_parsed s parts None else type_parsed s parts)
       else
         let v = (if g2 = [] then None else Some g2) in
         if is_dollar (last parts) then resource_parsed s parts v
         else if v \<noteq> None then invalid_parsed s ''Not found resource''
         else type_parsed s parts)"

fun walk :: "json \<Rightarrow> parsed list" where
  "walk (JDict d) = concat (map walk (dvals d))"
| "walk (JList xs) = concat (map walk xs)"
| "walk v = [parse_variable (py_str v)]"

section \<open>Schemas\<close>

definition schema_ref_prefix :: string where
  "schema_ref_prefix = ''#/components/schemas/''"

definition ref_target :: "json \<Rightarrow> string option" where
  "ref_target v = (case v of
     JStr r \<Rightarrow> if starts_with r schema_ref_prefix then Some (drop (length schema_ref_prefix) r) else None
   | _ \<Rightarrow> None)"

definition own_ref :: "(string, json) dict \<Rightarrow> string option" where
  "own_ref d = (case dget d ''$ref'' of None \<Rightarrow> None | Some v \<Rightarrow> ref_target v)"

fun iter_schema_refs :: "json \<Rightarrow> string list" where
  "iter_schema_refs (JDict d) =
     (case own_ref d of None \<Rightarrow> [] | Some r \<Rightarrow> [r]) @ concat (map iter_schema_refs (dvals d))"
| "iter_schema_refs (JList xs) = concat (map iter_schema_refs xs)"
| "iter_schema_refs _ = []"

text \<open>
  \<open>copy_schema_closure\<close>: the stack of pending names has its top at the head.  Each round either
  drops a name or copies one schema of the source that the target lacks, so the number of those,
  and then the stack, get smaller.
\<close>

definition missing :: "(string, json) dict \<Rightarrow> (string, json) dict \<Rightarrow> string set" where
  "missing source target = {k \<in> set (dkeys source). \<not> has_key target k}"

lemma missing_dset:
  assumes "has_key source k" and "\<not> has_key target k"
  shows "card (missing source (dset k v target)) < card (missing source target)"
proof -
  have "missing source (dset k v target) = missing source target - {k}" by (auto simp: missing_def)
  moreover have "k \<in> missing source target" using assms by (simp add: missing_def has_key_iff)
  moreover have "finite (missing source target)" by (simp add: missing_def)
  ultimately show ?thesis by (metis card_Diff1_less)
qed

function copy_schemas :: "(string, json) dict \<Rightarrow> string list \<Rightarrow> (string, json) dict \<Rightarrow> (string, json) dict" where
  "copy_schemas source [] target = target"
| "copy_schemas source (current # pending) target =
     (if has_key target current then copy_schemas source pending target
      else case dget source current of
        None \<Rightarrow> copy_schemas source pending target
      | Some schema \<Rightarrow>
          copy_schemas source (rev (iter_schema_refs schema) @ pending) (dset current schema target))"
  by pat_completeness auto

termination
  by (relation "measures [\<lambda>(source, _, target). card (missing source target), \<lambda>(_, pending, _). length pending]")
    (auto simp: missing_dset has_key_def)

definition copy_schema_closure :: "(string, json) dict \<Rightarrow> (string, json) dict \<Rightarrow> string \<Rightarrow> (string, json) dict" where
  "copy_schema_closure source target name = copy_schemas source [name] target"

lemma seen_decreases:
  assumes "dget schemas name = Some v" and "name \<notin> seen"
  shows "card (set (dkeys schemas) - insert name seen) < card (set (dkeys schemas) - seen)"
proof -
  have "name \<in> set (dkeys schemas) - seen" using assms by (simp add: has_key_iff [symmetric] has_key_def)
  then show ?thesis by (metis Diff_insert List.finite_set card_Diff1_less finite_Diff)
qed

text \<open>\<open>resolve_schema\<close> follows references until a schema is not one, a name is unknown or seen before.\<close>

function resolve_from :: "(string, json) dict \<Rightarrow> string set \<Rightarrow> string \<Rightarrow> json option" where
  "resolve_from schemas seen name =
     (if name \<in> seen then None
      else case dget schemas name of
        None \<Rightarrow> None
      | Some (JDict d) \<Rightarrow>
          (case own_ref d of None \<Rightarrow> Some (JDict d) | Some n \<Rightarrow> resolve_from schemas (insert name seen) n)
      | Some v \<Rightarrow> Some v)"
  by pat_completeness auto

termination
  by (relation "measure (\<lambda>(schemas, seen, _). card (set (dkeys schemas) - seen))") (auto intro: seen_decreases)

definition resolve_schema :: "(string, json) dict \<Rightarrow> string \<Rightarrow> json option" where
  "resolve_schema schemas name = resolve_from schemas {} name"

section \<open>Resource types of a manifest\<close>

definition remove_middle_parts :: "string \<Rightarrow> string" where
  "remove_middle_parts s = (let parts = split_on CHR ''.'' s in
     if length parts \<le> 2 then s
     else join_with ''.'' (hd parts # filter (\<lambda>p. \<not> is_dollar p) (tl parts)))"

text \<open>
  \<open>mutate_resource_types\<close>, on the resources of the manifest: the new names are collected first
  (the last type that maps to a name wins), then each type is moved to its new name.
\<close>

definition mutated_map :: "(string, json) dict \<Rightarrow> (string, string) dict" where
  "mutated_map resources = fold (\<lambda>t m. if t \<noteq> remove_middle_parts t then dset (remove_middle_parts t) t m else m)
     (dkeys resources) []"

definition mutate_resource_types :: "(string, json) dict \<Rightarrow> (string, json) dict" where
  "mutate_resource_types resources = fold (\<lambda>(new, old) rs. case dget rs old of
       None \<Rightarrow> rs | Some v \<Rightarrow> dset new v (ddel old rs)) (mutated_map resources) resources"

section \<open>Lemmas\<close>

lemma value_part_inside: "c \<noteq> CHR '':'' \<Longrightarrow> c \<noteq> newline \<Longrightarrow> value_part (c # r) = None"
  by (auto simp: value_part_def at_end_def Let_def)

lemma scan_var_group:
  assumes "g \<noteq> []" and "\<forall>c \<in> set g. c \<noteq> CHR '':'' \<and> c \<noteq> newline" and "value_part t = Some v"
  shows "scan_var acc (g @ t) = Some (acc @ g, v)"
  using assms(1,2)
proof (induction g arbitrary: acc)
  case (Cons c g)
  show ?case
  proof (cases g)
    case Nil
    then show ?thesis using Cons.prems assms(3) by simp
  next
    case (Cons d g')
    with Cons.prems have "value_part (g @ t) = None" by (simp add: value_part_inside)
    with Cons Cons.prems Cons.IH [of "acc @ [c]"] show ?thesis by simp
  qed
qed simp

lemma value_part_end [simp]: "value_part [] = Some []"
  by (simp add: value_part_def)

lemma value_part_colon: "v \<noteq> [] \<Longrightarrow> newline \<notin> set v \<Longrightarrow> value_part (CHR '':'' # v) = Some v"
proof -
  assume "v \<noteq> []" "newline \<notin> set v"
  then have "takeWhile (\<lambda>x. x \<noteq> newline) v = v" by (auto simp: takeWhile_eq_all_conv)
  with \<open>v \<noteq> []\<close> show ?thesis unfolding value_part_def at_end_def Let_def list.case by (simp only: drop_all) simp
qed

text \<open>The text of a link with an element, the parts of a type and a name.\<close>

definition plain :: "string \<Rightarrow> bool" where
  "plain s \<longleftrightarrow> CHR ''.'' \<notin> set s \<and> CHR '':'' \<notin> set s \<and> newline \<notin> set s"

definition resource_link_text :: "string \<Rightarrow> string list \<Rightarrow> string \<Rightarrow> string" where
  "resource_link_text el types name = join_with ''.'' (el # types @ [''$'' @ name])"

lemma set_join_with: "c \<in> set (join_with sep ws) \<Longrightarrow> c \<in> set sep \<or> (\<exists>w \<in> set ws. c \<in> set w)"
  by (induction sep ws rule: join_with.induct) auto

lemma resource_link_text_chars:
  assumes "plain el" and "\<forall>t \<in> set types. plain t" and "plain name"
  shows "\<forall>c \<in> set (resource_link_text el types name). c \<noteq> CHR '':'' \<and> c \<noteq> newline"
proof
  fix c assume "c \<in> set (resource_link_text el types name)"
  then have "c = CHR ''.'' \<or> (\<exists>w \<in> set (el # types @ [''$'' @ name]). c \<in> set w)"
    unfolding resource_link_text_def using set_join_with by force
  then show "c \<noteq> CHR '':'' \<and> c \<noteq> newline"
    using assms by (auto simp: plain_def newline_def char_of_def)
qed

lemma resource_link_text_split:
  assumes "plain el" and "\<forall>t \<in> set types. plain t" and "plain name"
  shows "split_on CHR ''.'' (resource_link_text el types name) = el # types @ [''$'' @ name]"
  unfolding resource_link_text_def
  by (rule split_on_join) (use assms in \<open>auto simp: plain_def\<close>)

lemma resource_link_text_nonempty: "resource_link_text el types name \<noteq> []"
  using join_with_snoc [of "el # types" "''.''" "''$'' @ name"] by (simp add: resource_link_text_def)

text \<open>References, and what is reachable along them within the source.\<close>

inductive schema_reach :: "(string, json) dict \<Rightarrow> string \<Rightarrow> string \<Rightarrow> bool" for source where
  start: "has_key source n \<Longrightarrow> schema_reach source n n"
| step: "schema_reach source n m \<Longrightarrow> dget source m = Some s \<Longrightarrow> r \<in> set (iter_schema_refs s) \<Longrightarrow> has_key source r
     \<Longrightarrow> schema_reach source n r"

definition closed_up_to :: "(string, json) dict \<Rightarrow> string list \<Rightarrow> (string, json) dict \<Rightarrow> bool" where
  "closed_up_to source pending t \<longleftrightarrow> (\<forall>k v r. dget t k = Some v \<longrightarrow> r \<in> set (iter_schema_refs v) \<longrightarrow> has_key source r
     \<longrightarrow> has_key t r \<or> r \<in> set pending)"

lemma copy_schemas_spec:
  assumes "closed_up_to source pending target" and "\<forall>p \<in> set pending. has_key source p \<longrightarrow> schema_reach source n p"
  shows "closed_up_to source [] (copy_schemas source pending target) \<and>
    (\<forall>p \<in> set pending. has_key source p \<longrightarrow> has_key (copy_schemas source pending target) p) \<and>
    (\<forall>k v. dget target k = Some v \<longrightarrow> dget (copy_schemas source pending target) k = Some v) \<and>
    (\<forall>k. has_key (copy_schemas source pending target) k \<longrightarrow> has_key target k \<or>
       (schema_reach source n k \<and> dget (copy_schemas source pending target) k = dget source k))"
  using assms
proof (induction source pending target rule: copy_schemas.induct)
  case (1 source target)
  then show ?case by (simp add: has_key_def)
next
  case (2 source current pending target)
  show ?case
  proof (cases "has_key target current")
    case True
    have "closed_up_to source pending target" using 2(4) True by (auto simp: closed_up_to_def)
    with 2(1) [OF True] 2(5) True show ?thesis by (auto simp: has_key_def)
  next
    case new: False
    show ?thesis
    proof (cases "dget source current")
      case None
      then have "closed_up_to source pending target" using 2(4)
        unfolding closed_up_to_def has_key_def by (metis set_ConsD)
      with 2(2) [OF new None] 2(5) new None show ?thesis by (auto simp: has_key_def)
    next
      case (Some s)
      let ?p = "rev (iter_schema_refs s) @ pending" and ?t = "dset current s target"
      have r: "schema_reach source n current" using 2(5) Some by (simp add: has_key_def)
      have c: "closed_up_to source ?p ?t" using 2(4) unfolding closed_up_to_def has_key_def
        by (auto simp: dget_dset split: if_splits)
      have p: "\<forall>p \<in> set ?p. has_key source p \<longrightarrow> schema_reach source n p"
        using 2(5) schema_reach.step [OF r Some] by auto
      note IH = 2(3) [OF new Some c p]
      have eq: "copy_schemas source (current # pending) target = copy_schemas source ?p ?t" using new Some by simp
      have cur: "dget (copy_schemas source ?p ?t) current = Some s" using IH by simp
      show ?thesis unfolding eq
      proof (intro conjI allI ballI impI)
        show "closed_up_to source [] (copy_schemas source ?p ?t)" using IH by blast
      next
        fix p assume "p \<in> set (current # pending)" "has_key source p"
        then show "has_key (copy_schemas source ?p ?t) p" using IH cur by (auto simp: has_key_def)
      next
        fix k v assume "dget target k = Some v"
        with new have "dget ?t k = Some v" by (auto simp: has_key_def)
        then show "dget (copy_schemas source ?p ?t) k = Some v" using IH by blast
      next
        fix k assume "has_key (copy_schemas source ?p ?t) k"
        then show "has_key target k \<or>
            (schema_reach source n k \<and> dget (copy_schemas source ?p ?t) k = dget source k)"
          using IH r Some cur by (cases "k = current") (auto simp: has_key_def)
      qed
    qed
  qed
qed

section \<open>Properties\<close>

text \<open>C6. A link made of an element, the parts of a type and a resource name parses back to them:
  with two type parts or more the text after the colon is the parameter.  The parameter of a link
  whose type has one part is dropped.\<close>

theorem parse_variable_link:
  assumes "plain el" and "types \<noteq> []" and "\<forall>t \<in> set types. plain t" and "plain name"
    and "param = [] \<or> (\<exists>v. v \<noteq> [] \<and> newline \<notin> set v \<and> param = CHR '':'' # v)"
  shows "pr_valid (parse_variable (''$'' @ resource_link_text el types name @ param)) \<and>
    pr_is_resource (parse_variable (''$'' @ resource_link_text el types name @ param)) \<and>
    pr_element_name (parse_variable (''$'' @ resource_link_text el types name @ param)) = Some el \<and>
    pr_resource_paths (parse_variable (''$'' @ resource_link_text el types name @ param)) = Some types \<and>
    pr_resource_name (parse_variable (''$'' @ resource_link_text el types name @ param)) = Some name \<and>
    pr_value (parse_variable (''$'' @ resource_link_text el types name @ param)) =
      (if length types = 1 \<or> param = [] then None else Some (tl param))"
proof -
  let ?g = "resource_link_text el types name"
  have "value_part param = Some (tl param)" using assms(5) by (auto simp: value_part_colon)
  then have "scan_var [] (?g @ param) = Some (?g, tl param)"
    using scan_var_group [OF resource_link_text_nonempty resource_link_text_chars [OF assms(1,3,4)]] by simp
  then have m: "search_var (''$'' @ ?g @ param) = Some (?g, tl param)" by simp
  have s: "split_on CHR ''.'' ?g = el # types @ [''$'' @ name]" by (rule resource_link_text_split [OF assms(1,3,4)])
  have l: "length types \<ge> 1" using assms(2) by (cases types) auto
  have e: "tl param = [] \<longleftrightarrow> param = []" using assms(5) by auto
  have "parse_variable (''$'' @ ?g @ param) = resource_parsed (''$'' @ ?g @ param) (el # types @ [''$'' @ name])
      (if length types = 1 \<or> param = [] then None else Some (tl param))"
    unfolding parse_variable_def m option.case prod.case s Let_def using l e
    by (simp add: is_dollar_def) (cases types; auto)
  then show ?thesis by (simp add: resource_parsed_def new_parsed_def)
qed

theorem parse_variable_link_witness:
  "pr_value (parse_variable (''$'' @ resource_link_text ''core'' [''compute'', ''nodes''] ''vm'' @ '':uuid'')) = Some ''uuid''"
  using parse_variable_link [of "''core''" "[''compute'', ''nodes'']" "''vm''" "'':uuid''"]
  by (simp add: plain_def newline_def char_of_def)

text \<open>Copying a schema with everything it refers to: when every reference of the target that the
  source knows is already in the target, the same holds of the result; the wanted schema is in it,
  no entry of the target is changed, and what is added is reachable in the source.\<close>

theorem schema_closure_complete:
  assumes "closed_up_to source [] target"
  shows "closed_up_to source [] (copy_schema_closure source target name) \<and>
    (has_key source name \<longrightarrow> has_key (copy_schema_closure source target name) name) \<and>
    (\<forall>k v. dget target k = Some v \<longrightarrow> dget (copy_schema_closure source target name) k = Some v) \<and>
    (\<forall>k. has_key (copy_schema_closure source target name) k \<longrightarrow> has_key target k \<or>
       (schema_reach source name k \<and> dget (copy_schema_closure source target name) k = dget source k))"
proof -
  have "closed_up_to source [name] target" using assms by (simp add: closed_up_to_def)
  then show ?thesis unfolding copy_schema_closure_def
    using copy_schemas_spec [of source "[name]" target name] by (simp add: schema_reach.start)
qed

definition schemas_example :: "(string, json) dict" where
  "schemas_example = [(''A'', JDict [(''$ref'', JStr ''#/components/schemas/B'')]), (''B'', JList [])]"

theorem schema_closure_complete_witness:
  "has_key (copy_schema_closure schemas_example [] ''A'') ''A''"
  using schema_closure_complete [of schemas_example "[]" "''A''"]
  by (simp add: closed_up_to_def schemas_example_def has_key_def)

end
