(* ===== verification/Element_Engine.thy ===== *)
theory Element_Engine
  imports Element_Links
begin

text \<open>
  The registry of the element manager (\<open>Namespace\<close>, \<open>ElementEngine\<close>, \<open>ImportedResource\<close> of
  \<open>exordos_core/elements/dm/models.py\<close>): the installed elements, the resources in the namespace of
  each by link, and the exported resources by link.  A namespace holds the resources of its element
  and those it imports, which keep their resource and show another name and element.  The rows the
  engine loads are lists in the order the database returns them.  Exceptions carry no message.
\<close>

section \<open>Rows\<close>

record element =
  el_uuid :: uuid
  el_name :: string
  el_version :: string
  el_status :: string
  el_api_version :: "string option"
  el_description :: string
  el_requirements :: "(string, (string, string) dict) dict"
  el_manifest :: uuid

record resource =
  rs_uuid :: uuid
  rs_element :: element
  rs_name :: string
  rs_prefix :: string
  rs_value :: "(string, json) dict"

datatype entry = Own resource | Imported element resource string

record export_row =
  xp_uuid :: uuid
  xp_element :: element
  xp_name :: string
  xp_kind :: string
  xp_link :: string

record import_row =
  im_uuid :: uuid
  im_element :: uuid
  im_from_element :: uuid
  im_from_resource :: uuid
  im_name :: string
  im_kind :: string

datatype em_error = ValidateException | NamespaceNotFound | KeyError | TypeError | ValueError
  | AttributeError | RecursionError | ConflictRecords | ImmutableDiskPolicy

definition element_link :: "element \<Rightarrow> string" where
  "element_link e = ''$'' @ el_name e"

definition resource_link :: "resource \<Rightarrow> string" where
  "resource_link r = rs_prefix r @ ''.$'' @ rs_name r"

fun entry_link :: "entry \<Rightarrow> string" where
  "entry_link (Own r) = resource_link r"
| "entry_link (Imported e r n) = element_link e @ ''.imports.$'' @ n"

fun entry_element :: "entry \<Rightarrow> element" where
  "entry_element (Own r) = rs_element r"
| "entry_element (Imported e r n) = e"

fun entry_name :: "entry \<Rightarrow> string" where
  "entry_name (Own r) = rs_name r"
| "entry_name (Imported e r n) = n"

text \<open>Every other attribute of an imported resource is the one of the resource.\<close>

fun entry_resource :: "entry \<Rightarrow> resource" where
  "entry_resource (Own r) = r"
| "entry_resource (Imported e r n) = r"

definition export_full_link :: "export_row \<Rightarrow> string" where
  "export_full_link x = ''$'' @ el_name (xp_element x) @ ''.'' @ xp_link x"

section \<open>Namespaces\<close>

record namespace =
  ns_element :: element
  ns_resources :: "(string, entry) dict"

definition namespace_add :: "entry \<Rightarrow> namespace \<Rightarrow> em_error + namespace" where
  "namespace_add r ns =
     (if has_key (ns_resources ns) (entry_link r) then Inl ValidateException
      else Inr (ns\<lparr>ns_resources := dset (entry_link r) r (ns_resources ns)\<rparr>))"

definition namespace_resources :: "namespace \<Rightarrow> entry list" where
  "namespace_resources ns = dvals (ns_resources ns)"

definition namespace_delete :: "entry \<Rightarrow> namespace \<Rightarrow> em_error + namespace" where
  "namespace_delete r ns =
     (if \<not> has_key (ns_resources ns) (entry_link r) then Inl ValidateException
      else Inr (ns\<lparr>ns_resources := ddel (entry_link r) (ns_resources ns)\<rparr>))"

definition namespace_lookup :: "namespace \<Rightarrow> string \<Rightarrow> em_error + entry" where
  "namespace_lookup ns link = (case dget (ns_resources ns) (clear_parameters link) of
     None \<Rightarrow> Inl ValidateException | Some r \<Rightarrow> Inr r)"

section \<open>The engine\<close>

record engine =
  en_namespaces :: "(string, namespace) dict"
  en_exports :: "(string, entry) dict"

definition new_engine :: engine where
  "new_engine = \<lparr>en_namespaces = [], en_exports = []\<rparr>"

definition get_namespace :: "engine \<Rightarrow> string \<Rightarrow> em_error + namespace" where
  "get_namespace eng name = (case dget (en_namespaces eng) name of
     None \<Rightarrow> Inl NamespaceNotFound | Some ns \<Rightarrow> Inr ns)"

definition get_elements :: "engine \<Rightarrow> element list" where
  "get_elements eng = map ns_element (dvals (en_namespaces eng))"

definition get_element :: "engine \<Rightarrow> string \<Rightarrow> em_error + element" where
  "get_element eng link = ebind (get_namespace eng link) (\<lambda>ns. Inr (ns_element ns))"

definition add_element :: "element \<Rightarrow> engine \<Rightarrow> em_error + engine" where
  "add_element e eng =
     (if has_key (en_namespaces eng) (element_link e) then Inl ValidateException
      else Inr (eng\<lparr>en_namespaces :=
        dset (element_link e) \<lparr>ns_element = e, ns_resources = []\<rparr> (en_namespaces eng)\<rparr>))"

definition remove_element :: "element \<Rightarrow> engine \<Rightarrow> em_error + engine" where
  "remove_element e eng =
     (if \<not> has_key (en_namespaces eng) (element_link e) then Inl ValidateException
      else Inr (eng\<lparr>en_namespaces := ddel (element_link e) (en_namespaces eng)\<rparr>))"

text \<open>
  The exception for an unknown element is built but not raised, so the lookup of the namespace is
  what fails.
\<close>

definition on_namespace :: "(namespace \<Rightarrow> em_error + namespace) \<Rightarrow> string \<Rightarrow> engine \<Rightarrow> em_error + engine" where
  "on_namespace f link eng = (case dget (en_namespaces eng) link of
     None \<Rightarrow> Inl KeyError
   | Some ns \<Rightarrow> ebind (f ns) (\<lambda>ns'. Inr (eng\<lparr>en_namespaces := dset link ns' (en_namespaces eng)\<rparr>)))"

definition add_resource :: "entry \<Rightarrow> engine \<Rightarrow> em_error + engine" where
  "add_resource r eng = on_namespace (namespace_add r) (element_link (entry_element r)) eng"

definition delete_resource :: "entry \<Rightarrow> engine \<Rightarrow> em_error + engine" where
  "delete_resource r eng = on_namespace (namespace_delete r) (element_link (entry_element r)) eng"

definition get_resources :: "engine \<Rightarrow> entry list" where
  "get_resources eng = concat (map namespace_resources (dvals (en_namespaces eng)))"

text \<open>
  The text of the exception for an unknown element looks the element up again, which raises first.
\<close>

definition get_resource_by_link :: "engine \<Rightarrow> element \<Rightarrow> string \<Rightarrow> em_error + entry" where
  "get_resource_by_link eng e link = (case dget (en_namespaces eng) (element_link e) of
     None \<Rightarrow> Inl KeyError | Some ns \<Rightarrow> namespace_lookup ns link)"

definition add_resource_by_export :: "export_row \<Rightarrow> engine \<Rightarrow> em_error + engine" where
  "add_resource_by_export x eng = ebind (get_resource_by_link eng (xp_element x) (xp_link x)) (\<lambda>r.
     if has_key (en_exports eng) (export_full_link x) then Inl ValidateException
     else Inr (eng\<lparr>en_exports := dset (export_full_link x) r (en_exports eng)\<rparr>))"

definition delete_resource_by_export :: "export_row \<Rightarrow> engine \<Rightarrow> em_error + engine" where
  "delete_resource_by_export x eng =
     (if has_key (en_exports eng) (export_full_link x)
      then Inr (eng\<lparr>en_exports := ddel (export_full_link x) (en_exports eng)\<rparr>) else Inl KeyError)"

definition get_resource_by_export_link :: "engine \<Rightarrow> string \<Rightarrow> em_error + entry" where
  "get_resource_by_export_link eng link = (case dget (en_exports eng) link of
     None \<Rightarrow> Inl ValidateException | Some r \<Rightarrow> Inr r)"

section \<open>Loading\<close>

text \<open>A stored resource names its element by uuid; the loader puts the element in.\<close>

record resource_row =
  rr_element :: uuid
  rr_resource :: resource

record em_db =
  db_elements :: "element list"
  db_resources :: "resource_row list"
  db_imports :: "import_row list"
  db_exports :: "export_row list"

definition kind_resource :: string where
  "kind_resource = ''resource''"

definition load_elements :: "element list \<Rightarrow> em_error + engine" where
  "load_elements es = efold add_element es new_engine"

definition keyed :: "('a \<Rightarrow> 'k) \<Rightarrow> 'a list \<Rightarrow> ('k, 'a) dict" where
  "keyed f xs = fold (\<lambda>x. dset (f x) x) xs []"

definition load_row :: "(uuid, element) dict \<Rightarrow> resource_row \<Rightarrow> engine \<Rightarrow> em_error + engine" where
  "load_row elements row eng = (case dget elements (rr_element row) of
     None \<Rightarrow> Inl KeyError
   | Some e \<Rightarrow> add_resource (Own ((rr_resource row)\<lparr>rs_element := e\<rparr>)) eng)"

definition load_resources :: "resource_row list \<Rightarrow> engine \<Rightarrow> em_error + engine" where
  "load_resources rows eng = efold (load_row (keyed el_uuid (get_elements eng))) rows eng"

definition load_import :: "(uuid, element) dict \<Rightarrow> (uuid, entry) dict \<Rightarrow> import_row \<Rightarrow> engine \<Rightarrow> em_error + engine" where
  "load_import elements resources im eng =
     (if im_kind im \<noteq> kind_resource then Inl ValidateException
      else case (dget elements (im_element im), dget resources (im_from_resource im)) of
        (Some e, Some r) \<Rightarrow> add_resource (Imported e (entry_resource r) (im_name im)) eng
      | _ \<Rightarrow> Inl KeyError)"

definition load_imports :: "import_row list \<Rightarrow> engine \<Rightarrow> em_error + engine" where
  "load_imports ims eng = efold (load_import (keyed el_uuid (get_elements eng))
     (keyed (\<lambda>r. rs_uuid (entry_resource r)) (get_resources eng))) ims eng"

definition load_export :: "export_row \<Rightarrow> engine \<Rightarrow> em_error + engine" where
  "load_export x eng =
     (if xp_kind x \<noteq> kind_resource then Inl ValidateException else add_resource_by_export x eng)"

definition load_from_database :: "em_db \<Rightarrow> em_error + engine" where
  "load_from_database db =
     ebind (load_elements (db_elements db)) (\<lambda>eng.
     ebind (load_resources (db_resources db) eng) (\<lambda>eng.
     ebind (load_imports (db_imports db) eng) (\<lambda>eng.
     efold load_export (db_exports db) eng)))"

section \<open>The registry\<close>

text \<open>
  An entry is stored where its element and its link say.  In a registry that is in order, every
  namespace is under the link of its element and every entry under its own.
\<close>

definition stored :: "engine \<Rightarrow> entry \<Rightarrow> bool" where
  "stored eng r \<longleftrightarrow> (\<exists>ns. dget (en_namespaces eng) (element_link (entry_element r)) = Some ns \<and>
     dget (ns_resources ns) (entry_link r) = Some r)"

definition namespace_ok :: "string \<Rightarrow> namespace \<Rightarrow> bool" where
  "namespace_ok k ns \<longleftrightarrow> k = element_link (ns_element ns) \<and> wf_dict (ns_resources ns) \<and>
     (\<forall>l r. dget (ns_resources ns) l = Some r \<longrightarrow> l = entry_link r \<and> element_link (entry_element r) = k)"

definition engine_ok :: "engine \<Rightarrow> bool" where
  "engine_ok eng \<longleftrightarrow> wf_dict (en_namespaces eng) \<and> wf_dict (en_exports eng) \<and>
     (\<forall>k ns. dget (en_namespaces eng) k = Some ns \<longrightarrow> namespace_ok k ns)"

inductive engine_step :: "engine \<Rightarrow> engine \<Rightarrow> bool" where
  new_element: "add_element e eng = Inr eng' \<Longrightarrow> engine_step eng eng'"
| gone_element: "remove_element e eng = Inr eng' \<Longrightarrow> engine_step eng eng'"
| new_resource: "add_resource r eng = Inr eng' \<Longrightarrow> engine_step eng eng'"
| gone_resource: "delete_resource r eng = Inr eng' \<Longrightarrow> engine_step eng eng'"
| new_export: "add_resource_by_export x eng = Inr eng' \<Longrightarrow> engine_step eng eng'"
| gone_export: "delete_resource_by_export x eng = Inr eng' \<Longrightarrow> engine_step eng eng'"

inductive_cases engine_stepE: "engine_step eng eng'"

inductive engine_reachable :: "engine \<Rightarrow> bool" where
  fresh: "engine_reachable new_engine"
| more: "engine_reachable eng \<Longrightarrow> engine_step eng eng' \<Longrightarrow> engine_reachable eng'"

text \<open>What each operation does when it succeeds.\<close>

lemma add_element_Inr: "add_element e eng = Inr eng' \<longleftrightarrow> \<not> has_key (en_namespaces eng) (element_link e) \<and>
    eng' = eng\<lparr>en_namespaces := dset (element_link e) \<lparr>ns_element = e, ns_resources = []\<rparr> (en_namespaces eng)\<rparr>"
  by (auto simp: add_element_def)

lemma remove_element_Inr: "remove_element e eng = Inr eng' \<longleftrightarrow> has_key (en_namespaces eng) (element_link e) \<and>
    eng' = eng\<lparr>en_namespaces := ddel (element_link e) (en_namespaces eng)\<rparr>"
  by (auto simp: remove_element_def)

lemma on_namespace_Inr: "on_namespace f l eng = Inr eng' \<longleftrightarrow> (\<exists>ns ns'. dget (en_namespaces eng) l = Some ns \<and>
    f ns = Inr ns' \<and> eng' = eng\<lparr>en_namespaces := dset l ns' (en_namespaces eng)\<rparr>)"
  by (auto simp: on_namespace_def ebind_Inr_iff split: option.splits)

lemma add_resource_Inr: "add_resource r eng = Inr eng' \<longleftrightarrow>
    (\<exists>ns. dget (en_namespaces eng) (element_link (entry_element r)) = Some ns \<and>
      \<not> has_key (ns_resources ns) (entry_link r) \<and>
      eng' = eng\<lparr>en_namespaces := dset (element_link (entry_element r))
        (ns\<lparr>ns_resources := dset (entry_link r) r (ns_resources ns)\<rparr>) (en_namespaces eng)\<rparr>)"
  by (auto simp: add_resource_def on_namespace_Inr namespace_add_def)

lemma delete_resource_Inr: "delete_resource r eng = Inr eng' \<longleftrightarrow>
    (\<exists>ns. dget (en_namespaces eng) (element_link (entry_element r)) = Some ns \<and>
      has_key (ns_resources ns) (entry_link r) \<and>
      eng' = eng\<lparr>en_namespaces := dset (element_link (entry_element r))
        (ns\<lparr>ns_resources := ddel (entry_link r) (ns_resources ns)\<rparr>) (en_namespaces eng)\<rparr>)"
  by (auto simp: delete_resource_def on_namespace_Inr namespace_delete_def)

lemma add_resource_by_export_Inr: "add_resource_by_export x eng = Inr eng' \<longleftrightarrow>
    (\<exists>r. get_resource_by_link eng (xp_element x) (xp_link x) = Inr r \<and>
      \<not> has_key (en_exports eng) (export_full_link x) \<and>
      eng' = eng\<lparr>en_exports := dset (export_full_link x) r (en_exports eng)\<rparr>)"
  by (auto simp: add_resource_by_export_def ebind_Inr_iff)

lemma delete_resource_by_export_Inr: "delete_resource_by_export x eng = Inr eng' \<longleftrightarrow>
    has_key (en_exports eng) (export_full_link x) \<and>
    eng' = eng\<lparr>en_exports := ddel (export_full_link x) (en_exports eng)\<rparr>"
  by (auto simp: delete_resource_by_export_def)

lemmas engine_ops = add_element_Inr remove_element_Inr add_resource_Inr delete_resource_Inr
  add_resource_by_export_Inr delete_resource_by_export_Inr

lemma namespace_ok_new: "namespace_ok (element_link e) \<lparr>ns_element = e, ns_resources = []\<rparr>"
  by (simp add: namespace_ok_def)

lemma namespace_ok_add:
  "namespace_ok (element_link (entry_element r)) ns \<Longrightarrow>
   namespace_ok (element_link (entry_element r)) (ns\<lparr>ns_resources := dset (entry_link r) r (ns_resources ns)\<rparr>)"
  by (auto simp: namespace_ok_def)

lemma namespace_ok_delete: "namespace_ok k ns \<Longrightarrow> namespace_ok k (ns\<lparr>ns_resources := ddel l (ns_resources ns)\<rparr>)"
  by (auto simp: namespace_ok_def)

lemma engine_step_ok: "engine_step eng eng' \<Longrightarrow> engine_ok eng \<Longrightarrow> engine_ok eng'"
  by (erule engine_stepE)
    (auto simp: engine_ops engine_ok_def namespace_ok_new namespace_ok_add namespace_ok_delete split: if_splits)

lemma engine_reachable_ok: "engine_reachable eng \<Longrightarrow> engine_ok eng"
proof (induction rule: engine_reachable.induct)
  case fresh
  then show ?case by (simp add: new_engine_def engine_ok_def)
qed (rule engine_step_ok)

lemma namespace_entryD:
  assumes "namespace_ok k ns" and "(l, r) \<in> set (ns_resources ns)"
  shows "l = entry_link r" "element_link (entry_element r) = k" "dget (ns_resources ns) (entry_link r) = Some r"
proof -
  have "dget (ns_resources ns) l = Some r" using assms by (simp add: namespace_ok_def wf_dict_dget)
  then show "l = entry_link r" "element_link (entry_element r) = k" "dget (ns_resources ns) (entry_link r) = Some r"
    using assms(1) unfolding namespace_ok_def by blast+
qed

lemma get_resources_stored:
  assumes "engine_ok eng"
  shows "r \<in> set (get_resources eng) \<longleftrightarrow> stored eng r"
proof
  assume "r \<in> set (get_resources eng)"
  then obtain k ns l where *: "(k, ns) \<in> set (en_namespaces eng)" "(l, r) \<in> set (ns_resources ns)"
    by (auto simp: get_resources_def namespace_resources_def dvals_def)
  then have ns: "dget (en_namespaces eng) k = Some ns" using assms by (auto simp: engine_ok_def wf_dict_dget)
  then have "namespace_ok k ns" using assms by (auto simp: engine_ok_def)
  then show "stored eng r" using namespace_entryD [OF _ *(2)] ns by (auto simp: stored_def)
next
  assume "stored eng r"
  then show "r \<in> set (get_resources eng)"
    by (force simp: stored_def get_resources_def namespace_resources_def dvals_def dest: map_of_SomeD)
qed

lemma stored_lookup:
  "stored eng r \<Longrightarrow> clear_parameters (entry_link r) = entry_link r \<Longrightarrow>
   get_resource_by_link eng (entry_element r) (entry_link r) = Inr r"
  by (auto simp: stored_def get_resource_by_link_def namespace_lookup_def)

lemma distinct_concat_dvals:
  assumes "wf_dict d" and "\<And>k v. (k, v) \<in> set d \<Longrightarrow> distinct (map f (g v)) \<and> (\<forall>x \<in> set (g v). fst (f x) = k)"
  shows "distinct (map f (concat (map g (dvals d))))"
  using assms
proof (induction d)
  case (Cons kv d)
  obtain k v where kv: "kv = (k, v)" by (cases kv)
  have IH: "distinct (map f (concat (map g (dvals d))))"
    using Cons.prems by (intro Cons.IH) (auto simp: wf_dict_def dkeys_def)
  have k: "k \<notin> fst ` set d" using Cons.prems(1) kv by (simp add: wf_dict_def dkeys_def)
  have v: "distinct (map f (g v))" "\<forall>x \<in> set (g v). fst (f x) = k" using Cons.prems(2) [of k v] kv by auto
  have "fst (f x) \<in> fst ` set d" if "x \<in> set (concat (map g (dvals d)))" for x
  proof -
    from that obtain k' v' where "(k', v') \<in> set d" "x \<in> set (g v')" by (auto simp: dvals_def)
    with Cons.prems(2) [of k' v'] show ?thesis by force
  qed
  with k v have "f x \<noteq> f y" if "x \<in> set (g v)" "y \<in> set (concat (map g (dvals d)))" for x y
    using that by metis
  then have "f ` set (g v) \<inter> f ` set (concat (map g (dvals d))) = {}" by blast
  with IH v kv show ?case by (simp add: dvals_def del: set_concat)
qed (simp add: dvals_def)

lemma get_resources_distinct:
  assumes "engine_ok eng"
  shows "distinct (map (\<lambda>r. (element_link (entry_element r), entry_link r)) (get_resources eng))"
  unfolding get_resources_def
proof (rule distinct_concat_dvals)
  show "wf_dict (en_namespaces eng)" using assms by (simp add: engine_ok_def)
next
  fix k ns assume "(k, ns) \<in> set (en_namespaces eng)"
  then have ok: "namespace_ok k ns" using assms by (auto simp: engine_ok_def wf_dict_dget)
  have "map entry_link (namespace_resources ns) = dkeys (ns_resources ns)"
    using namespace_entryD(1) [OF ok] by (auto simp: namespace_resources_def dvals_def dkeys_def)
  then have "distinct (map entry_link (namespace_resources ns))" using ok by (simp add: namespace_ok_def wf_dict_def)
  moreover have "element_link (entry_element r) = k" if "r \<in> set (namespace_resources ns)" for r
    using namespace_entryD(2) [OF ok] that by (auto simp: namespace_resources_def dvals_def)
  ultimately show "distinct (map (\<lambda>r. (element_link (entry_element r), entry_link r)) (namespace_resources ns)) \<and>
      (\<forall>r \<in> set (namespace_resources ns). fst (element_link (entry_element r), entry_link r) = k)"
    by (auto simp: distinct_map inj_on_def)
qed

section \<open>What loading does\<close>

lemma stored_add:
  assumes "add_resource r eng = Inr eng'"
  shows "stored eng' x \<longleftrightarrow> x = r \<or> stored eng x"
proof -
  obtain ns where ns: "dget (en_namespaces eng) (element_link (entry_element r)) = Some ns"
      "dget (ns_resources ns) (entry_link r) = None"
    and eng': "eng' = eng\<lparr>en_namespaces := dset (element_link (entry_element r))
        (ns\<lparr>ns_resources := dset (entry_link r) r (ns_resources ns)\<rparr>) (en_namespaces eng)\<rparr>"
    using assms by (auto simp: add_resource_Inr has_key_def)
  show ?thesis
  proof (cases "element_link (entry_element x) = element_link (entry_element r)")
    case True
    then show ?thesis using ns by (cases "entry_link x = entry_link r") (auto simp: stored_def eng')
  next
    case False
    then have "x \<noteq> r" by blast
    with False show ?thesis by (simp add: stored_def eng')
  qed
qed

lemma add_resource_ok: "add_resource r eng = Inr eng' \<Longrightarrow> engine_ok eng \<Longrightarrow> engine_ok eng'"
  by (rule engine_step_ok) (rule new_resource)

lemma dvals_dset_same:
  assumes "dget d k = Some v"
  shows "\<exists>us vs. dvals d = us @ v # vs \<and> dvals (dset k v' d) = us @ v' # vs"
  using assms
proof (induction d)
  case (Cons kv d)
  obtain j w where kv: "kv = (j, w)" by (cases kv)
  show ?case
  proof (cases "j = k")
    case True
    then show ?thesis using Cons.prems kv by (intro exI [of _ "[]"] exI [of _ "dvals d"]) (simp add: dvals_def)
  next
    case False
    then obtain us vs where "dvals d = us @ v # vs" "dvals (dset k v' d) = us @ v' # vs"
      using Cons kv by auto
    then show ?thesis using False kv by (intro exI [of _ "w # us"] exI [of _ vs]) (simp add: dvals_def)
  qed
qed simp

lemma add_resource_keeps:
  assumes "add_resource r eng = Inr eng'"
  shows "get_elements eng' = get_elements eng" "length (get_resources eng') = Suc (length (get_resources eng))"
    "en_exports eng' = en_exports eng"
proof -
  obtain ns where ns: "dget (en_namespaces eng) (element_link (entry_element r)) = Some ns"
      "\<not> has_key (ns_resources ns) (entry_link r)"
    and eng': "eng' = eng\<lparr>en_namespaces := dset (element_link (entry_element r))
        (ns\<lparr>ns_resources := dset (entry_link r) r (ns_resources ns)\<rparr>) (en_namespaces eng)\<rparr>"
    using assms by (auto simp: add_resource_Inr)
  obtain us vs where "dvals (en_namespaces eng) = us @ ns # vs"
    "dvals (en_namespaces eng') = us @ ns\<lparr>ns_resources := dset (entry_link r) r (ns_resources ns)\<rparr> # vs"
    using dvals_dset_same [OF ns(1)] eng' by fastforce
  moreover have "length (dvals (dset (entry_link r) r (ns_resources ns))) = Suc (length (dvals (ns_resources ns)))"
    using ns(2) by (simp add: dset_fresh dvals_def)
  ultimately show "get_elements eng' = get_elements eng" "length (get_resources eng') = Suc (length (get_resources eng))"
      "en_exports eng' = en_exports eng"
    by (simp_all add: get_elements_def get_resources_def namespace_resources_def eng')
qed

lemma load_elements_keeps:
  assumes "efold add_element es eng = Inr eng'" and "engine_ok eng"
  shows "engine_ok eng' \<and> get_elements eng' = get_elements eng @ es \<and> get_resources eng' = get_resources eng"
  using assms
proof (induction es arbitrary: eng)
  case (Cons e es)
  obtain t where t: "add_element e eng = Inr t" "efold add_element es t = Inr eng'"
    using Cons.prems by (auto split: sum.splits)
  from t(1) have t': "t = eng\<lparr>en_namespaces := en_namespaces eng @ [(element_link e, \<lparr>ns_element = e, ns_resources = []\<rparr>)]\<rparr>"
    by (auto simp: add_element_Inr dset_fresh)
  have ok: "engine_ok t" by (rule engine_step_ok [OF new_element [OF t(1)] Cons.prems(2)])
  from Cons.IH [OF t(2) ok] t' show ?case
    by (simp add: get_elements_def get_resources_def namespace_resources_def dvals_def)
qed simp

lemma keyed_dget: "dget (keyed f xs) u = Some x \<Longrightarrow> x \<in> set xs \<and> f x = u"
  unfolding keyed_def
proof (induction xs rule: rev_induct)
  case (snoc y xs)
  then show ?case by (cases "u = f y") auto
qed simp

text \<open>A loop that adds one entry per row: which entries, by what the row was resolved to.\<close>

lemma adding_loop:
  assumes "efold f xs eng = Inr eng'" and "engine_ok eng"
    and "\<And>x a b. x \<in> set xs \<Longrightarrow> f x a = Inr b \<Longrightarrow> \<exists>r. R x r \<and> add_resource r a = Inr b"
  shows "engine_ok eng' \<and> get_elements eng' = get_elements eng \<and> en_exports eng' = en_exports eng \<and>
    length (get_resources eng') = length (get_resources eng) + length xs \<and>
    (\<forall>r. stored eng r \<longrightarrow> stored eng' r) \<and> (\<forall>x \<in> set xs. \<exists>r. R x r \<and> stored eng' r) \<and>
    (\<forall>r. stored eng' r \<longrightarrow> stored eng r \<or> (\<exists>x \<in> set xs. R x r))"
  using assms
proof (induction xs arbitrary: eng)
  case (Cons x xs)
  obtain t where t: "f x eng = Inr t" "efold f xs t = Inr eng'" using Cons.prems(1) by (auto split: sum.splits)
  obtain r where r: "R x r" "add_resource r eng = Inr t" using Cons.prems(3) [OF _ t(1)] by auto
  have ok: "engine_ok t" by (rule add_resource_ok [OF r(2) Cons.prems(2)])
  note IH = Cons.IH [OF t(2) ok Cons.prems(3) [OF list.set_intros(2)]]
    and k = add_resource_keeps [OF r(2)] stored_add [OF r(2)]
  have "stored t r" by (simp add: k)
  with IH r(1) have "\<forall>x \<in> set (x # xs). \<exists>r. R x r \<and> stored eng' r" by auto
  with IH k r(1) show ?case by auto
qed simp

lemma keyed_wf: "wf_dict (keyed f xs)"
  unfolding keyed_def by (induction xs rule: rev_induct) auto

lemma keyed_complete: "distinct (map f xs) \<Longrightarrow> x \<in> set xs \<Longrightarrow> dget (keyed f xs) (f x) = Some x"
  unfolding keyed_def
proof (induction xs rule: rev_induct)
  case (snoc y xs)
  show ?case
  proof (cases "x = y")
    case False
    then have "x \<in> set xs" "f x \<noteq> f y" using snoc.prems by (auto simp: image_iff)
    then show ?thesis using snoc by simp
  qed simp
qed simp

lemma load_export_loop:
  assumes "efold load_export xs eng = Inr eng'"
  shows "en_namespaces eng' = en_namespaces eng \<and>
    (\<forall>l r. dget (en_exports eng) l = Some r \<longrightarrow> dget (en_exports eng') l = Some r) \<and>
    (\<forall>x \<in> set xs. \<exists>r. get_resource_by_link eng (xp_element x) (xp_link x) = Inr r \<and>
       dget (en_exports eng') (export_full_link x) = Some r)"
  using assms
proof (induction xs arbitrary: eng)
  case (Cons x xs)
  obtain t where t: "load_export x eng = Inr t" "efold load_export xs t = Inr eng'"
    using Cons.prems by (auto split: sum.splits)
  obtain r where r: "get_resource_by_link eng (xp_element x) (xp_link x) = Inr r"
      "dget (en_exports eng) (export_full_link x) = None"
    and t': "t = eng\<lparr>en_exports := dset (export_full_link x) r (en_exports eng)\<rparr>"
    using t(1) by (auto simp: load_export_def add_resource_by_export_Inr has_key_def split: if_splits)
  note IH = Cons.IH [OF t(2)]
  have l: "get_resource_by_link t e l = get_resource_by_link eng e l" for e l
    by (simp add: get_resource_by_link_def t')
  have kept: "\<forall>l r. dget (en_exports eng) l = Some r \<longrightarrow> dget (en_exports t) l = Some r" using t' r(2) by auto
  have "dget (en_exports t) (export_full_link x) = Some r" using t' by simp
  with IH kept r(1) l t' show ?case by auto
qed simp

lemma engine_ok_new: "engine_ok new_engine"
  by (rule engine_reachable_ok [OF fresh])

lemma load_row_adds:
  "load_row (keyed el_uuid es) row a = Inr b \<Longrightarrow>
   \<exists>r. (\<exists>e \<in> set es. el_uuid e = rr_element row \<and> r = Own ((rr_resource row)\<lparr>rs_element := e\<rparr>)) \<and>
     add_resource r a = Inr b"
  by (auto simp: load_row_def split: option.splits dest: keyed_dget)

lemma load_import_adds:
  "load_import (keyed el_uuid es) (keyed (\<lambda>r. rs_uuid (entry_resource r)) rs) im a = Inr b \<Longrightarrow>
   \<exists>r. (\<exists>e \<in> set es. \<exists>p \<in> set rs. el_uuid e = im_element im \<and> rs_uuid (entry_resource p) = im_from_resource im \<and>
     r = Imported e (entry_resource p) (im_name im)) \<and> add_resource r a = Inr b"
  by (auto simp: load_import_def split: option.splits if_splits dest!: keyed_dget)

lemma load_resources_keeps:
  assumes "efold (load_row (keyed el_uuid es)) rows a = Inr b" and "engine_ok a" and "\<forall>r. \<not> stored a r"
  shows "engine_ok b" "get_elements b = get_elements a"
    "length (get_resources b) = length (get_resources a) + length rows"
    "\<forall>row \<in> set rows. \<exists>e \<in> set es. el_uuid e = rr_element row \<and> stored b (Own ((rr_resource row)\<lparr>rs_element := e\<rparr>))"
    "stored b r \<Longrightarrow> Own (entry_resource r) = r"
proof -
  let ?R = "\<lambda>row r. \<exists>e \<in> set es. el_uuid e = rr_element row \<and> r = Own ((rr_resource row)\<lparr>rs_element := e\<rparr>)"
  have "\<exists>r. ?R row r \<and> add_resource r x = Inr y" if "load_row (keyed el_uuid es) row x = Inr y" for row x y
    using load_row_adds [OF that] .
  note l = adding_loop [where R = ?R, OF assms(1,2) this]
  then show "engine_ok b" "get_elements b = get_elements a"
    "length (get_resources b) = length (get_resources a) + length rows" by blast+
  show "\<forall>row \<in> set rows. \<exists>e \<in> set es. el_uuid e = rr_element row \<and> stored b (Own ((rr_resource row)\<lparr>rs_element := e\<rparr>))"
    using l by metis
  show "stored b r \<Longrightarrow> Own (entry_resource r) = r" using l assms(3) by auto
qed

lemma load_imports_keeps:
  assumes "efold (load_import (keyed el_uuid es) (keyed (\<lambda>r. rs_uuid (entry_resource r)) rs)) ims a = Inr b"
    and "engine_ok a"
  shows "engine_ok b" "get_elements b = get_elements a"
    "length (get_resources b) = length (get_resources a) + length ims" "stored a r \<Longrightarrow> stored b r"
    "\<forall>im \<in> set ims. \<exists>e \<in> set es. \<exists>p \<in> set rs. el_uuid e = im_element im \<and>
       rs_uuid (entry_resource p) = im_from_resource im \<and> stored b (Imported e (entry_resource p) (im_name im))"
proof -
  let ?R = "\<lambda>im r. \<exists>e \<in> set es. \<exists>p \<in> set rs. el_uuid e = im_element im \<and> rs_uuid (entry_resource p) = im_from_resource im \<and>
     r = Imported e (entry_resource p) (im_name im)"
  have "\<exists>r. ?R im r \<and> add_resource r x = Inr y"
    if "load_import (keyed el_uuid es) (keyed (\<lambda>r. rs_uuid (entry_resource r)) rs) im x = Inr y" for im x y
    using load_import_adds [OF that] .
  note l = adding_loop [where R = ?R, OF assms this]
  then show "engine_ok b" "get_elements b = get_elements a"
    "length (get_resources b) = length (get_resources a) + length ims" by blast+
  show "stored a r \<Longrightarrow> stored b r" using l by blast
  show "\<forall>im \<in> set ims. \<exists>e \<in> set es. \<exists>p \<in> set rs. el_uuid e = im_element im \<and>
       rs_uuid (entry_resource p) = im_from_resource im \<and> stored b (Imported e (entry_resource p) (im_name im))"
    using l by metis
qed

lemma load_elements_of_database:
  assumes "load_from_database db = Inr eng"
  shows "get_elements eng = db_elements db"
proof -
  obtain a b c where a: "efold add_element (db_elements db) new_engine = Inr a"
    and b: "load_resources (db_resources db) a = Inr b" and c: "load_imports (db_imports db) b = Inr c"
    and x: "efold load_export (db_exports db) c = Inr eng"
    using assms by (auto simp: load_from_database_def load_elements_def ebind_Inr_iff)
  have ea: "get_elements a = db_elements db" "get_resources a = []" "engine_ok a"
    using load_elements_keeps [OF a engine_ok_new] by (auto simp: new_engine_def get_elements_def get_resources_def dvals_def)
  have none: "\<forall>r. \<not> stored a r" using ea get_resources_stored [OF ea(3)] by simp
  note lb = load_resources_keeps [OF b [unfolded load_resources_def] ea(3) none]
  note lc = load_imports_keeps [OF c [unfolded load_imports_def] lb(1)]
  have "get_elements eng = get_elements c" using load_export_loop [OF x] by (simp add: get_elements_def)
  with lb lc ea show ?thesis by simp
qed

section \<open>Properties\<close>

text \<open>C7. In every registry the operations can produce, no two entries of an element have the same link,
  every entry is listed exactly where a lookup finds it, and a link that carries no parameter finds
  the entry it belongs to.\<close>

theorem engine_registry_sound:
  assumes "engine_reachable eng"
  shows "distinct (map (\<lambda>r. (element_link (entry_element r), entry_link r)) (get_resources eng)) \<and>
    (\<forall>r \<in> set (get_resources eng). clear_parameters (entry_link r) = entry_link r \<longrightarrow>
       get_resource_by_link eng (entry_element r) (entry_link r) = Inr r) \<and>
    (\<forall>e link r. get_resource_by_link eng e link = Inr r \<longrightarrow> r \<in> set (get_resources eng) \<and>
       entry_link r = clear_parameters link \<and> el_name (entry_element r) = el_name e)"
proof (intro conjI ballI allI impI)
  have ok: "engine_ok eng" by (rule engine_reachable_ok [OF assms])
  show "distinct (map (\<lambda>r. (element_link (entry_element r), entry_link r)) (get_resources eng))"
    by (rule get_resources_distinct [OF ok])
  fix r assume "r \<in> set (get_resources eng)" "clear_parameters (entry_link r) = entry_link r"
  then show "get_resource_by_link eng (entry_element r) (entry_link r) = Inr r"
    by (simp add: get_resources_stored [OF ok] stored_lookup)
next
  fix e link r assume "get_resource_by_link eng e link = Inr r"
  then obtain ns where ns: "dget (en_namespaces eng) (element_link e) = Some ns"
      "dget (ns_resources ns) (clear_parameters link) = Some r"
    by (auto simp: get_resource_by_link_def namespace_lookup_def split: option.splits)
  have ok: "engine_ok eng" by (rule engine_reachable_ok [OF assms])
  then have "namespace_ok (element_link e) ns" using ns(1) by (simp add: engine_ok_def)
  then have l: "clear_parameters link = entry_link r" "element_link (entry_element r) = element_link e"
    using ns(2) by (auto simp: namespace_ok_def)
  then show "entry_link r = clear_parameters link" "el_name (entry_element r) = el_name e"
    by (simp_all add: element_link_def)
  show "r \<in> set (get_resources eng)" unfolding get_resources_stored [OF ok] stored_def
    using ns l by auto
qed

definition example_element :: element where
  "example_element = \<lparr>el_uuid = ''e1'', el_name = ''core'', el_version = ''1.0.0'', el_status = ''NEW'',
     el_api_version = None, el_description = '''', el_requirements = [], el_manifest = ''m1''\<rparr>"

definition example_resource :: resource where
  "example_resource = \<lparr>rs_uuid = ''r1'', rs_element = example_element, rs_name = ''vm'',
     rs_prefix = ''$core.compute.nodes'', rs_value = [(''cores'', JInt 1)]\<rparr>"

definition example_engine :: engine where
  "example_engine = \<lparr>en_namespaces = [(''$core'', \<lparr>ns_element = example_element,
     ns_resources = [(''$core.compute.nodes.$vm'', Own example_resource)]\<rparr>)], en_exports = []\<rparr>"

lemma example_engine_reachable: "engine_reachable example_engine"
proof -
  let ?e = "new_engine\<lparr>en_namespaces := [(''$core'', \<lparr>ns_element = example_element, ns_resources = []\<rparr>)]\<rparr>"
  have "add_element example_element new_engine = Inr ?e" by code_simp
  then have "engine_reachable ?e" by (rule more [OF fresh new_element])
  moreover have "add_resource (Own example_resource) ?e = Inr example_engine" by code_simp
  ultimately show ?thesis by (rule more [OF _ new_resource])
qed

theorem engine_registry_sound_witness:
  "get_resource_by_link example_engine example_element ''$core.compute.nodes.$vm'' = Inr (Own example_resource)"
proof -
  have "Own example_resource \<in> set (get_resources example_engine)" by code_simp
  moreover have "entry_link (Own example_resource) = ''$core.compute.nodes.$vm''"
    "clear_parameters ''$core.compute.nodes.$vm'' = ''$core.compute.nodes.$vm''"
    "entry_element (Own example_resource) = example_element" by code_simp+
  ultimately show ?thesis using engine_registry_sound [OF example_engine_reachable] by metis
qed

text \<open>A load that succeeds loses nothing and adds nothing: the engine lists the elements of the
  database, one entry for every stored resource and every import, each under the element its row
  names, and every export is found under its link as the entry it points to.\<close>

theorem load_complete:
  assumes "load_from_database db = Inr eng"
  shows "get_elements eng = db_elements db \<and>
    length (get_resources eng) = length (db_resources db) + length (db_imports db) \<and>
    (\<forall>row \<in> set (db_resources db). \<exists>e \<in> set (db_elements db). el_uuid e = rr_element row \<and>
       Own ((rr_resource row)\<lparr>rs_element := e\<rparr>) \<in> set (get_resources eng)) \<and>
    (\<forall>im \<in> set (db_imports db). \<exists>e \<in> set (db_elements db). \<exists>r. el_uuid e = im_element im \<and>
       rs_uuid r = im_from_resource im \<and> Own r \<in> set (get_resources eng) \<and>
       Imported e r (im_name im) \<in> set (get_resources eng)) \<and>
    (\<forall>x \<in> set (db_exports db). \<exists>r. get_resource_by_link eng (xp_element x) (xp_link x) = Inr r \<and>
       get_resource_by_export_link eng (export_full_link x) = Inr r)"
proof -
  obtain a b c where a: "efold add_element (db_elements db) new_engine = Inr a"
    and b: "efold (load_row (keyed el_uuid (get_elements a))) (db_resources db) a = Inr b"
    and c: "efold (load_import (keyed el_uuid (get_elements b))
        (keyed (\<lambda>r. rs_uuid (entry_resource r)) (get_resources b))) (db_imports db) b = Inr c"
    and x: "efold load_export (db_exports db) c = Inr eng"
    using assms by (auto simp: load_from_database_def load_elements_def load_resources_def load_imports_def ebind_Inr_iff)
  note la = load_elements_keeps [OF a engine_ok_new]
  then have ea: "get_elements a = db_elements db" "get_resources a = []" "engine_ok a"
    by (auto simp: new_engine_def get_elements_def get_resources_def dvals_def)
  have none: "\<forall>r. \<not> stored a r" using ea get_resources_stored [OF ea(3)] by simp
  note lb = load_resources_keeps [OF b ea(3) none]
  note lc = load_imports_keeps [OF c lb(1)] and lx = load_export_loop [OF x]
  have eng: "get_resources eng = get_resources c" "get_elements eng = get_elements c"
    "get_resource_by_link eng e l = get_resource_by_link c e l" for e l
    using lx by (auto simp: get_resources_def get_elements_def get_resource_by_link_def)
  note st = get_resources_stored [OF lb(1)] get_resources_stored [OF lc(1)]
  have "\<forall>row \<in> set (db_resources db). \<exists>e \<in> set (db_elements db). el_uuid e = rr_element row \<and>
       Own ((rr_resource row)\<lparr>rs_element := e\<rparr>) \<in> set (get_resources eng)"
    using lb(4) lc(4) unfolding eng st ea(1) by blast
  moreover have "\<forall>im \<in> set (db_imports db). \<exists>e \<in> set (db_elements db). \<exists>r. el_uuid e = im_element im \<and>
       rs_uuid r = im_from_resource im \<and> Own r \<in> set (get_resources eng) \<and>
       Imported e r (im_name im) \<in> set (get_resources eng)"
  proof
    fix im assume "im \<in> set (db_imports db)"
    then obtain e p where p: "e \<in> set (db_elements db)" "stored b p" "el_uuid e = im_element im"
        "rs_uuid (entry_resource p) = im_from_resource im" "stored c (Imported e (entry_resource p) (im_name im))"
      using lc(5) st(1) unfolding lb(2) ea(1) by blast
    moreover have "stored c (Own (entry_resource p))" using lb(5) lc(4) p(2) by simp
    ultimately show "\<exists>e \<in> set (db_elements db). \<exists>r. el_uuid e = im_element im \<and>
       rs_uuid r = im_from_resource im \<and> Own r \<in> set (get_resources eng) \<and>
       Imported e r (im_name im) \<in> set (get_resources eng)" unfolding eng st by blast
  qed
  moreover have "\<forall>x \<in> set (db_exports db). \<exists>r. get_resource_by_link eng (xp_element x) (xp_link x) = Inr r \<and>
       get_resource_by_export_link eng (export_full_link x) = Inr r"
    using lx by (fastforce simp: eng get_resource_by_export_link_def)
  ultimately show ?thesis using lb lc ea eng by simp
qed

definition example_db :: em_db where
  "example_db = \<lparr>db_elements = [example_element],
     db_resources = [\<lparr>rr_element = ''e1'', rr_resource = example_resource\<rparr>], db_imports = [],
     db_exports = [\<lparr>xp_uuid = ''x1'', xp_element = example_element, xp_name = ''vm'', xp_kind = ''resource'',
       xp_link = ''$core.compute.nodes.$vm''\<rparr>]\<rparr>"

theorem load_complete_witness:
  "\<exists>eng. load_from_database example_db = Inr eng \<and> get_elements eng = [example_element] \<and> length (get_resources eng) = 1"
proof -
  have "is_ok (load_from_database example_db)" by code_simp
  then obtain eng where "load_from_database example_db = Inr eng" by (auto simp: is_ok_iff)
  with load_complete [OF this] show ?thesis by (simp add: example_db_def)
qed

text \<open>An element that is not installed: adding or removing a resource of it and looking a link up
  in it raise \<open>KeyError\<close>, where the code builds a validation error (it is not raised when adding,
  and its message repeats the failing lookup when searching).\<close>

theorem unknown_element_key_error:
  assumes "\<not> has_key (en_namespaces eng) (element_link e)" and "entry_element r = e"
  shows "add_resource r eng = Inl KeyError \<and> delete_resource r eng = Inl KeyError \<and>
    get_resource_by_link eng e link = Inl KeyError"
  using assms by (simp add: add_resource_def delete_resource_def on_namespace_def get_resource_by_link_def has_key_def)

theorem unknown_element_key_error_witness:
  "get_resource_by_link new_engine example_element ''$core.compute.nodes.$vm'' = Inl KeyError"
  using unknown_element_key_error [of new_engine example_element "Own example_resource"]
  by (simp add: new_engine_def example_resource_def)

end
