(* ===== verification/Element_Render.thy ===== *)
theory Element_Render
  imports Element_Engine
begin

text \<open>
  Rendering the value of a resource (\<open>Resource.render_target_state\<close> and the methods it uses in
  \<open>exordos_core/elements/dm/models.py\<close>).  A string that starts with a dollar is a link to a field
  of another resource, a string that starts with \<open>f"\<close> holds such links in braces, everything else
  stands for itself.  The field of a resource that no agent reported yet is the field of its own
  rendering, so rendering is recursive: the first argument of \<open>render_target_state\<close> bounds the
  nesting, and reaching it is Python's \<open>RecursionError\<close>.  What the agents reported is a function
  from the uuid of a resource to its value.
\<close>

type_synonym state_value = "(string, json) dict"
type_synonym actuals = "uuid \<Rightarrow> state_value option"

section \<open>Methods a manifest may call\<close>

definition get_uri :: "resource \<Rightarrow> string" where
  "get_uri r = (let parts = split_on CHR ''.'' (resource_link r) in
     (case el_api_version (rs_element r) of None \<Rightarrow> [] | Some v \<Rightarrow> if v = [] then [] else CHR ''/'' # v) @
     ''/'' @ join_with ''/'' (butlast (tl parts)) @ ''/'' @ rs_uuid r)"

definition reported :: "actuals \<Rightarrow> resource \<Rightarrow> state_value option" where
  "reported acts r = (case acts (rs_uuid r) of None \<Rightarrow> None | Some d \<Rightarrow> if d = [] then None else Some d)"

definition to_str :: "actuals \<Rightarrow> resource \<Rightarrow> string \<Rightarrow> em_error + json" where
  "to_str acts r field = (case reported acts r of
     None \<Rightarrow> Inr (JStr [])
   | Some d \<Rightarrow> (case dget d field of None \<Rightarrow> Inl KeyError | Some v \<Rightarrow> Inr (JStr (py_str v))))"

text \<open>\<open>int(text)\<close>: blanks around, a sign, digits with single underscores between them.\<close>

definition digit_value :: "char \<Rightarrow> nat option" where
  "digit_value c = (let n = of_char c :: nat in if 48 \<le> n \<and> n \<le> 57 then Some (n - 48) else None)"

fun read_digits :: "nat \<Rightarrow> string \<Rightarrow> nat option" where
  "read_digits acc [] = Some acc"
| "read_digits acc (c # s) = (case digit_value c of
     Some n \<Rightarrow> read_digits (10 * acc + n) s
   | None \<Rightarrow> (case (c, s) of
       (_, d # t) \<Rightarrow> (if c = CHR ''_'' then (case digit_value d of
           Some n \<Rightarrow> read_digits (10 * acc + n) t | None \<Rightarrow> None) else None)
     | _ \<Rightarrow> None))"

definition read_nat :: "string \<Rightarrow> nat option" where
  "read_nat s = (case s of [] \<Rightarrow> None | c # t \<Rightarrow> (case digit_value c of None \<Rightarrow> None | Some n \<Rightarrow> read_digits n t))"

definition read_int :: "string \<Rightarrow> int option" where
  "read_int text = (let s = strip text in
     if starts_with s ''-'' then map_option (\<lambda>n. - int n) (read_nat (tl s))
     else if starts_with s ''+'' then map_option int (read_nat (tl s))
     else map_option int (read_nat s))"

definition py_item :: "'a list \<Rightarrow> int \<Rightarrow> 'a option" where
  "py_item xs i = (if 0 \<le> i \<and> i < int (length xs) then Some (xs ! nat i)
     else if i < 0 \<and> - int (length xs) \<le> i then Some (xs ! nat (int (length xs) + i)) else None)"

definition or_null :: "json option \<Rightarrow> json" where
  "or_null v = (case v of None \<Rightarrow> JNull | Some x \<Rightarrow> x)"

definition index_value :: "json \<Rightarrow> int \<Rightarrow> em_error + json" where
  "index_value v i = (case v of
     JList xs \<Rightarrow> Inr (or_null (py_item xs i))
   | JStr s \<Rightarrow> Inr (or_null (map_option (\<lambda>c. JStr [c]) (py_item s i)))
   | JDict _ \<Rightarrow> Inl KeyError
   | _ \<Rightarrow> Inr JNull)"

definition index_field :: "actuals \<Rightarrow> resource \<Rightarrow> string \<Rightarrow> string option \<Rightarrow> em_error + json" where
  "index_field acts r field idx = (case reported acts r of
     None \<Rightarrow> Inr JNull
   | Some d \<Rightarrow> (case dget d field of
       None \<Rightarrow> Inl KeyError
     | Some v \<Rightarrow> (case idx of
         None \<Rightarrow> index_value v 0
       | Some t \<Rightarrow> (case read_int t of None \<Rightarrow> Inl ValueError | Some i \<Rightarrow> index_value v i))))"

definition text_item :: "json \<Rightarrow> em_error + string" where
  "text_item v = (case v of JStr s \<Rightarrow> Inr s | _ \<Rightarrow> Inl TypeError)"

definition join_value :: "string \<Rightarrow> json \<Rightarrow> em_error + json" where
  "join_value sep v = (case v of
     JList xs \<Rightarrow> ebind (emap text_item xs) (\<lambda>ws. Inr (JStr (join_with sep ws)))
   | JStr s \<Rightarrow> Inr (JStr (join_with sep (map (\<lambda>c. [c]) s)))
   | JDict d \<Rightarrow> Inr (JStr (join_with sep (dkeys d)))
   | _ \<Rightarrow> Inl TypeError)"

definition join_field :: "actuals \<Rightarrow> resource \<Rightarrow> string \<Rightarrow> string \<Rightarrow> em_error + json" where
  "join_field acts r field sep = (case reported acts r of
     None \<Rightarrow> Inr (JStr [])
   | Some d \<Rightarrow> (case dget d field of None \<Rightarrow> Inl KeyError | Some v \<Rightarrow> join_value sep v))"

definition allowed_methods :: "string list" where
  "allowed_methods = [''get_uri'', ''to_str'', ''index'', ''join'']"

text \<open>The call of a method by name; a wrong number of arguments is a \<open>TypeError\<close>.\<close>

definition call_method :: "actuals \<Rightarrow> resource \<Rightarrow> string \<Rightarrow> string list \<Rightarrow> em_error + json" where
  "call_method acts r func args =
     (if func = ''get_uri'' then (if args = [] then Inr (JStr (get_uri r)) else Inl TypeError)
      else if func = ''to_str'' then (case args of [f] \<Rightarrow> to_str acts r f | _ \<Rightarrow> Inl TypeError)
      else if func = ''index'' then (case args of
          [f] \<Rightarrow> index_field acts r f None | [f, i] \<Rightarrow> index_field acts r f (Some i) | _ \<Rightarrow> Inl TypeError)
      else (case args of
          [f] \<Rightarrow> join_field acts r f '','' | [f, s] \<Rightarrow> join_field acts r f s | _ \<Rightarrow> Inl TypeError))"

section \<open>Parameters\<close>

text \<open>
  The match of \<open>^(\w+)(?:\s*\(([^)]*)\))?$\<close>: the name and the text between the parentheses.  The
  name takes every word character, because what follows it starts with none.
\<close>

definition is_word :: "char \<Rightarrow> bool" where
  "is_word c \<longleftrightarrow> (let n = of_char c :: nat in
     48 \<le> n \<and> n \<le> 57 \<or> 65 \<le> n \<and> n \<le> 90 \<or> 97 \<le> n \<and> n \<le> 122 \<or> n = 95)"

definition call_args :: "string \<Rightarrow> string option" where
  "call_args s = (case dropWhile is_space s of
     [] \<Rightarrow> None
   | c # t \<Rightarrow> let body = takeWhile (\<lambda>x. x \<noteq> CHR '')'') t; rest = drop (length body) t in
       if c = CHR ''('' \<and> rest \<noteq> [] \<and> at_end (tl rest) then Some body else None)"

definition match_call :: "string \<Rightarrow> (string \<times> string) option" where
  "match_call s = (let name = takeWhile is_word s; rest = drop (length name) s in
     if name = [] then None
     else case call_args rest of
       Some body \<Rightarrow> Some (name, body)
     | None \<Rightarrow> if at_end rest then Some (name, []) else None)"

definition actual_state_safe :: "(resource \<Rightarrow> em_error + state_value) \<Rightarrow> actuals \<Rightarrow> resource \<Rightarrow> em_error + state_value" where
  "actual_state_safe render acts r = (case acts (rs_uuid r) of None \<Rightarrow> render r | Some d \<Rightarrow> Inr d)"

fun walk_path :: "json \<Rightarrow> string list \<Rightarrow> em_error + json" where
  "walk_path v [] = Inr v"
| "walk_path v (part # path) = (case v of
     JDict d \<Rightarrow> (case dget d part of None \<Rightarrow> Inl KeyError | Some x \<Rightarrow> walk_path x path)
   | _ \<Rightarrow> Inl TypeError)"

definition method_call :: "string list \<Rightarrow> (string \<times> string list) option" where
  "method_call path = (case path of
     [p] \<Rightarrow> (case match_call p of
       None \<Rightarrow> None
     | Some (func, body) \<Rightarrow>
         if func \<notin> set allowed_methods then None
         else Some (func, if body = [] then [] else map strip (split_on CHR '','' body)))
   | _ \<Rightarrow> None)"

definition get_parameter_value ::
  "(resource \<Rightarrow> em_error + state_value) \<Rightarrow> actuals \<Rightarrow> entry \<Rightarrow> string \<Rightarrow> em_error + json" where
  "get_parameter_value render acts e param =
     (let parts = split_on CHR '':'' param; path = tl parts; r = entry_resource e in
      if drop 1 (hd parts) \<noteq> entry_name e then Inl ValidateException
      else if path = [] then
        (case acts (rs_uuid r) of None \<Rightarrow> Inl AttributeError | Some d \<Rightarrow> Inr (JDict d))
      else case method_call path of
        Some (func, args) \<Rightarrow> call_method acts r func args
      | None \<Rightarrow> ebind (actual_state_safe render acts r) (\<lambda>d. walk_path (JDict d) path))"

section \<open>Values\<close>

definition is_self_link :: "string \<Rightarrow> bool" where
  "is_self_link s \<longleftrightarrow> before_first CHR '':'' s = ''$self''"

definition allowed_self_fields :: "string list" where
  "allowed_self_fields = [''uuid'', ''name'', ''version'', ''status'']"

definition render_self :: "element \<Rightarrow> string \<Rightarrow> em_error + string" where
  "render_self e s = (let field = after_first CHR '':'' s in
     if field = [] then Inl ValidateException
     else if field \<notin> set allowed_self_fields then Inl ValidateException
     else if field = ''uuid'' then Inr (el_uuid e)
     else if field = ''name'' then Inr (el_name e)
     else if field = ''version'' then Inr (el_version e) else Inr (el_status e))"

definition validate_value_error :: "em_error + 'a \<Rightarrow> em_error + 'a" where
  "validate_value_error r = (case r of
     Inl e \<Rightarrow> Inl (if e = ValueError then ValidateException else e) | Inr x \<Rightarrow> Inr x)"

definition follow_link :: "(resource \<Rightarrow> em_error + state_value) \<Rightarrow> actuals \<Rightarrow> engine \<Rightarrow> resource \<Rightarrow> string \<Rightarrow> em_error + json" where
  "follow_link render acts eng r link = validate_value_error
     (ebind (get_resource_by_link eng (rs_element r) (link_location link)) (\<lambda>e.
        get_parameter_value render acts e (link_parameter link)))"

text \<open>
  The matches of \<open>[\\]{0,1}\{(.*?)}\<close> in a text, from left to right: a body with a backslash before
  the brace is kept as it is, any other body is a variable.
\<close>

datatype ftoken = Plain char | Escaped string | Var string

definition brace_body :: "string \<Rightarrow> (string \<times> string) option" where
  "brace_body s = (let body = takeWhile (\<lambda>c. c \<noteq> CHR ''}'' \<and> c \<noteq> newline) s in
     case drop (length body) s of
       [] \<Rightarrow> None | c # rest \<Rightarrow> if c = CHR ''}'' then Some (body, rest) else None)"

lemma brace_body_shorter: "brace_body s = Some (body, rest) \<Longrightarrow> length rest < length s"
proof -
  assume "brace_body s = Some (body, rest)"
  then have "\<exists>c. drop (length (takeWhile (\<lambda>c. c \<noteq> CHR ''}'' \<and> c \<noteq> newline) s)) s = c # rest"
    by (auto simp: brace_body_def Let_def split: list.splits if_splits)
  then show ?thesis by (metis Suc_le_eq diff_le_self length_Cons length_drop)
qed

function ftokens :: "string \<Rightarrow> ftoken list" where
  "ftokens [] = []"
| "ftokens (c # s) =
     (if c = backslash \<and> starts_with s ''{'' then
        (case brace_body (tl s) of Some (body, rest) \<Rightarrow> Escaped body # ftokens rest | None \<Rightarrow> Plain c # ftokens s)
      else if c = CHR ''{'' then
        (case brace_body s of Some (body, rest) \<Rightarrow> Var body # ftokens rest | None \<Rightarrow> Plain c # ftokens s)
      else Plain c # ftokens s)"
  by pat_completeness auto

termination
proof (relation "measure length")
  fix c s x body rest
  assume "brace_body (tl s) = Some x" "(body, rest) = x"
  then have "length rest < length (tl s)" by (metis brace_body_shorter)
  then show "(rest, c # s) \<in> measure length" by simp
next
  fix c s x body rest
  assume "brace_body s = Some x" "(body, rest) = x"
  then show "(rest, c # s) \<in> measure length" by (metis brace_body_shorter in_measure length_Cons less_SucI)
qed auto

definition fstring_text :: "string \<Rightarrow> string" where
  "fstring_text s = drop 2 (butlast (rev (dropWhile (\<lambda>c. c \<noteq> CHR 0x22) (rev s))))"

fun render_token :: "(string \<Rightarrow> em_error + json) \<Rightarrow> element \<Rightarrow> ftoken \<Rightarrow> em_error + string" where
  "render_token follow e (Plain c) = Inr [c]"
| "render_token follow e (Escaped body) = Inr (''{'' @ body @ ''}'')"
| "render_token follow e (Var var) =
     (if is_self_link var then render_self e var else ebind (follow var) (\<lambda>v. Inr (py_str v)))"

definition render_value :: "(resource \<Rightarrow> em_error + state_value) \<Rightarrow> actuals \<Rightarrow> engine \<Rightarrow> resource \<Rightarrow> string \<Rightarrow> em_error + json" where
  "render_value render acts eng r s =
     (if starts_with s ''$'' then
        (if is_self_link s then ebind (render_self (rs_element r) s) (\<lambda>t. Inr (JStr t))
         else follow_link render acts eng r s)
      else if starts_with s [CHR ''f'', CHR 0x22] then
        ebind (emap (render_token (follow_link render acts eng r) (rs_element r)) (ftokens (fstring_text s)))
          (\<lambda>ts. Inr (JStr (concat ts)))
      else Inr (JStr s))"

text \<open>The code calls \<open>_recursive_render\<close> on the strings in a dictionary or list only.\<close>

fun recursive_render :: "(string \<Rightarrow> em_error + json) \<Rightarrow> json \<Rightarrow> em_error + json" where
  "recursive_render rv (JDict d) = ebind (emap (\<lambda>kv. ebind (recursive_render rv (snd kv)) (\<lambda>v. Inr (fst kv, v))) d)
     (\<lambda>d'. Inr (JDict d'))"
| "recursive_render rv (JList xs) = ebind (emap (recursive_render rv) xs) (\<lambda>ys. Inr (JList ys))"
| "recursive_render rv (JStr s) = rv s"
| "recursive_render rv v = Inr v"

definition render_fields :: "(string \<Rightarrow> em_error + json) \<Rightarrow> state_value \<Rightarrow> em_error + state_value" where
  "render_fields rv d = emap (\<lambda>kv. ebind (recursive_render rv (snd kv)) (\<lambda>v. Inr (fst kv, v))) d"

definition with_uuid :: "resource \<Rightarrow> state_value \<Rightarrow> state_value" where
  "with_uuid r d = (if has_key d ''uuid'' then d else dset ''uuid'' (JStr (rs_uuid r)) d)"

primrec render_target_state :: "nat \<Rightarrow> actuals \<Rightarrow> engine \<Rightarrow> resource \<Rightarrow> em_error + state_value" where
  "render_target_state 0 acts eng r = Inl RecursionError"
| "render_target_state (Suc n) acts eng r =
     ebind (render_fields (render_value (render_target_state n acts eng) acts eng r) (rs_value r))
       (\<lambda>d. Inr (with_uuid r d))"

section \<open>More nesting allowed\<close>

text \<open>
  A result is unresolved as long as the bound on the nesting was hit.  Everything rendering is made
  of keeps a result that was resolved when the nested renderings are resolved further.
\<close>

definition refines :: "em_error + 'a \<Rightarrow> em_error + 'a \<Rightarrow> bool" where
  "refines a b \<longleftrightarrow> a = Inl RecursionError \<or> a = b"

named_theorems refine_intros \<open>rendering keeps resolved results\<close>

lemma refines_refl [simp, refine_intros]: "refines a a"
  by (simp add: refines_def)

lemma refines_ebind [refine_intros]: "refines a b \<Longrightarrow> (\<And>x. refines (f x) (g x)) \<Longrightarrow> refines (ebind a f) (ebind b g)"
  by (cases a; cases b) (auto simp: refines_def)

lemma refines_emap [refine_intros]: "(\<And>x. x \<in> set xs \<Longrightarrow> refines (f x) (g x)) \<Longrightarrow> refines (emap f xs) (emap g xs)"
proof (induction xs)
  case (Cons x xs)
  then have "refines (f x) (g x)" "refines (emap f xs) (emap g xs)" by auto
  then show ?case by (auto simp: refines_def split: sum.splits)
qed simp

lemma refines_validate [refine_intros]: "refines a b \<Longrightarrow> refines (validate_value_error a) (validate_value_error b)"
  by (auto simp: refines_def validate_value_error_def)

lemma refines_parameter [refine_intros]:
  assumes "\<And>r. refines (f r) (g r)"
  shows "refines (get_parameter_value f acts e param) (get_parameter_value g acts e param)"
proof -
  have "refines (actual_state_safe f acts r) (actual_state_safe g acts r)" for r
    using assms by (auto simp: actual_state_safe_def split: option.splits)
  then show ?thesis
    by (auto simp: get_parameter_value_def Let_def split: option.splits intro!: refine_intros)
qed

lemma refines_follow [refine_intros]:
  "(\<And>r. refines (f r) (g r)) \<Longrightarrow> refines (follow_link f acts eng r link) (follow_link g acts eng r link)"
  by (auto simp: follow_link_def intro!: refine_intros)

lemma refines_token [refine_intros]:
  "(\<And>s. refines (f s) (g s)) \<Longrightarrow> refines (render_token f e t) (render_token g e t)"
  by (cases t) (auto intro!: refine_intros)

lemma refines_value [refine_intros]:
  "(\<And>r. refines (f r) (g r)) \<Longrightarrow> refines (render_value f acts eng r s) (render_value g acts eng r s)"
  by (auto simp: render_value_def intro!: refine_intros)

lemma refines_recursive [refine_intros]:
  "(\<And>s. refines (f s) (g s)) \<Longrightarrow> refines (recursive_render f v) (recursive_render g v)"
  by (induction f v arbitrary: g rule: recursive_render.induct) (auto intro!: refine_intros)

lemma refines_fields [refine_intros]: "(\<And>s. refines (f s) (g s)) \<Longrightarrow> refines (render_fields f d) (render_fields g d)"
  by (auto simp: render_fields_def intro!: refine_intros)

lemma render_target_state_refines: "refines (render_target_state n acts eng r) (render_target_state (n + k) acts eng r)"
proof (induction n arbitrary: r)
  case 0
  then show ?case by (simp add: refines_def)
next
  case (Suc n)
  then show ?case by (auto intro!: refine_intros)
qed

section \<open>What a rendering needs\<close>

text \<open>The links in a text, and the resources whose rendering they may ask for.\<close>

fun token_links :: "ftoken \<Rightarrow> string list" where
  "token_links (Var var) = (if is_self_link var then [] else [var])"
| "token_links _ = []"

definition text_links :: "string \<Rightarrow> string list" where
  "text_links s =
     (if starts_with s ''$'' then (if is_self_link s then [] else [s])
      else if starts_with s [CHR ''f'', CHR 0x22] then concat (map token_links (ftokens (fstring_text s))) else [])"

fun value_links :: "json \<Rightarrow> string list" where
  "value_links (JDict d) = concat (map (\<lambda>kv. value_links (snd kv)) d)"
| "value_links (JList xs) = concat (map value_links xs)"
| "value_links (JStr s) = text_links s"
| "value_links _ = []"

definition needs :: "actuals \<Rightarrow> engine \<Rightarrow> resource \<Rightarrow> resource list" where
  "needs acts eng r = concat (map (\<lambda>link. case get_resource_by_link eng (rs_element r) (link_location link) of
       Inl _ \<Rightarrow> [] | Inr e \<Rightarrow> if acts (rs_uuid (entry_resource e)) = None then [entry_resource e] else [])
     (value_links (JDict (rs_value r))))"

text \<open>Rendering is resolved when it is for what it needs.\<close>

definition resolved :: "em_error + 'a \<Rightarrow> bool" where
  "resolved a \<longleftrightarrow> a \<noteq> Inl RecursionError"

named_theorems resolved_intros \<open>rendering is resolved when its parts are\<close>

lemma resolved_simps [simp]: "resolved (Inr x)" "resolved (Inl e) \<longleftrightarrow> e \<noteq> RecursionError"
  by (simp_all add: resolved_def)

lemma resolved_ebind [resolved_intros]: "resolved a \<Longrightarrow> (\<And>x. a = Inr x \<Longrightarrow> resolved (f x)) \<Longrightarrow> resolved (ebind a f)"
  by (cases a) auto

lemma resolved_emap [resolved_intros]: "(\<And>x. x \<in> set xs \<Longrightarrow> resolved (f x)) \<Longrightarrow> resolved (emap f xs)"
proof (induction xs)
  case (Cons x xs)
  then have "resolved (f x)" "resolved (emap f xs)" by auto
  then show ?case by (auto split: sum.splits)
qed simp

lemma resolved_validate [resolved_intros]: "resolved a \<Longrightarrow> resolved (validate_value_error a)"
  by (cases a) (auto simp: validate_value_error_def)

lemma resolved_walk_path: "resolved (walk_path v path)"
  by (induction v path rule: walk_path.induct) (auto split: json.splits option.splits)

lemma resolved_render_self: "resolved (render_self e s)"
  by (auto simp: render_self_def Let_def)

lemma resolved_call_method: "resolved (call_method acts r func args)"
proof -
  have i: "resolved (index_value v i)" for v i by (auto simp: index_value_def split: json.splits)
  have t: "resolved (emap text_item xs)" for xs
    by (rule resolved_emap) (auto simp: text_item_def split: json.splits)
  have "resolved (join_value s v)" for s v
    by (auto simp: join_value_def split: json.splits intro!: resolved_intros t)
  then show ?thesis using i
    by (auto simp: call_method_def to_str_def index_field_def join_field_def split: list.splits option.splits)
qed

lemma resolved_lookup: "resolved (get_resource_by_link eng e link)"
  by (auto simp: get_resource_by_link_def namespace_lookup_def split: option.splits)

lemma resolved_parameter:
  assumes "acts (rs_uuid (entry_resource e)) = None \<Longrightarrow> resolved (f (entry_resource e))"
  shows "resolved (get_parameter_value f acts e param)"
  using assms by (auto simp: get_parameter_value_def Let_def actual_state_safe_def resolved_call_method
      resolved_walk_path split: option.splits intro!: resolved_intros)

definition link_ready :: "(resource \<Rightarrow> em_error + state_value) \<Rightarrow> actuals \<Rightarrow> engine \<Rightarrow> resource \<Rightarrow> string \<Rightarrow> bool" where
  "link_ready f acts eng r link \<longleftrightarrow> (\<forall>e. get_resource_by_link eng (rs_element r) (link_location link) = Inr e \<longrightarrow>
     acts (rs_uuid (entry_resource e)) = None \<longrightarrow> resolved (f (entry_resource e)))"

lemma resolved_follow: "link_ready f acts eng r link \<Longrightarrow> resolved (follow_link f acts eng r link)"
  by (auto simp: follow_link_def link_ready_def intro!: resolved_intros resolved_lookup resolved_parameter)

lemma resolved_token:
  "(\<And>link. link \<in> set (token_links t) \<Longrightarrow> resolved (follow link)) \<Longrightarrow> resolved (render_token follow e t)"
  by (cases t) (auto intro!: resolved_intros resolved_render_self)

lemma resolved_value:
  "\<forall>link \<in> set (text_links s). link_ready f acts eng r link \<Longrightarrow> resolved (render_value f acts eng r s)"
  by (auto simp: render_value_def text_links_def intro!: resolved_intros resolved_render_self resolved_follow resolved_token)

lemma resolved_recursive:
  "\<forall>link \<in> set (value_links v). link_ready f acts eng r link \<Longrightarrow>
   resolved (recursive_render (render_value f acts eng r) v)"
  by (induction v rule: value_links.induct) (auto intro!: resolved_intros resolved_value)

lemma resolved_render:
  assumes "\<And>r'. r' \<in> set (needs acts eng r) \<Longrightarrow> resolved (render_target_state n acts eng r')"
  shows "resolved (render_target_state (Suc n) acts eng r)"
proof -
  have "link_ready (render_target_state n acts eng) acts eng r link" if "link \<in> set (value_links (JDict (rs_value r)))" for link
    using assms that unfolding link_ready_def by (fastforce simp: needs_def)
  then have "resolved (recursive_render (render_value (render_target_state n acts eng) acts eng r) (snd kv))"
    if "kv \<in> set (rs_value r)" for kv using that by (intro resolved_recursive) fastforce
  then show ?thesis by (auto simp: render_fields_def intro!: resolved_intros)
qed

lemma needs_in_engine: "r' \<in> set (needs acts eng r) \<Longrightarrow> r' \<in> entry_resource ` set (get_resources eng)"
  by (force simp: needs_def get_resource_by_link_def namespace_lookup_def get_resources_def namespace_resources_def
      dvals_def split: sum.splits option.splits if_splits dest: map_of_SomeD)

lemma render_resolved_by_rank:
  assumes "\<forall>e \<in> set (get_resources eng). \<forall>r' \<in> set (needs acts eng (entry_resource e)). rank r' < rank (entry_resource e)"
    and "r \<in> entry_resource ` set (get_resources eng)" and "rank r \<le> n"
  shows "resolved (render_target_state (Suc n) acts eng r)"
  using assms(2,3)
proof (induction n arbitrary: r rule: less_induct)
  case (less n)
  show ?case
  proof (rule resolved_render)
    fix r' assume r': "r' \<in> set (needs acts eng r)"
    then have "rank r' < rank r" using assms(1) less.prems(1) by auto
    then obtain m where m: "n = Suc m" "rank r' \<le> m" using less.prems(2) by (cases n) auto
    then show "resolved (render_target_state n acts eng r')"
      using less.IH [OF _ needs_in_engine [OF r']] by simp
  qed
qed

text \<open>Rendering text without links.\<close>

definition literal_text :: "string \<Rightarrow> bool" where
  "literal_text s \<longleftrightarrow> \<not> starts_with s ''$'' \<and> \<not> starts_with s [CHR ''f'', CHR 0x22]"

fun literal :: "json \<Rightarrow> bool" where
  "literal (JDict d) = list_all literal (dvals d)"
| "literal (JList xs) = list_all literal xs"
| "literal (JStr s) = literal_text s"
| "literal _ = True"

lemma recursive_render_literal: "literal v \<Longrightarrow> recursive_render (render_value f acts eng r) v = Inr v"
proof (induction v rule: literal.induct)
  case (1 d)
  then have "emap (\<lambda>kv. ebind (recursive_render (render_value f acts eng r) (snd kv)) (\<lambda>v. Inr (fst kv, v))) d = Inr d"
    by (intro emap_Inr_id) (auto simp: list_all_iff dvals_def)
  then show ?case by simp
next
  case (2 xs)
  then have "emap (recursive_render (render_value f acts eng r)) xs = Inr xs"
    by (intro emap_Inr_id) (auto simp: list_all_iff)
  then show ?case by simp
qed (auto simp: render_value_def literal_text_def)

text \<open>A link to a field of a resource, taken apart.\<close>

lemma field_link_split:
  assumes "plain el" and "\<forall>t \<in> set types. plain t" and "plain name" and "plain field"
  shows "split_on CHR ''.'' (''$'' @ resource_link_text el types name @ '':'' @ field) =
    (''$'' @ el) # types @ [''$'' @ name @ '':'' @ field]"
proof -
  have "''$'' @ resource_link_text el types name @ '':'' @ field =
      join_with ''.'' (((''$'' @ el) # types) @ [''$'' @ name @ '':'' @ field])"
    using join_with_snoc [of "el # types" "''.''" "''$'' @ name"]
      join_with_snoc [of "(''$'' @ el) # types" "''.''" "''$'' @ name @ '':'' @ field"]
    by (cases types) (simp_all add: resource_link_text_def)
  then show ?thesis using assms
    by (simp only:) (rule trans [OF split_on_join]; auto simp: plain_def)
qed

lemma before_first_append: "c \<notin> set s \<Longrightarrow> before_first c (s @ c # t) = s"
  unfolding before_first_def by (induction s) auto

lemma field_link_parts:
  assumes "plain el" and "\<forall>t \<in> set types. plain t" and "plain name" and "plain field"
  shows "link_location (''$'' @ resource_link_text el types name @ '':'' @ field) = ''$'' @ resource_link_text el types name"
    "split_on CHR '':'' (link_parameter (''$'' @ resource_link_text el types name @ '':'' @ field)) = [''$'' @ name, field]"
    "\<not> is_self_link (''$'' @ resource_link_text el types name @ '':'' @ field)"
proof -
  let ?l = "''$'' @ resource_link_text el types name @ '':'' @ field"
  have s: "split_on CHR ''.'' ?l = ((''$'' @ el) # types) @ [''$'' @ name @ '':'' @ field]"
    using field_link_split [OF assms] by simp
  have c: "CHR '':'' \<notin> set (''$'' @ name)" "CHR '':'' \<notin> set field" using assms by (auto simp: plain_def)
  have p: "split_on CHR '':'' (''$'' @ name @ '':'' @ field) = [''$'' @ name, field]"
    using split_on_append_sep [of "CHR '':''" "''$'' @ name" field] split_on_no_sep [OF c(1)] split_on_no_sep [OF c(2)]
    by simp
  have j: "join_with ''.'' ((''$'' @ el) # types @ [''$'' @ name]) = ''$'' @ resource_link_text el types name"
    by (cases types) (simp_all add: resource_link_text_def)
  show "link_location ?l = ''$'' @ resource_link_text el types name"
    unfolding link_location_def clear_parameters_def Let_def s using p j by simp
  show "split_on CHR '':'' (link_parameter ?l) = [''$'' @ name, field]"
    unfolding link_parameter_def s using p by simp
  have "CHR '':'' \<notin> set (''$'' @ resource_link_text el types name)"
    using resource_link_text_chars [OF assms(1-3)] by auto
  then have "before_first CHR '':'' ?l = ''$'' @ resource_link_text el types name"
    using before_first_append [of "CHR '':''" "''$'' @ resource_link_text el types name" field] by simp
  moreover have "CHR ''.'' \<in> set (resource_link_text el types name)"
    by (cases types) (simp_all add: resource_link_text_def)
  ultimately show "\<not> is_self_link ?l" by (auto simp: is_self_link_def)
qed

text \<open>The first field of a resource is a link to a field of another that is not reported.\<close>

definition waits_on :: "actuals \<Rightarrow> engine \<Rightarrow> resource \<Rightarrow> resource \<Rightarrow> bool" where
  "waits_on acts eng r r' = (case rs_value r of
     (_, JStr s) # _ \<Rightarrow> starts_with s ''$'' \<and> \<not> is_self_link s \<and>
       (case get_resource_by_link eng (rs_element r) (link_location s) of
          Inl _ \<Rightarrow> False
        | Inr e \<Rightarrow> let parts = split_on CHR '':'' (link_parameter s) in
            entry_resource e = r' \<and> acts (rs_uuid r') = None \<and> drop 1 (hd parts) = entry_name e \<and>
            tl parts \<noteq> [] \<and> method_call (tl parts) = None)
   | _ \<Rightarrow> False)"

lemma waits_on_unresolved:
  assumes "waits_on acts eng r r'" and "f r' = Inl RecursionError"
  shows "render_fields (render_value f acts eng r) (rs_value r) = Inl RecursionError"
proof -
  obtain k x rest where x: "rs_value r = (k, x) # rest"
    using assms(1) by (cases "rs_value r") (auto simp: waits_on_def)
  then obtain s where v: "rs_value r = (k, JStr s) # rest"
    using assms(1) by (cases x) (auto simp: waits_on_def)
  obtain e where e: "get_resource_by_link eng (rs_element r) (link_location s) = Inr e"
    using assms(1) v by (auto simp: waits_on_def split: sum.splits)
  have "follow_link f acts eng r s = Inl RecursionError"
    using assms v e by (simp add: waits_on_def follow_link_def get_parameter_value_def Let_def actual_state_safe_def
        validate_value_error_def)
  then show ?thesis using assms(1) v by (simp add: render_fields_def render_value_def waits_on_def)
qed

section \<open>Properties\<close>

text \<open>C8. Rendering ends whenever the references between resources that no agent reported have no
  cycle: with a rank that every such reference lowers, a nesting of one more than the rank gives a
  result (a state or one of the errors of the code), and more nesting gives the same result.\<close>

theorem render_terminates:
  assumes "\<forall>e \<in> set (get_resources eng). \<forall>r' \<in> set (needs acts eng (entry_resource e)). rank r' < rank (entry_resource e)"
    and "e \<in> set (get_resources eng)"
  shows "render_target_state (Suc (rank (entry_resource e))) acts eng (entry_resource e) \<noteq> Inl RecursionError \<and>
    (\<forall>k. render_target_state (Suc (rank (entry_resource e)) + k) acts eng (entry_resource e) =
         render_target_state (Suc (rank (entry_resource e))) acts eng (entry_resource e))"
proof -
  have "resolved (render_target_state (Suc (rank (entry_resource e))) acts eng (entry_resource e))"
    using render_resolved_by_rank [OF assms(1), of "entry_resource e"] assms(2) by simp
  then show ?thesis
    using render_target_state_refines [of "Suc (rank (entry_resource e))" acts eng "entry_resource e"]
    unfolding resolved_def refines_def by metis
qed

text \<open>A configuration that refers to the node, and the node.\<close>

definition example_config :: resource where
  "example_config = \<lparr>rs_uuid = ''r2'', rs_element = example_element, rs_name = ''cfg'',
     rs_prefix = ''$core.config.configs'', rs_value = [(''cores'', JStr ''$core.compute.nodes.$vm:cores'')]\<rparr>"

definition example_pair :: engine where
  "example_pair = \<lparr>en_namespaces = [(''$core'', \<lparr>ns_element = example_element,
     ns_resources = [(''$core.compute.nodes.$vm'', Own example_resource),
       (''$core.config.configs.$cfg'', Own example_config)]\<rparr>)], en_exports = []\<rparr>"

theorem render_terminates_witness:
  "render_target_state 2 (\<lambda>_. None) example_pair example_config =
     Inr [(''cores'', JInt 1), (''uuid'', JStr ''r2'')] \<and>
   render_target_state 100 (\<lambda>_. None) example_pair example_config =
     Inr [(''cores'', JInt 1), (''uuid'', JStr ''r2'')]"
proof -
  let ?rank = "\<lambda>r. if rs_uuid r = ''r2'' then 1 else 0 :: nat"
  have res: "get_resources example_pair = [Own example_resource, Own example_config]" by code_simp
  have n: "needs (\<lambda>_. None) example_pair example_resource = []"
    "needs (\<lambda>_. None) example_pair example_config = [example_resource]" by code_simp+
  have u: "rs_uuid example_config = ''r2''" "rs_uuid example_resource = ''r1''" by code_simp+
  have two: "render_target_state 2 (\<lambda>_. None) example_pair example_config =
     Inr [(''cores'', JInt 1), (''uuid'', JStr ''r2'')]" by code_simp
  have "\<forall>k. render_target_state (Suc 1 + k) (\<lambda>_. None) example_pair example_config =
       render_target_state (Suc 1) (\<lambda>_. None) example_pair example_config"
    using render_terminates [of example_pair "\<lambda>_. None" ?rank "Own example_config"] by (simp add: res n u)
  from spec [OF this, of 98] two show ?thesis by (simp add: numeral_2_eq_2)
qed

text \<open>A value without links renders to itself, with the uuid of the resource added when the value
  has none, whatever the other resources are.\<close>

theorem render_literal:
  assumes "list_all literal (dvals (rs_value r))"
  shows "render_target_state (Suc n) acts eng r =
    Inr (if has_key (rs_value r) ''uuid'' then rs_value r else rs_value r @ [(''uuid'', JStr (rs_uuid r))])"
proof -
  have "render_fields (render_value (render_target_state n acts eng) acts eng r) (rs_value r) = Inr (rs_value r)"
    unfolding render_fields_def
    by (rule emap_Inr_id) (use assms in \<open>auto simp: recursive_render_literal list_all_iff dvals_def\<close>)
  then show ?thesis by (simp add: with_uuid_def dset_fresh)
qed

theorem render_literal_witness:
  "render_target_state 1 (\<lambda>_. None) new_engine example_resource = Inr [(''cores'', JInt 1), (''uuid'', JStr ''r1'')]"
  using render_literal [of example_resource 0 "\<lambda>_. None" new_engine]
  by (simp add: example_resource_def dvals_def has_key_def)

text \<open>A link to a field of a resource renders to that field: the one an agent reported, else the
  one of the resource's own rendering.\<close>

theorem reference_renders_field:
  assumes "plain el" and "\<forall>t \<in> set types. plain t" and "plain name" and "plain field"
    and "get_resource_by_link eng (rs_element r) (''$'' @ resource_link_text el types name) = Inr e"
    and "entry_name e = name" and "method_call [field] = None"
    and "actual_state_safe (render_target_state n acts eng) acts (entry_resource e) = Inr d" and "dget d field = Some v"
    and "rs_value r = [(key, JStr (''$'' @ resource_link_text el types name @ '':'' @ field))]"
  shows "render_target_state (Suc n) acts eng r = Inr (with_uuid r [(key, v)])"
proof -
  note p = field_link_parts [OF assms(1-4)]
  have "follow_link (render_target_state n acts eng) acts eng r (''$'' @ resource_link_text el types name @ '':'' @ field) = Inr v"
    using assms(5-9) by (simp add: follow_link_def p [simplified] get_parameter_value_def validate_value_error_def)
  then show ?thesis using p(3) assms(10) by (simp add: render_fields_def render_value_def)
qed

theorem reference_renders_field_witness:
  "render_target_state 2 (\<lambda>_. None) example_pair example_config = Inr [(''cores'', JInt 1), (''uuid'', JStr ''r2'')]"
proof -
  have p: "plain ''core''" "\<forall>t \<in> set [''compute'', ''nodes'']. plain t" "plain ''vm''" "plain ''cores''" by code_simp+
  have l: "get_resource_by_link example_pair (rs_element example_config) (''$'' @ resource_link_text ''core'' [''compute'', ''nodes''] ''vm'') =
      Inr (Own example_resource)" by code_simp
  have n: "entry_name (Own example_resource) = ''vm''" by code_simp
  have m: "method_call [''cores''] = None" by code_simp
  have d: "actual_state_safe (render_target_state 1 (\<lambda>_. None) example_pair) (\<lambda>_. None) (entry_resource (Own example_resource)) =
      Inr [(''cores'', JInt 1), (''uuid'', JStr ''r1'')]" by code_simp
  have g: "dget [(''cores'', JInt 1), (''uuid'', JStr ''r1'')] ''cores'' = Some (JInt 1)" by simp
  have v: "rs_value example_config =
      [(''cores'', JStr (''$'' @ resource_link_text ''core'' [''compute'', ''nodes''] ''vm'' @ '':'' @ ''cores''))]" by code_simp
  have "with_uuid example_config [(''cores'', JInt 1)] = [(''cores'', JInt 1), (''uuid'', JStr ''r2'')]" by code_simp
  with reference_renders_field [OF p l n m d g v] show ?thesis by (simp add: numeral_2_eq_2)
qed

text \<open>Resources that wait for each other in a cycle never render: every nesting ends in a
  \<open>RecursionError\<close>, which is not among the errors the builder handles.\<close>

theorem cyclic_references_never_render:
  assumes "\<forall>r \<in> S. \<exists>r' \<in> S. waits_on acts eng r r'" and "r \<in> S"
  shows "render_target_state n acts eng r = Inl RecursionError"
  using assms(2)
proof (induction n arbitrary: r)
  case (Suc n)
  then obtain r' where r': "r' \<in> S" "waits_on acts eng r r'" using assms(1) by blast
  from waits_on_unresolved [OF r'(2), of "render_target_state n acts eng"] Suc.IH [OF r'(1)] show ?case by simp
qed simp

definition example_loop :: resource where
  "example_loop = example_config\<lparr>rs_value := [(''a'', JStr ''$core.config.configs.$cfg:a'')]\<rparr>"

definition example_loop_engine :: engine where
  "example_loop_engine = \<lparr>en_namespaces = [(''$core'', \<lparr>ns_element = example_element,
     ns_resources = [(''$core.config.configs.$cfg'', Own example_loop)]\<rparr>)], en_exports = []\<rparr>"

theorem cyclic_references_never_render_witness:
  "render_target_state 1000 (\<lambda>_. None) example_loop_engine example_loop = Inl RecursionError"
proof -
  have "waits_on (\<lambda>_. None) example_loop_engine example_loop example_loop" by code_simp
  then show ?thesis using cyclic_references_never_render [of "{example_loop}"] by blast
qed

end
