(* ===== verification/Element_Actualize.thy ===== *)
theory Element_Actualize
  imports Element_Render
begin

text \<open>
  The builder of the element manager (\<open>exordos_core/elements/services/builders.py\<close>,
  \<open>Resource.actualize\<close> and its helpers in \<open>elements/dm/models.py\<close>): every iteration brings the
  target of every resource up to date and then the statuses of resources and elements, which
  are views of the database (\<open>migrations/0000-squashed-current-7f2e4a.py\<close>).  The resource objects
  are a store from the uuid, because the imports of a resource share its object.  The hash of a
  state, the uuid of a target, the method that hashes a target and what \<open>update()\<close> of the ORM
  does to a row are the SDK's and parameters here.  An iteration that raises gives the error only:
  what it wrote before is a matter of the transaction it runs in.
\<close>

section \<open>State\<close>

record target =
  tg_res_uuid :: uuid
  tg_uuid :: uuid
  tg_kind :: string
  tg_value :: state_value
  tg_hash :: string
  tg_full_hash :: string
  tg_tracked_at :: nat

record agent_row =
  ar_uuid :: uuid
  ar_kind :: string
  ar_value :: state_value
  ar_hash :: string
  ar_full_hash :: string
  ar_status :: "string option"

record rstate =
  st_actual :: "agent_row option"
  st_target :: "target option"
  st_full_hash :: string
  st_status :: string
  st_updated_at :: nat

record em_world =
  w_states :: "(uuid, rstate) dict"
  w_targets :: "target list"
  w_agents :: "agent_row list"

record em_sdk =
  es_hash :: "state_value \<Rightarrow> string"
  es_res_uuid :: "uuid \<Rightarrow> string \<Rightarrow> uuid"
  es_rehash :: "target \<Rightarrow> target"
  es_save :: "rstate \<Rightarrow> rstate"

definition reported_values :: "em_world \<Rightarrow> actuals" where
  "reported_values w u = (case dget (w_states w) u of
     None \<Rightarrow> None | Some s \<Rightarrow> map_option ar_value (st_actual s))"

section \<open>One resource\<close>

definition get_provider_element :: "engine \<Rightarrow> resource \<Rightarrow> em_error + element" where
  "get_provider_element eng r = get_element eng (before_first CHR ''.'' (rs_prefix r))"

definition resource_kind :: "engine \<Rightarrow> resource \<Rightarrow> em_error + string" where
  "resource_kind eng r = (let parts = filter (\<lambda>p. \<not> is_dollar p) (tl (split_on CHR ''.'' (rs_prefix r))) in
     ebind (get_provider_element eng r) (\<lambda>e. Inr (''em_'' @ el_name e @ ''_'' @ join_with ''_'' parts)))"

definition find_actual_resource :: "engine \<Rightarrow> em_world \<Rightarrow> resource \<Rightarrow> rstate \<Rightarrow> em_error + agent_row option" where
  "find_actual_resource eng w r s = (case st_actual s of
     Some a \<Rightarrow> Inr (Some a)
   | None \<Rightarrow> ebind (resource_kind eng r) (\<lambda>kind.
       Inr (find (\<lambda>a. ar_uuid a = rs_uuid r \<and> ar_kind a = kind) (w_agents w))))"

definition calculate_full_hash :: "em_sdk \<Rightarrow> agent_row option \<Rightarrow> state_value \<Rightarrow> string" where
  "calculate_full_hash api actual state = (case actual of Some a \<Rightarrow> ar_full_hash a | None \<Rightarrow> es_hash api state)"

definition new_target :: "em_sdk \<Rightarrow> resource \<Rightarrow> rstate \<Rightarrow> string \<Rightarrow> state_value \<Rightarrow> target" where
  "new_target api r s kind state = \<lparr>tg_res_uuid = es_res_uuid api (rs_uuid r) kind, tg_uuid = rs_uuid r, tg_kind = kind,
     tg_value = state, tg_hash = es_hash api state, tg_full_hash = st_full_hash s, tg_tracked_at = st_updated_at s\<rparr>"

definition update_target :: "target \<Rightarrow> em_world \<Rightarrow> em_world" where
  "update_target t w = w\<lparr>w_targets := map (\<lambda>x. if tg_res_uuid x = tg_res_uuid t then t else x) (w_targets w)\<rparr>"

definition put_state :: "uuid \<Rightarrow> rstate \<Rightarrow> em_world \<Rightarrow> em_world" where
  "put_state u s w = w\<lparr>w_states := dset u s (w_states w)\<rparr>"

text \<open>A resource without target: an orphaned target is linked again, else one is inserted.\<close>

definition create_target :: "em_sdk \<Rightarrow> engine \<Rightarrow> resource \<Rightarrow> state_value \<Rightarrow> rstate \<Rightarrow> em_world \<Rightarrow> em_error + em_world" where
  "create_target api eng r state s w = ebind (resource_kind eng r) (\<lambda>kind.
     let t = new_target api r s kind state;
         orphaned = filter (\<lambda>x. tg_res_uuid x = tg_res_uuid t) (w_targets w) in
     Inr (case orphaned of
       x # _ \<Rightarrow> put_state (rs_uuid r) (es_save api (s\<lparr>st_target := Some x\<rparr>)) w
     | [] \<Rightarrow> put_state (rs_uuid r) (es_save api (es_save api (s\<lparr>st_target := Some t\<rparr>)))
         (w\<lparr>w_targets := w_targets w @ [t]\<rparr>)))"

text \<open>An existing target: what is written to it, if anything.\<close>

definition refreshed_target :: "em_sdk \<Rightarrow> state_value \<Rightarrow> rstate \<Rightarrow> target \<Rightarrow> target option" where
  "refreshed_target api state s t =
     (if tg_hash t \<noteq> es_hash api state then
        Some ((es_rehash api (t\<lparr>tg_value := state\<rparr>))\<lparr>tg_full_hash := st_full_hash s, tg_tracked_at := st_updated_at s\<rparr>)
      else if tg_full_hash t \<noteq> st_full_hash s then Some (t\<lparr>tg_full_hash := st_full_hash s\<rparr>)
      else if tg_tracked_at t \<noteq> st_updated_at s then Some (t\<lparr>tg_tracked_at := st_updated_at s\<rparr>)
      else None)"

definition refresh_target :: "em_sdk \<Rightarrow> resource \<Rightarrow> state_value \<Rightarrow> rstate \<Rightarrow> target \<Rightarrow> em_world \<Rightarrow> em_world" where
  "refresh_target api r state s t w = (case refreshed_target api state s t of
     None \<Rightarrow> put_state (rs_uuid r) (es_save api s) w
   | Some t' \<Rightarrow> put_state (rs_uuid r) (es_save api (s\<lparr>st_target := Some t'\<rparr>)) (update_target t' w))"

definition actualize :: "nat \<Rightarrow> em_sdk \<Rightarrow> engine \<Rightarrow> resource \<Rightarrow> em_world \<Rightarrow> em_error + em_world" where
  "actualize n api eng r w = (case dget (w_states w) (rs_uuid r) of
     None \<Rightarrow> Inl KeyError
   | Some s \<Rightarrow> (case render_target_state n (reported_values w) eng r of
       Inl e \<Rightarrow> if e = KeyError then Inr w else Inl e
     | Inr state \<Rightarrow> ebind (find_actual_resource eng w r s) (\<lambda>actual.
         let s' = s\<lparr>st_actual := actual, st_full_hash := calculate_full_hash api actual state\<rparr> in
         case st_target s' of
           None \<Rightarrow> create_target api eng r state s' w
         | Some t \<Rightarrow> Inr (refresh_target api r state s' t w))))"

section \<open>The views\<close>

text \<open>\<open>kind LIKE 'em_%'\<close>: the underscore stands for any character.\<close>

definition em_like :: "string \<Rightarrow> bool" where
  "em_like kind \<longleftrightarrow> starts_with kind ''em'' \<and> length kind \<ge> 3"

definition or_none :: "'a list \<Rightarrow> 'a option list" where
  "or_none xs = (if xs = [] then [None] else map Some xs)"

text \<open>\<open>em_outdated_resources_view\<close>: pairs of a resource and a target, either of them missing.\<close>

definition outdated_view :: "em_world \<Rightarrow> (uuid option \<times> target option) list" where
  "outdated_view w =
     (let targets = filter (\<lambda>t. em_like (tg_kind t)) (w_targets w) in
      concat (map (\<lambda>(u, s). map (\<lambda>t. (Some u, t))
          (filter (\<lambda>t. case t of None \<Rightarrow> True | Some t \<Rightarrow> st_updated_at s \<noteq> tg_tracked_at t)
            (or_none (filter (\<lambda>t. tg_uuid t = u) targets)))) (w_states w)) @
      map (\<lambda>t. (None, Some t)) (filter (\<lambda>t. \<not> has_key (w_states w) (tg_uuid t)) targets))"

definition delete_outdated :: "em_world \<Rightarrow> em_world" where
  "delete_outdated w = fold (\<lambda>(er, t) w. case (er, t) of
       (None, Some t) \<Rightarrow> w\<lparr>w_targets := filter (\<lambda>x. tg_res_uuid x \<noteq> tg_res_uuid t) (w_targets w)\<rparr>
     | _ \<Rightarrow> w) (outdated_view w) w"

definition actualize_target_resources :: "nat \<Rightarrow> em_sdk \<Rightarrow> engine \<Rightarrow> em_world \<Rightarrow> em_error + em_world" where
  "actualize_target_resources n api eng w =
     efold (\<lambda>e. actualize n api eng (entry_resource e)) (get_resources eng) (delete_outdated w)"

text \<open>\<open>em_incorrect_resource_statuses_view\<close>: the status the agents' rows imply.\<close>

definition actual_status :: "target option \<Rightarrow> agent_row option \<Rightarrow> string option" where
  "actual_status t a = (case (t, a) of
     (None, None) \<Rightarrow> None
   | (None, Some a) \<Rightarrow> ar_status a
   | (Some t, None) \<Rightarrow> None
   | (Some t, Some a) \<Rightarrow>
       if ar_status a = Some ''ACTIVE'' \<and> tg_hash t = ar_hash a then Some ''ACTIVE''
       else if ar_status a = None then None else Some ''IN_PROGRESS'')"

definition resource_statuses_view :: "em_world \<Rightarrow> (uuid \<times> string option) list" where
  "resource_statuses_view w = concat (map (\<lambda>(u, s). concat (map (\<lambda>t. concat (map (\<lambda>a.
       if actual_status t a = Some (st_status s) then [] else [(u, actual_status t a)])
       (or_none (filter (\<lambda>a. em_like (ar_kind a) \<and> ar_uuid a = u) (w_agents w)))))
       (or_none (filter (\<lambda>t. em_like (tg_kind t) \<and> tg_uuid t = u) (w_targets w))))) (w_states w))"

definition new_status :: "string option \<Rightarrow> string" where
  "new_status actual = (if actual = Some ''ACTIVE'' then ''ACTIVE''
     else if actual \<noteq> None then ''IN_PROGRESS'' else ''NEW'')"

definition put_status :: "uuid \<Rightarrow> string \<Rightarrow> em_world \<Rightarrow> em_world" where
  "put_status u status w = w\<lparr>w_states := map (\<lambda>(v, s). (v, if v = u then s\<lparr>st_status := status\<rparr> else s)) (w_states w)\<rparr>"

definition actualize_resource_statuses :: "em_world \<Rightarrow> em_world" where
  "actualize_resource_statuses w = fold (\<lambda>(u, actual). put_status u (new_status actual)) (resource_statuses_view w) w"

text \<open>\<open>em_incorrect_statuses_view\<close> and the update of an element's status.\<close>

definition element_status :: "string list \<Rightarrow> string" where
  "element_status statuses =
     (if statuses = [] then ''ACTIVE''
      else if ''IN_PROGRESS'' \<in> set statuses then ''IN_PROGRESS''
      else if list_all (\<lambda>s. s = ''ACTIVE'') statuses then ''ACTIVE''
      else if list_all (\<lambda>s. s = ''NEW'') statuses then ''NEW''
      else ''IN_PROGRESS'')"

definition statuses_of :: "resource_row list \<Rightarrow> em_world \<Rightarrow> uuid \<Rightarrow> string list" where
  "statuses_of rows w u = concat (map (\<lambda>row. if rr_element row = u
       then (case dget (w_states w) (rs_uuid (rr_resource row)) of None \<Rightarrow> [] | Some s \<Rightarrow> [st_status s]) else []) rows)"

definition element_statuses_view :: "element list \<Rightarrow> resource_row list \<Rightarrow> em_world \<Rightarrow> (uuid \<times> string) list" where
  "element_statuses_view es rows w =
     map (\<lambda>e. (el_uuid e, element_status (statuses_of rows w (el_uuid e))))
       (filter (\<lambda>e. el_status e \<noteq> element_status (statuses_of rows w (el_uuid e))) es)"

definition actualize_element_statuses :: "element list \<Rightarrow> resource_row list \<Rightarrow> em_world \<Rightarrow> element list" where
  "actualize_element_statuses es rows w =
     fold (\<lambda>(u, status). map (\<lambda>e. if el_uuid e = u then e\<lparr>el_status := status\<rparr> else e)) (element_statuses_view es rows w) es"

text \<open>An iteration: the engine is loaded anew each time (\<open>_first_step\<close> stays true).\<close>

definition em_iteration :: "nat \<Rightarrow> em_sdk \<Rightarrow> em_db \<Rightarrow> em_world \<Rightarrow> em_error + (element list \<times> em_world)" where
  "em_iteration n api db w =
     ebind (load_from_database db) (\<lambda>eng.
     ebind (actualize_target_resources n api eng w) (\<lambda>w.
       let w = actualize_resource_statuses w in
       Inr (actualize_element_statuses (db_elements db) (db_resources db) w, w)))"

section \<open>Lemmas\<close>

text \<open>What the parameters are relied on for: an update keeps every field but the time stamp, and a
  target is hashed as its value.\<close>

definition em_sdk_ok :: "em_sdk \<Rightarrow> bool" where
  "em_sdk_ok api \<longleftrightarrow> (\<forall>s. \<exists>now. es_save api s = s\<lparr>st_updated_at := now\<rparr>) \<and>
     (\<forall>t. es_rehash api t = t\<lparr>tg_hash := es_hash api (tg_value t)\<rparr>)"

lemma es_save_keeps:
  assumes "em_sdk_ok api"
  shows "st_target (es_save api s) = st_target s" "st_full_hash (es_save api s) = st_full_hash s"
    "st_actual (es_save api s) = st_actual s" "st_status (es_save api s) = st_status s"
proof -
  obtain now where "es_save api s = s\<lparr>st_updated_at := now\<rparr>" using assms by (auto simp: em_sdk_ok_def)
  then show "st_target (es_save api s) = st_target s" "st_full_hash (es_save api s) = st_full_hash s"
    "st_actual (es_save api s) = st_actual s" "st_status (es_save api s) = st_status s" by simp_all
qed

lemma put_state_simps [simp]: "w_targets (put_state u s w) = w_targets w" "w_agents (put_state u s w) = w_agents w"
  "dget (w_states (put_state u s w)) v = (if v = u then Some s else dget (w_states w) v)"
  by (simp_all add: put_state_def)

lemma refreshed_target_in_sync:
  assumes "em_sdk_ok api"
  shows "case refreshed_target api state s t of
      None \<Rightarrow> tg_hash t = es_hash api state \<and> tg_full_hash t = st_full_hash s
    | Some t' \<Rightarrow> tg_hash t' = es_hash api state \<and> tg_full_hash t' = st_full_hash s \<and>
        tg_res_uuid t' = tg_res_uuid t \<and> tg_uuid t' = tg_uuid t \<and> tg_kind t' = tg_kind t"
  using assms by (auto simp: refreshed_target_def em_sdk_ok_def)

lemma update_target_targets:
  "tg_res_uuid t \<in> tg_res_uuid ` set (w_targets w) \<Longrightarrow> t \<in> set (w_targets (update_target t w))"
  "tg_res_uuid x \<noteq> tg_res_uuid t \<Longrightarrow> x \<in> set (w_targets (update_target t w)) \<longleftrightarrow> x \<in> set (w_targets w)"
  by (auto simp: update_target_def image_iff)

text \<open>The loop over the resources does not get past one that raises.\<close>

lemma efold_stuck:
  assumes "\<And>s. \<not> is_ok (f x s)"
  shows "\<not> is_ok (efold f (xs @ x # ys) s)"
proof -
  have "\<not> is_ok (efold f (x # ys) t)" for t using assms [of t] by (cases "f x t") auto
  then show ?thesis by (cases "efold f xs s") (auto simp: efold_append)
qed

lemma dangling_field:
  assumes "rs_value r = (k, JStr link) # rest" and "starts_with link ''$''" and "\<not> is_self_link link"
    and "get_resource_by_link eng (rs_element r) (link_location link) = Inl ValidateException"
  shows "render_target_state (Suc n) acts eng r = Inl ValidateException"
proof -
  have "follow_link f acts eng r link = Inl ValidateException" for f
    using assms(4) by (simp add: follow_link_def validate_value_error_def)
  then show ?thesis using assms(1-3) by (simp add: render_fields_def render_value_def)
qed

lemma dangling_stops_actualize:
  assumes "rs_value r = (k, JStr link) # rest" and "starts_with link ''$''" and "\<not> is_self_link link"
    and "get_resource_by_link eng (rs_element r) (link_location link) = Inl ValidateException"
  shows "\<not> is_ok (actualize (Suc n) api eng r w)"
  using dangling_field [OF assms] by (auto simp: actualize_def split: option.splits)

text \<open>The rows the views join with a resource when there is at most one of each.\<close>

definition targets_for :: "em_world \<Rightarrow> uuid \<Rightarrow> target list" where
  "targets_for w u = filter (\<lambda>t. em_like (tg_kind t) \<and> tg_uuid t = u) (w_targets w)"

definition agents_for :: "em_world \<Rightarrow> uuid \<Rightarrow> agent_row list" where
  "agents_for w u = filter (\<lambda>a. em_like (ar_kind a) \<and> ar_uuid a = u) (w_agents w)"

definition joined_status :: "em_world \<Rightarrow> uuid \<Rightarrow> string option" where
  "joined_status w u = actual_status (hd (or_none (targets_for w u))) (hd (or_none (agents_for w u)))"

definition single_rows :: "em_world \<Rightarrow> bool" where
  "single_rows w \<longleftrightarrow> (\<forall>u. length (targets_for w u) \<le> 1 \<and> length (agents_for w u) \<le> 1)"

lemma or_none_single: "length xs \<le> 1 \<Longrightarrow> concat (map f (or_none xs)) = f (hd (or_none xs))"
  by (cases xs) (auto simp: or_none_def)

lemma resource_statuses_view_single:
  assumes "single_rows w"
  shows "resource_statuses_view w = concat (map (\<lambda>(u, s).
    if joined_status w u = Some (st_status s) then [] else [(u, joined_status w u)]) (w_states w))"
proof -
  have 1: "length (filter (\<lambda>t. em_like (tg_kind t) \<and> tg_uuid t = u) (w_targets w)) \<le> 1"
    "length (filter (\<lambda>a. em_like (ar_kind a) \<and> ar_uuid a = u) (w_agents w)) \<le> 1" for u
    using assms by (simp_all add: single_rows_def targets_for_def agents_for_def)
  show ?thesis unfolding resource_statuses_view_def or_none_single [OF 1(1)] or_none_single [OF 1(2)]
    unfolding joined_status_def targets_for_def agents_for_def
    by (intro arg_cong [where f = concat] map_cong) auto
qed

lemma map_of_concat_single:
  "distinct (map fst d) \<Longrightarrow> map_of (concat (map (\<lambda>(u, s). if P u s then [] else [(u, f u)]) d)) u =
    (case map_of d u of None \<Rightarrow> None | Some s \<Rightarrow> if P u s then None else Some (f u))"
proof (induction d)
  case (Cons x d)
  obtain v s where x: "x = (v, s)" by (cases x)
  have "map_of d v = None" using Cons.prems x by (simp add: map_of_eq_None_iff)
  with Cons x show ?case by (auto split: option.splits)
qed simp

lemma distinct_concat_single:
  "distinct (map fst d) \<Longrightarrow> distinct (map fst (concat (map (\<lambda>(u, s). if P u s then [] else [(u, f u)]) d)))"
proof (induction d)
  case (Cons x d)
  obtain v s where x: "x = (v, s)" by (cases x)
  let ?c = "concat (map (\<lambda>(u, s). if P u s then [] else [(u, f u)]) d)"
  have "set (map fst ?c) \<subseteq> set (map fst d)" by (auto split: if_splits intro: rev_image_eqI)
  moreover have "v \<notin> set (map fst d)" using Cons.prems x by simp
  ultimately have "v \<notin> set (map fst ?c)" by (rule contra_subsetD)
  with Cons x show ?case by (simp del: set_concat set_map)
qed simp

lemma put_status_dget: "dget (w_states (put_status u x w)) v =
    (if v = u then map_option (\<lambda>s. s\<lparr>st_status := x\<rparr>) (dget (w_states w) v) else dget (w_states w) v)"
proof -
  have "dget (map (\<lambda>(v, s). (v, if v = u then s\<lparr>st_status := x\<rparr> else s)) d) v =
      (if v = u then map_option (\<lambda>s. s\<lparr>st_status := x\<rparr>) (dget d v) else dget d v)" for d :: "(uuid, rstate) dict"
    by (induction d) auto
  then show ?thesis by (simp add: put_status_def)
qed

lemma fold_put_status:
  "distinct (map fst vs) \<Longrightarrow> dget (w_states (fold (\<lambda>(u, a). put_status u (g a)) vs w)) u =
    (case map_of vs u of None \<Rightarrow> dget (w_states w) u | Some a \<Rightarrow> map_option (\<lambda>s. s\<lparr>st_status := g a\<rparr>) (dget (w_states w) u))"
proof (induction vs arbitrary: w)
  case (Cons x vs)
  obtain v a where x: "x = (v, a)" by (cases x)
  have "map_of vs v = None" using Cons.prems x by (simp add: map_of_eq_None_iff)
  with Cons x show ?case by (auto simp: put_status_dget split: option.splits)
qed simp

lemma resource_status_settled:
  assumes "wf_dict (w_states w)" and "single_rows w"
  shows "dget (w_states (actualize_resource_statuses w)) u = map_option (\<lambda>s. s\<lparr>st_status :=
     if joined_status w u = Some (st_status s) then st_status s else new_status (joined_status w u)\<rparr>) (dget (w_states w) u)"
proof -
  have d: "distinct (map fst (w_states w))" using assms(1) by (simp add: wf_dict_def dkeys_def)
  show ?thesis unfolding actualize_resource_statuses_def resource_statuses_view_single [OF assms(2)]
    by (simp add: fold_put_status [OF distinct_concat_single [OF d]] map_of_concat_single [OF d] split: option.splits)
qed

lemma fold_element_status:
  "distinct (map fst vs) \<Longrightarrow>
   fold (\<lambda>(u, status). map (\<lambda>e. if el_uuid e = u then e\<lparr>el_status := status\<rparr> else e)) vs es =
   map (\<lambda>e. case map_of vs (el_uuid e) of None \<Rightarrow> e | Some status \<Rightarrow> e\<lparr>el_status := status\<rparr>) es"
proof (induction vs arbitrary: es)
  case (Cons x vs)
  obtain v a where x: "x = (v, a)" by (cases x)
  have "map_of vs v = None" using Cons.prems x by (simp add: map_of_eq_None_iff)
  with Cons x show ?case by (auto split: option.splits)
qed simp

lemma element_statuses_settled:
  assumes "distinct (map el_uuid es)"
  shows "actualize_element_statuses es rows w =
    map (\<lambda>e. e\<lparr>el_status := element_status (statuses_of rows w (el_uuid e))\<rparr>) es"
proof -
  let ?s = "\<lambda>u. element_status (statuses_of rows w u)"
  have d: "distinct (map fst (element_statuses_view es rows w))"
    using assms by (simp add: element_statuses_view_def comp_def distinct_map_filter)
  have "map_of (element_statuses_view es rows w) (el_uuid e) = (if el_status e = ?s (el_uuid e) then None else Some (?s (el_uuid e)))"
    if "e \<in> set es" for e
    using assms that unfolding element_statuses_view_def
  proof (induction es)
    case (Cons x es)
    show ?case
    proof (cases "e = x")
      case True
      have "el_uuid x \<notin> el_uuid ` set es" using Cons.prems by simp
      then have "map_of (map (\<lambda>e. (el_uuid e, ?s (el_uuid e))) (filter (\<lambda>e. el_status e \<noteq> ?s (el_uuid e)) es)) (el_uuid x) = None"
        by (auto simp: map_of_eq_None_iff)
      with True show ?thesis by simp
    next
      case False
      then have "e \<in> set es" using Cons.prems by simp
      moreover from this have "el_uuid x \<noteq> el_uuid e" using Cons.prems(1) by (metis imageI list.set_map distinct.simps(2) list.simps(9))
      ultimately show ?thesis using Cons by simp
    qed
  qed simp
  then show ?thesis unfolding actualize_element_statuses_def fold_element_status [OF d]
    by (intro map_cong) auto
qed

lemma element_status_active: "element_status xs = ''ACTIVE'' \<longleftrightarrow> (\<forall>x \<in> set xs. x = ''ACTIVE'')"
  by (auto simp: element_status_def list_all_iff)

section \<open>Properties\<close>


definition example_sdk :: em_sdk where
  "example_sdk = \<lparr>es_hash = (\<lambda>d. join_with '','' (dkeys d)), es_res_uuid = (\<lambda>u kind. u @ kind),
     es_rehash = (\<lambda>t. t\<lparr>tg_hash := join_with '','' (dkeys (tg_value t))\<rparr>), es_save = (\<lambda>s. s)\<rparr>"

lemma example_sdk_ok: "em_sdk_ok example_sdk"
proof -
  have "\<exists>now. s = s\<lparr>st_updated_at := now\<rparr>" for s :: rstate by (intro exI [of _ "st_updated_at s"]) simp
  then show ?thesis by (simp add: em_sdk_ok_def example_sdk_def)
qed

definition example_state :: rstate where
  "example_state = \<lparr>st_actual = None, st_target = None, st_full_hash = '''', st_status = ''NEW'', st_updated_at = 7\<rparr>"

definition example_world :: em_world where
  "example_world = \<lparr>w_states = [(''r1'', example_state)], w_targets = [],
     w_agents = [\<lparr>ar_uuid = ''r1'', ar_kind = ''em_core_compute_nodes'', ar_value = [(''cores'', JInt 1)],
       ar_hash = ''h'', ar_full_hash = ''f'', ar_status = Some ''ACTIVE''\<rparr>]\<rparr>"


text \<open>A link to a resource that does not exist stops the builder for everybody: when the first field
  of one resource is such a link, no iteration over the resources succeeds, whatever the other
  resources are and how often it is repeated, because only \<open>KeyError\<close> is handled.\<close>

theorem dangling_link_blocks_builder:
  assumes "get_resources eng = before @ e # after" and "rs_value (entry_resource e) = (key, JStr link) # rest"
    and "starts_with link ''$''" and "\<not> is_self_link link"
    and "get_resource_by_link eng (rs_element (entry_resource e)) (link_location link) = Inl ValidateException"
  shows "\<not> is_ok (actualize_target_resources (Suc n) api eng w)"
  unfolding actualize_target_resources_def assms(1)
  by (rule efold_stuck) (rule dangling_stops_actualize [OF assms(2-5)])

definition dangling_engine :: engine where
  "dangling_engine = \<lparr>en_namespaces = [(''$core'', \<lparr>ns_element = example_element,
     ns_resources = [(''$core.config.configs.$cfg'', Own example_config)]\<rparr>)], en_exports = []\<rparr>"

theorem dangling_link_blocks_builder_witness:
  "\<not> is_ok (actualize_target_resources 100 example_sdk dangling_engine example_world)"
proof -
  let ?l = "''$core.compute.nodes.$vm:cores''"
  have "get_resources dangling_engine = [] @ Own example_config # []" by code_simp
  moreover have "rs_value (entry_resource (Own example_config)) = (''cores'', JStr ?l) # []" by code_simp
  moreover have "starts_with ?l ''$''" "\<not> is_self_link ?l" by code_simp+
  moreover have "get_resource_by_link dangling_engine (rs_element (entry_resource (Own example_config))) (link_location ?l) =
      Inl ValidateException" by code_simp
  ultimately show ?thesis using dangling_link_blocks_builder [where n = 99] by (metis Suc_numeral semiring_norm(5,8))
qed

text \<open>After the status pass every resource is \<open>ACTIVE\<close> exactly when its agent reports \<open>ACTIVE\<close> for
  the wanted hash (for any hash, if it has no target), and every element is \<open>ACTIVE\<close> exactly when
  all its resources are.\<close>

theorem statuses_follow_agents:
  assumes "wf_dict (w_states w)" and "single_rows w" and "distinct (map el_uuid es)"
    and "\<forall>row \<in> set rows. has_key (w_states w) (rs_uuid (rr_resource row))"
  shows "(\<forall>u s. dget (w_states w) u = Some s \<longrightarrow>
       (\<exists>s'. dget (w_states (actualize_resource_statuses w)) u = Some s' \<and>
         (st_status s' = ''ACTIVE'' \<longleftrightarrow> joined_status w u = Some ''ACTIVE''))) \<and>
    map el_uuid (actualize_element_statuses es rows (actualize_resource_statuses w)) = map el_uuid es \<and>
    (\<forall>e \<in> set (actualize_element_statuses es rows (actualize_resource_statuses w)). el_status e = ''ACTIVE'' \<longleftrightarrow>
       (\<forall>row \<in> set rows. rr_element row = el_uuid e \<longrightarrow> joined_status w (rs_uuid (rr_resource row)) = Some ''ACTIVE''))"
proof (intro conjI)
  have st: "\<exists>s'. dget (w_states (actualize_resource_statuses w)) u = Some s' \<and>
      (st_status s' = ''ACTIVE'' \<longleftrightarrow> joined_status w u = Some ''ACTIVE'')" if "dget (w_states w) u = Some s" for u s
    using that resource_status_settled [OF assms(1,2), of u] by (auto simp: new_status_def)
  then show "\<forall>u s. dget (w_states w) u = Some s \<longrightarrow>
       (\<exists>s'. dget (w_states (actualize_resource_statuses w)) u = Some s' \<and>
         (st_status s' = ''ACTIVE'' \<longleftrightarrow> joined_status w u = Some ''ACTIVE''))" by blast
  show "map el_uuid (actualize_element_statuses es rows (actualize_resource_statuses w)) = map el_uuid es"
    by (simp add: element_statuses_settled [OF assms(3)])
  have "(\<forall>x \<in> set (statuses_of rows (actualize_resource_statuses w) u). x = ''ACTIVE'') \<longleftrightarrow>
      (\<forall>row \<in> set rows. rr_element row = u \<longrightarrow> joined_status w (rs_uuid (rr_resource row)) = Some ''ACTIVE'')" for u
  proof -
    have "\<exists>s'. dget (w_states (actualize_resource_statuses w)) (rs_uuid (rr_resource row)) = Some s' \<and>
        (st_status s' = ''ACTIVE'' \<longleftrightarrow> joined_status w (rs_uuid (rr_resource row)) = Some ''ACTIVE'')"
      if "row \<in> set rows" for row using st assms(4) that by (auto simp: has_key_def)
    then show ?thesis unfolding statuses_of_def by (fastforce split: if_splits option.splits)
  qed
  then show "\<forall>e \<in> set (actualize_element_statuses es rows (actualize_resource_statuses w)). el_status e = ''ACTIVE'' \<longleftrightarrow>
       (\<forall>row \<in> set rows. rr_element row = el_uuid e \<longrightarrow> joined_status w (rs_uuid (rr_resource row)) = Some ''ACTIVE'')"
    by (simp add: element_statuses_settled [OF assms(3)] element_status_active)
qed

theorem statuses_follow_agents_witness:
  "map el_status (actualize_element_statuses [example_element] (db_resources example_db)
     (actualize_resource_statuses example_world)) = [''ACTIVE'']"
proof -
  let ?es = "actualize_element_statuses [example_element] (db_resources example_db) (actualize_resource_statuses example_world)"
  have wf: "wf_dict (w_states example_world)" by code_simp
  have single: "single_rows example_world"
    by (auto simp: single_rows_def targets_for_def agents_for_def example_world_def)
  have "distinct (map el_uuid [example_element])"
    "\<forall>row \<in> set (db_resources example_db). has_key (w_states example_world) (rs_uuid (rr_resource row))" by code_simp+
  note st = statuses_follow_agents [OF wf single this]
  then have "map el_uuid ?es = [''e1'']" by (simp add: example_element_def)
  then obtain e where e: "?es = [e]" by (auto simp: map_eq_Cons_conv)
  have "\<forall>row \<in> set (db_resources example_db). joined_status example_world (rs_uuid (rr_resource row)) = Some ''ACTIVE''"
    by code_simp
  with st e show ?thesis by simp
qed

end
