(* ===== verification/Element_Manifest.thy ===== *)
theory Element_Manifest
  imports Element_Actualize
begin

text \<open>
  Installing, upgrading and uninstalling a manifest (\<open>Manifest\<close>, \<open>LinkResolver\<close>, the deletes and
  \<open>Resource.validate_value_update\<close> of \<open>exordos_core/elements/dm/models.py\<close>).  The state is the
  database and the process-wide engine; each operation returns both or the exception it raised.
  Rows are lists in the order the database returns them; deletes cascade as the foreign keys of
  \<open>migrations/0000-squashed-current-7f2e4a.py\<close> say.  What a request draws or reads from elsewhere
  is an environment: fresh uuids, the agents' values, the disk specifications of nodes and node
  sets, and the bound on the nesting of renderings.
\<close>

section \<open>State\<close>

record manifest =
  mf_uuid :: uuid
  mf_name :: string
  mf_version :: string
  mf_api_version :: "string option"
  mf_description :: string
  mf_requirements :: "(string, (string, string) dict) dict"
  mf_resources :: "(string, (string, state_value) dict) dict"
  mf_exports :: "(string, (string, string) dict) dict"
  mf_imports :: "(string, (string, string) dict) dict"

record em_sys =
  sy_db :: em_db
  sy_engine :: engine
  sy_targets :: "target list"

record em_env =
  ev_fresh :: "string \<Rightarrow> uuid"
  ev_nesting :: nat
  ev_actuals :: actuals
  ev_disk_specs :: "string \<Rightarrow> uuid \<Rightarrow> state_value option"

definition need_key :: "('k, 'v) dict \<Rightarrow> 'k \<Rightarrow> em_error + 'v" where
  "need_key d k = (case dget d k of None \<Rightarrow> Inl KeyError | Some v \<Rightarrow> Inr v)"

definition engine_op :: "(engine \<Rightarrow> em_error + engine) \<Rightarrow> em_sys \<Rightarrow> em_error + em_sys" where
  "engine_op f sys = ebind (f (sy_engine sys)) (\<lambda>eng. Inr (sys\<lparr>sy_engine := eng\<rparr>))"

section \<open>Uuids\<close>

definition parse_uuid :: "string \<Rightarrow> em_error + uuid" where
  "parse_uuid s = (case uuid_of_text s of None \<Rightarrow> Inl ValueError | Some u \<Rightarrow> Inr u)"

definition get_or_create_uuid :: "em_env \<Rightarrow> string \<Rightarrow> string option \<Rightarrow> em_error + uuid" where
  "get_or_create_uuid env key given = (case given of None \<Rightarrow> Inr (ev_fresh env key) | Some t \<Rightarrow> parse_uuid t)"

definition get_or_create_uuid_of :: "em_env \<Rightarrow> string \<Rightarrow> state_value \<Rightarrow> em_error + uuid" where
  "get_or_create_uuid_of env key d = (case dget d ''uuid'' of
     None \<Rightarrow> Inr (ev_fresh env key) | Some (JStr t) \<Rightarrow> parse_uuid t | Some _ \<Rightarrow> Inl AttributeError)"

section \<open>Links of resource types\<close>

text \<open>The resolver: an imported resource stands for the resource it imports.\<close>

definition full_link_original :: "engine \<Rightarrow> element \<Rightarrow> string \<Rightarrow> em_error + string" where
  "full_link_original eng el full_link = (case extract_resource_link full_link of
     None \<Rightarrow> Inl TypeError
   | Some link \<Rightarrow> ebind
       (if CHR ''.'' \<in> set link
        then ebind (get_resource_by_link eng el link) (\<lambda>e. Inr (resource_link (entry_resource e)))
        else ebind (get_element eng link) (\<lambda>e. Inr (element_link e)))
       (\<lambda>original. Inr (original @ drop (length link) full_link)))"

section \<open>Disk policies\<close>

definition view_disks :: "state_value \<Rightarrow> em_error + json list" where
  "view_disks spec = (if dget spec ''kind'' = Some (JStr ''root_disk'') then Inr [JDict spec]
     else case dget spec ''disks'' of None \<Rightarrow> Inr [] | Some (JList xs) \<Rightarrow> Inr xs | Some _ \<Rightarrow> Inl TypeError)"

definition policy_field :: "string \<Rightarrow> json \<Rightarrow> json \<Rightarrow> em_error + json" where
  "policy_field field dflt disk = (case disk of
     JDict d \<Rightarrow> Inr (dget_or d field dflt) | _ \<Rightarrow> Inl AttributeError)"

definition same_policy :: "json \<times> json \<Rightarrow> em_error + unit" where
  "same_policy p = efold (\<lambda>(field, dflt) _.
       ebind (policy_field field dflt (fst p)) (\<lambda>old.
       ebind (policy_field field dflt (snd p)) (\<lambda>new.
       if old \<noteq> new then Inl ImmutableDiskPolicy else Inr ())))
     [(''tier'', JStr ''WARM''), (''ephemeral'', JBool True)] ()"

definition validate_policy_views :: "state_value \<Rightarrow> state_value \<Rightarrow> em_error + unit" where
  "validate_policy_views old new =
     ebind (view_disks old) (\<lambda>olds. ebind (view_disks new) (\<lambda>news.
     efold (\<lambda>p _. same_policy p) (zip olds news) ()))"

definition validate_value_update :: "em_env \<Rightarrow> engine \<Rightarrow> resource \<Rightarrow> state_value \<Rightarrow> em_error + unit" where
  "validate_value_update env eng r v =
     (if rs_prefix r \<notin> {''$core.compute.nodes'', ''$core.compute.sets''} \<or> \<not> has_key v ''disk_spec'' then Inr ()
      else case ev_disk_specs env (rs_prefix r) (rs_uuid r) of
        None \<Rightarrow> Inr ()
      | Some old \<Rightarrow>
          ebind (render_fields (render_value (render_target_state (ev_nesting env) (ev_actuals env) eng) (ev_actuals env) eng r) v)
            (\<lambda>rendered. case dget rendered ''disk_spec'' of
               Some (JDict new) \<Rightarrow> validate_policy_views old new
             | _ \<Rightarrow> Inl AttributeError))"

section \<open>Imports\<close>

definition set_imports :: "(import_row list \<Rightarrow> import_row list) \<Rightarrow> em_sys \<Rightarrow> em_sys" where
  "set_imports f sys = sys\<lparr>sy_db := (sy_db sys)\<lparr>db_imports := f (db_imports (sy_db sys))\<rparr>\<rparr>"

definition save_import :: "import_row \<Rightarrow> em_sys \<Rightarrow> em_sys" where
  "save_import im sys = set_imports (map (\<lambda>i. if im_uuid i = im_uuid im then im else i)) sys"

definition insert_import :: "import_row \<Rightarrow> em_sys \<Rightarrow> em_error + em_sys" where
  "insert_import im sys =
     (if \<exists>i \<in> set (db_imports (sy_db sys)). im_uuid i = im_uuid im \<or> im_element i = im_element im \<and> im_name i = im_name im
      then Inl ConflictRecords else Inr (set_imports (\<lambda>is. is @ [im]) sys))"

definition own_resource :: "entry \<Rightarrow> em_error + resource" where
  "own_resource e = (case e of Own r \<Rightarrow> Inr r | Imported _ _ _ \<Rightarrow> Inl TypeError)"

definition apply_import :: "em_env \<Rightarrow> element \<Rightarrow> string \<times> (string, string) dict \<Rightarrow>
    em_sys \<times> (string, import_row) dict \<Rightarrow> em_error + em_sys \<times> (string, import_row) dict" where
  "apply_import env el item st = (let name = fst item; data = snd item; sys = fst st; existing = snd st in
     ebind (need_key data ''element'') (\<lambda>from_link.
     ebind (get_element (sy_engine sys) from_link) (\<lambda>from.
     ebind (need_key data ''link'') (\<lambda>link.
     ebind (get_resource_by_export_link (sy_engine sys) (from_link @ ''.'' @ link)) (\<lambda>e.
     ebind (own_resource e) (\<lambda>r.
     case dget existing name of
       Some im \<Rightarrow>
         let im' = im\<lparr>im_name := name, im_element := el_uuid el, im_from_element := el_uuid from,
               im_from_resource := rs_uuid r, im_kind := dget_or data ''kind'' (im_kind im)\<rparr> in
         Inr (save_import im' sys, ddel name existing)
     | None \<Rightarrow>
         ebind (get_or_create_uuid env name (dget data ''uuid'')) (\<lambda>u.
         ebind (insert_import \<lparr>im_uuid = u, im_element = el_uuid el, im_from_element = el_uuid from,
             im_from_resource = rs_uuid r, im_name = name, im_kind = dget_or data ''kind'' kind_resource\<rparr> sys) (\<lambda>sys.
         ebind (engine_op (add_resource (Imported el r name)) sys) (\<lambda>sys. Inr (sys, existing))))))))))"

definition find_resource :: "em_db \<Rightarrow> uuid \<Rightarrow> em_error + resource" where
  "find_resource db u = (case find (\<lambda>row. rs_uuid (rr_resource row) = u) (db_resources db) of
     None \<Rightarrow> Inl AttributeError | Some row \<Rightarrow> Inr (rr_resource row))"

definition drop_import :: "element \<Rightarrow> import_row \<Rightarrow> em_sys \<Rightarrow> em_error + em_sys" where
  "drop_import el im sys =
     ebind (find_resource (sy_db sys) (im_from_resource im)) (\<lambda>r.
     ebind (engine_op (delete_resource (Imported el r (im_name im))) sys) (\<lambda>sys.
     Inr (set_imports (filter (\<lambda>i. im_uuid i \<noteq> im_uuid im)) sys)))"

definition apply_imports :: "em_env \<Rightarrow> manifest \<Rightarrow> element \<Rightarrow> em_sys \<Rightarrow> em_error + em_sys" where
  "apply_imports env m el sys =
     (let existing = keyed im_name (filter (\<lambda>i. im_element i = el_uuid el) (db_imports (sy_db sys))) in
      ebind (efold (apply_import env el) (mf_imports m) (sys, existing)) (\<lambda>(sys, rest).
      efold (drop_import el) (dvals rest) sys))"

section \<open>Exports\<close>

definition set_exports :: "(export_row list \<Rightarrow> export_row list) \<Rightarrow> em_sys \<Rightarrow> em_sys" where
  "set_exports f sys = sys\<lparr>sy_db := (sy_db sys)\<lparr>db_exports := f (db_exports (sy_db sys))\<rparr>\<rparr>"

definition insert_export :: "export_row \<Rightarrow> em_sys \<Rightarrow> em_error + em_sys" where
  "insert_export x sys =
     (if \<exists>y \<in> set (db_exports (sy_db sys)). xp_uuid y = xp_uuid x \<or>
         el_uuid (xp_element y) = el_uuid (xp_element x) \<and> xp_name y = xp_name x
      then Inl ConflictRecords else Inr (set_exports (\<lambda>xs. xs @ [x]) sys))"

definition apply_export :: "em_env \<Rightarrow> element \<Rightarrow> string \<times> (string, string) dict \<Rightarrow>
    em_sys \<times> (string, export_row) dict \<Rightarrow> em_error + em_sys \<times> (string, export_row) dict" where
  "apply_export env el item st = (let name = fst item; data = snd item; sys = fst st; existing = snd st in
     ebind (need_key data ''link'') (\<lambda>link.
     case dget existing name of
       Some x \<Rightarrow>
         let x' = x\<lparr>xp_name := name, xp_element := el, xp_link := link, xp_kind := dget_or data ''kind'' (xp_kind x)\<rparr> in
         Inr (set_exports (map (\<lambda>y. if xp_uuid y = xp_uuid x' then x' else y)) sys, ddel name existing)
     | None \<Rightarrow>
         ebind (get_or_create_uuid env name (dget data ''uuid'')) (\<lambda>u.
         let x = \<lparr>xp_uuid = u, xp_element = el, xp_name = name, xp_kind = dget_or data ''kind'' kind_resource, xp_link = link\<rparr> in
         ebind (insert_export x sys) (\<lambda>sys.
         ebind (engine_op (add_resource_by_export x) sys) (\<lambda>sys. Inr (sys, existing))))))"

definition drop_export :: "export_row \<Rightarrow> em_sys \<Rightarrow> em_error + em_sys" where
  "drop_export x sys =
     ebind (engine_op (delete_resource_by_export x) sys) (\<lambda>sys.
     Inr (set_exports (filter (\<lambda>y. xp_uuid y \<noteq> xp_uuid x)) sys))"

definition apply_exports :: "em_env \<Rightarrow> manifest \<Rightarrow> element \<Rightarrow> em_sys \<Rightarrow> em_error + em_sys" where
  "apply_exports env m el sys =
     (let existing = keyed xp_name (filter (\<lambda>x. el_uuid (xp_element x) = el_uuid el) (db_exports (sy_db sys))) in
      ebind (efold (apply_export env el) (mf_exports m) (sys, existing)) (\<lambda>(sys, rest).
      efold drop_export (dvals rest) sys))"

section \<open>Resources\<close>

definition set_resources :: "(resource_row list \<Rightarrow> resource_row list) \<Rightarrow> em_sys \<Rightarrow> em_sys" where
  "set_resources f sys = sys\<lparr>sy_db := (sy_db sys)\<lparr>db_resources := f (db_resources (sy_db sys))\<rparr>\<rparr>"

definition insert_resource :: "resource_row \<Rightarrow> em_sys \<Rightarrow> em_error + em_sys" where
  "insert_resource row sys =
     (if rs_uuid (rr_resource row) \<in> set (map (\<lambda>x. rs_uuid (rr_resource x)) (db_resources (sy_db sys)))
      then Inl ConflictRecords else Inr (set_resources (\<lambda>rs. rs @ [row]) sys))"

text \<open>
  Deleting a resource takes the imports of it along, and then its targets of its own kind; the kind
  asks the engine for the element that provides the resource.
\<close>

definition delete_resource_row :: "resource \<Rightarrow> em_sys \<Rightarrow> em_error + em_sys" where
  "delete_resource_row r sys =
     (let sys = set_imports (filter (\<lambda>i. im_from_resource i \<noteq> rs_uuid r))
          (set_resources (filter (\<lambda>row. rs_uuid (rr_resource row) \<noteq> rs_uuid r)) sys) in
      ebind (resource_kind (sy_engine sys) r) (\<lambda>kind.
      Inr (sys\<lparr>sy_targets := filter (\<lambda>t. \<not> (tg_uuid t = rs_uuid r \<and> tg_kind t = kind)) (sy_targets sys)\<rparr>)))"

type_synonym res_key = "string \<times> string"

definition row_key :: "resource_row \<Rightarrow> res_key" where
  "row_key row = (rs_prefix (rr_resource row), rs_name (rr_resource row))"

definition apply_resource :: "em_env \<Rightarrow> element \<Rightarrow> string \<Rightarrow> string \<times> state_value \<Rightarrow>
    em_sys \<times> (res_key, resource_row) dict \<Rightarrow> em_error + em_sys \<times> (res_key, resource_row) dict" where
  "apply_resource env el prefix item st = (let name = fst item; v = snd item; sys = fst st; existing = snd st in
     case dget existing (prefix, name) of
       Some row \<Rightarrow>
         ebind (validate_value_update env (sy_engine sys) (rr_resource row) v) (\<lambda>_.
         let row' = \<lparr>rr_element = el_uuid el, rr_resource = (rr_resource row)\<lparr>rs_element := el, rs_prefix := prefix, rs_value := v\<rparr>\<rparr> in
         Inr (set_resources (map (\<lambda>x. if rs_uuid (rr_resource x) = rs_uuid (rr_resource row') then row' else x)) sys,
              ddel (prefix, name) existing))
     | None \<Rightarrow>
         ebind (get_or_create_uuid_of env (prefix @ name) v) (\<lambda>u.
         let r = \<lparr>rs_uuid = u, rs_element = el, rs_name = name, rs_prefix = prefix, rs_value = v\<rparr> in
         ebind (insert_resource \<lparr>rr_element = el_uuid el, rr_resource = r\<rparr> sys) (\<lambda>sys.
         ebind (engine_op (add_resource (Own r)) sys) (\<lambda>sys. Inr (sys, existing)))))"

definition apply_type :: "em_env \<Rightarrow> element \<Rightarrow> string \<times> (string, state_value) dict \<Rightarrow>
    em_sys \<times> (res_key, resource_row) dict \<Rightarrow> em_error + em_sys \<times> (res_key, resource_row) dict" where
  "apply_type env el item st =
     ebind (full_link_original (sy_engine (fst st)) el (fst item)) (\<lambda>prefix.
     efold (apply_resource env el prefix) (snd item) st)"

definition drop_resource :: "resource_row \<Rightarrow> em_sys \<Rightarrow> em_error + em_sys" where
  "drop_resource row sys =
     ebind (engine_op (delete_resource (Own (rr_resource row))) sys) (\<lambda>sys. delete_resource_row (rr_resource row) sys)"

definition existing_resources :: "element \<Rightarrow> em_sys \<Rightarrow> (res_key, resource_row) dict" where
  "existing_resources el sys =
     keyed row_key (filter (\<lambda>row. rr_element row = el_uuid el) (db_resources (sy_db sys)))"

definition apply_resources :: "em_env \<Rightarrow> manifest \<Rightarrow> element \<Rightarrow> em_sys \<Rightarrow> em_error + em_sys" where
  "apply_resources env m el sys =
     ebind (efold (apply_type env el) (mf_resources m) (sys, existing_resources el sys)) (\<lambda>(sys, rest).
     efold drop_resource (dvals rest) sys)"

section \<open>Elements\<close>

definition set_elements :: "(element list \<Rightarrow> element list) \<Rightarrow> em_sys \<Rightarrow> em_sys" where
  "set_elements f sys = sys\<lparr>sy_db := (sy_db sys)\<lparr>db_elements := f (db_elements (sy_db sys))\<rparr>\<rparr>"

definition save_element :: "element \<Rightarrow> em_sys \<Rightarrow> em_sys" where
  "save_element el = set_elements (map (\<lambda>e. if el_uuid e = el_uuid el then el else e))"

definition reload_engine :: "em_sys \<Rightarrow> em_error + em_sys" where
  "reload_engine sys = ebind (load_from_database (sy_db sys)) (\<lambda>eng. Inr (sys\<lparr>sy_engine := eng\<rparr>))"

definition apply_element :: "em_env \<Rightarrow> manifest \<Rightarrow> element \<Rightarrow> em_sys \<Rightarrow> em_error + em_sys" where
  "apply_element env m el sys =
     (let el = el\<lparr>el_requirements := mf_requirements m\<rparr> in
      ebind (apply_imports env m el (save_element el sys)) (\<lambda>sys.
      ebind (apply_resources env m el sys) (\<lambda>sys.
      apply_exports env m el sys)))"

definition named_element :: "manifest \<Rightarrow> em_sys \<Rightarrow> element option" where
  "named_element m sys = find (\<lambda>e. el_name e = mf_name m) (db_elements (sy_db sys))"

definition install :: "em_env \<Rightarrow> manifest \<Rightarrow> em_sys \<Rightarrow> em_error + em_sys" where
  "install env m sys =
     (if named_element m sys \<noteq> None then Inl ValidateException
      else ebind (reload_engine sys) (\<lambda>sys.
        let el = \<lparr>el_uuid = mf_uuid m, el_name = mf_name m, el_version = mf_version m, el_status = ''NEW'',
              el_api_version = mf_api_version m, el_description = mf_description m, el_requirements = [],
              el_manifest = mf_uuid m\<rparr> in
        if mf_uuid m \<in> set (map el_uuid (db_elements (sy_db sys))) then Inl ConflictRecords
        else ebind (engine_op (add_element el) (set_elements (\<lambda>es. es @ [el]) sys)) (\<lambda>sys. apply_element env m el sys)))"

definition upgrade :: "em_env \<Rightarrow> manifest \<Rightarrow> em_sys \<Rightarrow> em_error + em_sys" where
  "upgrade env m sys = (case named_element m sys of
     None \<Rightarrow> Inl ValidateException
   | Some e \<Rightarrow> ebind (reload_engine sys) (\<lambda>sys.
       let el = e\<lparr>el_version := mf_version m, el_api_version := mf_api_version m, el_description := mf_description m,
             el_manifest := mf_uuid m, el_status := ''IN_PROGRESS''\<rparr> in
       apply_element env m el (save_element el sys)))"

text \<open>Versions are compared as texts.\<close>

fun str_less :: "string \<Rightarrow> string \<Rightarrow> bool" where
  "str_less s [] = False"
| "str_less [] (c # t) = True"
| "str_less (c # s) (d # t) = ((of_char c :: nat) < of_char d \<or> c = d \<and> str_less s t)"

definition version_bound :: "(string, string) dict \<Rightarrow> string \<Rightarrow> string option" where
  "version_bound req k = (case dget req k of Some v \<Rightarrow> if v = [] then None else Some v | None \<Rightarrow> None)"

definition version_matches :: "(string, string) dict \<Rightarrow> string \<Rightarrow> bool" where
  "version_matches req version \<longleftrightarrow>
     \<not> (case version_bound req ''from_version'' of None \<Rightarrow> False | Some v \<Rightarrow> str_less version v) \<and>
     \<not> (case version_bound req ''to_version'' of None \<Rightarrow> False | Some v \<Rightarrow> str_less v version)"

definition depends_on :: "element \<Rightarrow> element \<Rightarrow> bool" where
  "depends_on other el \<longleftrightarrow> el_uuid other \<noteq> el_uuid el \<and>
     list_ex (\<lambda>(name, req). name = el_name el \<and> version_matches req (el_version el)) (el_requirements other)"

definition check_no_dependents :: "engine \<Rightarrow> element \<Rightarrow> em_error + unit" where
  "check_no_dependents eng el = (if list_ex (\<lambda>other. depends_on other el) (get_elements eng) then Inl ValidateException else Inr ())"

text \<open>Deleting an element: its resources one by one, then its row with the rows that refer to it.\<close>

definition delete_element_row :: "element \<Rightarrow> em_sys \<Rightarrow> em_error + em_sys" where
  "delete_element_row el sys =
     ebind (efold (\<lambda>row. delete_resource_row (rr_resource row))
       (filter (\<lambda>row. rr_element row = el_uuid el) (db_resources (sy_db sys))) sys) (\<lambda>sys.
     Inr (set_elements (filter (\<lambda>e. el_uuid e \<noteq> el_uuid el))
       (set_exports (filter (\<lambda>x. el_uuid (xp_element x) \<noteq> el_uuid el))
       (set_imports (filter (\<lambda>i. im_element i \<noteq> el_uuid el \<and> im_from_element i \<noteq> el_uuid el)) sys))))"

definition uninstall :: "manifest \<Rightarrow> em_sys \<Rightarrow> em_error + em_sys" where
  "uninstall m sys =
     ebind (reload_engine sys) (\<lambda>sys.
       let els = filter (\<lambda>e. el_manifest e = mf_uuid m) (db_elements (sy_db sys)) in
       ebind (efold (\<lambda>e _. check_no_dependents (sy_engine sys) e) els ()) (\<lambda>_.
       efold (\<lambda>e sys. ebind (delete_element_row e sys) (engine_op (remove_element e))) els sys))"

section \<open>The resources of an element after an upgrade\<close>

lemma efold_accumulates:
  assumes "efold f xs s = Inr s'" and "I P s"
    and "\<And>x P a b. I P a \<Longrightarrow> f x a = Inr b \<Longrightarrow> I (P \<union> G x) b"
  shows "I (P \<union> (\<Union>x \<in> set xs. G x)) s'"
  using assms(1,2)
proof (induction xs arbitrary: s P)
  case (Cons x xs)
  obtain t where t: "f x s = Inr t" "efold f xs t = Inr s'" using Cons.prems(1) by (auto split: sum.splits)
  have "I (P \<union> G x) t" by (rule assms(3) [OF Cons.prems(2) t(1)])
  from Cons.IH [OF t(2) this] show ?case by (simp add: Un_assoc)
qed simp

abbreviation row_uuid :: "resource_row \<Rightarrow> uuid" where
  "row_uuid row \<equiv> rs_uuid (rr_resource row)"

definition row_is :: "string \<times> state_value \<Rightarrow> resource_row \<Rightarrow> bool" where
  "row_is item row \<longleftrightarrow> rs_name (rr_resource row) = fst item \<and> rs_value (rr_resource row) = snd item"

definition own_rows :: "uuid \<Rightarrow> em_sys \<Rightarrow> resource_row list" where
  "own_rows u sys = filter (\<lambda>row. rr_element row = u) (db_resources (sy_db sys))"

definition other_rows :: "uuid \<Rightarrow> em_sys \<Rightarrow> resource_row list" where
  "other_rows u sys = filter (\<lambda>row. rr_element row \<noteq> u) (db_resources (sy_db sys))"

text \<open>
  Between two steps: the rows not looked at yet are those still in the dictionary, and every other
  row of the element is one of the items handled so far.
\<close>

definition sync_inv :: "uuid \<Rightarrow> resource_row list \<Rightarrow> (string \<times> state_value) set \<Rightarrow>
    em_sys \<times> (res_key, resource_row) dict \<Rightarrow> bool" where
  "sync_inv u others done st \<longleftrightarrow>
     distinct (map row_uuid (db_resources (sy_db (fst st)))) \<and> wf_dict (snd st) \<and>
     (\<forall>k row. dget (snd st) k = Some row \<longrightarrow> row \<in> set (own_rows u (fst st)) \<and> row_key row = k) \<and>
     (\<forall>row \<in> set (own_rows u (fst st)). row \<in> set (dvals (snd st)) \<or> (\<exists>item \<in> done. row_is item row)) \<and>
     (\<forall>item \<in> done. \<exists>row \<in> set (own_rows u (fst st)). row_is item row \<and> row \<notin> set (dvals (snd st))) \<and>
     other_rows u (fst st) = others"

lemma set_resources_rows [simp]:
  "db_resources (sy_db (set_resources f sys)) = f (db_resources (sy_db sys))" "sy_engine (set_resources f sys) = sy_engine sys"
  by (simp_all add: set_resources_def)

lemma engine_op_rows: "engine_op f sys = Inr sys' \<Longrightarrow> sy_db sys' = sy_db sys"
  by (auto simp: engine_op_def ebind_Inr_iff)

lemma wf_dict_vals: "wf_dict d \<Longrightarrow> v \<in> set (dvals d) \<longleftrightarrow> (\<exists>k. dget d k = Some v)"
  by (simp add: set_dvals_dget)

lemma dvals_ddel_key:
  assumes "wf_dict d" and "\<And>k v. dget d k = Some v \<Longrightarrow> f v = k" and "dget d k = Some v"
  shows "set (dvals (ddel k d)) = set (dvals d) - {v}"
proof (rule set_eqI)
  fix x
  have "x \<in> set (dvals (ddel k d)) \<longleftrightarrow> (\<exists>k'. k' \<noteq> k \<and> dget d k' = Some x)"
    using assms(1) by (auto simp: wf_dict_vals split: if_splits)
  also have "\<dots> \<longleftrightarrow> (\<exists>k'. dget d k' = Some x) \<and> x \<noteq> v"
    using assms(2) [of _ x] assms(2) [OF assms(3)] assms(3) by (metis option.inject)
  finally show "x \<in> set (dvals (ddel k d)) \<longleftrightarrow> x \<in> set (dvals d) - {v}" using assms(1) by (simp add: wf_dict_vals)
qed

lemma sync_update:
  assumes "sync_inv (el_uuid el) others done (sys, existing)" and "dget existing (prefix, name) = Some row"
    and "row' = \<lparr>rr_element = el_uuid el, rr_resource = (rr_resource row)\<lparr>rs_element := el, rs_prefix := prefix, rs_value := v\<rparr>\<rparr>"
  shows "sync_inv (el_uuid el) others (insert (name, v) done)
    (set_resources (map (\<lambda>x. if row_uuid x = row_uuid row' then row' else x)) sys, ddel (prefix, name) existing)"
proof -
  let ?rows = "db_resources (sy_db sys)" and ?f = "\<lambda>x. if row_uuid x = row_uuid row' then row' else x"
  have d: "distinct (map row_uuid ?rows)" and wf: "wf_dict existing"
    and ex: "\<And>k r. dget existing k = Some r \<Longrightarrow> r \<in> set (own_rows (el_uuid el) sys) \<and> row_key r = k"
    using assms(1) by (auto simp: sync_inv_def)
  have row: "row \<in> set ?rows" "rr_element row = el_uuid el" "row_key row = (prefix, name)"
    using ex [OF assms(2)] by (auto simp: own_rows_def)
  have u: "row_uuid row' = row_uuid row" "rr_element row' = el_uuid el" "row_is (name, v) row'"
    using row(3) by (simp_all add: assms(3) row_is_def row_key_def)
  have only: "x = row" if "x \<in> set ?rows" "row_uuid x = row_uuid row" for x
    using d that row(1) by (auto simp: distinct_map inj_on_def)
  have rows': "set (map ?f ?rows) = insert row' (set ?rows - {row})"
    using only row(1) u(1) by (auto simp: image_iff)
  have own: "set (own_rows (el_uuid el) (set_resources (map ?f) sys)) = insert row' (set (own_rows (el_uuid el) sys) - {row})"
    unfolding own_rows_def set_resources_rows set_filter rows' using u row(2) by auto
  have vals: "set (dvals (ddel (prefix, name) existing)) = set (dvals existing) - {row}"
    by (rule dvals_ddel_key [where f = row_key]) (use assms(2) ex wf in auto)
  have other: "other_rows (el_uuid el) (set_resources (map ?f) sys) = other_rows (el_uuid el) sys"
  proof -
    have "filter (\<lambda>x. rr_element x \<noteq> el_uuid el) (map ?f xs) = filter (\<lambda>x. rr_element x \<noteq> el_uuid el) xs"
      if "\<forall>x \<in> set xs. row_uuid x = row_uuid row \<longrightarrow> x = row" for xs
      using that u row(2) by (induction xs) auto
    then show ?thesis using only by (simp add: other_rows_def)
  qed
  have d': "distinct (map row_uuid (map ?f ?rows))"
  proof -
    have "map row_uuid (map ?f ?rows) = map row_uuid ?rows" using u(1) by auto
    then show ?thesis using d by (simp only:)
  qed
  have fresh: "row' \<notin> set (dvals existing) - {row}"
    using ex wf only u(1) by (auto simp: wf_dict_vals own_rows_def)
  show ?thesis unfolding sync_inv_def fst_conv snd_conv own vals
  proof (intro conjI ballI allI impI)
    show "distinct (map row_uuid (db_resources (sy_db (set_resources (map ?f) sys))))" using d' by simp
    show "wf_dict (ddel (prefix, name) existing)" using wf by simp
    show "other_rows (el_uuid el) (set_resources (map ?f) sys) = others" using other assms(1) by (simp add: sync_inv_def)
  next
    fix k r assume r: "dget (ddel (prefix, name) existing) k = Some r"
    then have e: "dget existing k = Some r" "k \<noteq> (prefix, name)" by (auto split: if_splits)
    with ex [OF e(1)] row(3) show "r \<in> insert row' (set (own_rows (el_uuid el) sys) - {row})" "row_key r = k" by auto
  next
    fix r assume "r \<in> insert row' (set (own_rows (el_uuid el) sys) - {row})"
    then show "r \<in> set (dvals existing) - {row} \<or> (\<exists>item \<in> insert (name, v) done. row_is item r)"
      using u(3) assms(1) by (auto simp: sync_inv_def)
  next
    fix item assume "item \<in> insert (name, v) done"
    then show "\<exists>r \<in> insert row' (set (own_rows (el_uuid el) sys) - {row}). row_is item r \<and> r \<notin> set (dvals existing) - {row}"
      using u(3) fresh assms(1,2) wf unfolding sync_inv_def by (fastforce simp: wf_dict_vals)
  qed
qed

lemma sync_insert:
  assumes "sync_inv (el_uuid el) others done (sys, existing)"
    and "insert_resource row sys = Inr sys'" and "rr_element row = el_uuid el" and "row_is item row"
  shows "sync_inv (el_uuid el) others (insert item done) (sys', existing)"
proof -
  have fresh: "row_uuid row \<notin> row_uuid ` set (db_resources (sy_db sys))"
    and sys': "db_resources (sy_db sys') = db_resources (sy_db sys) @ [row]"
    using assms(2) by (auto simp: insert_resource_def split: if_splits)
  have own: "own_rows (el_uuid el) sys' = own_rows (el_uuid el) sys @ [row]" "other_rows (el_uuid el) sys' = other_rows (el_uuid el) sys"
    using assms(3) by (simp_all add: own_rows_def other_rows_def sys')
  have "row \<notin> set (dvals existing)"
    using assms(1) fresh by (auto simp: sync_inv_def wf_dict_vals own_rows_def)
  with assms(1,4) fresh show ?thesis by (auto simp: sync_inv_def own sys')
qed

lemma sync_apply_resource:
  assumes "sync_inv (el_uuid el) others done st" and "apply_resource env el prefix item st = Inr st'"
  shows "sync_inv (el_uuid el) others (done \<union> {item}) st'"
proof -
  obtain sys existing name v where st: "st = (sys, existing)" "item = (name, v)" by (cases st; cases item)
  show ?thesis
  proof (cases "dget existing (prefix, name)")
    case (Some row)
    then obtain row' where "row' = \<lparr>rr_element = el_uuid el, rr_resource = (rr_resource row)\<lparr>rs_element := el, rs_prefix := prefix, rs_value := v\<rparr>\<rparr>"
      and "st' = (set_resources (map (\<lambda>x. if row_uuid x = row_uuid row' then row' else x)) sys, ddel (prefix, name) existing)"
      using assms(2) st by (auto simp: apply_resource_def ebind_Inr_iff Let_def)
    then show ?thesis using sync_update [OF assms(1) [unfolded st(1)] Some] st(2) by simp
  next
    case None
    obtain u sys1 sys2 where
      1: "insert_resource \<lparr>rr_element = el_uuid el, rr_resource = \<lparr>rs_uuid = u, rs_element = el, rs_name = name, rs_prefix = prefix, rs_value = v\<rparr>\<rparr> sys = Inr sys1"
      and 2: "engine_op (add_resource (Own \<lparr>rs_uuid = u, rs_element = el, rs_name = name, rs_prefix = prefix, rs_value = v\<rparr>)) sys1 = Inr sys2"
      and 3: "st' = (sys2, existing)"
      using assms(2) st None by (auto simp: apply_resource_def ebind_Inr_iff Let_def)
    have "sync_inv (el_uuid el) others (insert item done) (sys1, existing)"
      by (rule sync_insert [OF assms(1) [unfolded st(1)] 1]) (simp_all add: row_is_def st)
    then show ?thesis using engine_op_rows [OF 2] 3 by (simp add: sync_inv_def own_rows_def other_rows_def)
  qed
qed

lemma sync_apply_type:
  assumes "sync_inv (el_uuid el) others done st" and "apply_type env el item st = Inr st'"
  shows "sync_inv (el_uuid el) others (done \<union> set (snd item)) st'"
proof -
  obtain prefix where "efold (apply_resource env el prefix) (snd item) st = Inr st'"
    using assms(2) by (auto simp: apply_type_def ebind_Inr_iff)
  from efold_accumulates [where I = "sync_inv (el_uuid el) others" and G = "\<lambda>x. {x}", OF this assms(1)] sync_apply_resource
  show ?thesis by simp
qed

lemma sync_start:
  assumes "distinct (map row_uuid (db_resources (sy_db sys)))" and "distinct (map row_key (own_rows (el_uuid el) sys))"
  shows "sync_inv (el_uuid el) (other_rows (el_uuid el) sys) {} (sys, existing_resources el sys)"
proof -
  have e: "existing_resources el sys = keyed row_key (own_rows (el_uuid el) sys)"
    by (simp add: existing_resources_def own_rows_def)
  have "row \<in> set (dvals (keyed row_key (own_rows (el_uuid el) sys)))" if "row \<in> set (own_rows (el_uuid el) sys)" for row
    unfolding wf_dict_vals [OF keyed_wf] using keyed_complete [OF assms(2) that] by blast
  then show ?thesis unfolding sync_inv_def fst_conv snd_conv e using assms(1) keyed_wf by (auto dest: keyed_dget)
qed

lemma drop_resource_rows:
  "drop_resource row sys = Inr sys' \<Longrightarrow>
   db_resources (sy_db sys') = filter (\<lambda>x. row_uuid x \<noteq> row_uuid row) (db_resources (sy_db sys))"
  by (auto simp: drop_resource_def delete_resource_row_def set_imports_def ebind_Inr_iff Let_def dest!: engine_op_rows)

lemma drop_loop_rows:
  "efold drop_resource rows sys = Inr sys' \<Longrightarrow>
   db_resources (sy_db sys') = filter (\<lambda>x. row_uuid x \<notin> row_uuid ` set rows) (db_resources (sy_db sys))"
proof (induction rows arbitrary: sys)
  case (Cons row rows)
  then obtain t where "drop_resource row sys = Inr t" "efold drop_resource rows t = Inr sys'" by (auto split: sum.splits)
  with Cons.IH drop_resource_rows show ?case by (fastforce intro!: filter_cong)
qed simp

section \<open>Properties\<close>


definition example_env :: em_env where
  "example_env = \<lparr>ev_fresh = (\<lambda>k. ''new'' @ k), ev_nesting = 5, ev_actuals = (\<lambda>_. None), ev_disk_specs = (\<lambda>_ _. None)\<rparr>"

definition example_manifest :: manifest where
  "example_manifest = \<lparr>mf_uuid = ''m1'', mf_name = ''core'', mf_version = ''1.1.0'', mf_api_version = None, mf_description = '''',
     mf_requirements = [], mf_resources = [(''$core.compute.nodes'', [(''web'', [(''cores'', JInt 2)])])],
     mf_exports = [], mf_imports = []\<rparr>"

definition example_sys :: em_sys where
  "example_sys = \<lparr>sy_db = example_db\<lparr>db_exports := []\<rparr>, sy_engine = example_engine, sy_targets = []\<rparr>"


text \<open>Uninstalling only takes rows away.\<close>

definition fewer_rows :: "em_sys \<Rightarrow> em_sys \<Rightarrow> bool" where
  "fewer_rows sys' sys \<longleftrightarrow> set (db_resources (sy_db sys')) \<subseteq> set (db_resources (sy_db sys)) \<and>
     set (db_imports (sy_db sys')) \<subseteq> set (db_imports (sy_db sys)) \<and> set (db_exports (sy_db sys')) \<subseteq> set (db_exports (sy_db sys))"

definition no_rows_of :: "uuid \<Rightarrow> em_sys \<Rightarrow> bool" where
  "no_rows_of u sys \<longleftrightarrow> (\<forall>row \<in> set (db_resources (sy_db sys)). rr_element row \<noteq> u) \<and>
     (\<forall>x \<in> set (db_exports (sy_db sys)). el_uuid (xp_element x) \<noteq> u) \<and>
     (\<forall>i \<in> set (db_imports (sy_db sys)). im_element i \<noteq> u \<and> im_from_element i \<noteq> u)"

lemma fewer_rows_trans: "fewer_rows b a \<Longrightarrow> fewer_rows c b \<Longrightarrow> fewer_rows c a"
  by (auto simp: fewer_rows_def)

lemma no_rows_of_mono: "no_rows_of u a \<Longrightarrow> fewer_rows b a \<Longrightarrow> no_rows_of u b"
  by (auto simp: no_rows_of_def fewer_rows_def)

lemma delete_resource_row_step:
  assumes "delete_resource_row r sys = Inr sys'"
  shows "fewer_rows sys' sys \<and> db_elements (sy_db sys') = db_elements (sy_db sys) \<and>
    (\<forall>row \<in> set (db_resources (sy_db sys')). row_uuid row \<noteq> rs_uuid r)"
  using assms by (auto simp: delete_resource_row_def set_imports_def set_resources_def ebind_Inr_iff Let_def fewer_rows_def)

lemma delete_rows_loop:
  "efold (\<lambda>row. delete_resource_row (rr_resource row)) rows sys = Inr sys' \<Longrightarrow>
   fewer_rows sys' sys \<and> db_elements (sy_db sys') = db_elements (sy_db sys) \<and>
   (\<forall>row \<in> set (db_resources (sy_db sys')). row_uuid row \<notin> row_uuid ` set rows)"
proof (induction rows arbitrary: sys)
  case Nil
  then show ?case by (simp add: fewer_rows_def)
next
  case (Cons r rows)
  then obtain t where t: "delete_resource_row (rr_resource r) sys = Inr t"
    "efold (\<lambda>row. delete_resource_row (rr_resource row)) rows t = Inr sys'" by (auto split: sum.splits)
  note s = delete_resource_row_step [OF t(1)] and IH = Cons.IH [OF t(2)]
  have "fewer_rows sys' sys" using s IH fewer_rows_trans by blast
  moreover have "\<forall>row \<in> set (db_resources (sy_db sys')). row_uuid row \<noteq> row_uuid r"
    using s IH by (auto simp: fewer_rows_def)
  ultimately show ?case using s IH by auto
qed

lemma delete_element_row_step:
  assumes "delete_element_row el sys = Inr sys'"
  shows "fewer_rows sys' sys \<and> no_rows_of (el_uuid el) sys' \<and>
    db_elements (sy_db sys') = filter (\<lambda>e. el_uuid e \<noteq> el_uuid el) (db_elements (sy_db sys))"
proof -
  obtain t where t: "efold (\<lambda>row. delete_resource_row (rr_resource row))
       (filter (\<lambda>row. rr_element row = el_uuid el) (db_resources (sy_db sys))) sys = Inr t"
    and s: "sys' = set_elements (filter (\<lambda>e. el_uuid e \<noteq> el_uuid el))
       (set_exports (filter (\<lambda>x. el_uuid (xp_element x) \<noteq> el_uuid el))
       (set_imports (filter (\<lambda>i. im_element i \<noteq> el_uuid el \<and> im_from_element i \<noteq> el_uuid el)) t))"
    using assms by (auto simp: delete_element_row_def ebind_Inr_iff)
  note l = delete_rows_loop [OF t]
  have "\<forall>row \<in> set (db_resources (sy_db t)). rr_element row \<noteq> el_uuid el"
    using l by (force simp: fewer_rows_def)
  then show ?thesis using l by (auto simp: s set_elements_def set_exports_def set_imports_def fewer_rows_def no_rows_of_def)
qed

lemma uninstall_loop:
  "efold (\<lambda>e sys. ebind (delete_element_row e sys) (engine_op (remove_element e))) els sys = Inr sys' \<Longrightarrow>
   fewer_rows sys' sys \<and> (\<forall>e \<in> set els. no_rows_of (el_uuid e) sys') \<and>
   db_elements (sy_db sys') = filter (\<lambda>e. el_uuid e \<notin> el_uuid ` set els) (db_elements (sy_db sys))"
proof (induction els arbitrary: sys)
  case Nil
  then show ?case by (simp add: fewer_rows_def)
next
  case (Cons e els)
  then obtain t t' where t: "delete_element_row e sys = Inr t" "engine_op (remove_element e) t = Inr t'"
    "efold (\<lambda>e sys. ebind (delete_element_row e sys) (engine_op (remove_element e))) els t' = Inr sys'"
    by (auto simp: ebind_Inr_iff split: sum.splits)
  note s = delete_element_row_step [OF t(1)] and IH = Cons.IH [OF t(3)]
  have db: "sy_db t' = sy_db t" by (rule engine_op_rows [OF t(2)])
  have f: "fewer_rows sys' t" using IH db by (simp add: fewer_rows_def)
  have "db_elements (sy_db sys') = filter (\<lambda>x. el_uuid x \<notin> el_uuid ` set (e # els)) (db_elements (sy_db sys))"
    using IH s db by (auto intro!: filter_cong)
  then show ?case using IH f s fewer_rows_trans no_rows_of_mono by auto
qed

lemma check_loop:
  "efold (\<lambda>e _. check_no_dependents eng e) els () = Inr u \<longleftrightarrow> (\<forall>e \<in> set els. \<not> list_ex (\<lambda>other. depends_on other e) (get_elements eng))"
  by (induction els) (auto simp: check_no_dependents_def split: sum.splits)



definition needs_nine :: element where
  "needs_nine = example_element\<lparr>el_uuid := ''e2'', el_name := ''app'',
     el_requirements := [(''core'', [(''from_version'', ''9.0.0'')])]\<rparr>"

text \<open>Versions are compared as texts, so the check before an uninstall does not see that version
  10.0.0 satisfies a requirement of at least 9.0.0: an element that another one requires is removed.\<close>

theorem required_version_ten_uninstalled:
  "check_no_dependents (new_engine\<lparr>en_namespaces := [(''$app'', \<lparr>ns_element = needs_nine, ns_resources = []\<rparr>)]\<rparr>)
     (example_element\<lparr>el_version := ''10.0.0''\<rparr>) = Inr () \<and>
   check_no_dependents (new_engine\<lparr>en_namespaces := [(''$app'', \<lparr>ns_element = needs_nine, ns_resources = []\<rparr>)]\<rparr>)
     (example_element\<lparr>el_version := ''9.0.0''\<rparr>) = Inl ValidateException"
  by code_simp

end
