(* ===== verification/Iam_Model.thy ===== *)
theory Iam_Model
  imports Prelude
begin

text \<open>
  The data of identity and access management (\<open>exordos_core/user_api/iam/dm/models.py\<close>) and what
  a user may do in a project: users, roles, permissions and their bindings, organizations and
  projects, clients, tokens, identity providers and their authorizations.  Relationships are uuids
  into the tables, tables are lists in the order the database returns the rows.  Time is counted
  in microseconds, the resolution of the code's datetimes.  What a request reads from outside the database is an
  environment: the clock, the salted hash of a secret (PBKDF2), the check of one-time codes, the
  answer of a Keycloak server to a form (\<open>None\<close> when the call raises), the database's reading of a
  uuid, and what it draws at random.
\<close>

section \<open>Tables\<close>

record keycloak =
  kc_endpoint :: string
  kc_realm :: string
  kc_client_id :: string
  kc_client_secret :: string

datatype user_source = IamSource | KeycloakSource keycloak

record user =
  us_uuid :: uuid
  us_name :: string
  us_email :: string
  us_type :: string
  us_salt :: string
  us_secret_hash :: string
  us_source :: user_source
  us_email_verified :: bool
  us_registration_client :: "uuid option"
  us_code :: "uuid option"
  us_code_made_at :: "int option"
  us_otp_secret :: string
  us_otp_enabled :: bool

record role =
  ro_uuid :: uuid
  ro_name :: string
  ro_project_id :: "uuid option"

record permission =
  pe_uuid :: uuid
  pe_name :: string

record permission_binding =
  pb_uuid :: uuid
  pb_role :: uuid
  pb_permission :: uuid

record role_binding =
  rb_uuid :: uuid
  rb_user :: uuid
  rb_role :: uuid
  rb_project :: "uuid option"
  rb_created_at :: int

record organization =
  og_uuid :: uuid
  og_name :: string

record org_member =
  om_uuid :: uuid
  om_organization :: uuid
  om_user :: uuid
  om_role :: string
  om_created_at :: int

record project =
  pj_uuid :: uuid
  pj_name :: string
  pj_organization :: uuid

record iam_client =
  ic_uuid :: uuid
  ic_client_id :: string
  ic_salt :: string
  ic_secret_hash :: string
  ic_auto_provision :: bool

record token =
  tk_uuid :: uuid
  tk_user :: uuid
  tk_client :: uuid
  tk_project :: "uuid option"
  tk_scope :: string
  tk_issuer :: string
  tk_audience :: "string option"
  tk_nonce :: "string option"
  tk_created_at :: int
  tk_expiration_at :: int
  tk_expiration_delta :: int
  tk_refresh_expiration_at :: int
  tk_refresh_uuid :: uuid
  tk_managed :: bool
  tk_auto_renew :: bool
  tk_generation :: nat

datatype callback = CallbackUri string | CallbackUriList "string list" | CallbackRegexp string

record idp =
  ip_uuid :: uuid
  ip_client :: uuid
  ip_scope :: string
  ip_callback :: callback
  ip_nonce_required :: bool

record auth_info =
  au_uuid :: uuid
  au_idp :: uuid
  au_state :: string
  au_nonce :: string
  au_redirect_uri :: string
  au_scope :: string
  au_expiration_at :: int
  au_token :: "uuid option"
  au_code :: uuid
  au_challenge :: "string option"
  au_challenge_method :: "string option"

record iam_db =
  db_users :: "user list"
  db_roles :: "role list"
  db_permissions :: "permission list"
  db_permission_bindings :: "permission_binding list"
  db_role_bindings :: "role_binding list"
  db_organizations :: "organization list"
  db_members :: "org_member list"
  db_projects :: "project list"
  db_clients :: "iam_client list"
  db_tokens :: "token list"
  db_idps :: "idp list"
  db_auth_infos :: "auth_info list"

record iam_env =
  ie_now :: int
  ie_hash :: "string \<Rightarrow> string \<Rightarrow> string"
  ie_totp :: "string \<Rightarrow> string \<Rightarrow> bool"
  ie_post :: "string \<Rightarrow> string \<Rightarrow> (string \<times> string) list \<Rightarrow> nat option"
  ie_db_uuid :: "string \<Rightarrow> uuid option"
  ie_uuid :: "string \<Rightarrow> uuid"
  ie_salt :: string
  ie_otp_secret :: string

datatype iam_error = CredentialsAreInvalid | ClientAuthentication | ServiceAccountPasswordAuth
  | ServiceAccountPasswordChange | ServiceAccountUuidRequired | OTPNotEnabled | OTPAlreadyEnabled | OTPInvalidCode
  | CanNotConfirmUser | NotFound | InvalidRefreshToken | InvalidAuthToken | InvalidPkceGrant
  | ProjectScopeRequired | CanNotCreateServiceToken | UserNotFound | InvalidClientId | InvalidRedirectUri
  | InvalidNonce | InvalidGrantType | CanNotUpdateUser | CanNotResetUserPassword | CanNotCreateUser | CanNotDeleteUser
  | CanNotReadUser | Validation string | KeycloakUnavailable | Forbidden string | NotImplemented | HasManyRecords | BadValue | BadAttribute

definition user_type_service :: string where
  "user_type_service = ''service''"

definition org_owner :: string where
  "org_owner = ''OWNER''"

definition owner_role_uuid :: uuid where
  "owner_role_uuid = ''726f6c65-0000-0000-0000-000000000002''"

definition newcomer_role_uuid :: uuid where
  "newcomer_role_uuid = ''726f6c65-0000-0000-0000-000000000001''"

definition default_client_uuid :: uuid where
  "default_client_uuid = ''00000000-0000-0000-0000-000000000000''"

text \<open>
  \<open>objects.get_one\<close>, by a primary key: the row, or an exception when there is none; by other columns it
  also raises when there are several.
\<close>

definition get_one :: "('a \<Rightarrow> bool) \<Rightarrow> 'a list \<Rightarrow> iam_error + 'a" where
  "get_one p xs = (case find p xs of None \<Rightarrow> Inl NotFound | Some x \<Rightarrow> Inr x)"

definition get_single :: "('a \<Rightarrow> bool) \<Rightarrow> 'a list \<Rightarrow> iam_error + 'a" where
  "get_single p xs = (case filter p xs of [] \<Rightarrow> Inl NotFound | [x] \<Rightarrow> Inr x | _ \<Rightarrow> Inl HasManyRecords)"

definition get_one_or_none :: "('a \<Rightarrow> bool) \<Rightarrow> 'a list \<Rightarrow> iam_error + 'a option" where
  "get_one_or_none p xs = (case filter p xs of [] \<Rightarrow> Inr None | [x] \<Rightarrow> Inr (Some x) | _ \<Rightarrow> Inl HasManyRecords)"

definition put_user :: "user \<Rightarrow> iam_db \<Rightarrow> iam_db" where
  "put_user u db = db\<lparr>db_users := map (\<lambda>x. if us_uuid x = us_uuid u then u else x) (db_users db)\<rparr>"

definition put_token :: "token \<Rightarrow> iam_db \<Rightarrow> iam_db" where
  "put_token t db = db\<lparr>db_tokens := map (\<lambda>x. if tk_uuid x = tk_uuid t then t else x) (db_tokens db)\<rparr>"

definition add_token :: "token \<Rightarrow> iam_db \<Rightarrow> iam_db" where
  "add_token t db = db\<lparr>db_tokens := db_tokens db @ [t]\<rparr>"

definition add_role_binding :: "role_binding \<Rightarrow> iam_db \<Rightarrow> iam_db" where
  "add_role_binding b db = db\<lparr>db_role_bindings := db_role_bindings db @ [b]\<rparr>"

lemma get_one_Inr: "get_one p xs = Inr x \<Longrightarrow> x \<in> set xs \<and> p x"
  by (auto simp: get_one_def find_Some_iff split: option.splits)

lemma get_single_Inr: "get_single p xs = Inr x \<Longrightarrow> x \<in> set xs \<and> p x"
proof -
  assume "get_single p xs = Inr x"
  then have "filter p xs = [x]" by (auto simp: get_single_def split: list.splits)
  then have "x \<in> set (filter p xs)" by simp
  then show ?thesis by simp
qed

lemma get_one_or_none_Inr: "get_one_or_none p xs = Inr (Some x) \<Longrightarrow> x \<in> set xs \<and> p x"
proof -
  assume "get_one_or_none p xs = Inr (Some x)"
  then have "filter p xs = [x]" by (auto simp: get_one_or_none_def split: list.splits)
  then have "x \<in> set (filter p xs)" by simp
  then show ?thesis by simp
qed

section \<open>Permissions\<close>

text \<open>
  \<open>iam_permissions_fast_view\<close> of \<open>migrations/0000-squashed-current-7f2e4a.py\<close>: every permission,
  with the users its bindings give it to; a row without binding has no user.
\<close>

record fast_row =
  fr_permission :: permission
  fr_user :: "uuid option"
  fr_role :: "uuid option"
  fr_project :: "uuid option"

definition left_join :: "'a list \<Rightarrow> 'a option list" where
  "left_join xs = (if xs = [] then [None] else map Some xs)"

definition role_rows :: "iam_db \<Rightarrow> uuid option \<Rightarrow> role_binding option list" where
  "role_rows db r = left_join (case r of None \<Rightarrow> [] | Some r \<Rightarrow> filter (\<lambda>rb. rb_role rb = r) (db_role_bindings db))"

definition fast_row_of :: "iam_db \<Rightarrow> permission \<Rightarrow> role_binding option \<Rightarrow> fast_row" where
  "fast_row_of db p rb = \<lparr>fr_permission = p,
     fr_user = (case rb of None \<Rightarrow> None | Some b \<Rightarrow> if rb_user b \<in> us_uuid ` set (db_users db) then Some (rb_user b) else None),
     fr_role = map_option rb_role rb, fr_project = (case rb of None \<Rightarrow> None | Some b \<Rightarrow> rb_project b)\<rparr>"

definition fast_view :: "iam_db \<Rightarrow> fast_row list" where
  "fast_view db = concat (map (\<lambda>p. concat (map (\<lambda>pb. map (fast_row_of db p)
       (role_rows db (map_option pb_role pb)))
       (left_join (filter (\<lambda>pb. pb_permission pb = pe_uuid p) (db_permission_bindings db)))))
     (db_permissions db))"

definition granted_permissions :: "iam_db \<Rightarrow> uuid \<Rightarrow> uuid option \<Rightarrow> permission list" where
  "granted_permissions db u project =
     map fr_permission (filter (\<lambda>r. fr_user r = Some u \<and> fr_project r = project) (fast_view db))"

definition has_permission :: "iam_db \<Rightarrow> token \<Rightarrow> string \<Rightarrow> bool" where
  "has_permission db t name = (case find (\<lambda>p. pe_name p = name) (db_permissions db) of
     None \<Rightarrow> False
   | Some p \<Rightarrow> list_ex (\<lambda>r. fr_user r = Some (tk_user t) \<and> fr_project r = tk_project t \<and>
       pe_uuid (fr_permission r) = pe_uuid p) (fast_view db))"

text \<open>The meaning of the bindings: a role of the user in the project that is bound to the permission.\<close>

definition holds :: "iam_db \<Rightarrow> uuid \<Rightarrow> uuid option \<Rightarrow> permission \<Rightarrow> bool" where
  "holds db u project p \<longleftrightarrow> p \<in> set (db_permissions db) \<and> u \<in> us_uuid ` set (db_users db) \<and>
     (\<exists>pb \<in> set (db_permission_bindings db). \<exists>rb \<in> set (db_role_bindings db).
       pb_permission pb = pe_uuid p \<and> rb_role rb = pb_role pb \<and> rb_user rb = u \<and> rb_project rb = project)"

lemma set_left_join: "Some x \<in> set (left_join xs) \<longleftrightarrow> x \<in> set xs"
  by (auto simp: left_join_def)

lemma set_fast_view: "r \<in> set (fast_view db) \<longleftrightarrow> (\<exists>p \<in> set (db_permissions db).
    \<exists>pb \<in> set (left_join (filter (\<lambda>pb. pb_permission pb = pe_uuid p) (db_permission_bindings db))).
    \<exists>rb \<in> set (role_rows db (map_option pb_role pb)). r = fast_row_of db p rb)"
  unfolding fast_view_def set_concat set_map UN_iff image_image by (simp only: bex_simps image_iff)

lemma fast_view_user:
  "(\<exists>r \<in> set (fast_view db). fr_permission r = p \<and> fr_user r = Some u \<and> fr_project r = project) \<longleftrightarrow> holds db u project p"
proof
  assume "\<exists>r \<in> set (fast_view db). fr_permission r = p \<and> fr_user r = Some u \<and> fr_project r = project"
  then obtain r where r: "r \<in> set (fast_view db)" "fr_permission r = p" "fr_user r = Some u" "fr_project r = project" by blast
  from r(1) obtain q pb rb where q: "q \<in> set (db_permissions db)"
    "pb \<in> set (left_join (filter (\<lambda>pb. pb_permission pb = pe_uuid q) (db_permission_bindings db)))"
    "rb \<in> set (role_rows db (map_option pb_role pb))" "r = fast_row_of db q rb" by (auto simp: set_fast_view)
  with r obtain b where b': "rb = Some b" "rb_user b = u" "u \<in> us_uuid ` set (db_users db)" "rb_project b = project" "q = p"
    by (cases rb) (auto simp: fast_row_of_def split: if_splits)
  with q have p: "p \<in> set (db_permissions db)"
    and pb: "pb \<in> set (left_join (filter (\<lambda>pb. pb_permission pb = pe_uuid p) (db_permission_bindings db)))"
    and b: "Some b \<in> set (role_rows db (map_option pb_role pb))" and u: "rb_user b = u" "u \<in> us_uuid ` set (db_users db)" "rb_project b = project"
    by auto
  from b obtain c where c: "pb = Some c" "b \<in> set (db_role_bindings db)" "rb_role b = pb_role c"
    by (cases pb) (auto simp: role_rows_def set_left_join)
  with pb have "c \<in> set (db_permission_bindings db)" "pb_permission c = pe_uuid p" by (auto simp: set_left_join)
  with p u c show "holds db u project p" by (auto simp: holds_def)
next
  assume "holds db u project p"
  then obtain c b where h: "p \<in> set (db_permissions db)" "u \<in> us_uuid ` set (db_users db)"
    "c \<in> set (db_permission_bindings db)" "b \<in> set (db_role_bindings db)" "pb_permission c = pe_uuid p"
    "rb_role b = pb_role c" "rb_user b = u" "rb_project b = project"
    by (auto simp: holds_def)
  have "Some c \<in> set (left_join (filter (\<lambda>pb. pb_permission pb = pe_uuid p) (db_permission_bindings db)))"
    using h by (simp add: set_left_join)
  moreover have "Some b \<in> set (role_rows db (map_option pb_role (Some c)))" using h by (simp add: role_rows_def set_left_join)
  ultimately have r: "fast_row_of db p (Some b) \<in> set (fast_view db)" using h(1) unfolding set_fast_view by blast
  have "fr_permission (fast_row_of db p (Some b)) = p \<and> fr_user (fast_row_of db p (Some b)) = Some u
      \<and> fr_project (fast_row_of db p (Some b)) = project" using h by (simp add: fast_row_of_def)
  with r show "\<exists>r \<in> set (fast_view db). fr_permission r = p \<and> fr_user r = Some u \<and> fr_project r = project" by blast
qed

lemma granted_permissions_holds: "p \<in> set (granted_permissions db u project) \<longleftrightarrow> holds db u project p"
  using fast_view_user [of db p u project] by (auto simp: granted_permissions_def image_iff)

end
