(* ===== verification/Iam_Auth.thy ===== *)
theory Iam_Auth
  imports Iam_Model
begin

text \<open>
  Users and their secrets (\<open>ModelWithSecret\<close>, the user sources, \<open>User\<close> of
  \<open>user_api/iam/dm/models.py\<close>), the user actions of \<open>user_api/iam/api/controllers.py\<close> and the
  cleaning of confirmation codes (\<open>janitor/service.py\<close>).  An operation of a user returns the user
  it writes back, or the exception it raises, with which the request's transaction is rolled back.
\<close>

section \<open>Secrets\<close>

definition sec :: int where
  "sec = 1000000"

definition confirmation_code_ttl :: int where
  "confirmation_code_ttl = 3600 * sec"

text \<open>\<open>ModelWithSecret.check_secret\<close>, for the salt and the hash of a user or of a client.\<close>

definition check_secret :: "iam_env \<Rightarrow> string \<Rightarrow> string \<Rightarrow> string \<Rightarrow> bool" where
  "check_secret env salt stored secret \<longleftrightarrow> stored = ie_hash env secret salt"

definition user_secret :: "iam_env \<Rightarrow> user \<Rightarrow> string \<Rightarrow> bool" where
  "user_secret env u secret = check_secret env (us_salt u) (us_secret_hash u) secret"

definition validate_secret :: "iam_env \<Rightarrow> user \<Rightarrow> string \<Rightarrow> iam_error + unit" where
  "validate_secret env u secret = (if user_secret env u secret then Inr () else Inl CredentialsAreInvalid)"

definition set_secret :: "iam_env \<Rightarrow> string \<Rightarrow> user \<Rightarrow> iam_error + user" where
  "set_secret env v u =
     (if us_type u = user_type_service then Inl ServiceAccountPasswordChange
      else Inr (u\<lparr>us_salt := ie_salt env, us_secret_hash := ie_hash env v (ie_salt env)\<rparr>))"

definition change_secret_safe :: "iam_env \<Rightarrow> string \<Rightarrow> string \<Rightarrow> user \<Rightarrow> iam_error + user" where
  "change_secret_safe env old new u = ebind (validate_secret env u old) (\<lambda>_. set_secret env new u)"

text \<open>\<open>KeycloakClient.check_password\<close>: the server answers the form with status 200.\<close>

definition check_password :: "iam_env \<Rightarrow> keycloak \<Rightarrow> string \<Rightarrow> string \<Rightarrow> iam_error + bool" where
  "check_password env k login pw = (case ie_post env (kc_endpoint k) (kc_realm k)
       [(''grant_type'', ''password''), (''client_id'', kc_client_id k), (''client_secret'', kc_client_secret k),
        (''username'', login), (''password'', pw)] of
     None \<Rightarrow> Inl KeycloakUnavailable | Some status \<Rightarrow> Inr (status = 200))"

definition keycloak_process_secret :: "iam_env \<Rightarrow> keycloak \<Rightarrow> string \<Rightarrow> user \<Rightarrow> iam_error + user" where
  "keycloak_process_secret env k secret u =
     (if user_secret env u secret then Inr u
      else ebind (check_password env k (us_email u) secret)
        (\<lambda>ok. if \<not> ok then Inl CredentialsAreInvalid else set_secret env secret u))"

definition process_secret :: "iam_env \<Rightarrow> string \<Rightarrow> user \<Rightarrow> iam_error + user" where
  "process_secret env secret u = (case us_source u of
     IamSource \<Rightarrow> if user_secret env u secret then Inr u else Inl CredentialsAreInvalid
   | KeycloakSource k \<Rightarrow> keycloak_process_secret env k secret u)"

section \<open>One-time codes\<close>

definition validate_otp :: "iam_env \<Rightarrow> string option \<Rightarrow> user \<Rightarrow> iam_error + bool" where
  "validate_otp env code u =
     (if \<not> us_otp_enabled u then Inl OTPNotEnabled
      else case code of None \<Rightarrow> Inr False
        | Some c \<Rightarrow> if c = '''' then Inr False else Inr (ie_totp env (us_otp_secret u) c))"

definition enable_otp :: "iam_env \<Rightarrow> string \<Rightarrow> user \<Rightarrow> iam_error + user" where
  "enable_otp env pw u =
     (if us_otp_enabled u then Inl OTPAlreadyEnabled
      else ebind (process_secret env pw u) (\<lambda>u. Inr (u\<lparr>us_otp_secret := ie_otp_secret env\<rparr>)))"

definition activate_otp :: "iam_env \<Rightarrow> string \<Rightarrow> user \<Rightarrow> iam_error + user" where
  "activate_otp env code u =
     (if us_otp_enabled u then Inl OTPAlreadyEnabled
      else if us_otp_secret u = '''' then Inl OTPNotEnabled
      else if \<not> ie_totp env (us_otp_secret u) code then Inl OTPInvalidCode
      else Inr (u\<lparr>us_otp_enabled := True\<rparr>))"

definition disable_otp :: "iam_env \<Rightarrow> string \<Rightarrow> user \<Rightarrow> iam_error + user" where
  "disable_otp env pw u =
     ebind (process_secret env pw u) (\<lambda>u. Inr (u\<lparr>us_otp_secret := '''', us_otp_enabled := False\<rparr>))"

section \<open>Authentication\<close>

text \<open>The password is missing (\<open>None\<close>) when the request has none: hashing it raises AttributeError.\<close>

definition authenticate_user ::
  "iam_env \<Rightarrow> user list \<Rightarrow> string option \<Rightarrow> string option \<Rightarrow> iam_error + user option" where
  "authenticate_user env users pw otp = (case users of
     [] \<Rightarrow> Inr None
   | u # _ \<Rightarrow>
       if us_type u = user_type_service then Inl ServiceAccountPasswordAuth
       else case pw of None \<Rightarrow> Inl BadAttribute
         | Some secret \<Rightarrow> ebind (process_secret env secret u) (\<lambda>u.
             if us_otp_enabled u
             then ebind (validate_otp env otp u) (\<lambda>ok. if \<not> ok then Inl OTPInvalidCode else Inr (Some u))
             else Inr (Some u)))"

definition authenticate_user_with_password ::
  "iam_env \<Rightarrow> user list \<Rightarrow> string option \<Rightarrow> string option \<Rightarrow> iam_error + user" where
  "authenticate_user_with_password env users pw otp =
     ebind (authenticate_user env users pw otp)
       (\<lambda>r. case r of None \<Rightarrow> Inl CredentialsAreInvalid | Some u \<Rightarrow> Inr u)"

definition users_by_name :: "string \<Rightarrow> iam_db \<Rightarrow> user list" where
  "users_by_name username db = take 1 (filter (\<lambda>u. lower (us_name u) = lower username) (db_users db))"

text \<open>The Email type of the model lowers what it compares with.\<close>

definition users_by_email :: "string \<Rightarrow> iam_db \<Rightarrow> user list" where
  "users_by_email email db = filter (\<lambda>u. us_email u = lower email) (db_users db)"

definition users_by_login :: "string \<Rightarrow> iam_db \<Rightarrow> user list" where
  "users_by_login login db = (if CHR 0x40 \<in> set login then users_by_email login db else users_by_name login db)"

text \<open>What an accepted password proves about the stored user.\<close>

definition password_proved :: "iam_env \<Rightarrow> user \<Rightarrow> string \<Rightarrow> bool" where
  "password_proved env u secret \<longleftrightarrow> user_secret env u secret \<or>
     (\<exists>k. us_source u = KeycloakSource k \<and> check_password env k (us_email u) secret = Inr True)"

definition otp_proved :: "iam_env \<Rightarrow> user \<Rightarrow> string option \<Rightarrow> bool" where
  "otp_proved env u otp \<longleftrightarrow> (us_otp_enabled u \<longrightarrow> (\<exists>c. otp = Some c \<and> c \<noteq> '''' \<and> ie_totp env (us_otp_secret u) c))"

lemma set_secret_Inr: "set_secret env v u = Inr u' \<longleftrightarrow> us_type u \<noteq> user_type_service \<and>
    u' = u\<lparr>us_salt := ie_salt env, us_secret_hash := ie_hash env v (ie_salt env)\<rparr>"
  by (auto simp: set_secret_def)

lemma same_secret: "\<exists>salt h. u = u\<lparr>us_salt := salt, us_secret_hash := h\<rparr>"
  by (rule exI [of _ "us_salt u"], rule exI [of _ "us_secret_hash u"]) simp

lemma process_secret_Inr:
  assumes "process_secret env s u = Inr u'"
  shows "password_proved env u s \<and> user_secret env u' s \<and>
    (\<exists>salt h. u' = u\<lparr>us_salt := salt, us_secret_hash := h\<rparr>)"
proof (cases "us_source u")
  case IamSource
  with assms have "user_secret env u s" "u' = u" by (auto simp: process_secret_def split: if_splits)
  then show ?thesis using same_secret by (simp add: password_proved_def)
next
  case (KeycloakSource k)
  show ?thesis
  proof (cases "user_secret env u s")
    case True
    with assms KeycloakSource have "u' = u" by (simp add: process_secret_def keycloak_process_secret_def)
    with True show ?thesis using same_secret by (simp add: password_proved_def)
  next
    case False
    with assms KeycloakSource have "check_password env k (us_email u) s = Inr True" "set_secret env s u = Inr u'"
      by (auto simp: process_secret_def keycloak_process_secret_def ebind_Inr_iff split: if_splits)
    with KeycloakSource show ?thesis by (auto simp: password_proved_def set_secret_Inr user_secret_def check_secret_def)
  qed
qed

lemma process_secret_keeps:
  assumes "process_secret env s u = Inr u'"
  shows "us_uuid u' = us_uuid u" "us_type u' = us_type u" "us_otp_enabled u' = us_otp_enabled u" "us_otp_secret u' = us_otp_secret u"
    "us_name u' = us_name u" "us_email u' = us_email u"
  using process_secret_Inr [OF assms] by auto

lemma process_secret_total:
  assumes "user_secret env u s" shows "process_secret env s u = Inr u"
  using assms by (simp add: process_secret_def keycloak_process_secret_def split: user_source.splits)

lemma validate_otp_True: "validate_otp env otp u = Inr True \<longleftrightarrow>
    us_otp_enabled u \<and> (\<exists>c. otp = Some c \<and> c \<noteq> '''' \<and> ie_totp env (us_otp_secret u) c)"
  by (auto simp: validate_otp_def split: option.splits)

lemma otp_proved_cong: "us_otp_enabled u' = us_otp_enabled u \<Longrightarrow> us_otp_secret u' = us_otp_secret u \<Longrightarrow>
    otp_proved env u' otp = otp_proved env u otp"
  by (simp add: otp_proved_def)

lemma authenticate_Inr:
  assumes "authenticate_user_with_password env users pw otp = Inr u'"
  obtains u rest s where "users = u # rest" "us_type u \<noteq> user_type_service" "pw = Some s" "process_secret env s u = Inr u'"
    "password_proved env u s" "otp_proved env u otp" "us_uuid u' = us_uuid u"
proof -
  from assms have a: "authenticate_user env users pw otp = Inr (Some u')"
    by (auto simp: authenticate_user_with_password_def ebind_Inr_iff split: option.splits)
  then obtain u rest where us: "users = u # rest" by (cases users) (auto simp: authenticate_user_def)
  with a obtain s where s: "us_type u \<noteq> user_type_service" "pw = Some s"
    by (cases pw) (auto simp: authenticate_user_def split: if_splits)
  with a us obtain v where v: "process_secret env s u = Inr v" "v = u'" "otp_proved env v otp"
    by (auto simp: authenticate_user_def ebind_Inr_iff otp_proved_def validate_otp_True split: if_splits)
  then have "otp_proved env u otp" using otp_proved_cong process_secret_keeps by metis
  with us s v process_secret_Inr [OF v(1)] process_secret_keeps [OF v(1)] show ?thesis by (intro that) auto
qed

section \<open>Confirmation codes\<close>

definition create_confirmation_code :: "iam_env \<Rightarrow> user \<Rightarrow> user" where
  "create_confirmation_code env u = u\<lparr>us_code := Some (case us_code u of Some c \<Rightarrow> c | None \<Rightarrow> ie_uuid env ''code''),
     us_code_made_at := Some (ie_now env)\<rparr>"

definition check_confirmation_code :: "iam_env \<Rightarrow> string \<Rightarrow> user \<Rightarrow> bool" where
  "check_confirmation_code env code u = (case (us_code u, us_code_made_at u) of
     (Some c, Some made_at) \<Rightarrow> code \<noteq> '''' \<and> \<not> ie_now env - made_at > confirmation_code_ttl \<and> c = code
   | _ \<Rightarrow> False)"

definition clear_confirmation_code :: "user \<Rightarrow> user" where
  "clear_confirmation_code u = u\<lparr>us_code := None, us_code_made_at := None\<rparr>"

definition reset_secret :: "iam_env \<Rightarrow> string \<Rightarrow> user \<Rightarrow> iam_error + user" where
  "reset_secret env new u = ebind (set_secret env new u) (\<lambda>u. Inr (clear_confirmation_code u))"

definition reset_secret_by_code :: "iam_env \<Rightarrow> string \<Rightarrow> string \<Rightarrow> user \<Rightarrow> iam_error + user" where
  "reset_secret_by_code env new code u =
     (if check_confirmation_code env code u then reset_secret env new u else Inl CanNotConfirmUser)"

definition make_newcomer :: "iam_env \<Rightarrow> user \<Rightarrow> iam_db \<Rightarrow> iam_error + iam_db" where
  "make_newcomer env u db = ebind (get_one (\<lambda>r. ro_uuid r = newcomer_role_uuid) (db_roles db)) (\<lambda>r.
     Inr (add_role_binding \<lparr>rb_uuid = ie_uuid env ''newcomer'', rb_user = us_uuid u, rb_role = ro_uuid r,
       rb_project = None, rb_created_at = ie_now env\<rparr> db))"

definition confirm_email :: "iam_env \<Rightarrow> user \<Rightarrow> iam_db \<Rightarrow> iam_error + iam_db" where
  "confirm_email env u db =
     make_newcomer env u (put_user (clear_confirmation_code (u\<lparr>us_email_verified := True\<rparr>)) db)"

definition confirm_email_by_code :: "iam_env \<Rightarrow> string \<Rightarrow> user \<Rightarrow> iam_db \<Rightarrow> iam_error + iam_db" where
  "confirm_email_by_code env code u db =
     (if check_confirmation_code env code u then confirm_email env u db else Inl CanNotConfirmUser)"

text \<open>The janitor: at most \<open>limit\<close> users with an expired code, or a code without its time.\<close>

definition code_is_bad :: "iam_env \<Rightarrow> user \<Rightarrow> bool" where
  "code_is_bad env u = (case us_code_made_at u of
     Some t \<Rightarrow> t < ie_now env - confirmation_code_ttl | None \<Rightarrow> us_code u \<noteq> None)"

definition by_code_time :: "user list \<Rightarrow> user list" where
  "by_code_time us = sort_key (\<lambda>u. case us_code_made_at u of Some t \<Rightarrow> t | None \<Rightarrow> 0) (filter (\<lambda>u. us_code_made_at u \<noteq> None) us)
     @ filter (\<lambda>u. us_code_made_at u = None) us"

definition clean_bad_confirmation_codes :: "iam_env \<Rightarrow> nat \<Rightarrow> iam_db \<Rightarrow> iam_db" where
  "clean_bad_confirmation_codes env limit db =
     fold (\<lambda>u db. put_user (clear_confirmation_code u) db) (take limit (by_code_time (filter (code_is_bad env) (db_users db)))) db"

section \<open>Workspaces\<close>

definition org_default :: "iam_db \<Rightarrow> uuid \<Rightarrow> uuid option" where
  "org_default db u = (case sort_key om_created_at (filter (\<lambda>m. om_role m = org_owner \<and> om_user m = u) (db_members db)) of
     [] \<Rightarrow> None | m # _ \<Rightarrow> Some (om_organization m))"

definition add_owner :: "iam_env \<Rightarrow> uuid \<Rightarrow> uuid \<Rightarrow> iam_db \<Rightarrow> iam_error + iam_db" where
  "add_owner env project u db = ebind (get_one (\<lambda>r. ro_uuid r = owner_role_uuid) (db_roles db)) (\<lambda>r.
     Inr (add_role_binding \<lparr>rb_uuid = ie_uuid env ''owner'', rb_user = u, rb_role = ro_uuid r,
       rb_project = Some project, rb_created_at = ie_now env\<rparr> db))"

definition provision_personal_workspace :: "iam_env \<Rightarrow> user \<Rightarrow> iam_db \<Rightarrow> iam_error + iam_db" where
  "provision_personal_workspace env u db = (let org = ie_uuid env ''organization''; project = ie_uuid env ''project'' in
     add_owner env project (us_uuid u) (db
       \<lparr>db_organizations := db_organizations db @ [\<lparr>og_uuid = org, og_name = us_name u\<rparr>],
        db_members := db_members db @ [\<lparr>om_uuid = ie_uuid env ''member'', om_organization = org,
          om_user = us_uuid u, om_role = org_owner, om_created_at = ie_now env\<rparr>],
        db_projects := db_projects db @ [\<lparr>pj_uuid = project, pj_name = us_name u @ [CHR 0x27] @ ''s project'', pj_organization = org\<rparr>]\<rparr>))"

definition auto_provision_enabled :: "iam_db \<Rightarrow> user \<Rightarrow> bool" where
  "auto_provision_enabled db u = (case us_registration_client u of None \<Rightarrow> False
     | Some c \<Rightarrow> (case find (\<lambda>x. ic_uuid x = c) (db_clients db) of None \<Rightarrow> False | Some x \<Rightarrow> ic_auto_provision x))"

definition maybe_provision_workspace :: "iam_env \<Rightarrow> user \<Rightarrow> iam_db \<Rightarrow> iam_error + iam_db" where
  "maybe_provision_workspace env u db =
     (if \<not> auto_provision_enabled db u then Inr db
      else ebind (get_one (\<lambda>x. us_uuid x = us_uuid u) (db_users db)) (\<lambda>locked.
        if org_default db (us_uuid locked) \<noteq> None then Inr db else provision_personal_workspace env locked db))"

section \<open>The user controller\<close>

text \<open>
  Who calls: the user and the token of the request, the project it is bound to, the permissions a
  \<open>GrantPermissionAction\<close> gave it and the answer of the policy enforcer (\<open>gcl_iam\<close>) for a rule.
\<close>

record caller =
  cl_me :: user
  cl_token :: uuid
  cl_project :: "uuid option"
  cl_granted :: "string \<Rightarrow> bool"
  cl_enforcer :: "string \<Rightarrow> bool"

definition enforce :: "caller \<Rightarrow> string \<Rightarrow> bool" where
  "enforce c rule \<longleftrightarrow> cl_granted c rule \<or> cl_enforcer c rule"

definition token_my :: "caller \<Rightarrow> iam_db \<Rightarrow> iam_error + token" where
  "token_my c db = (case find (\<lambda>t. tk_uuid t = cl_token c) (db_tokens db) of
     None \<Rightarrow> Inl InvalidAuthToken | Some t \<Rightarrow> Inr t)"

definition is_me :: "caller \<Rightarrow> user \<Rightarrow> bool" where
  "is_me c u \<longleftrightarrow> us_uuid (cl_me c) = us_uuid u"

definition whitespace :: string where
  "whitespace = map char_of [32 :: nat, 9, 10, 13, 11, 12]"

definition validate_password :: "string option \<Rightarrow> iam_error + string" where
  "validate_password v = (case v of
     None \<Rightarrow> Inl (Validation ''Value is required'')
   | Some s \<Rightarrow> if length s < 8 then Inl (Validation ''Value must be at least 8 characters long'')
       else if set whitespace \<inter> set s \<noteq> {} then Inl (Validation ''Value must not contain whitespace'')
       else Inr s)"

definition on_user :: "(user \<Rightarrow> iam_error + user) \<Rightarrow> user \<Rightarrow> iam_db \<Rightarrow> iam_error + iam_db" where
  "on_user f u db = ebind (f u) (\<lambda>u. Inr (put_user u db))"

definition own_action :: "caller \<Rightarrow> (user \<Rightarrow> iam_error + user) \<Rightarrow> user \<Rightarrow> iam_db \<Rightarrow> iam_error + iam_db" where
  "own_action c f u db =
     (if is_me c u \<or> enforce c ''iam.user.write_all'' then on_user f u db else Inl CanNotUpdateUser)"

definition user_change_password ::
  "caller \<Rightarrow> iam_env \<Rightarrow> string \<Rightarrow> string option \<Rightarrow> user \<Rightarrow> iam_db \<Rightarrow> iam_error + iam_db" where
  "user_change_password c env old new u db =
     ebind (validate_password new) (\<lambda>new. own_action c (change_secret_safe env old new) u db)"

definition user_enable_otp :: "caller \<Rightarrow> iam_env \<Rightarrow> string \<Rightarrow> user \<Rightarrow> iam_db \<Rightarrow> iam_error + iam_db" where
  "user_enable_otp c env pw u db = own_action c (enable_otp env pw) u db"

definition user_activate_otp :: "caller \<Rightarrow> iam_env \<Rightarrow> string \<Rightarrow> user \<Rightarrow> iam_db \<Rightarrow> iam_error + iam_db" where
  "user_activate_otp c env code u db = own_action c (activate_otp env code) u db"

definition user_disable_otp :: "caller \<Rightarrow> iam_env \<Rightarrow> string \<Rightarrow> user \<Rightarrow> iam_db \<Rightarrow> iam_error + iam_db" where
  "user_disable_otp c env pw u db = own_action c (disable_otp env pw) u db"

definition user_resend_email_confirmation :: "iam_env \<Rightarrow> user \<Rightarrow> iam_db \<Rightarrow> iam_error + iam_db" where
  "user_resend_email_confirmation env u db = Inr (put_user (create_confirmation_code env u) db)"

definition user_force_confirm_email :: "caller \<Rightarrow> iam_env \<Rightarrow> user \<Rightarrow> iam_db \<Rightarrow> iam_error + iam_db" where
  "user_force_confirm_email c env u db =
     (if \<not> enforce c ''iam.user.write_all'' then Inl CanNotUpdateUser
      else ebind (confirm_email env u db) (maybe_provision_workspace env u))"

definition user_confirm_email :: "iam_env \<Rightarrow> string \<Rightarrow> user \<Rightarrow> iam_db \<Rightarrow> iam_error + iam_db" where
  "user_confirm_email env code u db =
     ebind (confirm_email_by_code env code u db) (maybe_provision_workspace env u)"

definition user_reset_password ::
  "caller \<Rightarrow> iam_env \<Rightarrow> string option \<Rightarrow> string \<Rightarrow> user \<Rightarrow> iam_db \<Rightarrow> iam_error + iam_db" where
  "user_reset_password c env new code u db =
     (if code = '''' \<and> \<not> enforce c ''iam.user.reset_password'' then Inl CanNotResetUserPassword
      else ebind (validate_password new) (\<lambda>new.
        on_user (\<lambda>u. if code \<noteq> '''' then reset_secret_by_code env new code u else reset_secret env new u) u db))"

definition get_request_iam_client :: "caller \<Rightarrow> iam_db \<Rightarrow> uuid option" where
  "get_request_iam_client c db = (case token_my c db of
     Inr t \<Rightarrow> Some (tk_client t)
   | Inl _ \<Rightarrow> map_option ic_uuid (find (\<lambda>x. ic_uuid x = default_client_uuid) (db_clients db)))"

text \<open>\<open>ModelWithSecret.__init__\<close> and the unique indexes of names and addresses in lower case.\<close>

definition new_user :: "iam_env \<Rightarrow> uuid \<Rightarrow> string \<Rightarrow> string \<Rightarrow> string \<Rightarrow> user_source \<Rightarrow> string \<Rightarrow> uuid option \<Rightarrow> user" where
  "new_user env u name email typ source secret client =
     \<lparr>us_uuid = u, us_name = name, us_email = lower email, us_type = typ, us_salt = ie_salt env,
      us_secret_hash = ie_hash env (if typ = user_type_service then '''' else secret) (ie_salt env),
      us_source = source, us_email_verified = False, us_registration_client = client, us_code = None,
      us_code_made_at = None, us_otp_secret = '''', us_otp_enabled = False\<rparr>"

definition insert_user :: "user \<Rightarrow> iam_db \<Rightarrow> iam_error + iam_db" where
  "insert_user u db =
     (if list_ex (\<lambda>x. us_uuid x = us_uuid u \<or> lower (us_name x) = lower (us_name u) \<or> lower (us_email x) = lower (us_email u))
           (db_users db)
      then Inl BadValue else Inr (db\<lparr>db_users := db_users db @ [u]\<rparr>))"

definition user_create :: "caller \<Rightarrow> iam_env \<Rightarrow> string \<Rightarrow> string \<Rightarrow> string \<Rightarrow> user_source \<Rightarrow> string option \<Rightarrow> iam_db \<Rightarrow> iam_error + iam_db" where
  "user_create c env name email typ source secret db =
     (if \<not> enforce c ''iam.user.create'' then Inl CanNotCreateUser
      else case secret of None \<Rightarrow> Inl BadAttribute
        | Some s \<Rightarrow> ebind (validate_password (Some s)) (\<lambda>s.
            let u = new_user env (ie_uuid env ''user'') name email typ source s (get_request_iam_client c db)
            in ebind (insert_user u db) (\<lambda>db. Inr (put_user (create_confirmation_code env u) db))))"

text \<open>
  Tokens of the user go with it (\<open>ON DELETE CASCADE\<close>), but an authorization that still refers to one
  of them holds the row: the database refuses the deletion.
\<close>

definition delete_user :: "uuid \<Rightarrow> iam_db \<Rightarrow> iam_error + iam_db" where
  "delete_user u db =
     (if list_ex (\<lambda>t. tk_user t = u \<and> list_ex (\<lambda>a. au_token a = Some (tk_uuid t)) (db_auth_infos db)) (db_tokens db)
      then Inl BadValue
      else Inr (db\<lparr>db_members := filter (\<lambda>m. om_user m \<noteq> u) (db_members db),
        db_role_bindings := filter (\<lambda>b. rb_user b \<noteq> u) (db_role_bindings db),
        db_tokens := filter (\<lambda>t. tk_user t \<noteq> u) (db_tokens db),
        db_users := filter (\<lambda>x. us_uuid x \<noteq> u) (db_users db)\<rparr>))"

definition user_delete :: "caller \<Rightarrow> uuid \<Rightarrow> iam_db \<Rightarrow> iam_error + iam_db" where
  "user_delete c u db =
     (if enforce c ''iam.user.delete_all'' \<or> (us_uuid (cl_me c) = u \<and> enforce c ''iam.user.delete'')
      then if list_ex (\<lambda>x. us_uuid x = u) (db_users db) then delete_user u db else Inl NotFound
      else Inl CanNotDeleteUser)"

section \<open>Facts\<close>

lemma check_code_cleared [simp]: "\<not> check_confirmation_code env code (clear_confirmation_code u)"
  by (simp add: check_confirmation_code_def clear_confirmation_code_def)

lemma reset_by_code_Inr:
  "reset_secret_by_code env new code u = Inr u' \<longleftrightarrow> check_confirmation_code env code u \<and> us_type u \<noteq> user_type_service \<and>
     u' = clear_confirmation_code (u\<lparr>us_salt := ie_salt env, us_secret_hash := ie_hash env new (ie_salt env)\<rparr>)"
  by (auto simp: reset_secret_by_code_def reset_secret_def ebind_Inr_iff set_secret_Inr)

text \<open>The code a user is left with after a sequence of rows was written back.\<close>

definition user_row :: "iam_db \<Rightarrow> uuid \<Rightarrow> user option" where
  "user_row db u = find (\<lambda>x. us_uuid x = u) (db_users db)"

definition users_unique :: "iam_db \<Rightarrow> bool" where
  "users_unique db \<longleftrightarrow> distinct (map us_uuid (db_users db))"

lemma user_row_put:
  "user_row (put_user v db) u = (case user_row db u of None \<Rightarrow> None | Some x \<Rightarrow> Some (if us_uuid v = u then v else x))"
proof -
  have "find (\<lambda>x. us_uuid x = u) (map (\<lambda>x. if us_uuid x = us_uuid v then v else x) xs) =
      (case find (\<lambda>x. us_uuid x = u) xs of None \<Rightarrow> None | Some x \<Rightarrow> Some (if us_uuid v = u then v else x))" for xs
    by (induction xs) auto
  then show ?thesis by (simp add: user_row_def put_user_def)
qed

lemma user_row_unique:
  assumes "users_unique db" and "x \<in> set (db_users db)" shows "user_row db (us_uuid x) = Some x"
proof -
  have "distinct (map us_uuid xs) \<Longrightarrow> x \<in> set xs \<Longrightarrow> find (\<lambda>y. us_uuid y = us_uuid x) xs = Some x" for xs
  proof (induction xs)
    case (Cons a xs)
    then show ?case by (cases "a = x") (auto simp: image_iff)
  qed simp
  then show ?thesis using assms by (simp add: user_row_def users_unique_def)
qed

lemma clean_rows:
  assumes "\<forall>x \<in> set xs. user_row db (us_uuid x) = Some x" and "distinct (map us_uuid xs)"
  shows "user_row (fold (\<lambda>u db. put_user (clear_confirmation_code u) db) xs db) u =
    (case user_row db u of None \<Rightarrow> None | Some x \<Rightarrow> Some (if x \<in> set xs then clear_confirmation_code x else x))"
  using assms
proof (induction xs arbitrary: db)
  case Nil
  then show ?case by (simp split: option.splits)
next
  case (Cons y xs)
  let ?db = "put_user (clear_confirmation_code y) db"
  have y: "us_uuid (clear_confirmation_code y) = us_uuid y" by (simp add: clear_confirmation_code_def)
  have "\<forall>x \<in> set xs. user_row ?db (us_uuid x) = Some x"
    using Cons.prems by (auto simp: user_row_put y image_iff split: option.splits)
  with Cons have "user_row (fold (\<lambda>u db. put_user (clear_confirmation_code u) db) xs ?db) u =
    (case user_row ?db u of None \<Rightarrow> None | Some x \<Rightarrow> Some (if x \<in> set xs then clear_confirmation_code x else x))" by simp
  note IH = this
  show ?case
  proof (cases "user_row db u")
    case (Some x)
    then have xu: "us_uuid x = u" by (auto simp: user_row_def find_Some_iff)
    show ?thesis
    proof (cases "us_uuid y = u")
      case True
      with Cons.prems(1) Some have "x = y" by simp
      moreover have "clear_confirmation_code (clear_confirmation_code y) = clear_confirmation_code y"
        by (simp add: clear_confirmation_code_def)
      ultimately show ?thesis using IH Some True y by (simp add: user_row_put)
    next
      case False
      with xu have "x \<noteq> y" by auto
      with IH Some False y show ?thesis by (simp add: user_row_put)
    qed
  qed (use IH y in \<open>simp add: user_row_put\<close>)
qed

lemma set_by_code_time: "set (by_code_time us) = set us"
  by (auto simp: by_code_time_def)

lemma distinct_by_code_time:
  assumes "distinct (map us_uuid us)" shows "distinct (map us_uuid (by_code_time us))"
proof -
  have "distinct us" using assms by (simp add: distinct_map)
  then have "distinct (by_code_time us)" by (auto simp: by_code_time_def distinct_sort)
  then show ?thesis using assms by (simp add: distinct_map set_by_code_time)
qed

lemma bad_code_checks: "code_is_bad env u \<Longrightarrow> ie_now env \<le> ie_now env' \<Longrightarrow> \<not> check_confirmation_code env' code u"
  by (auto simp: code_is_bad_def check_confirmation_code_def split: option.splits)

lemma clean_row:
  assumes "users_unique db"
  shows "user_row (clean_bad_confirmation_codes env limit db) u = (case user_row db u of None \<Rightarrow> None
    | Some x \<Rightarrow> Some (if x \<in> set (take limit (by_code_time (filter (code_is_bad env) (db_users db)))) then clear_confirmation_code x else x))"
  unfolding clean_bad_confirmation_codes_def
proof (rule clean_rows)
  have "set (take limit (by_code_time (filter (code_is_bad env) (db_users db)))) \<subseteq> set (db_users db)"
    by (auto simp: set_by_code_time dest: in_set_takeD)
  then show "\<forall>x \<in> set (take limit (by_code_time (filter (code_is_bad env) (db_users db)))). user_row db (us_uuid x) = Some x"
    using assms by (auto intro: user_row_unique)
  have "distinct (map us_uuid (filter (code_is_bad env) (db_users db)))"
    using assms by (simp add: users_unique_def distinct_map_filter)
  then show "distinct (map us_uuid (take limit (by_code_time (filter (code_is_bad env) (db_users db)))))"
    by (metis distinct_by_code_time distinct_take take_map)
qed

lemma get_one_user: "get_one (\<lambda>x. us_uuid x = u) (db_users db) = (case user_row db u of None \<Rightarrow> Inl NotFound | Some x \<Rightarrow> Inr x)"
  by (simp add: get_one_def user_row_def)

lemma add_owner_Inr: "add_owner env project u db = Inr db' \<longleftrightarrow> owner_role_uuid \<in> ro_uuid ` set (db_roles db) \<and>
    db' = add_role_binding \<lparr>rb_uuid = ie_uuid env ''owner'', rb_user = u, rb_role = owner_role_uuid,
       rb_project = Some project, rb_created_at = ie_now env\<rparr> db"
proof (cases "find (\<lambda>r. ro_uuid r = owner_role_uuid) (db_roles db)")
  case None
  then have "owner_role_uuid \<notin> ro_uuid ` set (db_roles db)" by (auto simp: find_None_iff)
  with None show ?thesis by (simp add: add_owner_def get_one_def)
next
  case (Some r)
  then have "ro_uuid r = owner_role_uuid" "r \<in> set (db_roles db)" by (auto simp: find_Some_iff)
  then have "owner_role_uuid \<in> ro_uuid ` set (db_roles db)" by (metis imageI)
  with Some \<open>ro_uuid r = owner_role_uuid\<close> show ?thesis by (auto simp: add_owner_def get_one_def)
qed

lemma org_default_None: "org_default db u = None \<longleftrightarrow> (\<forall>m \<in> set (db_members db). \<not> (om_role m = org_owner \<and> om_user m = u))"
proof -
  have "org_default db u = None \<longleftrightarrow> set (sort_key om_created_at (filter (\<lambda>m. om_role m = org_owner \<and> om_user m = u) (db_members db))) = {}"
    by (auto simp: org_default_def simp del: set_sort split: list.splits)
  then show ?thesis by (auto simp: filter_empty_conv)
qed

section \<open>Properties\<close>


definition example_env :: iam_env where
  "example_env = \<lparr>ie_now = 10 * sec, ie_hash = (\<lambda>secret salt. secret @ salt), ie_totp = (\<lambda>secret code. code = secret),
     ie_post = (\<lambda>_ _ _. None), ie_db_uuid = Some, ie_uuid = (\<lambda>what. what), ie_salt = ''salt'', ie_otp_secret = ''otp''\<rparr>"

definition example_user :: user where
  "example_user = \<lparr>us_uuid = ''u1'', us_name = ''ann'', us_email = ''ann@x.org'', us_type = ''user'', us_salt = ''s'',
     us_secret_hash = ''secrets'', us_source = IamSource, us_email_verified = False, us_registration_client = Some ''c1'',
     us_code = Some ''k'', us_code_made_at = Some 0, us_otp_secret = '''', us_otp_enabled = False\<rparr>"


text \<open>The janitor removes only codes nobody could use any more: what a check of any code answers,
  at any later time and for any user, is the same as without the cleaning, and nothing else of a user changes.\<close>

theorem janitor_invisible:
  assumes "users_unique db" and "ie_now env \<le> ie_now env'"
  shows "map_option (check_confirmation_code env' code) (user_row (clean_bad_confirmation_codes env limit db) u) =
      map_option (check_confirmation_code env' code) (user_row db u) \<and>
    map_option clear_confirmation_code (user_row (clean_bad_confirmation_codes env limit db) u) =
      map_option clear_confirmation_code (user_row db u)"
proof -
  have "code_is_bad env x" if "x \<in> set (take limit (by_code_time (filter (code_is_bad env) (db_users db))))" for x
    using in_set_takeD [OF that] by (simp add: set_by_code_time)
  then have "\<not> check_confirmation_code env' code x"
    if "x \<in> set (take limit (by_code_time (filter (code_is_bad env) (db_users db))))" for x
    using that assms(2) bad_code_checks by blast
  moreover have "clear_confirmation_code (clear_confirmation_code x) = clear_confirmation_code x" for x
    by (simp add: clear_confirmation_code_def)
  ultimately show ?thesis using assms(1) by (auto simp: clean_row split: option.splits)
qed

definition example_db :: iam_db where
  "example_db = \<lparr>db_users = [example_user], db_roles = [\<lparr>ro_uuid = owner_role_uuid, ro_name = ''owner'', ro_project_id = None\<rparr>],
     db_permissions = [], db_permission_bindings = [], db_role_bindings = [], db_organizations = [], db_members = [],
     db_projects = [], db_clients = [\<lparr>ic_uuid = ''c1'', ic_client_id = ''core'', ic_salt = ''s'', ic_secret_hash = ''pws'',
       ic_auto_provision = True\<rparr>], db_tokens = [], db_idps = [], db_auth_infos = []\<rparr>"

theorem janitor_invisible_witness:
  "map_option (check_confirmation_code example_env ''k'')
     (user_row (clean_bad_confirmation_codes example_env 100 example_db) ''u1'') = Some True"
proof -
  have "users_unique example_db" by (simp add: users_unique_def example_db_def)
  from janitor_invisible [OF this order_refl] have "map_option (check_confirmation_code example_env ''k'')
      (user_row (clean_bad_confirmation_codes example_env 100 example_db) ''u1'') =
    map_option (check_confirmation_code example_env ''k'') (user_row example_db ''u1'')" by blast
  also have "\<dots> = Some True" by (simp add: user_row_def example_db_def example_user_def check_confirmation_code_def
      example_env_def confirmation_code_ttl_def sec_def)
  finally show ?thesis .
qed

text \<open>Confirming an address provisions a workspace once: a user of a client with automatic
  provisioning ends up with an organization of its own; when it had none, with a new organization and a
  project of it in which the user is owner; and provisioning again, whenever it happens, changes nothing.\<close>

theorem workspace_provisioned_once:
  assumes "maybe_provision_workspace env u db = Inr db'" and "auto_provision_enabled db u"
  shows "maybe_provision_workspace env' u db' = Inr db' \<and>
    (\<exists>org. org_default db' (us_uuid u) = Some org \<and>
      (if org_default db (us_uuid u) = None
       then org = ie_uuid env ''organization'' \<and>
         (\<exists>p \<in> set (db_projects db'). pj_organization p = org \<and>
           (\<exists>b \<in> set (db_role_bindings db'). rb_user b = us_uuid u \<and> rb_role b = owner_role_uuid \<and> rb_project b = Some (pj_uuid p)))
       else db' = db))"
proof -
  from assms obtain x where x: "user_row db (us_uuid u) = Some x"
    and s: "(if org_default db (us_uuid x) \<noteq> None then Inr db else provision_personal_workspace env x db) = Inr db'"
    by (auto simp: maybe_provision_workspace_def get_one_user ebind_Inr_iff split: option.splits if_splits)
  from x have xu: "us_uuid x = us_uuid u" by (auto simp: user_row_def find_Some_iff)
  show ?thesis
  proof (cases "org_default db (us_uuid u)")
    case (Some org)
    with s xu assms show ?thesis using x by (auto simp: maybe_provision_workspace_def get_one_user)
  next
    case None
    with s xu have p: "provision_personal_workspace env x db = Inr db'" by simp
    have old: "filter (\<lambda>m. om_role m = org_owner \<and> om_user m = us_uuid u) (db_members db) = []"
      using None by (auto simp: org_default_None filter_empty_conv)
    then have new: "org_default db' (us_uuid u) = Some (ie_uuid env ''organization'')"
      using p xu by (auto simp: provision_personal_workspace_def Let_def add_owner_Inr add_role_binding_def org_default_def)
    have "db_users db' = db_users db" "db_clients db' = db_clients db"
      using p by (auto simp: provision_personal_workspace_def Let_def add_owner_Inr add_role_binding_def)
    with x assms(2) have "user_row db' (us_uuid u) = Some x" "auto_provision_enabled db' u"
      by (simp_all add: user_row_def auto_provision_enabled_def cong: option.case_cong)
    with new xu have "maybe_provision_workspace env' u db' = Inr db'" by (simp add: maybe_provision_workspace_def get_one_user)
    moreover have "\<exists>q \<in> set (db_projects db'). pj_organization q = ie_uuid env ''organization'' \<and>
        (\<exists>b \<in> set (db_role_bindings db'). rb_user b = us_uuid u \<and> rb_role b = owner_role_uuid \<and> rb_project b = Some (pj_uuid q))"
      using p xu by (auto simp: provision_personal_workspace_def Let_def add_owner_Inr add_role_binding_def)
    ultimately show ?thesis using new None by simp
  qed
qed

theorem workspace_provisioned_once_witness:
  "\<exists>db'. maybe_provision_workspace example_env example_user example_db = Inr db' \<and>
     maybe_provision_workspace example_env example_user db' = Inr db'"
proof -
  have "is_ok (maybe_provision_workspace example_env example_user example_db)"
    by (simp add: maybe_provision_workspace_def auto_provision_enabled_def get_one_def example_user_def example_db_def
        org_default_def provision_personal_workspace_def add_owner_def Let_def)
  then obtain db' where db': "maybe_provision_workspace example_env example_user example_db = Inr db'" by (auto simp: is_ok_iff)
  moreover have "auto_provision_enabled example_db example_user"
    by (simp add: auto_provision_enabled_def example_db_def example_user_def)
  ultimately show ?thesis using workspace_provisioned_once by blast
qed

end
