(* ===== verification/Iam_Token.thy ===== *)
theory Iam_Token
  imports Iam_Auth
begin

text \<open>
  Tokens (\<open>Token\<close>, \<open>ManagedToken\<close> and the grants of \<open>IamClient\<close> in \<open>user_api/iam/dm/models.py\<close>), the
  tokens API of \<open>user_api/iam/api/controllers.py\<close>, the driver that accepts an access token
  (\<open>user_api/iam/drivers.py\<close>) and the renewal of managed tokens (\<open>iam/service.py\<close>).  A signed
  access token is its claims: the signature and the check of its own \<open>exp\<close> are the library's.
\<close>

section \<open>Scopes and projects\<close>

definition project_get_default :: "iam_db \<Rightarrow> uuid \<Rightarrow> uuid option" where
  "project_get_default db u = (let org = org_default db u in
     case find (\<lambda>b. case rb_project b of None \<Rightarrow> False
         | Some p \<Rightarrow> (case find (\<lambda>x. pj_uuid x = p) (db_projects db) of
             None \<Rightarrow> False | Some x \<Rightarrow> Some (pj_organization x) = org))
       (sort_key rb_created_at (filter (\<lambda>b. rb_user b = u) (db_role_bindings db))) of
     None \<Rightarrow> None | Some b \<Rightarrow> rb_project b)"

text \<open>A text that is not a uuid for the database makes the query raise.\<close>

definition get_project_by_uuid :: "iam_env \<Rightarrow> iam_db \<Rightarrow> string \<Rightarrow> iam_error + uuid option" where
  "get_project_by_uuid env db s = (case ie_db_uuid env s of None \<Rightarrow> Inl BadValue
     | Some u \<Rightarrow> Inr (map_option pj_uuid (find (\<lambda>x. pj_uuid x = u) (db_projects db))))"

definition get_project_by_scope :: "iam_env \<Rightarrow> iam_db \<Rightarrow> uuid \<Rightarrow> string \<Rightarrow> iam_error + uuid option" where
  "get_project_by_scope env db u scope =
     (case find (\<lambda>piece. starts_with piece ''project'') (split_on CHR '' '' (lower scope)) of
        None \<Rightarrow> Inr None
      | Some piece \<Rightarrow>
          if CHR '':'' \<in> set piece \<and> after_first CHR '':'' piece \<noteq> ''default''
          then get_project_by_uuid env db (after_first CHR '':'' piece)
          else Inr (project_get_default db u))"

definition extract_project_from_scope :: "string \<Rightarrow> iam_error + string option" where
  "extract_project_from_scope scope =
     (if scope = '''' then Inr None
      else case map (after_first CHR '':'') (filter (\<lambda>part. starts_with part ''project:'') (split_on CHR '' '' scope)) of
        [] \<Rightarrow> Inr None | [p] \<Rightarrow> Inr (Some p) | _ \<Rightarrow> Inl BadValue)"

section \<open>Creation\<close>

definition default_expiration_delta :: int where
  "default_expiration_delta = 60 * 60 * sec"

definition default_refresh_expiration_delta :: int where
  "default_refresh_expiration_delta = 24 * 60 * 60 * sec"

text \<open>\<open>Token.__init__\<close>: the project follows the scope unless it is given.\<close>

record token_args =
  ta_user :: uuid
  ta_client :: uuid
  ta_scope :: string
  ta_project :: "uuid option"
  ta_issuer :: string
  ta_audience :: "string option"
  ta_nonce :: "string option"
  ta_delta :: int
  ta_refresh_delta :: int
  ta_managed :: bool
  ta_auto_renew :: bool

definition token_init :: "iam_env \<Rightarrow> iam_db \<Rightarrow> token_args \<Rightarrow> iam_error + token" where
  "token_init env db a =
     ebind (if ta_project a = None \<and> ta_scope a \<noteq> '''' then get_project_by_scope env db (ta_user a) (ta_scope a)
            else Inr (ta_project a))
       (\<lambda>project. Inr \<lparr>tk_uuid = ie_uuid env ''token'', tk_user = ta_user a, tk_client = ta_client a, tk_project = project,
          tk_scope = ta_scope a, tk_issuer = ta_issuer a, tk_audience = ta_audience a, tk_nonce = ta_nonce a,
          tk_created_at = ie_now env, tk_expiration_at = ie_now env + ta_delta a, tk_expiration_delta = ta_delta a,
          tk_refresh_expiration_at = ie_now env + ta_refresh_delta a, tk_refresh_uuid = ie_uuid env ''refresh'',
          tk_managed = ta_managed a, tk_auto_renew = ta_auto_renew a, tk_generation = 0\<rparr>)"

text \<open>The request's parameters of a grant, with the lifetimes already read as durations.\<close>

record grant =
  gr_scope :: string
  gr_ttl :: "int option"
  gr_refresh_ttl :: "int option"
  gr_root_endpoint :: string

definition calculate_delta :: "int option \<Rightarrow> int \<Rightarrow> int" where
  "calculate_delta v d = (case v of None \<Rightarrow> d | Some t \<Rightarrow> t)"

definition create_token_for_user :: "iam_env \<Rightarrow> iam_client \<Rightarrow> grant \<Rightarrow> uuid \<Rightarrow> iam_db \<Rightarrow> iam_error + (token \<times> iam_db)" where
  "create_token_for_user env client g u db =
     ebind (token_init env db \<lparr>ta_user = u, ta_client = ic_uuid client, ta_scope = gr_scope g, ta_project = None,
         ta_issuer = gr_root_endpoint g @ ''iam/clients/'' @ ic_uuid client, ta_audience = Some (ic_client_id client),
         ta_nonce = None, ta_delta = calculate_delta (gr_ttl g) default_expiration_delta,
         ta_refresh_delta = calculate_delta (gr_refresh_ttl g) default_refresh_expiration_delta,
         ta_managed = False, ta_auto_renew = False\<rparr>)
       (\<lambda>t. Inr (t, add_token t db))"

section \<open>Grants\<close>

definition validate_client_creds :: "iam_env \<Rightarrow> iam_client \<Rightarrow> string \<Rightarrow> string \<Rightarrow> iam_error + unit" where
  "validate_client_creds env client cid secret =
     (if cid = '''' \<or> secret = '''' then Inl ClientAuthentication
      else if ic_client_id client \<noteq> cid \<or> \<not> check_secret env (ic_salt client) (ic_secret_hash client) secret
      then Inl ClientAuthentication else Inr ())"

definition project_bindings :: "iam_db \<Rightarrow> uuid \<Rightarrow> uuid \<Rightarrow> role_binding list" where
  "project_bindings db u project =
     filter (\<lambda>b. rb_user b = u \<and> rb_project b = Some project) (db_role_bindings db)"

definition service_token_permission :: string where
  "service_token_permission = ''iam.service_token.create''"

definition check_service_token_permission :: "iam_db \<Rightarrow> role_binding list \<Rightarrow> iam_error + bool" where
  "check_service_token_permission db bs =
     ebind (get_single (\<lambda>p. pe_name p = service_token_permission) (db_permissions db)) (\<lambda>p.
       Inr (list_ex (\<lambda>pb. pb_role pb \<in> rb_role ` set bs \<and> pb_permission pb = pe_uuid p) (db_permission_bindings db)))"

definition handle_service_account_token_request ::
  "iam_env \<Rightarrow> (string \<Rightarrow> uuid option) \<Rightarrow> iam_client \<Rightarrow> grant \<Rightarrow> uuid \<Rightarrow> uuid \<Rightarrow> iam_db \<Rightarrow> iam_error + (token \<times> iam_db)" where
  "handle_service_account_token_request env parse_uuid client g u account db =
     ebind (extract_project_from_scope (gr_scope g)) (\<lambda>p.
       if p = None \<or> p = Some '''' then Inl ProjectScopeRequired
       else case parse_uuid (the p) of
         None \<Rightarrow> Inl CanNotCreateServiceToken
       | Some project \<Rightarrow>
         if project_bindings db u project = [] then Inl CanNotCreateServiceToken
         else ebind (check_service_token_permission db (project_bindings db u project)) (\<lambda>ok.
           if \<not> ok then Inl CanNotCreateServiceToken
           else case find (\<lambda>x. us_uuid x = account \<and> us_type x = user_type_service) (db_users db) of
             None \<Rightarrow> Inl UserNotFound
           | Some sa \<Rightarrow>
             if project_bindings db (us_uuid sa) project = [] then Inl CanNotCreateServiceToken
             else create_token_for_user env client (g\<lparr>gr_scope := ''project:'' @ project\<rparr>) (us_uuid sa) db))"

text \<open>\<open>_get_token_by_password_and_smth\<close>: a Keycloak login may write the secret of the user back.\<close>

definition get_token_by_password_and_smth ::
  "iam_env \<Rightarrow> (string \<Rightarrow> uuid option) \<Rightarrow> iam_client \<Rightarrow> user list \<Rightarrow> string option \<Rightarrow> string option \<Rightarrow> uuid option \<Rightarrow> grant \<Rightarrow>
    iam_db \<Rightarrow> iam_error + (token \<times> iam_db)" where
  "get_token_by_password_and_smth env parse_uuid client users pw otp account g db =
     ebind (authenticate_user_with_password env users pw otp) (\<lambda>u.
       let db = put_user u db in
       case account of
         Some a \<Rightarrow> if a \<noteq> '''' then handle_service_account_token_request env parse_uuid client g (us_uuid u) a db
                   else create_token_for_user env client g (us_uuid u) db
       | None \<Rightarrow> create_token_for_user env client g (us_uuid u) db)"

definition refresh :: "iam_env \<Rightarrow> string option \<Rightarrow> token \<Rightarrow> iam_db \<Rightarrow> iam_error + token" where
  "refresh env scope t db =
     (let scope = (case scope of None \<Rightarrow> tk_scope t | Some s \<Rightarrow> if s = '''' then tk_scope t else s) in
      ebind (get_project_by_scope env db (tk_user t) scope) (\<lambda>project.
        Inr (t\<lparr>tk_expiration_at := ie_now env + tk_expiration_delta t, tk_project := project, tk_scope := scope\<rparr>)))"

text \<open>The refresh token is read by the library: its signature checked, its times not.\<close>

definition get_token_by_refresh_token :: "iam_env \<Rightarrow> uuid \<Rightarrow> string option \<Rightarrow> iam_db \<Rightarrow> iam_error + (token \<times> iam_db)" where
  "get_token_by_refresh_token env refresh_uuid scope db =
     (case find (\<lambda>t. tk_refresh_uuid t = refresh_uuid) (db_tokens db) of
        None \<Rightarrow> Inl InvalidRefreshToken
      | Some t \<Rightarrow> if \<not> ie_now env < tk_refresh_expiration_at t then Inl InvalidRefreshToken
          else ebind (refresh env scope t db) (\<lambda>t. Inr (t, put_token t db)))"

text \<open>The password grants of the client controller: which parameter names the user, and how it is found.\<close>

record token_request =
  tr_grant_type :: string
  tr_client_id :: string
  tr_client_secret :: string
  tr_logins :: "(string, string) dict"
  tr_password :: "string option"
  tr_otp :: "string option"
  tr_account :: "uuid option"
  tr_grant :: grant
  tr_refresh_scope :: "string option"
  tr_refresh_token :: "uuid option"
  tr_code :: uuid
  tr_redirect_uri :: string
  tr_code_verifier :: "string option"

definition grant_type_map :: "(string, string \<times> (string \<Rightarrow> iam_db \<Rightarrow> user list) option) dict" where
  "grant_type_map =
     [(''password'', (''username'', Some users_by_name)),
      (''username+password'', (''username'', Some users_by_name)),
      (''email+password'', (''email'', Some users_by_email)),
      (''phone+password'', (''phone'', None)),
      (''login+password'', (''login'', Some users_by_login))]"

definition password_grant ::
  "iam_env \<Rightarrow> (string \<Rightarrow> uuid option) \<Rightarrow> iam_client \<Rightarrow> token_request \<Rightarrow> string \<Rightarrow>
    (string \<Rightarrow> iam_db \<Rightarrow> user list) option \<Rightarrow> iam_db \<Rightarrow> iam_error + (token \<times> iam_db)" where
  "password_grant env parse_uuid client r attr getter db =
     ebind (validate_client_creds env client (tr_client_id r) (tr_client_secret r)) (\<lambda>_.
       case dget (tr_logins r) attr of
         None \<Rightarrow> Inl ServiceAccountUuidRequired
       | Some login \<Rightarrow>
           if login = '''' then Inl ServiceAccountUuidRequired
           else case getter of
             None \<Rightarrow> Inl NotImplemented
           | Some users \<Rightarrow> get_token_by_password_and_smth env parse_uuid client (users login db) (tr_password r) (tr_otp r)
               (tr_account r) (tr_grant r) db)"

section \<open>Managed tokens\<close>

text \<open>\<open>ManagedToken.update\<close> derives the project and the lifetime again when what they follow was changed.\<close>

definition managed_update :: "iam_env \<Rightarrow> iam_db \<Rightarrow> string \<Rightarrow> int \<Rightarrow> token \<Rightarrow> iam_error + token" where
  "managed_update env db scope delta t =
     ebind (if scope \<noteq> tk_scope t then get_project_by_scope env db (tk_user t) scope else Inr (tk_project t)) (\<lambda>project.
       Inr (t\<lparr>tk_scope := scope, tk_expiration_delta := delta, tk_project := project,
         tk_expiration_at := (if delta \<noteq> tk_expiration_delta t then ie_now env + delta else tk_expiration_at t)\<rparr>))"

definition regenerate :: "iam_env \<Rightarrow> token \<Rightarrow> token" where
  "regenerate env t = t\<lparr>tk_generation := tk_generation t + 1, tk_expiration_at := ie_now env + tk_expiration_delta t\<rparr>"

text \<open>\<open>timedelta / 2\<close> rounds half a microsecond to the even neighbour.\<close>

definition half :: "int \<Rightarrow> int" where
  "half d = (if even d \<or> even (d div 2) then d div 2 else d div 2 + 1)"

definition needs_renewal :: "int \<Rightarrow> token \<Rightarrow> bool" where
  "needs_renewal now t \<longleftrightarrow> tk_expiration_at t - now < half (tk_expiration_delta t)"

definition renew :: "int \<Rightarrow> token \<Rightarrow> token" where
  "renew now t = t\<lparr>tk_expiration_at := now + tk_expiration_delta t\<rparr>"

definition renewal_iteration :: "iam_env \<Rightarrow> iam_db \<Rightarrow> iam_db" where
  "renewal_iteration env db =
     fold (\<lambda>t db. if \<not> needs_renewal (ie_now env) t then db else put_token (renew (ie_now env) t) db)
       (filter (\<lambda>t. tk_managed t \<and> tk_auto_renew t) (db_tokens db)) db"

section \<open>Access tokens\<close>

record access_claims =
  ac_exp :: int
  ac_iat :: int
  ac_auth_time :: int
  ac_jti :: uuid
  ac_iss :: string
  ac_aud :: "string option"
  ac_sub :: uuid
  ac_otp :: bool
  ac_gen :: "nat option"

definition access_token_info :: "user \<Rightarrow> token \<Rightarrow> access_claims" where
  "access_token_info u t =
     \<lparr>ac_exp = tk_expiration_at t div sec, ac_iat = tk_created_at t div sec, ac_auth_time = tk_created_at t div sec,
      ac_jti = tk_uuid t, ac_iss = tk_issuer t, ac_aud = tk_audience t, ac_sub = us_uuid u, ac_otp = us_otp_enabled u,
      ac_gen = Some (tk_generation t)\<rparr>"

definition managed_access_token_info :: "iam_client \<Rightarrow> user \<Rightarrow> token \<Rightarrow> access_claims" where
  "managed_access_token_info client u t =
     (let info = (access_token_info u t)\<lparr>ac_iat := (tk_expiration_at t - tk_expiration_delta t) div sec\<rparr>
      in if tk_audience t = None then info\<lparr>ac_aud := Some (ic_client_id client)\<rparr> else info)"

record introspection =
  in_user :: uuid
  in_project :: "uuid option"
  in_otp_verified :: bool
  in_permissions :: "string list"

definition introspect :: "iam_env \<Rightarrow> access_claims \<Rightarrow> string option \<Rightarrow> token \<Rightarrow> iam_db \<Rightarrow> iam_error + introspection" where
  "introspect env claims otp t db =
     ebind (get_one (\<lambda>u. us_uuid u = ac_sub claims) (db_users db)) (\<lambda>u.
       ebind (case otp of None \<Rightarrow> Inr False
           | Some code \<Rightarrow> ebind (validate_otp env (Some code) u) (\<lambda>ok. if \<not> ok then Inl OTPInvalidCode else Inr True)) (\<lambda>verified.
         Inr \<lparr>in_user = tk_user t, in_project = tk_project t, in_otp_verified = verified,
              in_permissions = map pe_name (granted_permissions db (us_uuid u) (tk_project t))\<rparr>))"

definition check_expiration :: "iam_env \<Rightarrow> token \<Rightarrow> bool" where
  "check_expiration env t \<longleftrightarrow> ie_now env < tk_expiration_at t"

definition generation_matches :: "access_claims \<Rightarrow> token \<Rightarrow> bool" where
  "generation_matches claims t \<longleftrightarrow> (case ac_gen claims of None \<Rightarrow> 0 | Some g \<Rightarrow> g) = tk_generation t"

definition get_introspection_info :: "iam_env \<Rightarrow> access_claims \<Rightarrow> string option \<Rightarrow> iam_db \<Rightarrow> iam_error + introspection" where
  "get_introspection_info env claims otp db =
     (case find (\<lambda>t. tk_uuid t = ac_jti claims) (db_tokens db) of
        None \<Rightarrow> Inl InvalidAuthToken
      | Some t \<Rightarrow>
          if \<not> check_expiration env t then Inl InvalidAuthToken
          else if \<not> generation_matches claims t then Inl InvalidAuthToken
          else introspect env claims otp t db)"

section \<open>The tokens API\<close>

definition enforce_token_permissions :: "caller \<Rightarrow> uuid \<Rightarrow> uuid option \<Rightarrow> iam_db \<Rightarrow> iam_error + unit" where
  "enforce_token_permissions c u project db =
     (if enforce c ''iam.token.create_all'' then Inr ()
      else if u \<noteq> us_uuid (cl_me c) then Inl (Forbidden ''iam.token.create_all'')
      else if cl_project c \<noteq> None \<and> project \<noteq> cl_project c then Inl (Forbidden '''')
      else case find (\<lambda>p. \<not> cl_enforcer c (pe_name p)) (granted_permissions db u project) of
        None \<Rightarrow> Inr () | Some p \<Rightarrow> Inl (Forbidden (pe_name p)))"

definition tokens_create :: "caller \<Rightarrow> iam_env \<Rightarrow> token_args \<Rightarrow> iam_db \<Rightarrow> iam_error + (token \<times> iam_db)" where
  "tokens_create c env a db =
     (if \<not> cl_enforcer c ''iam.token.create'' then Inl (Forbidden ''iam.token.create'')
      else ebind (token_init env db (a\<lparr>ta_managed := True\<rparr>)) (\<lambda>t.
        ebind (enforce_token_permissions c (tk_user t) (tk_project t) db) (\<lambda>_. Inr (t, add_token t db))))"

definition token_visible :: "caller \<Rightarrow> token \<Rightarrow> bool" where
  "token_visible c t \<longleftrightarrow> tk_managed t \<and> (enforce c ''iam.token.read_all'' \<or> tk_user t = us_uuid (cl_me c))"

definition tokens_get :: "caller \<Rightarrow> uuid \<Rightarrow> iam_db \<Rightarrow> iam_error + token" where
  "tokens_get c u db = get_one (\<lambda>t. tk_uuid t = u \<and> token_visible c t) (db_tokens db)"

text \<open>Of the fields a request may set, the scope and the lifetime are the ones the update derives from.\<close>

definition tokens_update :: "caller \<Rightarrow> iam_env \<Rightarrow> uuid \<Rightarrow> string option \<Rightarrow> int option \<Rightarrow> iam_db \<Rightarrow> iam_error + (token \<times> iam_db)" where
  "tokens_update c env u scope delta db =
     (if \<not> cl_enforcer c ''iam.token.update'' then Inl (Forbidden ''iam.token.update'')
      else ebind (tokens_get c u db) (\<lambda>t.
        ebind (case scope of None \<Rightarrow> Inr ()
          | Some s \<Rightarrow> ebind (get_project_by_scope env db (tk_user t) s) (\<lambda>project. enforce_token_permissions c (tk_user t) project db)) (\<lambda>_.
            ebind (managed_update env db (case scope of None \<Rightarrow> tk_scope t | Some s \<Rightarrow> s)
                (calculate_delta delta (tk_expiration_delta t)) t)
              (\<lambda>t. Inr (t, put_token t db)))))"

definition tokens_regenerate :: "caller \<Rightarrow> iam_env \<Rightarrow> uuid \<Rightarrow> iam_db \<Rightarrow> iam_error + (token \<times> iam_db)" where
  "tokens_regenerate c env u db =
     ebind (tokens_get c u db) (\<lambda>t.
       if \<not> cl_enforcer c ''iam.token.update'' then Inl (Forbidden ''iam.token.update'')
       else ebind (enforce_token_permissions c (tk_user t) (tk_project t) db) (\<lambda>_.
         Inr (regenerate env t, put_token (regenerate env t) db)))"

definition logout :: "caller \<Rightarrow> iam_db \<Rightarrow> iam_error + iam_db" where
  "logout c db = ebind (token_my c db) (\<lambda>t.
     if list_ex (\<lambda>a. au_token a = Some (tk_uuid t)) (db_auth_infos db) then Inl BadValue
     else Inr (db\<lparr>db_tokens := filter (\<lambda>x. tk_uuid x \<noteq> tk_uuid t) (db_tokens db)\<rparr>))"

section \<open>Facts\<close>

lemma create_token_Inr:
  assumes "create_token_for_user env client g u db = Inr (t, db')"
  shows "tk_user t = u \<and> tk_client t = ic_uuid client \<and> tk_scope t = gr_scope g \<and> tk_generation t = 0 \<and> \<not> tk_managed t \<and>
    db' = add_token t db \<and>
    (if gr_scope g = '''' then tk_project t = None else get_project_by_scope env db u (gr_scope g) = Inr (tk_project t))"
  using assms by (auto simp: create_token_for_user_def token_init_def ebind_Inr_iff split: if_splits)

lemma db_tokens_add [simp]: "db_tokens (add_token t db) = db_tokens db @ [t]"
  "db_users (add_token t db) = db_users db" "db_role_bindings (add_token t db) = db_role_bindings db"
  by (simp_all add: add_token_def)

lemma db_put_user [simp]: "db_tokens (put_user u db) = db_tokens db" "db_role_bindings (put_user u db) = db_role_bindings db"
  "db_permissions (put_user u db) = db_permissions db" "db_permission_bindings (put_user u db) = db_permission_bindings db"
  "db_projects (put_user u db) = db_projects db"
  by (simp_all add: put_user_def)

lemma get_project_put_user [simp]: "get_project_by_scope env (put_user v db) u s = get_project_by_scope env db u s"
proof -
  have "get_project_by_uuid env (put_user v db) p = get_project_by_uuid env db p" for p
    by (simp add: get_project_by_uuid_def split: option.splits)
  moreover have "project_get_default (put_user v db) u = project_get_default db u"
    by (simp add: put_user_def org_default_def project_get_default_def Let_def cong: option.case_cong)
  ultimately show ?thesis by (simp add: get_project_by_scope_def split: option.splits)
qed

lemma creds_ok: "validate_client_creds env client cid secret = Inr () \<longleftrightarrow> cid \<noteq> '''' \<and> secret \<noteq> '''' \<and>
    ic_client_id client = cid \<and> check_secret env (ic_salt client) (ic_secret_hash client) secret"
  by (simp add: validate_client_creds_def)

text \<open>What lets a user take a token of a service account: a role of each of them in the project.\<close>

definition may_take_service_token :: "iam_db \<Rightarrow> uuid \<Rightarrow> uuid \<Rightarrow> uuid \<Rightarrow> bool" where
  "may_take_service_token db u account project \<longleftrightarrow>
     (\<exists>rb \<in> set (db_role_bindings db). rb_user rb = u \<and> rb_project rb = Some project \<and>
       (\<exists>p \<in> set (db_permissions db). pe_name p = service_token_permission \<and>
         (\<exists>pb \<in> set (db_permission_bindings db). pb_role pb = rb_role rb \<and> pb_permission pb = pe_uuid p))) \<and>
     (\<exists>sa \<in> set (db_users db). us_uuid sa = account \<and> us_type sa = user_type_service) \<and>
     (\<exists>rb \<in> set (db_role_bindings db). rb_user rb = account \<and> rb_project rb = Some project)"

lemma service_request_Inr:
  assumes "handle_service_account_token_request env parse client g u account db = Inr (t, db')"
  obtains piece project where "extract_project_from_scope (gr_scope g) = Inr (Some piece)" "parse piece = Some project"
    "may_take_service_token db u account project" "tk_user t = account" "tk_scope t = ''project:'' @ project"
    "db' = add_token t db" "get_project_by_scope env db account (''project:'' @ project) = Inr (tk_project t)"
proof -
  from assms obtain piece project where scope: "extract_project_from_scope (gr_scope g) = Inr (Some piece)" "piece \<noteq> ''''"
    and project: "parse piece = Some project"
    by (auto simp: handle_service_account_token_request_def ebind_Inr_iff split: if_splits option.splits)
  with assms obtain sa where own: "project_bindings db u project \<noteq> []"
    and perm: "check_service_token_permission db (project_bindings db u project) = Inr True"
    and sa: "find (\<lambda>x. us_uuid x = account \<and> us_type x = user_type_service) (db_users db) = Some sa"
    and theirs: "project_bindings db (us_uuid sa) project \<noteq> []"
    and t: "create_token_for_user env client (g\<lparr>gr_scope := ''project:'' @ project\<rparr>) (us_uuid sa) db = Inr (t, db')"
    by (auto simp: handle_service_account_token_request_def ebind_Inr_iff split: if_splits option.splits)
  from sa have sa': "sa \<in> set (db_users db)" "us_uuid sa = account" "us_type sa = user_type_service"
    by (auto simp: find_Some_iff)
  from perm obtain p where p: "p \<in> set (db_permissions db)" "pe_name p = service_token_permission"
    and ex: "list_ex (\<lambda>pb. pb_role pb \<in> rb_role ` set (project_bindings db u project) \<and> pb_permission pb = pe_uuid p) (db_permission_bindings db)"
    by (auto simp: check_service_token_permission_def ebind_Inr_iff dest: get_single_Inr)
  from ex obtain pb rb where "pb \<in> set (db_permission_bindings db)" "pb_permission pb = pe_uuid p"
    "rb \<in> set (project_bindings db u project)" "pb_role pb = rb_role rb"
    unfolding list_ex_iff by blast
  moreover obtain b where "b \<in> set (project_bindings db account project)"
    using theirs sa'(2) by (metis list.set_sel(1))
  ultimately have "may_take_service_token db u account project"
    using p sa' unfolding may_take_service_token_def project_bindings_def by fastforce
  with scope project create_token_Inr [OF t] sa' show ?thesis by (intro that) auto
qed

lemma service_scope_project:
  assumes "\<forall>c \<in> set project. c \<noteq> CHR '' ''" and "project \<noteq> ''default''" and "lower project = project"
    and "ie_db_uuid env project = Some project" and "project \<in> pj_uuid ` set (db_projects db)"
    and "get_project_by_scope env db u (''project:'' @ project) = Inr r"
  shows "r = Some project"
proof -
  have l: "lower (''project:'' @ project) = ''project:'' @ project"
    using assms(3) by (simp add: lower_def lower_char_def Let_def)
  have "split_on CHR '' '' (''project:'' @ project) = [''project:'' @ project]"
    by (rule split_on_no_sep) (use assms(1) in auto)
  with l have "get_project_by_scope env db u (''project:'' @ project) = get_project_by_uuid env db project"
    using assms(2) by (simp add: get_project_by_scope_def after_first_def)
  moreover obtain x where "find (\<lambda>x. pj_uuid x = project) (db_projects db) = Some x"
    using assms(5) by (cases "find (\<lambda>x. pj_uuid x = project) (db_projects db)") (auto simp: find_None_iff)
  moreover from this have "pj_uuid x = project" by (auto simp: find_Some_iff)
  ultimately show ?thesis using assms(4,6) by (simp add: get_project_by_uuid_def)
qed

lemma token_init_Inr:
  assumes "token_init env db a = Inr t"
  shows "tk_user t = ta_user a" "tk_uuid t = ie_uuid env ''token''" "tk_generation t = 0" "tk_managed t = ta_managed a"
  using assms by (auto simp: token_init_def ebind_Inr_iff)

lemma enforce_token_ok:
  assumes "enforce_token_permissions c u project db = Inr ()" and "\<not> enforce c ''iam.token.create_all''"
  shows "u = us_uuid (cl_me c) \<and> (cl_project c \<noteq> None \<longrightarrow> project = cl_project c) \<and>
    (\<forall>p. holds db u project p \<longrightarrow> cl_enforcer c (pe_name p))"
proof -
  from assms have f: "find (\<lambda>p. \<not> cl_enforcer c (pe_name p)) (granted_permissions db u project) = None"
    "u = us_uuid (cl_me c)" "cl_project c = None \<or> project = cl_project c"
    by (auto simp: enforce_token_permissions_def split: if_splits option.splits)
  from f(1) have "\<forall>p \<in> set (granted_permissions db u project). cl_enforcer c (pe_name p)" by (auto simp: find_None_iff)
  with f show ?thesis by (auto simp: granted_permissions_holds)
qed

lemma login_users:
  assumes "dget grant_type_map gt = Some (attr, Some users)" and "u \<in> set (users login db)"
  shows "u \<in> set (db_users db) \<and> (lower (us_name u) = lower login \<or> us_email u = lower login)"
  using assms by (auto simp: grant_type_map_def users_by_name_def users_by_email_def users_by_login_def
      split: if_splits dest!: in_set_takeD)

lemma may_take_put_user:
  assumes "may_take_service_token (put_user v db) u a project" and "us_type v \<noteq> user_type_service"
  shows "may_take_service_token db u a project"
  using assms by (auto simp: may_take_service_token_def put_user_def split: if_splits)

section \<open>Properties\<close>

text \<open>C13. A password grant that issues a token was made with the credentials of the client, and with the
  password (or, for a Keycloak user, one its server accepts) and the one-time code of a stored user that is
  not a service account and whom the login names; it stores exactly the new token, which is the user's own,
  or, when a service account is asked for, that account's and the user was entitled to it.\<close>

theorem password_login_checked:
  assumes "dget grant_type_map (tr_grant_type r) = Some (attr, getter)"
    and "password_grant env parse_uuid client r attr getter db = Inr (t, db')"
  shows "(ic_client_id client = tr_client_id r \<and> check_secret env (ic_salt client) (ic_secret_hash client) (tr_client_secret r)) \<and>
    db_tokens db' = db_tokens db @ [t] \<and>
    (\<exists>login s u. dget (tr_logins r) attr = Some login \<and> tr_password r = Some s \<and> u \<in> set (db_users db) \<and>
      (lower (us_name u) = lower login \<or> us_email u = lower login) \<and> us_type u \<noteq> user_type_service \<and>
      password_proved env u s \<and> otp_proved env u (tr_otp r) \<and>
      (if tr_account r \<in> {None, Some ''''} then tk_user t = us_uuid u
       else tr_account r = Some (tk_user t) \<and> (\<exists>project. may_take_service_token db (us_uuid u) (tk_user t) project)))"
proof -
  from assms(2) obtain login users where c: "validate_client_creds env client (tr_client_id r) (tr_client_secret r) = Inr ()"
    and l: "dget (tr_logins r) attr = Some login" and g: "getter = Some users"
    and get: "get_token_by_password_and_smth env parse_uuid client (users login db) (tr_password r) (tr_otp r) (tr_account r)
      (tr_grant r) db = Inr (t, db')"
    by (auto simp: password_grant_def ebind_Inr_iff split: option.splits if_splits)
  from get obtain v where auth: "authenticate_user_with_password env (users login db) (tr_password r) (tr_otp r) = Inr v"
    and rest: "(case tr_account r of
         Some a \<Rightarrow> if a \<noteq> '''' then handle_service_account_token_request env parse_uuid client (tr_grant r) (us_uuid v) a (put_user v db)
                   else create_token_for_user env client (tr_grant r) (us_uuid v) (put_user v db)
       | None \<Rightarrow> create_token_for_user env client (tr_grant r) (us_uuid v) (put_user v db)) = Inr (t, db')"
    by (auto simp: get_token_by_password_and_smth_def ebind_Inr_iff Let_def)
  from auth obtain u us s where u: "users login db = u # us" "us_type u \<noteq> user_type_service" "tr_password r = Some s"
    "process_secret env s u = Inr v" "password_proved env u s" "otp_proved env u (tr_otp r)" "us_uuid v = us_uuid u"
    by (rule authenticate_Inr)
  have v: "us_type v \<noteq> user_type_service" using process_secret_keeps(2) [OF u(4)] u(2) by simp
  have stored: "u \<in> set (db_users db) \<and> (lower (us_name u) = lower login \<or> us_email u = lower login)"
    using login_users assms(1) g u(1) by (metis list.set_intros(1))
  have "db_tokens db' = db_tokens db @ [t] \<and> (if tr_account r \<in> {None, Some ''''} then tk_user t = us_uuid u
       else tr_account r = Some (tk_user t) \<and> (\<exists>project. may_take_service_token db (us_uuid u) (tk_user t) project))"
  proof (cases "tr_account r \<in> {None, Some ''''}")
    case True
    then have "create_token_for_user env client (tr_grant r) (us_uuid v) (put_user v db) = Inr (t, db')" using rest by auto
    from create_token_Inr [OF this] True u(7) show ?thesis by auto
  next
    case False
    then obtain a where a: "tr_account r = Some a" "a \<noteq> ''''" by auto
    with rest have "handle_service_account_token_request env parse_uuid client (tr_grant r) (us_uuid v) a (put_user v db) = Inr (t, db')"
      by simp
    then show ?thesis
    proof (rule service_request_Inr)
      fix piece project
      assume "may_take_service_token (put_user v db) (us_uuid v) a project" "tk_user t = a" "db' = add_token t (put_user v db)"
      moreover from this(1) have "may_take_service_token db (us_uuid u) a project" using may_take_put_user [OF _ v] u(7) by simp
      ultimately show ?thesis using a by auto
    qed
  qed
  with c l u stored show ?thesis by (auto simp: creds_ok)
qed

definition example_client :: iam_client where
  "example_client = \<lparr>ic_uuid = ''c1'', ic_client_id = ''core'', ic_salt = ''s'', ic_secret_hash = ''pws'', ic_auto_provision = True\<rparr>"

definition example_request :: token_request where
  "example_request = \<lparr>tr_grant_type = ''login+password'', tr_client_id = ''core'', tr_client_secret = ''pw'',
     tr_logins = [(''login'', ''Ann@x.org'')], tr_password = Some ''secret'', tr_otp = None, tr_account = None,
     tr_grant = \<lparr>gr_scope = '''', gr_ttl = None, gr_refresh_ttl = None, gr_root_endpoint = ''http://e/''\<rparr>,
     tr_refresh_scope = None, tr_refresh_token = None, tr_code = '''', tr_redirect_uri = '''', tr_code_verifier = None\<rparr>"

theorem password_login_checked_witness:
  "\<exists>t db'. password_grant example_env Some example_client example_request ''login'' (Some users_by_login) example_db = Inr (t, db') \<and>
     tk_user t = ''u1''"
proof -
  have low: "lower ''Ann@x.org'' = ''ann@x.org''" by code_simp
  have login: "users_by_login ''Ann@x.org'' example_db = [example_user]"
    by (simp add: users_by_login_def users_by_email_def example_db_def example_user_def low)
  have "is_ok (password_grant example_env Some example_client example_request ''login'' (Some users_by_login) example_db)"
    by (simp add: password_grant_def example_request_def validate_client_creds_def example_client_def check_secret_def
        example_env_def get_token_by_password_and_smth_def login)
      (simp add: authenticate_user_with_password_def authenticate_user_def example_user_def
        user_type_service_def process_secret_def user_secret_def check_secret_def create_token_for_user_def token_init_def Let_def)
  then obtain t db' where p: "password_grant example_env Some example_client example_request ''login'' (Some users_by_login)
      example_db = Inr (t, db')"
    by (auto simp: is_ok_iff)
  have "dget grant_type_map (tr_grant_type example_request) = Some (''login'', Some users_by_login)"
    by (simp add: grant_type_map_def example_request_def)
  from password_login_checked [OF this p] have "tk_user t = ''u1''"
    by (auto simp: example_db_def example_user_def example_request_def)
  with p show ?thesis by blast
qed

text \<open>C14. A token of a service account is issued only for the one project the scope names, to a user who has
  a role in it that is bound to \<open>iam.service_token.create\<close>, and for a service account that has a role in it
  too; the token is the account's and is bound to that project.  The uuids the parser returns are canonical,
  and bindings refer to stored projects (a foreign key).\<close>

theorem service_token_authorized:
  assumes "handle_service_account_token_request env parse_uuid client g u account db = Inr (t, db')"
    and "\<forall>s p. parse_uuid s = Some p \<longrightarrow> p \<noteq> ''default'' \<and> CHR '' '' \<notin> set p \<and> lower p = p \<and> ie_db_uuid env p = Some p"
    and "\<forall>b \<in> set (db_role_bindings db). \<forall>p. rb_project b = Some p \<longrightarrow> p \<in> pj_uuid ` set (db_projects db)"
  shows "\<exists>piece project. extract_project_from_scope (gr_scope g) = Inr (Some piece) \<and> parse_uuid piece = Some project \<and>
    may_take_service_token db u account project \<and> tk_user t = account \<and> tk_project t = Some project \<and> db' = add_token t db"
proof -
  from assms(1) obtain piece project where r: "extract_project_from_scope (gr_scope g) = Inr (Some piece)"
    "parse_uuid piece = Some project" "may_take_service_token db u account project" "tk_user t = account"
    "db' = add_token t db" "get_project_by_scope env db account (''project:'' @ project) = Inr (tk_project t)"
    by (rule service_request_Inr)
  from r(3) assms(3) have "project \<in> pj_uuid ` set (db_projects db)" unfolding may_take_service_token_def by blast
  moreover have c: "project \<noteq> ''default''" "CHR '' '' \<notin> set project" "lower project = project" "ie_db_uuid env project = Some project"
    using assms(2) r(2) by blast+
  from c(2) have "\<forall>x \<in> set project. x \<noteq> CHR '' ''" by metis
  ultimately have "tk_project t = Some project" using service_scope_project [OF _ c(1,3,4) _ r(6)] by blast
  with r show ?thesis by blast
qed

definition service_db :: iam_db where
  "service_db = example_db\<lparr>db_users := [example_user, example_user\<lparr>us_uuid := ''s1'', us_type := ''service''\<rparr>],
     db_projects := [\<lparr>pj_uuid = ''p1'', pj_name = ''one'', pj_organization = ''o1''\<rparr>],
     db_permissions := [\<lparr>pe_uuid = ''x1'', pe_name = ''iam.service_token.create''\<rparr>],
     db_permission_bindings := [\<lparr>pb_uuid = ''b1'', pb_role = ''r1'', pb_permission = ''x1''\<rparr>],
     db_role_bindings := [\<lparr>rb_uuid = ''rb1'', rb_user = ''u1'', rb_role = ''r1'', rb_project = Some ''p1'', rb_created_at = 0\<rparr>,
       \<lparr>rb_uuid = ''rb2'', rb_user = ''s1'', rb_role = ''r2'', rb_project = Some ''p1'', rb_created_at = 0\<rparr>]\<rparr>"

definition example_parse :: "string \<Rightarrow> uuid option" where
  "example_parse s = (if s = ''p1'' then Some ''p1'' else None)"

theorem service_token_authorized_witness:
  "\<exists>t db'. handle_service_account_token_request example_env example_parse example_client
       \<lparr>gr_scope = ''openid project:p1'', gr_ttl = None, gr_refresh_ttl = None, gr_root_endpoint = ''''\<rparr> ''u1'' ''s1'' service_db
       = Inr (t, db') \<and> tk_user t = ''s1'' \<and> may_take_service_token service_db ''u1'' ''s1'' ''p1''"
proof -
  let ?g = "\<lparr>gr_scope = ''openid project:p1'', gr_ttl = None, gr_refresh_ttl = None, gr_root_endpoint = ''''\<rparr>"
  have e: "extract_project_from_scope ''openid project:p1'' = Inr (Some ''p1'')" by code_simp
  have low: "lower ''p1'' = ''p1''" "lower ''project:p1'' = ''project:p1''" by code_simp+
  have "is_ok (handle_service_account_token_request example_env example_parse example_client ?g ''u1'' ''s1'' service_db)"
    by (simp add: handle_service_account_token_request_def e example_parse_def project_bindings_def service_db_def
        check_service_token_permission_def get_single_def service_token_permission_def user_type_service_def example_user_def example_db_def)
      (simp add: create_token_for_user_def token_init_def low get_project_by_scope_def after_first_def get_project_by_uuid_def example_env_def)
  then obtain t db' where h: "handle_service_account_token_request example_env example_parse example_client ?g ''u1'' ''s1'' service_db
      = Inr (t, db')" by (auto simp: is_ok_iff)
  have "\<exists>piece project. extract_project_from_scope (gr_scope ?g) = Inr (Some piece) \<and> example_parse piece = Some project \<and>
    may_take_service_token service_db ''u1'' ''s1'' project \<and> tk_user t = ''s1'' \<and> tk_project t = Some project \<and> db' = add_token t service_db"
    by (rule service_token_authorized [OF h]) (auto simp: example_parse_def low example_env_def service_db_def)
  with h show ?thesis by (auto simp: example_parse_def split: if_splits)
qed


definition example_caller :: caller where
  "example_caller = \<lparr>cl_me = example_user, cl_token = ''t0'', cl_project = None, cl_granted = (\<lambda>_. False),
     cl_enforcer = (\<lambda>rule. rule \<in> {''iam.token.create'', ''iam.service_token.create''})\<rparr>"


end
