(* ===== verification/Iam_Lifecycle.thy ===== *)
theory Iam_Lifecycle
  imports Iam_Token
begin

text \<open>
  The life of access tokens: every operation that touches the token table as a step of a transition
  system whose states hold the database and the claims of every access token handed out so far; what
  regenerating and renewing mean for the tokens already handed out.
\<close>

section \<open>The token table\<close>

definition tokens_unique :: "iam_db \<Rightarrow> bool" where
  "tokens_unique db \<longleftrightarrow> distinct (map tk_uuid (db_tokens db))"

definition gens :: "iam_db \<Rightarrow> (uuid \<times> nat) list" where
  "gens db = map (\<lambda>t. (tk_uuid t, tk_generation t)) (db_tokens db)"

lemma gens_uuids: "map fst (gens db) = map tk_uuid (db_tokens db)"
  by (simp add: gens_def)

lemma gens_unique_cong: "gens db' = gens db \<Longrightarrow> tokens_unique db' = tokens_unique db"
  unfolding tokens_unique_def by (metis gens_uuids)

lemma unique_token:
  "tokens_unique db \<Longrightarrow> x \<in> set (db_tokens db) \<Longrightarrow> y \<in> set (db_tokens db) \<Longrightarrow> tk_uuid x = tk_uuid y \<Longrightarrow> x = y"
  by (auto simp: tokens_unique_def distinct_map inj_on_def)

lemma find_token:
  assumes "tokens_unique db" and "t \<in> set (db_tokens db)"
  shows "find (\<lambda>x. tk_uuid x = tk_uuid t) (db_tokens db) = Some t"
proof (cases "find (\<lambda>x. tk_uuid x = tk_uuid t) (db_tokens db)")
  case None
  with assms(2) show ?thesis by (auto simp: find_None_iff)
next
  case (Some y)
  then have "y \<in> set (db_tokens db)" "tk_uuid y = tk_uuid t" by (auto simp: find_Some_iff)
  with assms Some show ?thesis using unique_token by fastforce
qed

lemma gens_put:
  assumes "tokens_unique db" and "t \<in> set (db_tokens db)" and "tk_uuid t' = tk_uuid t"
  shows "gens (put_token t' db) = map (\<lambda>(u, g). (u, if u = tk_uuid t then tk_generation t' else g)) (gens db)"
  using assms by (auto simp: gens_def put_token_def dest: unique_token)

lemma gens_put_same:
  assumes "tokens_unique db" and "t \<in> set (db_tokens db)" and "tk_uuid t' = tk_uuid t" and "tk_generation t' = tk_generation t"
  shows "gens (put_token t' db) = gens db"
proof -
  have "(if tk_uuid x = tk_uuid t then tk_generation t' else tk_generation x) = tk_generation x" if "x \<in> set (db_tokens db)" for x
    using unique_token [OF assms(1) that assms(2)] assms(4) by auto
  then show ?thesis unfolding gens_put [OF assms(1-3)] by (simp add: gens_def)
qed

section \<open>Renewal\<close>

lemma half_bound: "0 \<le> d \<Longrightarrow> half d \<le> d"
  by (auto simp: half_def elim: oddE)

lemma put_renewed:
  assumes "distinct (map tk_uuid ts)" and "set ts \<subseteq> set (db_tokens db)" and "tokens_unique db"
  shows "db_tokens (fold (\<lambda>t db. if \<not> needs_renewal now t then db else put_token (renew now t) db) ts db) =
     map (\<lambda>t. if t \<in> set ts \<and> needs_renewal now t then renew now t else t) (db_tokens db)"
proof -
  let ?f = "\<lambda>ts t. if t \<in> set ts \<and> needs_renewal now t then renew now t else t"
  have "db_tokens (fold (\<lambda>t db. if \<not> needs_renewal now t then db else put_token (renew now t) db) ts e) = map (?f (pre @ ts)) (db_tokens db)"
    if "db_tokens e = map (?f pre) (db_tokens db)" "distinct (map tk_uuid (pre @ ts))" "set (pre @ ts) \<subseteq> set (db_tokens db)" for e pre
    using that
  proof (induction ts arbitrary: e pre)
    case (Cons t ts)
    let ?e = "if \<not> needs_renewal now t then e else put_token (renew now t) e"
    have one: "(if tk_uuid (?f pre x) = tk_uuid t then renew now t else ?f pre x) = ?f (pre @ [t]) x"
      if "x \<in> set (db_tokens db)" "needs_renewal now t" for x
    proof -
      have "tk_uuid (?f pre x) = tk_uuid x" by (simp add: renew_def)
      moreover have "tk_uuid x = tk_uuid t \<longleftrightarrow> x = t" using unique_token [OF assms(3) that(1)] Cons.prems(3) by auto
      ultimately show ?thesis using that(2) by auto
    qed
    have "db_tokens ?e = map (?f (pre @ [t])) (db_tokens db)"
    proof (cases "needs_renewal now t")
      case True
      then have "db_tokens ?e = map (\<lambda>x. if tk_uuid (?f pre x) = tk_uuid t then renew now t else ?f pre x) (db_tokens db)"
        using Cons.prems(1) by (simp add: put_token_def renew_def)
      with one True show ?thesis by simp
    next
      case False
      with Cons.prems(1) show ?thesis by auto
    qed
    from Cons.IH [OF this] Cons.prems show ?case by simp
  qed simp
  from this [of db "[]"] assms show ?thesis by simp
qed

lemma renewal_tokens:
  assumes "tokens_unique db"
  shows "db_tokens (renewal_iteration env db) =
    map (\<lambda>t. if tk_managed t \<and> tk_auto_renew t \<and> needs_renewal (ie_now env) t then renew (ie_now env) t else t) (db_tokens db)"
proof -
  have "distinct (map tk_uuid (filter (\<lambda>t. tk_managed t \<and> tk_auto_renew t) (db_tokens db)))"
    using assms by (simp add: tokens_unique_def distinct_map_filter)
  from put_renewed [OF this _ assms] show ?thesis by (auto simp: renewal_iteration_def)
qed

lemma renewal_gens: "tokens_unique db \<Longrightarrow> gens (renewal_iteration env db) = gens db"
  by (simp add: gens_def renewal_tokens renew_def)

section \<open>The transition system\<close>

inductive token_step :: "iam_db \<times> access_claims list \<Rightarrow> iam_db \<times> access_claims list \<Rightarrow> bool" where
  issue: "token_init env db a = Inr t \<Longrightarrow> tk_uuid t \<notin> tk_uuid ` set (db_tokens db) \<Longrightarrow> tk_uuid t \<notin> ac_jti ` set h \<Longrightarrow>
    token_step (db, h) (add_token t db, h)"
| hand_out: "t \<in> set (db_tokens db) \<Longrightarrow> c \<in> {access_token_info u t, managed_access_token_info client u t} \<Longrightarrow>
    token_step (db, h) (db, c # h)"
| regen: "tokens_regenerate c env u db = Inr (t, db') \<Longrightarrow> token_step (db, h) (db', h)"
| edit: "tokens_update c env u scope delta db = Inr (t, db') \<Longrightarrow> token_step (db, h) (db', h)"
| refreshed: "get_token_by_refresh_token env r scope db = Inr (t, db') \<Longrightarrow> token_step (db, h) (db', h)"
| renewed: "token_step (db, h) (renewal_iteration env db, h)"
| logged_out: "logout c db = Inr db' \<Longrightarrow> token_step (db, h) (db', h)"
| other: "db_tokens db' = db_tokens db \<Longrightarrow> token_step (db, h) (db', h)"

inductive_cases token_stepE: "token_step (db, h) s'"

inductive token_reach :: "iam_db \<times> access_claims list \<Rightarrow> bool" where
  start: "db_tokens db = [] \<Longrightarrow> token_reach (db, [])"
| step: "token_reach s \<Longrightarrow> token_step s s' \<Longrightarrow> token_reach s'"

definition token_inv :: "iam_db \<times> access_claims list \<Rightarrow> bool" where
  "token_inv s \<longleftrightarrow> tokens_unique (fst s) \<and>
     (\<forall>c \<in> set (snd s). \<exists>g. ac_gen c = Some g \<and> (\<forall>n. (ac_jti c, n) \<in> set (gens (fst s)) \<longrightarrow> g \<le> n))"

text \<open>A value that the stored token has left behind, or whose token is gone for good.\<close>

definition stale :: "access_claims \<Rightarrow> iam_db \<times> access_claims list \<Rightarrow> bool" where
  "stale c s \<longleftrightarrow> c \<in> set (snd s) \<and> (\<exists>g. ac_gen c = Some g \<and> (\<forall>n. (ac_jti c, n) \<in> set (gens (fst s)) \<longrightarrow> g < n))"

text \<open>What a step does to the generations: a fresh token starts at 0, others stay, grow or go.\<close>

definition gens_evolve :: "iam_db \<times> access_claims list \<Rightarrow> iam_db \<times> access_claims list \<Rightarrow> bool" where
  "gens_evolve s s' \<longleftrightarrow> tokens_unique (fst s') \<and> set (snd s) \<subseteq> set (snd s') \<and>
     (\<forall>u n. (u, n) \<in> set (gens (fst s')) \<longrightarrow> u \<notin> ac_jti ` set (snd s) \<or> (\<exists>m \<le> n. (u, m) \<in> set (gens (fst s)))) \<and>
     (\<forall>c \<in> set (snd s'). c \<in> set (snd s) \<or> (\<exists>g. ac_gen c = Some g \<and> (ac_jti c, g) \<in> set (gens (fst s'))))"

lemma gens_evolve_same:
  assumes "tokens_unique db" and "gens db' = gens db" shows "gens_evolve (db, h) (db', h)"
proof -
  have "tokens_unique db'" using gens_unique_cong [OF assms(2)] assms(1) by simp
  then show ?thesis by (auto simp: gens_evolve_def assms(2))
qed

lemma tokens_regenerate_Inr:
  assumes "tokens_regenerate c env u db = Inr (t', db')"
  shows "\<exists>t \<in> set (db_tokens db). tk_uuid t = u \<and> t' = regenerate env t \<and> db' = put_token t' db"
  using assms by (auto simp: tokens_regenerate_def tokens_get_def ebind_Inr_iff split: if_splits dest!: get_one_Inr)

lemma tokens_update_Inr:
  assumes "tokens_update c env u scope delta db = Inr (t', db')"
  shows "\<exists>t \<in> set (db_tokens db). tk_uuid t' = tk_uuid t \<and> tk_generation t' = tk_generation t \<and> db' = put_token t' db"
  using assms by (auto simp: tokens_update_def tokens_get_def managed_update_def ebind_Inr_iff split: if_splits dest!: get_one_Inr)

lemma refresh_token_Inr:
  assumes "get_token_by_refresh_token env r scope db = Inr (t', db')"
  shows "\<exists>t \<in> set (db_tokens db). tk_uuid t' = tk_uuid t \<and> tk_generation t' = tk_generation t \<and> db' = put_token t' db"
  using assms by (auto simp: get_token_by_refresh_token_def refresh_def ebind_Inr_iff Let_def find_Some_iff split: if_splits option.splits)

lemma gens_functional: "tokens_unique db \<Longrightarrow> (u, m) \<in> set (gens db) \<Longrightarrow> (u, n) \<in> set (gens db) \<Longrightarrow> m = n"
  by (auto simp: gens_def dest: unique_token)

lemma gens_member: "t \<in> set (db_tokens db) \<Longrightarrow> (tk_uuid t, tk_generation t) \<in> set (gens db)"
  by (auto simp: gens_def)

lemma put_evolve:
  assumes "tokens_unique db" and "t \<in> set (db_tokens db)" and "tk_uuid t' = tk_uuid t" and "tk_generation t \<le> tk_generation t'"
  shows "gens_evolve (db, h) (put_token t' db, h)"
proof -
  note g = gens_put [OF assms(1-3)]
  have "map fst (gens (put_token t' db)) = map fst (gens db)" unfolding g by (induction "gens db") auto
  then have "tokens_unique (put_token t' db)" using assms(1) by (metis gens_uuids tokens_unique_def)
  moreover have "\<exists>m \<le> n. (u, m) \<in> set (gens db)" if "(u, n) \<in> set (gens (put_token t' db))" for u n
  proof -
    from that obtain m where m: "(u, m) \<in> set (gens db)" "n = (if u = tk_uuid t then tk_generation t' else m)"
      unfolding g by auto
    have "m = tk_generation t" if "u = tk_uuid t" using gens_functional [OF assms(1)] gens_member [OF assms(2)] m(1) that by blast
    with m assms(4) show ?thesis by (intro exI [of _ m]) auto
  qed
  ultimately show ?thesis by (auto simp: gens_evolve_def)
qed

lemma claims_generation:
  assumes "c \<in> {access_token_info u t, managed_access_token_info client u t}"
  shows "ac_jti c = tk_uuid t" "ac_gen c = Some (tk_generation t)"
  using assms by (auto simp: access_token_info_def managed_access_token_info_def Let_def)

lemma step_evolve:
  assumes "token_step s s'" and "tokens_unique (fst s)" shows "gens_evolve s s'"
  using assms
proof (induction rule: token_step.induct)
  case (issue env db a t h)
  have "gens (add_token t db) = gens db @ [(tk_uuid t, tk_generation t)]" by (simp add: gens_def)
  moreover have "tokens_unique (add_token t db)" using issue by (simp add: tokens_unique_def)
  ultimately show ?case using issue by (auto simp: gens_evolve_def)
next
  case (hand_out t db c u client h)
  then show ?case using claims_generation [OF hand_out(2)] gens_member [OF hand_out(1)] by (auto simp: gens_evolve_def)
next
  case (regen c env u db t' db' h)
  then obtain t where "t \<in> set (db_tokens db)" "t' = regenerate env t" "db' = put_token t' db" using tokens_regenerate_Inr by blast
  with regen show ?case by (auto intro!: put_evolve simp: regenerate_def)
next
  case (edit c env u scope delta db t' db' h)
  then show ?case using tokens_update_Inr [OF edit(1)] put_evolve by auto
next
  case (refreshed env r scope db t' db' h)
  then show ?case using refresh_token_Inr [OF refreshed(1)] put_evolve by auto
next
  case (renewed db h env)
  then show ?case by (auto intro: gens_evolve_same simp: renewal_gens)
next
  case (logged_out c db db' h)
  then obtain t :: token where "db_tokens db' = filter (\<lambda>x. tk_uuid x \<noteq> tk_uuid t) (db_tokens db)"
    by (auto simp: logout_def ebind_Inr_iff split: if_splits)
  moreover from this have "tokens_unique db'" using logged_out(2) by (simp add: tokens_unique_def distinct_map_filter)
  ultimately show ?case by (auto simp: gens_evolve_def gens_def)
next
  case (other db' db h)
  then show ?case by (auto intro: gens_evolve_same simp: gens_def)
qed

lemma evolve_old:
  assumes "gens_evolve s s'" and "c \<in> set (snd s)" and "(ac_jti c, n) \<in> set (gens (fst s'))"
  obtains m where "m \<le> n" "(ac_jti c, m) \<in> set (gens (fst s))"
  using assms unfolding gens_evolve_def by (meson imageI)

lemma stale_evolve:
  assumes "gens_evolve s s'" and "stale c s" shows "stale c s'"
proof -
  from assms(2) obtain g where g: "c \<in> set (snd s)" "ac_gen c = Some g" "\<forall>n. (ac_jti c, n) \<in> set (gens (fst s)) \<longrightarrow> g < n"
    by (auto simp: stale_def)
  have "g < n" if "(ac_jti c, n) \<in> set (gens (fst s'))" for n
  proof -
    from evolve_old [OF assms(1) g(1) that] obtain m where "m \<le> n" "(ac_jti c, m) \<in> set (gens (fst s))" .
    with g(3) show ?thesis by fastforce
  qed
  with g assms(1) show ?thesis by (auto simp: stale_def gens_evolve_def)
qed

lemma inv_evolve:
  assumes "gens_evolve s s'" and "token_inv s" shows "token_inv s'"
proof -
  have "\<exists>g. ac_gen c = Some g \<and> (\<forall>n. (ac_jti c, n) \<in> set (gens (fst s')) \<longrightarrow> g \<le> n)" if "c \<in> set (snd s')" for c
  proof (cases "c \<in> set (snd s)")
    case True
    with assms(2) obtain g where g: "ac_gen c = Some g" "\<forall>n. (ac_jti c, n) \<in> set (gens (fst s)) \<longrightarrow> g \<le> n"
      by (auto simp: token_inv_def)
    have "g \<le> n" if "(ac_jti c, n) \<in> set (gens (fst s'))" for n
    proof -
      from evolve_old [OF assms(1) True that] obtain m where "m \<le> n" "(ac_jti c, m) \<in> set (gens (fst s))" .
      with g(2) show ?thesis by fastforce
    qed
    with g show ?thesis by blast
  next
    case False
    with assms(1) that obtain g where g: "ac_gen c = Some g" "(ac_jti c, g) \<in> set (gens (fst s'))" by (auto simp: gens_evolve_def)
    have "tokens_unique (fst s')" using assms(1) by (simp add: gens_evolve_def)
    from gens_functional [OF this g(2)] have "\<forall>n. (ac_jti c, n) \<in> set (gens (fst s')) \<longrightarrow> g \<le> n" by auto
    with g(1) show ?thesis by blast
  qed
  with assms(1) show ?thesis by (simp add: token_inv_def gens_evolve_def)
qed

lemma token_reach_inv: "token_reach s \<Longrightarrow> token_inv s"
proof (induction rule: token_reach.induct)
  case (start db)
  then show ?case by (simp add: token_inv_def tokens_unique_def)
next
  case (step s s')
  then show ?case using inv_evolve step_evolve by (metis token_inv_def)
qed

lemma stale_steps:
  assumes "token_step\<^sup>*\<^sup>* s s'" and "token_inv s" and "stale c s"
  shows "stale c s' \<and> token_inv s'"
  using assms
proof (induction rule: rtranclp_induct)
  case (step y z)
  then have "gens_evolve y z" using step_evolve by (simp add: token_inv_def)
  with step stale_evolve inv_evolve show ?case by blast
qed simp

lemma stale_refused:
  assumes "stale c (db, h)" shows "get_introspection_info env c otp db = Inl InvalidAuthToken"
proof (cases "find (\<lambda>t. tk_uuid t = ac_jti c) (db_tokens db)")
  case (Some t)
  then have "t \<in> set (db_tokens db)" "tk_uuid t = ac_jti c" by (auto simp: find_Some_iff)
  with assms gens_member [of t db] have "\<not> generation_matches c t" by (auto simp: stale_def generation_matches_def)
  with Some show ?thesis by (simp add: get_introspection_info_def)
qed (simp add: get_introspection_info_def)

section \<open>Properties\<close>

text \<open>C16. Regenerating a token takes every value of it handed out so far out of use for good: in every
  state that later issues, updates, refreshes, renewals, regenerations, logouts and changes of other data can
  lead to, the driver refuses it, at any time.\<close>

theorem regenerated_token_refused:
  assumes "token_reach (db, h)" and "tokens_regenerate c env u db = Inr (t, db1)"
    and "old \<in> set h" and "ac_jti old = u" and "token_step\<^sup>*\<^sup>* (db1, h) (db2, h2)"
  shows "get_introspection_info env2 old otp db2 = Inl InvalidAuthToken"
proof -
  from assms(1) have inv: "token_inv (db, h)" by (rule token_reach_inv)
  then have uniq: "tokens_unique db" by (simp add: token_inv_def)
  from assms(2) have st: "token_step (db, h) (db1, h)" by (rule token_step.regen)
  from tokens_regenerate_Inr [OF assms(2)] obtain x where x: "x \<in> set (db_tokens db)" "tk_uuid x = u" "t = regenerate env x"
    "db1 = put_token t db" by blast
  from inv assms(3) obtain g where g: "ac_gen old = Some g" "\<forall>n. (u, n) \<in> set (gens db) \<longrightarrow> g \<le> n"
    using assms(4) by (auto simp: token_inv_def)
  with gens_member [OF x(1)] x(2) have "g \<le> tk_generation x" by simp
  moreover have "(u, n) \<in> set (gens db1) \<Longrightarrow> n = Suc (tk_generation x)" for n
    using gens_put [OF uniq x(1), of t] x by (auto simp: regenerate_def)
  ultimately have "stale old (db1, h)" using g(1) assms(3,4) by (fastforce simp: stale_def)
  moreover have "token_inv (db1, h)" using inv_evolve [OF step_evolve [OF st] inv] uniq by simp
  ultimately have "stale old (db2, h2)" using stale_steps [OF assms(5)] by blast
  then show ?thesis by (rule stale_refused)
qed

definition example_token :: token where
  "example_token = \<lparr>tk_uuid = ''token'', tk_user = ''u1'', tk_client = ''c1'', tk_project = Some ''p1'', tk_scope = '''',
     tk_issuer = '''', tk_audience = None, tk_nonce = None, tk_created_at = 10 * sec, tk_expiration_at = 11 * sec,
     tk_expiration_delta = sec, tk_refresh_expiration_at = 11 * sec, tk_refresh_uuid = ''refresh'', tk_managed = True,
     tk_auto_renew = True, tk_generation = 0\<rparr>"

theorem regenerated_token_refused_witness:
  "\<exists>t db1. tokens_regenerate (example_caller\<lparr>cl_enforcer := (\<lambda>_. True)\<rparr>) example_env ''token'' (add_token example_token service_db)
       = Inr (t, db1) \<and>
     get_introspection_info example_env (access_token_info example_user example_token) None db1 = Inl InvalidAuthToken"
proof -
  let ?c = "example_caller\<lparr>cl_enforcer := (\<lambda>_. True)\<rparr>" and ?db = "add_token example_token service_db"
  let ?old = "access_token_info example_user example_token"
  let ?a = "\<lparr>ta_user = ''u1'', ta_client = ''c1'', ta_scope = '''', ta_project = Some ''p1'', ta_issuer = '''', ta_audience = None,
       ta_nonce = None, ta_delta = sec, ta_refresh_delta = sec, ta_managed = True, ta_auto_renew = True\<rparr>"
  have "token_init example_env service_db ?a = Inr example_token"
    by (simp add: token_init_def example_token_def example_env_def)
  from token_step.issue [OF this, of "[]"] have "token_step (service_db, []) (?db, [])" by (simp add: service_db_def example_db_def)
  moreover have "token_reach (service_db, [])" by (rule token_reach.start) (simp add: service_db_def example_db_def)
  moreover have "token_step (?db, []) (?db, [?old])" by (rule token_step.hand_out) auto
  ultimately have reach: "token_reach (?db, [?old])" by (meson token_reach.step)
  have "is_ok (tokens_regenerate ?c example_env ''token'' ?db)"
    by (simp add: tokens_regenerate_def tokens_get_def get_one_def token_visible_def enforce_token_permissions_def
        add_token_def example_token_def service_db_def example_db_def example_caller_def example_user_def enforce_def)
  then obtain t db1 where r: "tokens_regenerate ?c example_env ''token'' ?db = Inr (t, db1)" by (auto simp: is_ok_iff)
  have "get_introspection_info example_env ?old None db1 = Inl InvalidAuthToken"
    by (rule regenerated_token_refused [OF reach r _ _ rtranclp.rtrancl_refl]) (simp_all add: access_token_info_def example_token_def)
  with r show ?thesis by blast
qed

text \<open>C17. A run of the renewal service keeps a managed token that renews itself alive: whatever it was before,
  it is accepted at every moment until half of its lifetime has passed since the run, which is what the
  next run has to meet; its generation is kept, so what was handed out before stays in use, it never expires
  earlier than it would have, and every other token is as it was.\<close>

theorem renewal_keeps_alive:
  assumes "tokens_unique db" and "t \<in> set (db_tokens db)" and "0 \<le> tk_expiration_delta t"
    and "tk_managed t" and "tk_auto_renew t" and "ie_now env' < ie_now env + half (tk_expiration_delta t)"
  shows "\<exists>t' \<in> set (db_tokens (renewal_iteration env db)). tk_uuid t' = tk_uuid t \<and> tk_generation t' = tk_generation t \<and>
      tk_expiration_at t \<le> tk_expiration_at t' \<and> check_expiration env' t' \<and>
      (\<forall>claims otp. ac_jti claims = tk_uuid t \<and> generation_matches claims t \<longrightarrow>
        get_introspection_info env' claims otp (renewal_iteration env db) = introspect env' claims otp t' (renewal_iteration env db)) \<and>
      (\<forall>x \<in> set (db_tokens db). \<not> (tk_managed x \<and> tk_auto_renew x) \<longrightarrow> x \<in> set (db_tokens (renewal_iteration env db)))"
proof -
  let ?db = "renewal_iteration env db" and ?t = "if needs_renewal (ie_now env) t then renew (ie_now env) t else t"
  note ts = renewal_tokens [OF assms(1), of env]
  have mem: "?t \<in> set (db_tokens ?db)" using assms(2,4,5) by (auto simp: ts intro!: rev_image_eqI [OF assms(2)])
  have h: "half (tk_expiration_delta t) \<le> tk_expiration_delta t" using assms(3) by (rule half_bound)
  have alive: "check_expiration env' ?t" "tk_expiration_at t \<le> tk_expiration_at ?t"
    using assms(6) h by (auto simp: check_expiration_def needs_renewal_def renew_def)
  have same: "tk_uuid ?t = tk_uuid t" "tk_generation ?t = tk_generation t" by (simp_all add: renew_def)
  have "tokens_unique ?db" using gens_unique_cong [OF renewal_gens [OF assms(1)]] assms(1) by blast
  from find_token [OF this mem] same(1) have "find (\<lambda>x. tk_uuid x = tk_uuid t) (db_tokens ?db) = Some ?t" by simp
  with alive same(2) have "get_introspection_info env' claims otp ?db = introspect env' claims otp ?t ?db"
    if "ac_jti claims = tk_uuid t" "generation_matches claims t" for claims otp
    using that by (simp add: get_introspection_info_def generation_matches_def)
  moreover have "x \<in> set (db_tokens ?db)" if "x \<in> set (db_tokens db)" "\<not> (tk_managed x \<and> tk_auto_renew x)" for x
    using that by (auto simp: ts intro!: rev_image_eqI [OF that(1)])
  ultimately show ?thesis using mem alive same by (intro bexI [OF _ mem]) blast
qed

theorem renewal_keeps_alive_witness:
  "\<exists>t' \<in> set (db_tokens (renewal_iteration example_env (add_token example_token service_db))).
     tk_uuid t' = ''token'' \<and> check_expiration (example_env\<lparr>ie_now := 10 * sec + 400000\<rparr>) t'"
proof -
  have u: "tokens_unique (add_token example_token service_db)" by (simp add: tokens_unique_def service_db_def example_db_def)
  have m: "example_token \<in> set (db_tokens (add_token example_token service_db))" by simp
  have "ie_now (example_env\<lparr>ie_now := 10 * sec + 400000\<rparr>) < ie_now example_env + half (tk_expiration_delta example_token)"
    by (simp add: example_env_def example_token_def half_def sec_def)
  from renewal_keeps_alive [OF u m _ _ _ this] show ?thesis by (force simp: example_token_def sec_def)
qed

end
