(* ===== verification/Iam_Oidc.thy ===== *)
theory Iam_Oidc
  imports Iam_Lifecycle
begin

text \<open>
  Sign-in through an identity provider of the platform (\<open>Idp\<close> and \<open>IdpAuthorizationInfo\<close> of
  \<open>user_api/iam/dm/models.py\<close>): authorization, confirmation by a user, exchange of the code with and
  without PKCE, and the token endpoint of the client controller with its answer.  The digest of a
  verifier (\<open>s256\<close>, base64 of SHA-256 without padding) and the regular expressions of callbacks
  (\<open>fullmatch\<close>) are parameters; URLs are built by the standard library and stay structured values.
\<close>

section \<open>Authorization\<close>

definition callback_check :: "(string \<Rightarrow> string \<Rightarrow> bool) \<Rightarrow> callback \<Rightarrow> string \<Rightarrow> bool" where
  "callback_check fullmatch cb uri = (case cb of
     CallbackUri c \<Rightarrow> c = uri | CallbackUriList cs \<Rightarrow> uri \<in> set cs | CallbackRegexp pattern \<Rightarrow> fullmatch pattern uri)"

definition is_alnum :: "char \<Rightarrow> bool" where
  "is_alnum c \<longleftrightarrow> (let n = of_char c :: nat in 48 \<le> n \<and> n \<le> 57 \<or> 65 \<le> n \<and> n \<le> 90 \<or> 97 \<le> n \<and> n \<le> 122)"

definition valid_challenge :: "string \<Rightarrow> bool" where
  "valid_challenge s \<longleftrightarrow> length s = 43 \<and> list_all (\<lambda>c. is_alnum c \<or> c = CHR ''_'' \<or> c = CHR ''-'') s"

definition valid_verifier :: "string \<Rightarrow> bool" where
  "valid_verifier s \<longleftrightarrow> 43 \<le> length s \<and> length s \<le> 128 \<and>
     list_all (\<lambda>c. is_alnum c \<or> c \<in> {CHR ''.'', CHR ''_'', CHR ''~'', CHR ''-''}) s"

datatype redirect = ErrorRedirect string "(string \<times> string) list"
  | LoginRedirect uuid uuid uuid | CallbackRedirect string

record authorize_args =
  az_client_id :: "string option"
  az_redirect_uri :: "string option"
  az_state :: "string option"
  az_response_type :: "string option"
  az_scope :: "string option"
  az_nonce :: string
  az_challenge :: "string option"
  az_challenge_method :: "string option"

definition idp_client :: "idp \<Rightarrow> iam_db \<Rightarrow> iam_error + iam_client" where
  "idp_client i db = get_one (\<lambda>c. ic_uuid c = ip_client i) (db_clients db)"

definition new_auth_info :: "iam_env \<Rightarrow> idp \<Rightarrow> string \<Rightarrow> string \<Rightarrow> authorize_args \<Rightarrow> auth_info" where
  "new_auth_info env i uri scope a =
     \<lparr>au_uuid = ie_uuid env ''auth'', au_idp = ip_uuid i, au_state = (case az_state a of None \<Rightarrow> '''' | Some s \<Rightarrow> s),
      au_nonce = az_nonce a, au_redirect_uri = uri, au_scope = scope, au_expiration_at = ie_now env + 10 * 60 * sec,
      au_token = None, au_code = ie_uuid env ''auth_code'', au_challenge = az_challenge a,
      au_challenge_method = az_challenge_method a\<rparr>"

definition truthy :: "string option \<Rightarrow> bool" where
  "truthy s \<longleftrightarrow> s \<noteq> None \<and> s \<noteq> Some ''''"

text \<open>The parameters merged into the query of the redirect URI.\<close>

definition error_redirect :: "string \<Rightarrow> string option \<Rightarrow> string \<Rightarrow> string \<Rightarrow> redirect" where
  "error_redirect uri state error description = ErrorRedirect uri
     ([(''error'', error), (''error_description'', description)] @ (case state of None \<Rightarrow> [] | Some s \<Rightarrow> [(''state'', s)]))"

definition authorize ::
  "iam_env \<Rightarrow> (string \<Rightarrow> string \<Rightarrow> bool) \<Rightarrow> idp \<Rightarrow> authorize_args \<Rightarrow> iam_db \<Rightarrow> iam_error + (redirect \<times> iam_db)" where
  "authorize env fullmatch i a db =
     ebind (idp_client i db) (\<lambda>client.
       if \<not> truthy (az_client_id a) \<or> Some (ic_client_id client) \<noteq> az_client_id a then Inl InvalidClientId
       else if \<not> truthy (az_redirect_uri a) \<or> \<not> callback_check fullmatch (ip_callback i) (the (az_redirect_uri a))
       then Inl InvalidRedirectUri
       else
         let uri = the (az_redirect_uri a);
             error = (\<lambda>e d. Inr (error_redirect uri (az_state a) e d, db))
         in if \<not> truthy (az_response_type a) then error ''invalid_request'' ''response_type is required''
            else if az_response_type a \<noteq> Some ''code'' then error ''unsupported_response_type'' ''Only response_type=code is supported''
            else case az_scope a of
              None \<Rightarrow> error ''invalid_request'' ''scope is required''
            | Some scope \<Rightarrow>
              if ip_nonce_required i \<and> az_nonce a = '''' then error ''invalid_request'' ''nonce is required''
              else if (az_challenge a \<noteq> None \<or> az_challenge_method a \<noteq> None) \<and>
                 \<not> (az_challenge_method a = Some ''S256'' \<and> (case az_challenge a of None \<Rightarrow> False | Some c \<Rightarrow> valid_challenge c))
              then error ''invalid_request'' ''PKCE requires a valid S256 code_challenge''
              else let info = new_auth_info env i uri scope a
                in Inr (LoginRedirect (au_uuid info) (ip_client i) (ip_uuid i), db\<lparr>db_auth_infos := db_auth_infos db @ [info]\<rparr>))"

section \<open>Confirmation\<close>

definition put_auth_info :: "auth_info \<Rightarrow> iam_db \<Rightarrow> iam_db" where
  "put_auth_info a db = db\<lparr>db_auth_infos := map (\<lambda>x. if au_uuid x = au_uuid a then a else x) (db_auth_infos db)\<rparr>"

definition auth_idp :: "auth_info \<Rightarrow> iam_db \<Rightarrow> iam_error + idp" where
  "auth_idp a db = get_one (\<lambda>i. ip_uuid i = au_idp a) (db_idps db)"

definition confirm :: "caller \<Rightarrow> iam_env \<Rightarrow> string \<Rightarrow> auth_info \<Rightarrow> iam_db \<Rightarrow> iam_error + (auth_info \<times> iam_db)" where
  "confirm c env app_url a db =
     ebind (auth_idp a db) (\<lambda>i.
       if ip_nonce_required i \<and> au_nonce a = '''' then Inl InvalidNonce
       else ebind (token_my c db) (\<lambda>current. ebind (idp_client i db) (\<lambda>client.
         ebind (token_init env db \<lparr>ta_user = tk_user current, ta_client = ic_uuid client, ta_scope = au_scope a,
             ta_project = tk_project current, ta_issuer = app_url @ ''/v1/iam/clients/'' @ ic_uuid client,
             ta_audience = Some (ic_client_id client), ta_nonce = Some (au_nonce a), ta_delta = default_expiration_delta,
             ta_refresh_delta = default_refresh_expiration_delta, ta_managed = False, ta_auto_renew = False\<rparr>) (\<lambda>t.
           let a = a\<lparr>au_token := Some (tk_uuid t)\<rparr> in Inr (a, put_auth_info a (add_token t db))))))"

definition construct_callback_uri :: "auth_info \<Rightarrow> iam_error + string" where
  "construct_callback_uri a =
     (if au_redirect_uri a = '''' then Inl InvalidRedirectUri
      else Inr (au_redirect_uri a @ ''?code='' @ au_code a @ ''&state='' @ au_state a))"

definition auth_confirm :: "caller \<Rightarrow> iam_env \<Rightarrow> string \<Rightarrow> uuid \<Rightarrow> iam_db \<Rightarrow> iam_error + (redirect \<times> iam_db)" where
  "auth_confirm c env app_url u db =
     ebind (get_one (\<lambda>a. au_uuid a = u) (db_auth_infos db)) (\<lambda>a.
       ebind (confirm c env app_url a db) (\<lambda>(a, db).
         ebind (construct_callback_uri a) (\<lambda>uri. Inr (CallbackRedirect uri, db))))"

section \<open>Exchange of the code\<close>

definition pkce_accepts :: "iam_env \<Rightarrow> (string \<Rightarrow> string) \<Rightarrow> iam_client \<Rightarrow> string \<Rightarrow> string option \<Rightarrow> auth_info \<Rightarrow> iam_db \<Rightarrow> string \<Rightarrow> bool" where
  "pkce_accepts env s256 client redirect_uri verifier a db challenge \<longleftrightarrow>
     (case auth_idp a db of Inl _ \<Rightarrow> False | Inr i \<Rightarrow> ip_client i = ic_uuid client) \<and>
     au_redirect_uri a = redirect_uri \<and> \<not> au_expiration_at a \<le> ie_now env \<and> au_token a \<noteq> None \<and>
     (case verifier of None \<Rightarrow> False
      | Some v \<Rightarrow> valid_verifier v \<and> au_challenge_method a = Some ''S256'' \<and> s256 v = challenge)"

definition code_accepted :: "iam_env \<Rightarrow> (string \<Rightarrow> string) \<Rightarrow> iam_client \<Rightarrow> string \<Rightarrow> string option \<Rightarrow> auth_info \<Rightarrow> iam_db \<Rightarrow> bool" where
  "code_accepted env s256 client redirect_uri verifier a db =
     (if truthy (au_challenge a) then pkce_accepts env s256 client redirect_uri verifier a db (the (au_challenge a))
      else verifier = None)"

definition get_token_by_authorization_code ::
  "iam_env \<Rightarrow> (string \<Rightarrow> string) \<Rightarrow> iam_client \<Rightarrow> uuid \<Rightarrow> string \<Rightarrow> string option \<Rightarrow> iam_db \<Rightarrow> iam_error + (uuid option \<times> iam_db)" where
  "get_token_by_authorization_code env s256 client code redirect_uri verifier db =
     (case find (\<lambda>a. au_code a = code) (db_auth_infos db) of
        None \<Rightarrow> Inl CredentialsAreInvalid
      | Some a \<Rightarrow> if \<not> code_accepted env s256 client redirect_uri verifier a db then Inl InvalidPkceGrant
          else Inr (au_token a, db\<lparr>db_auth_infos := filter (\<lambda>x. au_uuid x \<noteq> au_uuid a) (db_auth_infos db)\<rparr>))"

section \<open>The token endpoint\<close>

record id_claims =
  id_nonce :: "string option"
  id_sub :: "uuid option"
  id_username :: "string option"
  id_email :: "(string \<times> bool) option"

definition extend_structure_by_scope :: "user \<Rightarrow> token \<Rightarrow> id_claims" where
  "extend_structure_by_scope u t = (let scopes = split_on CHR '' '' (tk_scope t) in
     \<lparr>id_nonce = (if truthy (tk_nonce t) then tk_nonce t else None),
      id_sub = (if ''openid'' \<in> set scopes then Some (us_uuid u) else None),
      id_username = (if ''profile'' \<in> set scopes then Some (us_name u) else None),
      id_email = (if ''email'' \<in> set scopes then Some (us_email u, us_email_verified u) else None)\<rparr>)"

text \<open>\<open>timedelta.seconds\<close>: the seconds of the duration without its days.\<close>

definition timedelta_seconds :: "int \<Rightarrow> int" where
  "timedelta_seconds d = (d div sec) mod 86400"

record token_response =
  re_access :: access_claims
  re_expires_at :: int
  re_expires_in :: int
  re_id :: id_claims
  re_project :: "uuid option"
  re_refresh :: uuid
  re_refresh_expires_in :: int
  re_scope :: string

definition get_response_body :: "iam_env \<Rightarrow> user \<Rightarrow> token \<Rightarrow> token_response" where
  "get_response_body env u t =
     \<lparr>re_access = access_token_info u t, re_expires_at = tk_expiration_at t div sec,
      re_expires_in = timedelta_seconds (tk_expiration_at t - ie_now env), re_id = extend_structure_by_scope u t,
      re_project = tk_project t, re_refresh = tk_refresh_uuid t,
      re_refresh_expires_in = timedelta_seconds (tk_refresh_expiration_at t - ie_now env), re_scope = tk_scope t\<rparr>"

definition respond :: "iam_env \<Rightarrow> uuid option \<Rightarrow> iam_db \<Rightarrow> iam_error + (token_response \<times> iam_db)" where
  "respond env u db = (case u of None \<Rightarrow> Inl BadAttribute
     | Some u \<Rightarrow> ebind (get_one (\<lambda>t. tk_uuid t = u) (db_tokens db)) (\<lambda>t.
         ebind (get_one (\<lambda>x. us_uuid x = tk_user t) (db_users db)) (\<lambda>x. Inr (get_response_body env x t, db))))"

definition get_token ::
  "iam_env \<Rightarrow> (string \<Rightarrow> uuid option) \<Rightarrow> (string \<Rightarrow> string) \<Rightarrow> caller option \<Rightarrow> iam_client \<Rightarrow> token_request \<Rightarrow> iam_db \<Rightarrow>
    iam_error + (token_response \<times> iam_db)" where
  "get_token env parse_uuid s256 c client r db =
     (case dget grant_type_map (tr_grant_type r) of
        Some (attr, getter) \<Rightarrow>
          ebind (password_grant env parse_uuid client r attr getter db) (\<lambda>(t, db). respond env (Some (tk_uuid t)) db)
      | None \<Rightarrow>
          if tr_grant_type r = ''refresh_token'' then
            (case tr_refresh_token r of None \<Rightarrow> Inl InvalidRefreshToken
             | Some u \<Rightarrow> ebind (get_token_by_refresh_token env u (tr_refresh_scope r) db)
                 (\<lambda>(t, db). respond env (Some (tk_uuid t)) db))
          else if tr_grant_type r = ''authorization_code'' then
            ebind (get_token_by_authorization_code env s256 client (tr_code r) (tr_redirect_uri r) (tr_code_verifier r) db)
              (\<lambda>(t, db). respond env t db)
          else if tr_grant_type r = ''access_token'' then
            (if \<not> truthy (tr_account r) then Inl ServiceAccountUuidRequired
             else case c of None \<Rightarrow> Inl InvalidAuthToken
               | Some c \<Rightarrow> ebind (handle_service_account_token_request env parse_uuid client (tr_grant r) (us_uuid (cl_me c))
                     (the (tr_account r)) db) (\<lambda>(t, db). respond env (Some (tk_uuid t)) db))
          else Inl InvalidGrantType)"

section \<open>Facts\<close>

lemma exchange_Inr:
  "get_token_by_authorization_code env s256 client code uri verifier db = Inr (tok, db') \<longleftrightarrow>
     (\<exists>a. find (\<lambda>a. au_code a = code) (db_auth_infos db) = Some a \<and> code_accepted env s256 client uri verifier a db \<and>
       tok = au_token a \<and> db' = db\<lparr>db_auth_infos := filter (\<lambda>x. au_uuid x \<noteq> au_uuid a) (db_auth_infos db)\<rparr>)"
  by (auto simp: get_token_by_authorization_code_def split: option.splits if_splits)

lemma pkce_accepts_iff:
  "pkce_accepts env s256 client uri verifier a db challenge \<longleftrightarrow>
     (\<exists>i. auth_idp a db = Inr i \<and> ip_client i = ic_uuid client) \<and> au_redirect_uri a = uri \<and> ie_now env < au_expiration_at a \<and>
     au_token a \<noteq> None \<and> (\<exists>v. verifier = Some v \<and> valid_verifier v \<and> au_challenge_method a = Some ''S256'' \<and> s256 v = challenge)"
  by (auto simp: pkce_accepts_def split: sum.splits option.splits)

lemma find_unique_key:
  "distinct (map f xs) \<Longrightarrow> x \<in> set xs \<Longrightarrow> f x = k \<Longrightarrow> find (\<lambda>y. f y = k) xs = Some x"
proof (induction xs)
  case (Cons y xs)
  then show ?case by (cases "y = x") (auto simp: image_iff)
qed simp

lemma authorize_login:
  assumes "authorize env fullmatch i a db = Inr (LoginRedirect u cl ip, db')"
  obtains client uri scope where "idp_client i db = Inr client" "az_client_id a = Some (ic_client_id client)"
    "az_redirect_uri a = Some uri" "uri \<noteq> ''''" "callback_check fullmatch (ip_callback i) uri" "az_scope a = Some scope"
    "az_challenge a \<noteq> None \<longrightarrow> az_challenge_method a = Some ''S256''" "u = ie_uuid env ''auth''"
    "db' = db\<lparr>db_auth_infos := db_auth_infos db @ [new_auth_info env i uri scope a]\<rparr>"
proof -
  from assms obtain client where cl: "idp_client i db = Inr client" by (auto simp: authorize_def ebind_Inr_iff)
  with assms obtain uri scope where uri: "az_client_id a = Some (ic_client_id client)" "az_redirect_uri a = Some uri" "uri \<noteq> ''''"
    "callback_check fullmatch (ip_callback i) uri" "az_scope a = Some scope"
    by (cases "az_redirect_uri a"; cases "az_scope a") (auto simp: authorize_def truthy_def Let_def error_redirect_def split: if_splits)
  with assms cl have "az_challenge a \<noteq> None \<longrightarrow> az_challenge_method a = Some ''S256''"
    "u = ie_uuid env ''auth'' \<and> db' = db\<lparr>db_auth_infos := db_auth_infos db @ [new_auth_info env i uri scope a]\<rparr>"
    by (auto simp: authorize_def truthy_def Let_def new_auth_info_def error_redirect_def split: if_splits option.splits)
  with cl uri show ?thesis by (intro that) auto
qed

lemma auth_confirm_Inr:
  assumes "auth_confirm c env app_url u db = Inr (r, db')"
  obtains a i current client t where "get_one (\<lambda>a. au_uuid a = u) (db_auth_infos db) = Inr a" "auth_idp a db = Inr i"
    "\<not> (ip_nonce_required i \<and> au_nonce a = '''')" "token_my c db = Inr current" "idp_client i db = Inr client"
    "tk_user t = tk_user current" "tk_client t = ic_uuid client" "tk_nonce t = Some (au_nonce a)" "tk_scope t = au_scope a"
    "tk_audience t = Some (ic_client_id client)" "au_redirect_uri a \<noteq> ''''"
    "db' = put_auth_info (a\<lparr>au_token := Some (tk_uuid t)\<rparr>) (add_token t db)"
    "r = CallbackRedirect (au_redirect_uri a @ ''?code='' @ au_code a @ ''&state='' @ au_state a)"
proof -
  from assms obtain a a' d uri where a: "get_one (\<lambda>a. au_uuid a = u) (db_auth_infos db) = Inr a"
    "confirm c env app_url a db = Inr (a', d)" "construct_callback_uri a' = Inr uri" "r = CallbackRedirect uri" "db' = d"
    by (auto simp: auth_confirm_def ebind_Inr_iff)
  from a(2) obtain i current client args t where p: "auth_idp a db = Inr i" "\<not> (ip_nonce_required i \<and> au_nonce a = '''')"
    "token_my c db = Inr current" "idp_client i db = Inr client" "token_init env db args = Inr t"
    "ta_user args = tk_user current" "ta_client args = ic_uuid client" "ta_nonce args = Some (au_nonce a)"
    "ta_scope args = au_scope a" "ta_audience args = Some (ic_client_id client)"
    "a' = a\<lparr>au_token := Some (tk_uuid t)\<rparr>" "d = put_auth_info a' (add_token t db)"
    by (force simp: confirm_def ebind_Inr_iff Let_def split: if_splits)
  from p(5) have t: "tk_user t = ta_user args" "tk_client t = ta_client args" "tk_nonce t = ta_nonce args" "tk_scope t = ta_scope args"
    "tk_audience t = ta_audience args" by (auto simp: token_init_def ebind_Inr_iff)
  from a p(11) have u: "au_redirect_uri a \<noteq> ''''" "r = CallbackRedirect (au_redirect_uri a @ ''?code='' @ au_code a @ ''&state='' @ au_state a)"
    by (auto simp: construct_callback_uri_def split: if_splits)
  show ?thesis by (rule that [OF a(1) p(1-4) _ _ _ _ _ u(1) _ u(2)]) (use t p a(5) in simp_all)
qed

section \<open>Properties\<close>

text \<open>C18. An authorization code is exchanged at most once, for the token the confirming user attached to it;
  and a code requested with PKCE only by the client of its identity provider, with the redirect URI of the
  request, before it expires, and with a verifier whose digest is the challenge.\<close>

theorem pkce_code_exchange:
  assumes "get_token_by_authorization_code env s256 client code uri verifier db = Inr (tok, db')"
    and "distinct (map au_code (db_auth_infos db))"
  shows "(\<exists>a \<in> set (db_auth_infos db). au_code a = code \<and> tok = au_token a \<and>
      (if truthy (au_challenge a)
       then (\<exists>i \<in> set (db_idps db). ip_uuid i = au_idp a \<and> ip_client i = ic_uuid client) \<and> au_redirect_uri a = uri \<and>
         ie_now env < au_expiration_at a \<and> tok \<noteq> None \<and> au_challenge_method a = Some ''S256'' \<and>
         (\<exists>v. verifier = Some v \<and> valid_verifier v \<and> au_challenge a = Some (s256 v))
       else verifier = None)) \<and>
    (\<forall>env2 client2 uri2 verifier2.
      get_token_by_authorization_code env2 s256 client2 code uri2 verifier2 db' = Inl CredentialsAreInvalid)"
proof -
  from assms(1) obtain a where a: "find (\<lambda>a. au_code a = code) (db_auth_infos db) = Some a"
    and ok: "code_accepted env s256 client uri verifier a db" and tok: "tok = au_token a"
    and db': "db' = db\<lparr>db_auth_infos := filter (\<lambda>x. au_uuid x \<noteq> au_uuid a) (db_auth_infos db)\<rparr>"
    unfolding exchange_Inr by blast
  from a have mem: "a \<in> set (db_auth_infos db)" "au_code a = code" by (auto simp: find_Some_iff)
  have "au_code x \<noteq> code" if "x \<in> set (db_auth_infos db')" for x
    using that mem assms(2) by (auto simp: db' distinct_map inj_on_def)
  then have "get_token_by_authorization_code env2 s256 client2 code uri2 verifier2 db' = Inl CredentialsAreInvalid"
    for env2 client2 uri2 verifier2
  proof -
    have "find (\<lambda>a. au_code a = code) (db_auth_infos db') = None"
      using \<open>\<And>x. x \<in> set (db_auth_infos db') \<Longrightarrow> au_code x \<noteq> code\<close> by (simp add: find_None_iff)
    then show ?thesis by (simp add: get_token_by_authorization_code_def)
  qed
  moreover have "if truthy (au_challenge a)
       then (\<exists>i \<in> set (db_idps db). ip_uuid i = au_idp a \<and> ip_client i = ic_uuid client) \<and> au_redirect_uri a = uri \<and>
         ie_now env < au_expiration_at a \<and> tok \<noteq> None \<and> au_challenge_method a = Some ''S256'' \<and>
         (\<exists>v. verifier = Some v \<and> valid_verifier v \<and> au_challenge a = Some (s256 v))
       else verifier = None"
  proof (cases "truthy (au_challenge a)")
    case True
    with ok have p: "pkce_accepts env s256 client uri verifier a db (the (au_challenge a))" by (simp add: code_accepted_def)
    then obtain i where "auth_idp a db = Inr i" "ip_client i = ic_uuid client" by (auto simp: pkce_accepts_iff)
    moreover from this have "i \<in> set (db_idps db) \<and> ip_uuid i = au_idp a" by (auto simp: auth_idp_def dest: get_one_Inr)
    ultimately show ?thesis using True p tok by (auto simp: pkce_accepts_iff truthy_def)
  qed (use ok in \<open>simp add: code_accepted_def\<close>)
  ultimately show ?thesis using mem tok by blast
qed

definition oidc_idp :: idp where
  "oidc_idp = \<lparr>ip_uuid = ''i1'', ip_client = ''c1'', ip_scope = ''openid'', ip_callback = CallbackUri ''https://app/cb'', ip_nonce_required = True\<rparr>"

definition oidc_info :: "string option \<Rightarrow> auth_info" where
  "oidc_info challenge = \<lparr>au_uuid = ''a1'', au_idp = ''i1'', au_state = ''st'', au_nonce = ''n'', au_redirect_uri = ''https://app/cb'',
     au_scope = ''openid'', au_expiration_at = 600 * sec, au_token = Some ''t1'', au_code = ''k1'', au_challenge = challenge,
     au_challenge_method = Some ''S256''\<rparr>"

definition oidc_verifier :: string where
  "oidc_verifier = replicate 43 CHR ''v''"

lemma oidc_verifier_valid: "valid_verifier oidc_verifier"
  by code_simp

theorem pkce_code_exchange_witness:
  "\<exists>db'. get_token_by_authorization_code example_env (\<lambda>v. ''d'' @ v) example_client ''k1'' ''https://app/cb'' (Some oidc_verifier)
       (example_db\<lparr>db_idps := [oidc_idp], db_auth_infos := [oidc_info (Some (''d'' @ oidc_verifier))]\<rparr>) = Inr (Some ''t1'', db') \<and>
     get_token_by_authorization_code example_env (\<lambda>v. ''d'' @ v) example_client ''k1'' ''https://app/cb'' (Some oidc_verifier) db'
       = Inl CredentialsAreInvalid"
proof -
  let ?db = "example_db\<lparr>db_idps := [oidc_idp], db_auth_infos := [oidc_info (Some (''d'' @ oidc_verifier))]\<rparr>"
  have "is_ok (get_token_by_authorization_code example_env (\<lambda>v. ''d'' @ v) example_client ''k1'' ''https://app/cb'' (Some oidc_verifier) ?db)"
    by (simp add: get_token_by_authorization_code_def oidc_info_def code_accepted_def truthy_def pkce_accepts_def auth_idp_def
        get_one_def oidc_idp_def example_client_def example_env_def sec_def oidc_verifier_valid)
  then obtain tok db' where e: "get_token_by_authorization_code example_env (\<lambda>v. ''d'' @ v) example_client ''k1'' ''https://app/cb''
      (Some oidc_verifier) ?db = Inr (tok, db')" by (auto simp: is_ok_iff)
  have "distinct (map au_code (db_auth_infos ?db))" by simp
  from pkce_code_exchange [OF e this] e show ?thesis by (auto simp: oidc_info_def)
qed

text \<open>Without PKCE a code is bound to nothing: whoever presents it gets the token, whatever the client, the
  redirect URI and the time, also long after the ten minutes of the authorization.\<close>

theorem code_without_pkce_unbound:
  assumes "find (\<lambda>a. au_code a = code) (db_auth_infos db) = Some a" and "\<not> truthy (au_challenge a)"
  shows "\<forall>env client uri. \<exists>db'. get_token_by_authorization_code env s256 client code uri None db = Inr (au_token a, db')"
  using assms by (simp add: exchange_Inr code_accepted_def)

theorem code_without_pkce_unbound_witness:
  "\<exists>db'. get_token_by_authorization_code (example_env\<lparr>ie_now := 1000000 * sec\<rparr>) id (example_client\<lparr>ic_uuid := ''other''\<rparr>) ''k1''
     ''https://evil/cb'' None (example_db\<lparr>db_idps := [oidc_idp], db_auth_infos := [oidc_info None]\<rparr>) = Inr (Some ''t1'', db')"
proof -
  let ?db = "example_db\<lparr>db_idps := [oidc_idp], db_auth_infos := [oidc_info None]\<rparr>"
  have "find (\<lambda>a. au_code a = ''k1'') (db_auth_infos ?db) = Some (oidc_info None)" "\<not> truthy (au_challenge (oidc_info None))"
    by (simp_all add: oidc_info_def truthy_def)
  from code_without_pkce_unbound [OF this, of id] show ?thesis by (auto simp: oidc_info_def)
qed


text \<open>The sign-in as a whole: a code asked for with PKCE and confirmed by a signed-in user is
  exchanged, by the client with the matching verifier and in time, for a token of that user and that
  client with the nonce and the scope of the request; the browser is sent back to the redirect URI of the
  request with the code and the state.\<close>

theorem oidc_sign_in:
  assumes "authorize env fullmatch i az db = Inr (LoginRedirect u cl ip, db1)"
    and "auth_confirm c env2 app_url u db1 = Inr (r, db2)"
    and "az_challenge az = Some (s256 v)" and "s256 v \<noteq> ''''" and "valid_verifier v"
    and "auth_idp (new_auth_info env i '''' '''' az) db = Inr i" and "idp_client i db = Inr client"
    and "\<forall>x \<in> set (db_auth_infos db). au_uuid x \<noteq> u \<and> au_code x \<noteq> ie_uuid env ''auth_code''"
    and "ie_now env3 < ie_now env + 600 * sec"
  shows "\<exists>t current uri scope db3. token_my c db1 = Inr current \<and> az_redirect_uri az = Some uri \<and> az_scope az = Some scope \<and>
    get_token_by_authorization_code env3 s256 client (ie_uuid env ''auth_code'') uri (Some v) db2 = Inr (Some (tk_uuid t), db3) \<and>
    t \<in> set (db_tokens db2) \<and> tk_user t = tk_user current \<and> tk_client t = ic_uuid client \<and> tk_nonce t = Some (az_nonce az) \<and>
    tk_scope t = scope \<and>
    r = CallbackRedirect (uri @ ''?code='' @ ie_uuid env ''auth_code'' @ ''&state='' @ (case az_state az of None \<Rightarrow> '''' | Some s \<Rightarrow> s))"
proof -
  from assms(1) obtain uri scope where az: "az_redirect_uri az = Some uri" "az_scope az = Some scope"
    "az_challenge az \<noteq> None \<longrightarrow> az_challenge_method az = Some ''S256''" "u = ie_uuid env ''auth''"
    and db1: "db1 = db\<lparr>db_auth_infos := db_auth_infos db @ [new_auth_info env i uri scope az]\<rparr>" by (rule authorize_login)
  let ?a = "new_auth_info env i uri scope az"
  have fresh: "find P (db_auth_infos db @ [?a]) = Some ?a" if "P ?a" "\<And>x. x \<in> set (db_auth_infos db) \<Longrightarrow> \<not> P x" for P
  proof -
    have "find P (xs @ [?a]) = Some ?a" if "\<And>x. x \<in> set xs \<Longrightarrow> \<not> P x" for xs
      using that \<open>P ?a\<close> by (induction xs) auto
    then show ?thesis using that(2) by blast
  qed
  have found: "get_one (\<lambda>a. au_uuid a = u) (db_auth_infos db1) = Inr ?a"
    unfolding get_one_def db1 using fresh [of "\<lambda>a. au_uuid a = u"] assms(8) az(4) by (simp add: new_auth_info_def)
  have idp: "auth_idp ?a db1 = Inr i" "idp_client i db1 = Inr client"
    using assms(6,7) by (simp_all add: auth_idp_def new_auth_info_def db1 idp_client_def)
  from assms(2) obtain current t where t: "token_my c db1 = Inr current" "tk_user t = tk_user current" "tk_client t = ic_uuid client"
    "tk_nonce t = Some (au_nonce ?a)" "tk_scope t = au_scope ?a"
    and db2: "db2 = put_auth_info (?a\<lparr>au_token := Some (tk_uuid t)\<rparr>) (add_token t db1)"
    and r: "r = CallbackRedirect (au_redirect_uri ?a @ ''?code='' @ au_code ?a @ ''&state='' @ au_state ?a)"
  proof (rule auth_confirm_Inr)
    fix a' i' current client' t
    assume "get_one (\<lambda>a. au_uuid a = u) (db_auth_infos db1) = Inr a'" "auth_idp a' db1 = Inr i'" "token_my c db1 = Inr current"
      "idp_client i' db1 = Inr client'" "tk_user t = tk_user current" "tk_client t = ic_uuid client'" "tk_nonce t = Some (au_nonce a')"
      "tk_scope t = au_scope a'" "db2 = put_auth_info (a'\<lparr>au_token := Some (tk_uuid t)\<rparr>) (add_token t db1)"
      "r = CallbackRedirect (au_redirect_uri a' @ ''?code='' @ au_code a' @ ''&state='' @ au_state a')"
    with found idp that show thesis by simp
  qed
  let ?b = "?a\<lparr>au_token := Some (tk_uuid t)\<rparr>"
  have infos: "db_auth_infos db2 = db_auth_infos db @ [?b]"
    using assms(8) az(4) by (auto simp: db2 put_auth_info_def add_token_def db1 new_auth_info_def intro!: map_idI)
  have "find (\<lambda>a. au_code a = ie_uuid env ''auth_code'') (db_auth_infos db2) = Some ?b"
  proof -
    have "find P (xs @ [?b]) = Some ?b" if "P ?b" "\<And>x. x \<in> set xs \<Longrightarrow> \<not> P x" for xs P
      using that by (induction xs) auto
    then show ?thesis unfolding infos using assms(8) by (simp add: new_auth_info_def)
  qed
  moreover have "code_accepted env3 s256 client uri (Some v) ?b db2"
  proof -
    have "db_idps db2 = db_idps db" by (simp add: db2 put_auth_info_def add_token_def db1)
    then have "auth_idp ?b db2 = Inr i" using assms(6) by (simp add: auth_idp_def new_auth_info_def)
    moreover have "ip_client i = ic_uuid client" using assms(7) get_one_Inr by (fastforce simp: idp_client_def)
    ultimately show ?thesis using assms(3-5,9) az(3) by (simp add: code_accepted_def truthy_def pkce_accepts_iff new_auth_info_def)
  qed
  ultimately have "\<exists>db3. get_token_by_authorization_code env3 s256 client (ie_uuid env ''auth_code'') uri (Some v) db2
      = Inr (Some (tk_uuid t), db3)" by (auto simp: exchange_Inr)
  moreover have "t \<in> set (db_tokens db2)" by (simp add: db2 put_auth_info_def)
  ultimately show ?thesis using t az r by (auto simp: new_auth_info_def)
qed

definition oidc_db :: iam_db where
  "oidc_db = add_token (example_token\<lparr>tk_uuid := ''t0''\<rparr>) (example_db\<lparr>db_idps := [oidc_idp]\<rparr>)"

definition oidc_request :: authorize_args where
  "oidc_request = \<lparr>az_client_id = Some ''core'', az_redirect_uri = Some ''https://app/cb'', az_state = Some ''st'',
     az_response_type = Some ''code'', az_scope = Some ''openid'', az_nonce = ''n'', az_challenge = Some (replicate 43 CHR ''c''),
     az_challenge_method = Some ''S256''\<rparr>"

theorem oidc_sign_in_witness:
  "\<exists>db1 db2 db3 r t. authorize example_env (\<lambda>_ _. False) oidc_idp oidc_request oidc_db = Inr (LoginRedirect ''auth'' ''c1'' ''i1'', db1) \<and>
     auth_confirm example_caller example_env ''http://e'' ''auth'' db1 = Inr (r, db2) \<and>
     get_token_by_authorization_code example_env (\<lambda>_. replicate 43 CHR ''c'') example_client ''auth_code'' ''https://app/cb''
       (Some oidc_verifier) db2 = Inr (Some t, db3)"
proof -
  have challenge: "valid_challenge (replicate 43 CHR ''c'')" by code_simp
  have client: "idp_client oidc_idp oidc_db = Inr example_client"
    by (simp add: idp_client_def get_one_def oidc_idp_def oidc_db_def example_db_def example_client_def add_token_def)
  have i: "ip_callback oidc_idp = CallbackUri ''https://app/cb''" "ip_client oidc_idp = ''c1''" "ip_uuid oidc_idp = ''i1''"
    and cid: "ic_client_id example_client = ''core''" by (simp_all add: oidc_idp_def example_client_def)
  let ?a = "new_auth_info example_env oidc_idp ''https://app/cb'' ''openid'' oidc_request"
  let ?db1 = "oidc_db\<lparr>db_auth_infos := [?a]\<rparr>"
  have az: "authorize example_env (\<lambda>_ _. False) oidc_idp oidc_request oidc_db = Inr (LoginRedirect ''auth'' ''c1'' ''i1'', ?db1)"
    using challenge by (simp add: authorize_def client i cid truthy_def oidc_request_def callback_check_def Let_def)
      (simp add: new_auth_info_def example_env_def oidc_db_def add_token_def example_db_def)
  have "is_ok (auth_confirm example_caller example_env ''http://e'' ''auth'' ?db1)"
    by (simp add: auth_confirm_def get_one_def new_auth_info_def example_env_def confirm_def auth_idp_def oidc_idp_def oidc_db_def
        add_token_def example_db_def token_my_def example_caller_def idp_client_def example_token_def oidc_request_def token_init_def
        construct_callback_uri_def Let_def)
  then obtain r db2 where cf: "auth_confirm example_caller example_env ''http://e'' ''auth'' ?db1 = Inr (r, db2)" by (auto simp: is_ok_iff)
  have idp: "auth_idp (new_auth_info example_env oidc_idp '''' '''' oidc_request) oidc_db = Inr oidc_idp"
    by (simp add: auth_idp_def get_one_def new_auth_info_def oidc_db_def oidc_idp_def add_token_def)
  obtain t :: token and uri db3 where "az_redirect_uri oidc_request = Some uri"
    "get_token_by_authorization_code example_env (\<lambda>_. replicate 43 CHR ''c'') example_client (ie_uuid example_env ''auth_code'') uri
      (Some oidc_verifier) db2 = Inr (Some (tk_uuid t), db3)"
  proof -
    have c: "az_challenge oidc_request = Some (replicate 43 CHR ''c'')" by (simp add: oidc_request_def)
    have f: "\<forall>x \<in> set (db_auth_infos oidc_db). au_uuid x \<noteq> ''auth'' \<and> au_code x \<noteq> ie_uuid example_env ''auth_code''"
      by (simp add: oidc_db_def add_token_def example_db_def)
    have n: "ie_now example_env < ie_now example_env + 600 * sec" by (simp add: sec_def)
    have e: "replicate 43 CHR ''c'' \<noteq> ''''" by simp
    show ?thesis using that oidc_sign_in [where ?s256.0 = "\<lambda>_. replicate 43 CHR ''c''", OF az cf c e oidc_verifier_valid idp client f n]
      by blast
  qed
  with az cf show ?thesis by (auto simp: oidc_request_def example_env_def)
qed

end
