(* ===== verification/Iam_Projects.thy ===== *)
theory Iam_Projects
  imports Iam_Lifecycle
begin

text \<open>
  Organizations, their members, projects and roles (\<open>user_api/iam/dm/models.py\<close> and the controllers
  of \<open>user_api/iam/api/controllers.py\<close>): who may see, change and delete them, and who may bring a user
  into a project.  The policy of a resource (\<open>gcl_iam\<close>) is the enforcer of the caller.
\<close>

section \<open>Organizations\<close>

definition my_memberships :: "caller \<Rightarrow> iam_db \<Rightarrow> org_member list" where
  "my_memberships c db = filter (\<lambda>m. om_user m = us_uuid (cl_me c)) (db_members db)"

definition orgs_list_my :: "caller \<Rightarrow> iam_db \<Rightarrow> uuid list" where
  "orgs_list_my c db = map om_organization (my_memberships c db)"

definition are_i_owner :: "caller \<Rightarrow> iam_db \<Rightarrow> uuid \<Rightarrow> bool" where
  "are_i_owner c db org = list_ex (\<lambda>m. om_organization m = org \<and> om_role m = org_owner) (my_memberships c db)"

definition are_i_member :: "caller \<Rightarrow> iam_db \<Rightarrow> uuid \<Rightarrow> bool" where
  "are_i_member c db org = list_ex (\<lambda>m. om_organization m = org) (my_memberships c db)"

definition orgs_create :: "caller \<Rightarrow> iam_env \<Rightarrow> string \<Rightarrow> iam_db \<Rightarrow> iam_error + iam_db" where
  "orgs_create c env name db =
     (if \<not> cl_enforcer c ''iam.organization.create'' then Inl (Forbidden ''iam.organization.create'')
      else let org = ie_uuid env ''organization'' in
        Inr (db\<lparr>db_organizations := db_organizations db @ [\<lparr>og_uuid = org, og_name = name\<rparr>],
          db_members := db_members db @ [\<lparr>om_uuid = ie_uuid env ''member'', om_organization = org, om_user = us_uuid (cl_me c),
            om_role = org_owner, om_created_at = ie_now env\<rparr>]\<rparr>))"

definition orgs_filter :: "caller \<Rightarrow> iam_db \<Rightarrow> uuid list" where
  "orgs_filter c db =
     (if enforce c ''iam.organization.read_all'' then map og_uuid (db_organizations db) else orgs_list_my c db)"

definition orgs_update :: "caller \<Rightarrow> uuid \<Rightarrow> string \<Rightarrow> iam_db \<Rightarrow> iam_error + iam_db" where
  "orgs_update c org name db =
     ebind (get_one (\<lambda>x. og_uuid x = org) (db_organizations db)) (\<lambda>_.
       if are_i_owner c db org \<or> enforce c ''iam.organization.write_all''
       then Inr (db\<lparr>db_organizations := map (\<lambda>x. if og_uuid x = org then x\<lparr>og_name := name\<rparr> else x) (db_organizations db)\<rparr>)
       else Inl (Forbidden ''organization''))"

text \<open>Members go with their organization; a project of it makes the database refuse.\<close>

definition delete_org :: "uuid \<Rightarrow> iam_db \<Rightarrow> iam_error + iam_db" where
  "delete_org org db =
     (if list_ex (\<lambda>p. pj_organization p = org) (db_projects db) then Inl BadValue
      else Inr (db\<lparr>db_organizations := filter (\<lambda>x. og_uuid x \<noteq> org) (db_organizations db),
        db_members := filter (\<lambda>m. om_organization m \<noteq> org) (db_members db)\<rparr>))"

definition orgs_delete :: "caller \<Rightarrow> uuid \<Rightarrow> iam_db \<Rightarrow> iam_error + iam_db" where
  "orgs_delete c org db =
     ebind (get_one (\<lambda>x. og_uuid x = org) (db_organizations db)) (\<lambda>_.
       if enforce c ''iam.organization.delete_all'' then delete_org org db
       else if are_i_owner c db org then
         (if \<not> cl_enforcer c ''iam.organization.delete'' then Inl (Forbidden ''iam.organization.delete'') else delete_org org db)
       else Inl (Forbidden ''organization''))"

definition may_write_org :: "caller \<Rightarrow> iam_db \<Rightarrow> uuid \<Rightarrow> bool" where
  "may_write_org c db org \<longleftrightarrow> are_i_owner c db org \<or> enforce c ''iam.organization.write_all''"

text \<open>A user is a member of an organization once (\<open>uq_organization_user\<close>).\<close>

definition members_create :: "caller \<Rightarrow> iam_env \<Rightarrow> uuid \<Rightarrow> uuid \<Rightarrow> string \<Rightarrow> iam_db \<Rightarrow> iam_error + iam_db" where
  "members_create c env org user role db =
     (if \<not> may_write_org c db org then Inl (Forbidden ''organization'')
      else if list_ex (\<lambda>m. om_organization m = org \<and> om_user m = user) (db_members db) then Inl BadValue
      else Inr (db\<lparr>db_members := db_members db @ [\<lparr>om_uuid = ie_uuid env ''member'', om_organization = org, om_user = user,
        om_role = role, om_created_at = ie_now env\<rparr>]\<rparr>))"

definition members_update :: "caller \<Rightarrow> uuid \<Rightarrow> uuid \<Rightarrow> string \<Rightarrow> iam_db \<Rightarrow> iam_error + iam_db" where
  "members_update c org member role db =
     (if may_write_org c db org then
        ebind (get_one (\<lambda>m. om_uuid m = member \<and> om_organization m = org) (db_members db)) (\<lambda>_.
          Inr (db\<lparr>db_members := map (\<lambda>m. if om_uuid m = member then m\<lparr>om_role := role\<rparr> else m) (db_members db)\<rparr>))
      else Inl (Forbidden ''organization''))"

definition members_delete :: "caller \<Rightarrow> uuid \<Rightarrow> uuid \<Rightarrow> iam_db \<Rightarrow> iam_error + iam_db" where
  "members_delete c org member db =
     (if may_write_org c db org then
        ebind (get_one (\<lambda>m. om_uuid m = member \<and> om_organization m = org) (db_members db)) (\<lambda>_.
          Inr (db\<lparr>db_members := filter (\<lambda>m. om_uuid m \<noteq> member) (db_members db)\<rparr>))
      else Inl (Forbidden ''organization''))"

section \<open>Projects\<close>

definition my_project_bindings :: "caller \<Rightarrow> iam_db \<Rightarrow> role_binding list" where
  "my_project_bindings c db = sort_key rb_created_at
     (filter (\<lambda>b. rb_user b = us_uuid (cl_me c) \<and> rb_project b \<noteq> None) (db_role_bindings db))"

definition projects_list_my :: "caller \<Rightarrow> iam_db \<Rightarrow> uuid list" where
  "projects_list_my c db =
     fold (\<lambda>b ps. if the (rb_project b) \<in> set ps then ps else ps @ [the (rb_project b)]) (my_project_bindings c db) []"

definition in_my_project :: "caller \<Rightarrow> iam_db \<Rightarrow> uuid \<Rightarrow> bool" where
  "in_my_project c db project = list_ex (\<lambda>b. rb_project b = Some project) (my_project_bindings c db)"

definition projects_create :: "caller \<Rightarrow> iam_env \<Rightarrow> uuid \<Rightarrow> string \<Rightarrow> iam_db \<Rightarrow> iam_error + iam_db" where
  "projects_create c env org name db =
     (if \<not> (are_i_owner c db org \<or> enforce c ''iam.project.write_all'' \<or> enforce c ''iam.organization.write_all'')
      then Inl (Forbidden ''organization'')
      else let project = ie_uuid env ''project'' in
        add_owner env project (us_uuid (cl_me c))
          (db\<lparr>db_projects := db_projects db @ [\<lparr>pj_uuid = project, pj_name = name, pj_organization = org\<rparr>]\<rparr>))"

definition projects_filter :: "caller \<Rightarrow> iam_db \<Rightarrow> uuid list" where
  "projects_filter c db =
     (if enforce c ''iam.project.list_all'' then map pj_uuid (db_projects db) else projects_list_my c db)"

definition projects_get :: "caller \<Rightarrow> uuid \<Rightarrow> iam_db \<Rightarrow> iam_error + project" where
  "projects_get c p db =
     ebind (get_one (\<lambda>x. pj_uuid x = p) (db_projects db)) (\<lambda>x.
       if in_my_project c db (pj_uuid x) then Inr x
       else if enforce c ''iam.project.read_all'' then Inr x else Inl (Forbidden ''iam.project.read_all''))"

definition projects_update :: "caller \<Rightarrow> uuid \<Rightarrow> string \<Rightarrow> iam_db \<Rightarrow> iam_error + iam_db" where
  "projects_update c p name db =
     ebind (get_one (\<lambda>x. pj_uuid x = p) (db_projects db)) (\<lambda>x.
       if in_my_project c db p \<or> enforce c ''iam.project.write_all''
       then Inr (db\<lparr>db_projects := map (\<lambda>x. if pj_uuid x = p then x\<lparr>pj_name := name\<rparr> else x) (db_projects db)\<rparr>)
       else Inl (Forbidden ''iam.project.write_all''))"

text \<open>Its role bindings go with a project, and so do its tokens unless an authorization refers to one.\<close>

definition delete_project :: "uuid \<Rightarrow> iam_db \<Rightarrow> iam_error + iam_db" where
  "delete_project p db =
     (if list_ex (\<lambda>t. tk_project t = Some p \<and> list_ex (\<lambda>a. au_token a = Some (tk_uuid t)) (db_auth_infos db)) (db_tokens db)
      then Inl BadValue
      else Inr (db\<lparr>db_role_bindings := filter (\<lambda>b. rb_project b \<noteq> Some p) (db_role_bindings db),
        db_tokens := filter (\<lambda>t. tk_project t \<noteq> Some p) (db_tokens db),
        db_projects := filter (\<lambda>x. pj_uuid x \<noteq> p) (db_projects db)\<rparr>))"

definition projects_delete :: "caller \<Rightarrow> uuid \<Rightarrow> iam_db \<Rightarrow> iam_error + iam_db" where
  "projects_delete c p db =
     ebind (get_one (\<lambda>x. pj_uuid x = p) (db_projects db)) (\<lambda>x.
       if in_my_project c db p \<or> enforce c ''iam.project.delete_all'' then delete_project p db
       else Inl (Forbidden ''iam.project.write_all''))"

section \<open>Roles\<close>

definition bound_permissions :: "iam_db \<Rightarrow> uuid \<Rightarrow> permission list" where
  "bound_permissions db r = concat (map (\<lambda>pb.
       case find (\<lambda>p. pe_uuid p = pb_permission pb) (db_permissions db) of None \<Rightarrow> [] | Some p \<Rightarrow> [p])
     (filter (\<lambda>pb. pb_role pb = r) (db_permission_bindings db)))"

definition role_get_permissions :: "iam_db \<Rightarrow> uuid \<Rightarrow> permission list" where
  "role_get_permissions db r =
     dvals (fold (\<lambda>p d. if has_key d (pe_uuid p) then d else dset (pe_uuid p) p d) (bound_permissions db r) [])"

definition roles_get_permissions :: "caller \<Rightarrow> uuid \<Rightarrow> iam_db \<Rightarrow> iam_error + permission list" where
  "roles_get_permissions c r db =
     (if \<not> enforce c ''iam.permission_binding.read'' then Inl (Forbidden ''iam.permission_binding.read'')
      else if \<not> enforce c ''iam.permission.read'' then Inl (Forbidden ''iam.permission.read'')
      else Inr (role_get_permissions db r))"

text \<open>
  Whom and which role a request means.  \<open>parse_uuid\<close> is Python's parser of uuids, \<open>in_filter\<close> the
  membership test of the database library, whose answer for a missing value is its own.
\<close>

definition resolve_user :: "(string \<Rightarrow> uuid option) \<Rightarrow> string \<Rightarrow> iam_db \<Rightarrow> iam_error + user" where
  "resolve_user parse_uuid text db = (let v = strip text in
     if CHR 0x40 \<in> set v then get_single (\<lambda>u. us_email u = lower v) (db_users db)
     else case parse_uuid v of
       None \<Rightarrow> get_single (\<lambda>u. us_name u = v) (db_users db)
     | Some u \<Rightarrow> get_one (\<lambda>x. us_uuid x = u) (db_users db))"

definition resolve_role ::
  "(string \<Rightarrow> uuid option) \<Rightarrow> (uuid option \<Rightarrow> uuid option list \<Rightarrow> bool) \<Rightarrow> string \<Rightarrow> uuid \<Rightarrow> iam_db \<Rightarrow> iam_error + role" where
  "resolve_role parse_uuid in_filter text project db = (case parse_uuid text of
     Some r \<Rightarrow> get_one (\<lambda>x. ro_uuid x = r \<and> in_filter (ro_project_id x) [None, Some project]) (db_roles db)
   | None \<Rightarrow> get_single (\<lambda>x. ro_name x = text) (db_roles db))"

definition binds :: "uuid \<Rightarrow> uuid \<Rightarrow> uuid \<Rightarrow> role_binding \<Rightarrow> bool" where
  "binds project user role b \<longleftrightarrow> rb_project b = Some project \<and> rb_user b = user \<and> rb_role b = role"

definition add_user ::
  "caller \<Rightarrow> iam_env \<Rightarrow> (string \<Rightarrow> uuid option) \<Rightarrow> (uuid option \<Rightarrow> uuid option list \<Rightarrow> bool) \<Rightarrow> project \<Rightarrow> string \<Rightarrow> string \<Rightarrow>
    iam_db \<Rightarrow> iam_error + (role_binding \<times> iam_db)" where
  "add_user c env parse_uuid in_filter p user role db =
     ebind (get_one (\<lambda>r. ro_uuid r = owner_role_uuid) (db_roles db)) (\<lambda>owner_role.
     ebind (get_one_or_none (binds (pj_uuid p) (us_uuid (cl_me c)) (ro_uuid owner_role)) (db_role_bindings db)) (\<lambda>is_owner.
       if \<not> (is_owner \<noteq> None \<or> enforce c ''iam.project.add_user'' \<or> enforce c ''iam.project.write_all'')
       then Inl (Forbidden ''iam.project.add_user'')
       else ebind (resolve_user parse_uuid user db) (\<lambda>target.
         ebind (resolve_role parse_uuid in_filter role (pj_uuid p) db) (\<lambda>ro.
         if ro_project_id ro \<noteq> Some (pj_uuid p) \<and> ro_uuid ro \<noteq> owner_role_uuid then Inl (Forbidden ''iam.project.add_user'')
         else case (if ro_uuid ro \<noteq> owner_role_uuid
             then find (\<lambda>q. \<not> enforce c (pe_name q)) (bound_permissions db (ro_uuid ro)) else None) of
           Some q \<Rightarrow> Inl (Forbidden (pe_name q))
         | None \<Rightarrow>
             ebind (get_one_or_none (binds (pj_uuid p) (us_uuid target) (ro_uuid ro)) (db_role_bindings db)) (\<lambda>existing.
               case existing of Some b \<Rightarrow> Inr (b, db)
               | None \<Rightarrow> let b = \<lparr>rb_uuid = ie_uuid env ''binding'', rb_user = us_uuid target, rb_role = ro_uuid ro,
                     rb_project = Some (pj_uuid p), rb_created_at = ie_now env\<rparr>
                   in Inr (b, add_role_binding b db))))))"

section \<open>Facts\<close>

lemma bound_permission:
  assumes "distinct (map pe_uuid (db_permissions db))" and "p \<in> set (db_permissions db)"
    and "pb \<in> set (db_permission_bindings db)" and "pb_role pb = r" and "pb_permission pb = pe_uuid p"
  shows "p \<in> set (bound_permissions db r)"
proof -
  have "distinct (map pe_uuid xs) \<Longrightarrow> p \<in> set xs \<Longrightarrow> find (\<lambda>q. pe_uuid q = pe_uuid p) xs = Some p" for xs
  proof (induction xs)
    case (Cons y xs)
    then show ?case by (cases "y = p") (auto simp: image_iff)
  qed simp
  with assms have "find (\<lambda>q. pe_uuid q = pb_permission pb) (db_permissions db) = Some p" by simp
  with assms(3,4) show ?thesis by (auto simp: bound_permissions_def intro!: bexI [of _ pb])
qed

lemma add_user_Inr:
  assumes "add_user c env parse in_filter p user role db = Inr (b, db')"
  obtains target ro where "resolve_user parse user db = Inr target" "resolve_role parse in_filter role (pj_uuid p) db = Inr ro"
    "(\<exists>x \<in> set (db_role_bindings db). binds (pj_uuid p) (us_uuid (cl_me c)) owner_role_uuid x) \<or>
      enforce c ''iam.project.add_user'' \<or> enforce c ''iam.project.write_all''"
    "ro_uuid ro = owner_role_uuid \<or> (ro_project_id ro = Some (pj_uuid p) \<and> (\<forall>q \<in> set (bound_permissions db (ro_uuid ro)). enforce c (pe_name q)))"
    "binds (pj_uuid p) (us_uuid target) (ro_uuid ro) b" "db' = db \<and> b \<in> set (db_role_bindings db) \<or> db' = add_role_binding b db"
proof -
  from assms obtain ow mine where ow: "get_one (\<lambda>r. ro_uuid r = owner_role_uuid) (db_roles db) = Inr ow"
    and mine: "get_one_or_none (binds (pj_uuid p) (us_uuid (cl_me c)) (ro_uuid ow)) (db_role_bindings db) = Inr mine"
    and may: "mine \<noteq> None \<or> enforce c ''iam.project.add_user'' \<or> enforce c ''iam.project.write_all''"
    by (auto simp: add_user_def ebind_Inr_iff split: if_splits)
  with assms obtain target ro where t: "resolve_user parse user db = Inr target" "resolve_role parse in_filter role (pj_uuid p) db = Inr ro"
    and r: "\<not> (ro_project_id ro \<noteq> Some (pj_uuid p) \<and> ro_uuid ro \<noteq> owner_role_uuid)"
    by (auto simp: add_user_def ebind_Inr_iff split: if_splits)
  with assms ow mine may have q: "(if ro_uuid ro \<noteq> owner_role_uuid
        then find (\<lambda>q. \<not> enforce c (pe_name q)) (bound_permissions db (ro_uuid ro)) else None) = None"
    by (auto simp: add_user_def split: option.splits if_splits)
  have "\<not> \<not> (mine \<noteq> None \<or> enforce c ''iam.project.add_user'' \<or> enforce c ''iam.project.write_all'')" using may by blast
  with assms ow mine t r q obtain ex where ex: "get_one_or_none (binds (pj_uuid p) (us_uuid target) (ro_uuid ro)) (db_role_bindings db) = Inr ex"
    and b: "(case ex of Some b \<Rightarrow> Inr (b, db) | None \<Rightarrow> let b = \<lparr>rb_uuid = ie_uuid env ''binding'', rb_user = us_uuid target,
        rb_role = ro_uuid ro, rb_project = Some (pj_uuid p), rb_created_at = ie_now env\<rparr> in Inr (b, add_role_binding b db)) =
      (Inr (b, db') :: iam_error + (role_binding \<times> iam_db))"
    by (simp only: add_user_def ebind_simps if_False ebind_Inr_iff option.case simp_thms) blast
  have "ro_uuid ow = owner_role_uuid" using get_one_Inr [OF ow] by simp
  with mine may have a: "(\<exists>x \<in> set (db_role_bindings db). binds (pj_uuid p) (us_uuid (cl_me c)) owner_role_uuid x) \<or>
      enforce c ''iam.project.add_user'' \<or> enforce c ''iam.project.write_all''"
    by (cases mine) (auto dest: get_one_or_none_Inr)
  have e: "ro_uuid ro = owner_role_uuid \<or> (ro_project_id ro = Some (pj_uuid p) \<and> (\<forall>q \<in> set (bound_permissions db (ro_uuid ro)). enforce c (pe_name q)))"
    using q r by (auto simp: find_None_iff split: if_splits)
  have "binds (pj_uuid p) (us_uuid target) (ro_uuid ro) b \<and> (db' = db \<and> b \<in> set (db_role_bindings db) \<or> db' = add_role_binding b db)"
  proof (cases ex)
    case None
    with b show ?thesis by (auto simp: Let_def binds_def)
  next
    case (Some x)
    with b ex show ?thesis by (auto dest: get_one_or_none_Inr)
  qed
  with t a e show ?thesis by (intro that) auto
qed

section \<open>Properties\<close>


definition project_db :: iam_db where
  "project_db = service_db\<lparr>db_users := [example_user]\<rparr>"


end
