(* ===== verification/Dns_Zone.thy ===== *)
theory Dns_Zone
  imports Prelude
begin

text \<open>
  Domains and records of the DNS service (\<open>exordos_core/user_api/dns/dm/models.py\<close>) and the answers of
  the records API (\<open>user_api/dns/api/controllers.py\<close>), which is also what a realm's mirror talks to in
  its ecosystem.  A row is what the API shows of a record.
\<close>

section \<open>Data\<close>

record dns_domain =
  dm_uuid :: uuid
  dm_name :: string
  dm_project :: uuid
  dm_sync :: bool
  dm_tags :: "string list"
  dm_id :: nat

datatype rdata = ARecord string string
  | SOARecord string string nat nat nat nat nat
  | TXTRecord string string
  | NSRecord string string

record dns_record =
  dr_uuid :: uuid
  dr_domain :: uuid
  dr_project :: uuid
  dr_type :: string
  dr_ttl :: int
  dr_disabled :: bool
  dr_record :: rdata
  dr_tags :: "string list"
  dr_name :: string
  dr_content :: string
  dr_created_at :: int
  dr_updated_at :: int

record dns_db =
  dd_domains :: "dns_domain list"
  dd_records :: "dns_record list"

datatype dns_error = SOARecordDeleteRestricted | TypesMustMatch | DnsNotFound | DnsConflict | ReadOnlyField

fun rdata_kind :: "rdata \<Rightarrow> string" where
  "rdata_kind (ARecord n a) = ''A''"
| "rdata_kind (SOARecord n p s r t e l) = ''SOA''"
| "rdata_kind (TXTRecord n c) = ''TXT''"
| "rdata_kind (NSRecord n c) = ''NS''"

fun rdata_name :: "rdata \<Rightarrow> string" where
  "rdata_name (ARecord n a) = n"
| "rdata_name (SOARecord n p s r t e l) = n"
| "rdata_name (TXTRecord n c) = n"
| "rdata_name (NSRecord n c) = n"

definition get_name :: "rdata \<Rightarrow> dns_domain \<Rightarrow> string" where
  "get_name r d = (if rdata_name r \<noteq> '''' then rdata_name r @ ''.'' @ dm_name d else dm_name d)"

fun get_content :: "rdata \<Rightarrow> dns_domain \<Rightarrow> string" where
  "get_content (ARecord n a) d = a"
| "get_content (SOARecord n p s r t e l) d =
     join_with '' '' [p, dm_name d, show_nat s, show_nat r, show_nat t, show_nat e, show_nat l]"
| "get_content (TXTRecord n c) d = c"
| "get_content (NSRecord n c) d = c"

definition fill_n_validate_record :: "dns_domain \<Rightarrow> dns_record \<Rightarrow> dns_error + dns_record" where
  "fill_n_validate_record d r =
     (if dr_type r \<noteq> rdata_kind (dr_record r) then Inl TypesMustMatch
      else Inr (r\<lparr>dr_content := get_content (dr_record r) d, dr_name := get_name (dr_record r) d\<rparr>))"

section \<open>Operations of the models\<close>

definition domain_of :: "dns_db \<Rightarrow> uuid \<Rightarrow> dns_error + dns_domain" where
  "domain_of db u = (case find (\<lambda>d. dm_uuid d = u) (dd_domains db) of None \<Rightarrow> Inl DnsNotFound | Some d \<Rightarrow> Inr d)"

definition record_of :: "dns_db \<Rightarrow> uuid \<Rightarrow> dns_record option" where
  "record_of db u = find (\<lambda>r. dr_uuid r = u) (dd_records db)"

definition record_insert :: "dns_record \<Rightarrow> dns_db \<Rightarrow> dns_error + dns_db" where
  "record_insert r db =
     ebind (domain_of db (dr_domain r)) (\<lambda>d. ebind (fill_n_validate_record d r) (\<lambda>r.
       if record_of db (dr_uuid r) \<noteq> None then Inl DnsConflict
       else Inr (db\<lparr>dd_records := dd_records db @ [r]\<rparr>)))"

definition record_update :: "dns_record \<Rightarrow> dns_db \<Rightarrow> dns_error + dns_db" where
  "record_update r db =
     ebind (domain_of db (dr_domain r)) (\<lambda>d. ebind (fill_n_validate_record d r) (\<lambda>r.
       Inr (db\<lparr>dd_records := map (\<lambda>x. if dr_uuid x = dr_uuid r then r else x) (dd_records db)\<rparr>)))"

definition record_delete :: "bool \<Rightarrow> dns_record \<Rightarrow> dns_db \<Rightarrow> dns_error + dns_db" where
  "record_delete force r db =
     (if \<not> force \<and> dr_type r = ''SOA'' then Inl SOARecordDeleteRestricted
      else Inr (db\<lparr>dd_records := filter (\<lambda>x. dr_uuid x \<noteq> dr_uuid r) (dd_records db)\<rparr>))"

definition default_soa :: rdata where
  "default_soa = SOARecord '''' ''a.misconfigured.dns.server.invalid'' 0 10800 3600 604800 3600"

text \<open>\<open>uuid5\<close> names the SOA record after its domain.\<close>

definition soa_record :: "(uuid \<Rightarrow> string \<Rightarrow> uuid) \<Rightarrow> int \<Rightarrow> dns_domain \<Rightarrow> dns_record" where
  "soa_record uuid5 now d = \<lparr>dr_uuid = uuid5 (dm_uuid d) ''soa'', dr_domain = dm_uuid d, dr_project = dm_project d,
     dr_type = ''SOA'', dr_ttl = 3600, dr_disabled = False, dr_record = default_soa, dr_tags = [], dr_name = '''',
     dr_content = '''', dr_created_at = now, dr_updated_at = now\<rparr>"

definition domain_insert :: "(uuid \<Rightarrow> string \<Rightarrow> uuid) \<Rightarrow> int \<Rightarrow> dns_domain \<Rightarrow> dns_db \<Rightarrow> dns_error + dns_db" where
  "domain_insert uuid5 now d db =
     (if list_ex (\<lambda>x. dm_uuid x = dm_uuid d) (dd_domains db) then Inl DnsConflict
      else record_insert (soa_record uuid5 now d) (db\<lparr>dd_domains := dd_domains db @ [d]\<rparr>))"

definition domain_delete :: "uuid \<Rightarrow> dns_db \<Rightarrow> dns_db" where
  "domain_delete u db = db\<lparr>dd_records := filter (\<lambda>r. dr_domain r \<noteq> u) (dd_records db),
     dd_domains := filter (\<lambda>d. dm_uuid d \<noteq> u) (dd_domains db)\<rparr>"

section \<open>The records API\<close>

record row =
  rw_uuid :: uuid
  rw_type :: string
  rw_ttl :: int
  rw_disabled :: bool
  rw_record :: rdata
  rw_tags :: "string list option"

definition row_of :: "dns_record \<Rightarrow> row" where
  "row_of r = \<lparr>rw_uuid = dr_uuid r, rw_type = dr_type r, rw_ttl = dr_ttl r, rw_disabled = dr_disabled r,
     rw_record = dr_record r, rw_tags = Some (dr_tags r)\<rparr>"

datatype http_body = NotJson | ErrorBody string string | OtherJson

datatype http_error = HttpError nat http_body | Unreachable | NotOwned

text \<open>What the web framework answers for an exception.\<close>

definition http_of :: "dns_error \<Rightarrow> http_error" where
  "http_of e = (case e of DnsConflict \<Rightarrow> HttpError 409 OtherJson | DnsNotFound \<Rightarrow> HttpError 404 OtherJson
     | SOARecordDeleteRestricted \<Rightarrow> HttpError 403 OtherJson | _ \<Rightarrow> HttpError 400 OtherJson)"

definition map_error :: "('e \<Rightarrow> 'f) \<Rightarrow> 'e + 'a \<Rightarrow> 'f + 'a" where
  "map_error f r = (case r of Inl e \<Rightarrow> Inl (f e) | Inr x \<Rightarrow> Inr x)"

definition api_rows :: "dns_db \<Rightarrow> uuid \<Rightarrow> dns_record list" where
  "api_rows db d = filter (\<lambda>r. dr_domain r = d) (dd_records db)"

definition api_list :: "uuid \<Rightarrow> dns_db \<Rightarrow> http_error + row list" where
  "api_list d db = Inr (map row_of (api_rows db d))"

definition api_list_tagged :: "uuid \<Rightarrow> string \<Rightarrow> dns_db \<Rightarrow> http_error + row list" where
  "api_list_tagged d tag db = Inr (map row_of (filter (\<lambda>r. tag \<in> set (dr_tags r)) (api_rows db d)))"

definition api_get :: "uuid \<Rightarrow> uuid \<Rightarrow> dns_db \<Rightarrow> http_error + row" where
  "api_get d u db = (case find (\<lambda>r. dr_uuid r = u) (api_rows db d) of
     None \<Rightarrow> Inl (HttpError 404 OtherJson) | Some r \<Rightarrow> Inr (row_of r))"

definition api_post :: "int \<Rightarrow> uuid \<Rightarrow> row \<Rightarrow> dns_db \<Rightarrow> http_error + dns_db" where
  "api_post now d r db = map_error http_of (ebind (domain_of db d) (\<lambda>dm.
     record_insert \<lparr>dr_uuid = rw_uuid r, dr_domain = d, dr_project = dm_project dm, dr_type = rw_type r, dr_ttl = rw_ttl r,
       dr_disabled = rw_disabled r, dr_record = rw_record r, dr_tags = (case rw_tags r of None \<Rightarrow> [] | Some ts \<Rightarrow> ts),
       dr_name = '''', dr_content = '''', dr_created_at = now, dr_updated_at = now\<rparr> db))"

definition api_put :: "int \<Rightarrow> uuid \<Rightarrow> uuid \<Rightarrow> row \<Rightarrow> dns_db \<Rightarrow> http_error + dns_db" where
  "api_put now d u r db = (case find (\<lambda>r. dr_uuid r = u) (api_rows db d) of
     None \<Rightarrow> Inl (HttpError 404 OtherJson)
   | Some x \<Rightarrow> if rw_type r \<noteq> dr_type x \<or> rw_uuid r \<noteq> u then Inl (http_of ReadOnlyField)
       else map_error http_of (record_update (x\<lparr>dr_ttl := rw_ttl r, dr_disabled := rw_disabled r, dr_record := rw_record r,
         dr_tags := (case rw_tags r of None \<Rightarrow> dr_tags x | Some ts \<Rightarrow> ts), dr_updated_at := now\<rparr>) db))"

definition api_delete :: "uuid \<Rightarrow> uuid \<Rightarrow> dns_db \<Rightarrow> http_error + dns_db" where
  "api_delete d u db = (case find (\<lambda>r. dr_uuid r = u) (api_rows db d) of
     None \<Rightarrow> Inl (HttpError 404 OtherJson) | Some r \<Rightarrow> map_error http_of (record_delete False r db))"

end
