(* ===== verification/Dns_Sync.thy ===== *)
theory Dns_Sync
  imports Dns_Zone "HOL-Library.List_Lexorder" "HOL-Library.Char_ord"
begin

text \<open>
  The mirror of local DNS records in the ecosystem (\<open>exordos_core/dns_sync/service.py\<close>): which
  records it creates, changes and deletes there, which it leaves alone, when it does so, and the list
  of public domains it writes for dnsdist.  The ecosystem is a record of its requests over a state
  of its own; a request that fails leaves that state as it was.  Loops over sets of uuids run in the order
  of the lists they come from.
\<close>

section \<open>The ecosystem\<close>

record 's dns_api =
  sv_realm :: "'s \<Rightarrow> http_error + string option"
  sv_domains :: "'s \<Rightarrow> http_error + (string \<times> uuid) list"
  sv_create_domain :: "string \<Rightarrow> 's \<Rightarrow> http_error + (uuid \<times> 's)"
  sv_list :: "uuid \<Rightarrow> 's \<Rightarrow> http_error + row list"
  sv_list_tagged :: "uuid \<Rightarrow> string \<Rightarrow> 's \<Rightarrow> http_error + row list"
  sv_get :: "uuid \<Rightarrow> uuid \<Rightarrow> 's \<Rightarrow> http_error + row"
  sv_post :: "uuid \<Rightarrow> row \<Rightarrow> 's \<Rightarrow> http_error + 's"
  sv_put :: "uuid \<Rightarrow> uuid \<Rightarrow> row \<Rightarrow> 's \<Rightarrow> http_error + 's"
  sv_delete :: "uuid \<Rightarrow> uuid \<Rightarrow> 's \<Rightarrow> http_error + 's"

section \<open>The mirror\<close>

definition full_sync_interval :: int where
  "full_sync_interval = 60"

definition filter_refusal_ttl :: int where
  "filter_refusal_ttl = 3600"

definition realm_tag_prefix :: string where
  "realm_tag_prefix = ''realm:''"

definition realm_tag :: "uuid \<Rightarrow> string" where
  "realm_tag u = realm_tag_prefix @ u"

definition realm_marks :: "row \<Rightarrow> string set" where
  "realm_marks r = set (filter (\<lambda>t. starts_with t realm_tag_prefix) (case rw_tags r of None \<Rightarrow> [] | Some ts \<Rightarrow> ts))"

text \<open>Refusals are stamped by the monotonic clock, the last fast pass by the wall clock.\<close>

record sync_state =
  sy_initialized :: bool
  sy_last_full :: int
  sy_last_fast :: "int option"
  sy_refused :: "(string, int) dict"
  sy_untagged :: "string list"
  sy_written :: "string option"

definition initial_state :: sync_state where
  "initial_state = \<lparr>sy_initialized = False, sy_last_full = full_sync_interval + 1, sy_last_fast = None, sy_refused = [],
     sy_untagged = [], sy_written = None\<rparr>"

definition mark_for :: "sync_state \<Rightarrow> string \<Rightarrow> string \<Rightarrow> string option" where
  "mark_for st endpoint tag = (if endpoint \<in> set (sy_untagged st) then None else Some tag)"

definition filter_refused :: "int \<Rightarrow> string \<Rightarrow> sync_state \<Rightarrow> bool \<times> sync_state" where
  "filter_refused now endpoint st = (case dget (sy_refused st) endpoint of
     None \<Rightarrow> (False, st)
   | Some at \<Rightarrow> if now - at \<ge> filter_refusal_ttl
       then (False, st\<lparr>sy_refused := ddel endpoint (sy_refused st), sy_untagged := removeAll endpoint (sy_untagged st)\<rparr>)
       else (True, st))"

definition observe_record_tags :: "string \<Rightarrow> row list \<Rightarrow> sync_state \<Rightarrow> sync_state" where
  "observe_record_tags endpoint rs st =
     (if rs = [] then st
      else if list_ex (\<lambda>r. rw_tags r \<noteq> None) rs then st\<lparr>sy_untagged := removeAll endpoint (sy_untagged st)\<rparr>
      else st\<lparr>sy_untagged := List.insert endpoint (sy_untagged st)\<rparr>)"

text \<open>The two ways an older ecosystem refuses the filter expression.\<close>

definition filter_unsupported :: "http_error \<Rightarrow> bool" where
  "filter_unsupported e = (case e of
     HttpError code body \<Rightarrow> code = 400 \<or> (code = 500 \<and> body = ErrorBody ''KeyError'' [CHR 0x27, CHR ''q'', CHR 0x27])
   | _ \<Rightarrow> False)"

definition eco_list_records ::
  "'s dns_api \<Rightarrow> string \<Rightarrow> int \<Rightarrow> uuid \<Rightarrow> string \<Rightarrow> sync_state \<Rightarrow> 's \<Rightarrow> (http_error + row list) \<times> sync_state" where
  "eco_list_records sv endpoint now d tag st s =
     (let (refused, st) = filter_refused now endpoint st in
      if \<not> refused then
        (case sv_list_tagged sv d tag s of
           Inr rs \<Rightarrow> (Inr rs, st)
         | Inl e \<Rightarrow>
             if \<not> filter_unsupported e then (Inl e, st)
             else (case sv_list sv d s of
                 Inl e \<Rightarrow> (Inl e, st)
               | Inr rs \<Rightarrow> (Inr rs, observe_record_tags endpoint rs (st\<lparr>sy_refused := dset endpoint now (sy_refused st)\<rparr>))))
      else (case sv_list sv d s of
          Inl e \<Rightarrow> (Inl e, st) | Inr rs \<Rightarrow> (Inr rs, observe_record_tags endpoint rs st)))"

definition eco_update_record :: "'s dns_api \<Rightarrow> uuid \<Rightarrow> uuid \<Rightarrow> row \<Rightarrow> 's \<Rightarrow> http_error + 's" where
  "eco_update_record sv d u data s =
     (if card (realm_marks data) \<noteq> 1 then Inl NotOwned
      else ebind (sv_get sv d u s) (\<lambda>existing.
        if realm_marks existing \<noteq> realm_marks data then Inl NotOwned else sv_put sv d u data s))"

definition eco_create_record :: "'s dns_api \<Rightarrow> uuid \<Rightarrow> row \<Rightarrow> 's \<Rightarrow> http_error + 's" where
  "eco_create_record sv d data s = (case sv_post sv d data s of
     Inr s' \<Rightarrow> Inr s'
   | Inl (HttpError code body) \<Rightarrow>
       if code = 409 then eco_update_record sv d (rw_uuid data) data s else Inl (HttpError code body)
   | Inl e \<Rightarrow> Inl e)"

definition build_record_data :: "string option \<Rightarrow> dns_record \<Rightarrow> row" where
  "build_record_data tag r = \<lparr>rw_uuid = dr_uuid r, rw_type = dr_type r, rw_ttl = dr_ttl r, rw_disabled = dr_disabled r,
     rw_record = dr_record r,
     rw_tags = (case tag of None \<Rightarrow> None
       | Some t \<Rightarrow> Some (filter (\<lambda>x. \<not> starts_with x realm_tag_prefix) (dr_tags r) @ [t]))\<rparr>"

text \<open>A failed request is logged and the loop goes on.\<close>

definition tried :: "('s \<Rightarrow> http_error + 's) \<Rightarrow> 's \<Rightarrow> 's" where
  "tried f s = (case f s of Inl _ \<Rightarrow> s | Inr s' \<Rightarrow> s')"

definition same_data :: "row \<Rightarrow> row \<Rightarrow> bool" where
  "same_data a b \<longleftrightarrow> rw_type a = rw_type b \<and> rw_ttl a = rw_ttl b \<and> rw_disabled a = rw_disabled b \<and> rw_record a = rw_record b"

definition same_tags :: "row \<Rightarrow> row \<Rightarrow> bool" where
  "same_tags a b \<longleftrightarrow> sort (case rw_tags a of None \<Rightarrow> [] | Some ts \<Rightarrow> ts) = sort (case rw_tags b of None \<Rightarrow> [] | Some ts \<Rightarrow> ts)"

definition owned :: "string option \<Rightarrow> row \<Rightarrow> bool" where
  "owned tag r \<longleftrightarrow> (case tag of None \<Rightarrow> False | Some t \<Rightarrow> realm_marks r = {t})"

definition local_records :: "dns_db \<Rightarrow> uuid \<Rightarrow> dns_record list" where
  "local_records db d = filter (\<lambda>r. dr_domain r = d \<and> dr_type r \<noteq> ''SOA'') (dd_records db)"

definition eco_map :: "row list \<Rightarrow> uuid \<Rightarrow> row option" where
  "eco_map rs u = map_of (rev (map (\<lambda>r. (rw_uuid r, r)) rs)) u"

definition create_missing_records :: "'s dns_api \<Rightarrow> uuid \<Rightarrow> string option \<Rightarrow> dns_record list \<Rightarrow> row list \<Rightarrow> 's \<Rightarrow> 's" where
  "create_missing_records sv d tag locals eco s =
     fold (\<lambda>r. tried (eco_create_record sv d (build_record_data tag r)))
       (filter (\<lambda>r. eco_map eco (dr_uuid r) = None) locals) s"

definition needs_update :: "string option \<Rightarrow> row list \<Rightarrow> dns_record \<Rightarrow> bool" where
  "needs_update tag eco r = (case eco_map eco (dr_uuid r) of
     None \<Rightarrow> False
   | Some x \<Rightarrow> owned tag x \<and> \<not> (same_data (build_record_data tag r) x \<and> same_tags (build_record_data tag r) x))"

definition update_changed :: "'s dns_api \<Rightarrow> uuid \<Rightarrow> string option \<Rightarrow> dns_record list \<Rightarrow> row list \<Rightarrow> 's \<Rightarrow> 's" where
  "update_changed sv d tag locals eco s =
     fold (\<lambda>r. tried (eco_update_record sv d (dr_uuid r) (build_record_data tag r))) (filter (needs_update tag eco) locals) s"

definition delete_extra :: "'s dns_api \<Rightarrow> uuid \<Rightarrow> string option \<Rightarrow> dns_record list \<Rightarrow> row list \<Rightarrow> 's \<Rightarrow> 's" where
  "delete_extra sv d tag locals eco s =
     fold (\<lambda>x. tried (sv_delete sv d (rw_uuid x)))
       (filter (\<lambda>x. eco_map eco (rw_uuid x) = Some x \<and> rw_uuid x \<notin> dr_uuid ` set locals \<and> owned tag x) eco) s"

definition full_sync_domain ::
  "'s dns_api \<Rightarrow> string \<Rightarrow> int \<Rightarrow> dns_db \<Rightarrow> uuid \<Rightarrow> uuid \<Rightarrow> string \<Rightarrow> sync_state \<Rightarrow> 's \<Rightarrow> sync_state \<times> 's" where
  "full_sync_domain sv endpoint now db domain d tag st s =
     (case eco_list_records sv endpoint now d tag st s of
        (Inl e, st) \<Rightarrow> (st, s)
      | (Inr rs, st) \<Rightarrow>
          let mark = mark_for st endpoint tag; eco = filter (\<lambda>r. rw_type r \<noteq> ''SOA'') rs; locals = local_records db domain
          in (st, delete_extra sv d mark locals eco (update_changed sv d mark locals eco (create_missing_records sv d mark locals eco s))))"

definition eco_domain_map :: "(string \<times> uuid) list \<Rightarrow> string \<Rightarrow> uuid option" where
  "eco_domain_map ds name = map_of (rev ds) name"

text \<open>The fast path: what changed since the last pass, without reading the zones.\<close>

definition push_recent :: "'s dns_api \<Rightarrow> int \<Rightarrow> string option \<Rightarrow> uuid \<Rightarrow> dns_record \<Rightarrow> 's \<Rightarrow> 's" where
  "push_recent sv since tag d r =
     tried (if dr_created_at r \<ge> since then eco_create_record sv d (build_record_data tag r)
            else eco_update_record sv d (dr_uuid r) (build_record_data tag r))"

definition recent_records :: "dns_db \<Rightarrow> int \<Rightarrow> dns_record list" where
  "recent_records db since = filter (\<lambda>r. dr_updated_at r \<ge> since \<and> dr_type r \<noteq> ''SOA'' \<and>
     (case domain_of db (dr_domain r) of Inl _ \<Rightarrow> False | Inr d \<Rightarrow> dm_sync d)) (dd_records db)"

definition fast_sync :: "'s dns_api \<Rightarrow> dns_db \<Rightarrow> int \<Rightarrow> string option \<Rightarrow> 's \<Rightarrow> http_error + 's" where
  "fast_sync sv db since tag s =
     (let recent = recent_records db since in
      if recent = [] then Inr s
      else ebind (sv_domains sv s) (\<lambda>ds.
        Inr (fold (\<lambda>domain. case domain_of db domain of Inl _ \<Rightarrow> id
            | Inr dm \<Rightarrow> (case eco_domain_map ds (dm_name dm) of None \<Rightarrow> id
               | Some d \<Rightarrow> fold (push_recent sv since tag d) (filter (\<lambda>r. dr_domain r = domain) recent)))
          (remdups (map dr_domain recent)) s)))"

section \<open>Orchestration\<close>

definition ensure_realm_domain ::
  "'s dns_api \<Rightarrow> (uuid \<Rightarrow> string \<Rightarrow> uuid) \<Rightarrow> uuid \<Rightarrow> uuid \<Rightarrow> int \<Rightarrow> 's \<Rightarrow> dns_db \<Rightarrow> http_error + (bool \<times> dns_db)" where
  "ensure_realm_domain sv uuid5 fresh zero wall s db =
     ebind (sv_realm sv s) (\<lambda>name. case name of
       None \<Rightarrow> Inr (False, db)
     | Some name \<Rightarrow> if name = '''' then Inr (False, db)
         else (case find (\<lambda>d. dm_name d = name) (dd_domains db) of
           None \<Rightarrow> map_error http_of (ebind (domain_insert uuid5 wall \<lparr>dm_uuid = fresh, dm_name = name, dm_project = zero,
               dm_sync = True, dm_tags = [], dm_id = length (dd_domains db)\<rparr> db) (\<lambda>db. Inr (True, db)))
         | Some d \<Rightarrow> if dm_sync d then Inr (True, db)
             else Inr (True, db\<lparr>dd_domains := map (\<lambda>x. if dm_uuid x = dm_uuid d then x\<lparr>dm_sync := True\<rparr> else x) (dd_domains db)\<rparr>)))"

definition sync_domain ::
  "'s dns_api \<Rightarrow> string \<Rightarrow> int \<Rightarrow> dns_db \<Rightarrow> (string \<times> uuid) list \<Rightarrow> string \<Rightarrow> dns_domain \<Rightarrow> sync_state \<times> 's \<Rightarrow> sync_state \<times> 's" where
  "sync_domain sv endpoint now db ds tag dm ss = (case ss of (st, s) \<Rightarrow>
     (case eco_domain_map ds (dm_name dm) of
        Some d \<Rightarrow> full_sync_domain sv endpoint now db (dm_uuid dm) d tag st s
      | None \<Rightarrow> (case sv_create_domain sv (dm_name dm) s of
            Inl _ \<Rightarrow> (st, s) | Inr (d, s) \<Rightarrow> full_sync_domain sv endpoint now db (dm_uuid dm) d tag st s)))"

text \<open>\<open>now\<close> is the monotonic clock, \<open>wall\<close> the wall clock; an exception ends the pass with the state it has.\<close>

definition sync_all_domains ::
  "'s dns_api \<Rightarrow> (uuid \<Rightarrow> string \<Rightarrow> uuid) \<Rightarrow> uuid \<Rightarrow> uuid \<Rightarrow> string \<Rightarrow> uuid \<Rightarrow> int \<Rightarrow> int \<Rightarrow>
    sync_state \<Rightarrow> dns_db \<Rightarrow> 's \<Rightarrow> sync_state \<times> dns_db \<times> 's" where
  "sync_all_domains sv uuid5 fresh zero endpoint realm now wall st db s =
     (case (if sy_initialized st then Inr (True, db) else ensure_realm_domain sv uuid5 fresh zero wall s db) of
        Inl _ \<Rightarrow> (st, db, s)
      | Inr (False, db) \<Rightarrow> (st, db, s)
      | Inr (True, db) \<Rightarrow>
          let st = st\<lparr>sy_initialized := True\<rparr> in
          if now - sy_last_full st \<ge> full_sync_interval then
            (let domains = filter dm_sync (dd_domains db) in
             if domains = [] then (st, db, s)
             else case sv_domains sv s of
               Inl _ \<Rightarrow> (st, db, s)
             | Inr ds \<Rightarrow>
                 let (st, s) = fold (sync_domain sv endpoint now db ds (realm_tag realm)) domains (st, s)
                 in (st\<lparr>sy_last_full := now, sy_last_fast := Some wall\<rparr>, db, s))
          else (case sy_last_fast st of
              None \<Rightarrow> (st, db, s)
            | Some since \<Rightarrow> (case fast_sync sv db since (mark_for st endpoint (realm_tag realm)) s of
                  Inl _ \<Rightarrow> (st, db, s) | Inr s \<Rightarrow> (st\<lparr>sy_last_fast := Some wall\<rparr>, db, s))))"

section \<open>The list of public domains\<close>

definition domain_suffixes :: "string \<Rightarrow> string list" where
  "domain_suffixes name = (let parts = split_on CHR ''.'' name in map (\<lambda>i. join_with ''.'' (drop i parts)) [1..<length parts])"

definition public_names :: "dns_db \<Rightarrow> string list" where
  "public_names db = sort (remdups (map (\<lambda>d. lower (rstrip_by (\<lambda>c. c = CHR ''.'') (strip (dm_name d))))
     (filter (\<lambda>d. ''public'' \<in> set (dm_tags d)) (dd_domains db))))"

definition top_names :: "string list \<Rightarrow> string list" where
  "top_names names = filter (\<lambda>n. n \<noteq> '''' \<and> \<not> list_ex (\<lambda>x. x \<in> set names) (domain_suffixes n)) names"

definition write_dnsdist_domains :: "dns_db \<Rightarrow> sync_state \<Rightarrow> string option \<times> sync_state" where
  "write_dnsdist_domains db st =
     (let content = concat (map (\<lambda>n. n @ [CHR 0x0A]) (top_names (public_names db))) in
      if Some content = sy_written st then (None, st) else (Some content, st\<lparr>sy_written := Some content\<rparr>))"

end
