(* ===== verification/Dns_Mirror.thy ===== *)
theory Dns_Mirror
  imports Dns_Sync
begin

text \<open>
  What the mirror promises, over an interface: the requests of the ecosystem's records API with the laws
  they keep (\<open>dns_server\<close>), and with what makes them succeed (\<open>ready_dns_server\<close>).  The service's own
  records API is an instance, so that the properties hold for one installation mirroring into another.
\<close>

section \<open>The interface\<close>

locale dns_server =
  fixes sv :: "'s dns_api" and rows :: "'s \<Rightarrow> uuid \<Rightarrow> uuid \<Rightarrow> row option" and ok :: "'s \<Rightarrow> bool"
  assumes row_uuid: "rows s d u = Some r \<Longrightarrow> rw_uuid r = u"
    and list_rows: "ok s \<Longrightarrow> sv_list sv d s = Inr rs \<Longrightarrow> r \<in> set rs \<longleftrightarrow> rows s d (rw_uuid r) = Some r"
    and list_tagged: "ok s \<Longrightarrow> sv_list_tagged sv d t s = Inr rs \<Longrightarrow>
      r \<in> set rs \<longleftrightarrow> rows s d (rw_uuid r) = Some r \<and> (\<exists>ts. rw_tags r = Some ts \<and> t \<in> set ts)"
    and get_row: "ok s \<Longrightarrow> sv_get sv d u s = Inr r \<Longrightarrow> rows s d u = Some r"
    and post_ok: "ok s \<Longrightarrow> sv_post sv d r s = Inr s' \<Longrightarrow> ok s' \<and> rows s d (rw_uuid r) = None"
    and post_frame: "ok s \<Longrightarrow> sv_post sv d r s = Inr s' \<Longrightarrow> d' \<noteq> d \<or> u \<noteq> rw_uuid r \<Longrightarrow> rows s' d' u = rows s d' u"
    and post_row: "ok s \<Longrightarrow> sv_post sv d r s = Inr s' \<Longrightarrow> rw_tags r = Some ts \<Longrightarrow> rows s' d (rw_uuid r) = Some r"
    and put_ok: "ok s \<Longrightarrow> sv_put sv d u r s = Inr s' \<Longrightarrow> ok s'"
    and put_frame: "ok s \<Longrightarrow> sv_put sv d u r s = Inr s' \<Longrightarrow> d' \<noteq> d \<or> u' \<noteq> u \<Longrightarrow> rows s' d' u' = rows s d' u'"
    and put_row: "ok s \<Longrightarrow> sv_put sv d u r s = Inr s' \<Longrightarrow> rw_tags r = Some ts \<Longrightarrow> rw_uuid r = u \<Longrightarrow> rows s' d u = Some r"
    and delete_ok: "ok s \<Longrightarrow> sv_delete sv d u s = Inr s' \<Longrightarrow> ok s' \<and> rows s' d u = None"
    and delete_frame: "ok s \<Longrightarrow> sv_delete sv d u s = Inr s' \<Longrightarrow> d' \<noteq> d \<or> u' \<noteq> u \<Longrightarrow> rows s' d' u' = rows s d' u'"
    and create_domain: "ok s \<Longrightarrow> sv_create_domain sv n s = Inr (d, s') \<Longrightarrow>
      ok s' \<and> (\<forall>d' u r. rows s d' u = Some r \<longrightarrow> rows s' d' u = Some r)"
begin

definition frame :: "uuid \<Rightarrow> uuid set \<Rightarrow> 's \<Rightarrow> 's \<Rightarrow> bool" where
  "frame d U s s' \<longleftrightarrow> ok s' \<and> (\<forall>d' u. d' \<noteq> d \<or> u \<notin> U \<longrightarrow> rows s' d' u = rows s d' u)"

definition spares :: "string set \<Rightarrow> 's \<Rightarrow> 's \<Rightarrow> bool" where
  "spares M s s' \<longleftrightarrow> (\<forall>d u r. rows s d u = Some r \<and> realm_marks r \<noteq> M \<longrightarrow> rows s' d u = Some r)"

lemma frame_refl: "ok s \<Longrightarrow> frame d U s s"
  by (simp add: frame_def)

lemma frame_trans: "frame d U s s' \<Longrightarrow> frame d U s' s'' \<Longrightarrow> frame d U s s''"
  by (simp add: frame_def)

lemma frame_mono: "frame d U s s' \<Longrightarrow> U \<subseteq> V \<Longrightarrow> frame d V s s'"
  by (auto simp: frame_def)

lemma frame_push: "frame d {k x} s s' \<Longrightarrow> frame d (k ` set xs) s' s'' \<Longrightarrow> frame d (k ` set (x # xs)) s s''"
  unfolding frame_def by simp

lemma spares_refl: "spares M s s"
  by (simp add: spares_def)

lemma spares_trans: "spares M s s' \<Longrightarrow> spares M s' s'' \<Longrightarrow> spares M s s''"
  by (simp add: spares_def)

lemma update_frame:
  assumes "ok s" and "eco_update_record sv d u data s = Inr s'"
  shows "frame d {u} s s'" "realm_marks data \<subseteq> {t} \<Longrightarrow> spares {t} s s'"
proof -
  from assms(2) obtain x where x: "sv_get sv d u s = Inr x" "realm_marks x = realm_marks data" "sv_put sv d u data s = Inr s'"
    and card: "card (realm_marks data) = 1"
    by (auto simp: eco_update_record_def ebind_Inr_iff split: if_splits)
  show f: "frame d {u} s s'" using put_ok [OF assms(1) x(3)] put_frame [OF assms(1) x(3)] by (auto simp: frame_def)
  assume "realm_marks data \<subseteq> {t}"
  with card have m: "realm_marks data = {t}" by (auto simp: card_1_singleton_iff)
  show "spares {t} s s'"
    unfolding spares_def
  proof (intro allI impI, elim conjE)
    fix d' u' r
    assume r: "rows s d' u' = Some r" "realm_marks r \<noteq> {t}"
    have "rows s d u = Some x" by (rule get_row [OF assms(1) x(1)])
    with r x(2) m have "d' \<noteq> d \<or> u' \<noteq> u" by (metis option.inject)
    from put_frame [OF assms(1) x(3) this] r(1) show "rows s' d' u' = Some r" by simp
  qed
qed

lemma post_frames:
  assumes "ok s" and "sv_post sv d data s = Inr s'"
  shows "frame d {rw_uuid data} s s'" "spares M s s'"
proof -
  note p = post_ok [OF assms] post_frame [OF assms]
  show "frame d {rw_uuid data} s s'" using p by (auto simp: frame_def)
  show "spares M s s'" unfolding spares_def
  proof (intro allI impI, elim conjE)
    fix d' u r
    assume r: "rows s d' u = Some r"
    with p(1) have "d' \<noteq> d \<or> u \<noteq> rw_uuid data" by auto
    with p(2) r show "rows s' d' u = Some r" by simp
  qed
qed

lemma create_frame:
  assumes "ok s" and "eco_create_record sv d data s = Inr s'"
  shows "frame d {rw_uuid data} s s'" "realm_marks data \<subseteq> {t} \<Longrightarrow> spares {t} s s'"
  using assms(2) post_frames [OF assms(1)] update_frame [OF assms(1)]
  by (auto simp: eco_create_record_def split: sum.splits http_error.splits if_splits)

text \<open>A loop of pushes, with what every one of them keeps.\<close>

lemma pushes_frame:
  assumes "ok s" and "\<And>x s s'. ok s \<Longrightarrow> f x s = Inr s' \<Longrightarrow> frame d {k x} s s' \<and> spares M s s'"
  shows "frame d (k ` set xs) s (fold (\<lambda>x. tried (f x)) xs s) \<and> spares M s (fold (\<lambda>x. tried (f x)) xs s)"
  using assms
proof (induction xs arbitrary: s)
  case Nil
  then show ?case by (simp add: frame_refl spares_refl)
next
  case (Cons x xs)
  let ?s = "tried (f x) s"
  have x: "frame d {k x} s ?s \<and> spares M s ?s"
    using Cons.prems by (cases "f x s") (auto simp: tried_def frame_refl spares_refl)
  then have "ok ?s" by (simp add: frame_def)
  from Cons.IH [OF this] Cons.prems(2)
  have "frame d (k ` set xs) ?s (fold (\<lambda>x. tried (f x)) xs ?s) \<and> spares M ?s (fold (\<lambda>x. tried (f x)) xs ?s)"
    by (metis list.set_intros(2))
  with x have "frame d (k ` set (x # xs)) s (fold (\<lambda>x. tried (f x)) xs ?s)" "spares M s (fold (\<lambda>x. tried (f x)) xs ?s)"
    by (auto intro: frame_push [where k = k] spares_trans simp del: set_simps)
  then show ?case by simp
qed

lemma build_marks: "starts_with t realm_tag_prefix \<Longrightarrow> mark \<in> {None, Some t} \<Longrightarrow> realm_marks (build_record_data mark r) \<subseteq> {t}"
  by (cases mark) (auto simp: realm_marks_def build_record_data_def)

lemma build_uuid [simp]: "rw_uuid (build_record_data tag r) = dr_uuid r"
  by (simp add: build_record_data_def)

lemma push_frame:
  assumes "starts_with t realm_tag_prefix" and "mark \<in> {None, Some t}" and "ok s"
  shows "eco_create_record sv d (build_record_data mark r) s = Inr s' \<Longrightarrow> frame d {dr_uuid r} s s' \<and> spares {t} s s'"
    "eco_update_record sv d (dr_uuid r) (build_record_data mark r) s = Inr s' \<Longrightarrow> frame d {dr_uuid r} s s' \<and> spares {t} s s'"
  using create_frame [OF assms(3)] update_frame [OF assms(3)] build_marks [OF assms(1,2)] by fastforce+

lemma create_missing_records_frame:
  assumes "starts_with t realm_tag_prefix" and "mark \<in> {None, Some t}" and "ok s"
  shows "frame d (dr_uuid ` set (filter (\<lambda>r. eco_map eco (dr_uuid r) = None) locals)) s (create_missing_records sv d mark locals eco s)"
    "spares {t} s (create_missing_records sv d mark locals eco s)"
  unfolding create_missing_records_def
  by (rule conjunct1 [OF pushes_frame] conjunct2 [OF pushes_frame], rule assms(3), erule (1) push_frame(1) [OF assms(1,2)])+

lemma update_changed_frame:
  assumes "starts_with t realm_tag_prefix" and "mark \<in> {None, Some t}" and "ok s"
  shows "frame d (dr_uuid ` set (filter (needs_update mark eco) locals)) s (update_changed sv d mark locals eco s)"
    "spares {t} s (update_changed sv d mark locals eco s)"
  unfolding update_changed_def
  by (rule conjunct1 [OF pushes_frame] conjunct2 [OF pushes_frame], rule assms(3), erule (1) push_frame(2) [OF assms(1,2)])+

lemma deletes_frame:
  assumes "ok s" and "\<forall>x \<in> set xs. \<forall>r. rows s d (rw_uuid x) = Some r \<longrightarrow> realm_marks r = M"
  shows "frame d (rw_uuid ` set xs) s (fold (\<lambda>x. tried (sv_delete sv d (rw_uuid x))) xs s) \<and>
    spares M s (fold (\<lambda>x. tried (sv_delete sv d (rw_uuid x))) xs s)"
  using assms
proof (induction xs arbitrary: s)
  case Nil
  then show ?case by (simp add: frame_refl spares_refl)
next
  case (Cons x xs)
  let ?s = "tried (sv_delete sv d (rw_uuid x)) s"
  have x: "frame d {rw_uuid x} s ?s \<and> spares M s ?s \<and> (\<forall>u r. rows ?s d u = Some r \<longrightarrow> rows s d u = Some r)"
  proof (cases "sv_delete sv d (rw_uuid x) s")
    case (Inl e)
    with Cons.prems show ?thesis by (simp add: tried_def frame_refl spares_refl)
  next
    case (Inr s')
    note p = delete_ok [OF Cons.prems(1) Inr] delete_frame [OF Cons.prems(1) Inr]
    have "spares M s s'" unfolding spares_def
    proof (intro allI impI, elim conjE)
      fix d' u r
      assume r: "rows s d' u = Some r" "realm_marks r \<noteq> M"
      with Cons.prems(2) have "d' \<noteq> d \<or> u \<noteq> rw_uuid x" by auto
      with p(2) r show "rows s' d' u = Some r" by simp
    qed
    moreover have "\<forall>u r. rows s' d u = Some r \<longrightarrow> rows s d u = Some r"
      using p by (metis option.distinct(1))
    ultimately show ?thesis using Inr p by (auto simp: tried_def frame_def)
  qed
  then have "ok ?s" "\<forall>y \<in> set xs. \<forall>r. rows ?s d (rw_uuid y) = Some r \<longrightarrow> realm_marks r = M"
    using Cons.prems(2) by (auto simp: frame_def)
  from Cons.IH [OF this] x have "frame d (rw_uuid ` set (x # xs)) s (fold (\<lambda>x. tried (sv_delete sv d (rw_uuid x))) xs ?s)"
    "spares M s (fold (\<lambda>x. tried (sv_delete sv d (rw_uuid x))) xs ?s)"
    by (auto intro: frame_push [where k = rw_uuid] spares_trans simp del: set_simps)
  then show ?case by simp
qed

lemma eco_map_mem: "eco_map rs u = Some x \<Longrightarrow> x \<in> set rs \<and> rw_uuid x = u"
  unfolding eco_map_def by (drule map_of_SomeD) auto

lemma eco_list_mem:
  assumes "ok s" and "eco_list_records sv endpoint now d tag st s = (Inr rs, st')" and "r \<in> set rs"
  shows "rows s d (rw_uuid r) = Some r"
  using assms list_rows [OF assms(1), of d rs r] list_tagged [OF assms(1), of d tag rs r]
  by (auto simp: eco_list_records_def split: prod.splits sum.splits if_splits)

definition doomed :: "string option \<Rightarrow> dns_record list \<Rightarrow> row list \<Rightarrow> row list" where
  "doomed mark locals eco = filter (\<lambda>x. eco_map eco (rw_uuid x) = Some x \<and> rw_uuid x \<notin> dr_uuid ` set locals \<and> owned mark x) eco"

lemma delete_extra_frame:
  assumes "mark \<in> {None, Some t}" and "ok s" and "\<And>x. x \<in> set eco \<Longrightarrow> rows s d (rw_uuid x) = Some x"
    and "frame d (dr_uuid ` set locals) s s2"
  shows "frame d (rw_uuid ` set (doomed mark locals eco)) s2 (delete_extra sv d mark locals eco s2)"
    "spares {t} s2 (delete_extra sv d mark locals eco s2)"
proof -
  have own: "\<forall>x \<in> set (doomed mark locals eco). \<forall>r. rows s2 d (rw_uuid x) = Some r \<longrightarrow> realm_marks r = {t}"
    using assms by (auto simp: doomed_def frame_def owned_def)
  have "ok s2" using assms(4) by (simp add: frame_def)
  from deletes_frame [OF this own]
  show "frame d (rw_uuid ` set (doomed mark locals eco)) s2 (delete_extra sv d mark locals eco s2)"
    "spares {t} s2 (delete_extra sv d mark locals eco s2)"
    by (simp_all add: delete_extra_def doomed_def)
qed

text \<open>A full pass over a domain, taken apart.\<close>

lemma full_sync_cases:
  assumes "full_sync_domain sv endpoint now db domain d tag st s = (st', s')"
  obtains "s' = s"
  | rs mark eco where "eco_list_records sv endpoint now d tag st s = (Inr rs, st')" and "mark = mark_for st' endpoint tag"
      and "eco = filter (\<lambda>r. rw_type r \<noteq> ''SOA'') rs"
      and "s' = delete_extra sv d mark (local_records db domain) eco
        (update_changed sv d mark (local_records db domain) eco (create_missing_records sv d mark (local_records db domain) eco s))"
proof (cases "eco_list_records sv endpoint now d tag st s")
  case (Pair res st1)
  show ?thesis
  proof (cases res)
    case (Inl e)
    with Pair assms show ?thesis by (intro that(1)) (simp add: full_sync_domain_def)
  next
    case (Inr rs)
    with Pair assms show ?thesis by (intro that(2)) (auto simp: full_sync_domain_def Let_def)
  qed
qed

lemma full_sync_spares:
  assumes "ok s" and "starts_with tag realm_tag_prefix" and "full_sync_domain sv endpoint now db domain d tag st s = (st', s')"
  shows "ok s' \<and> spares {tag} s s' \<and> (\<forall>d' u. d' \<noteq> d \<longrightarrow> rows s' d' u = rows s d' u)"
  using assms(3)
proof (cases rule: full_sync_cases)
  case 1
  with assms show ?thesis by (simp add: spares_refl)
next
  case (2 rs mark eco)
  let ?loc = "local_records db domain"
  let ?s1 = "create_missing_records sv d mark ?loc eco s"
  let ?s2 = "update_changed sv d mark ?loc eco ?s1"
  have mark: "mark \<in> {None, Some tag}" using 2 by (simp add: mark_for_def)
  note c = create_missing_records_frame [OF assms(2) mark assms(1), where d = d and eco = eco and locals = ?loc]
  then have "ok ?s1" by (simp add: frame_def)
  note u = update_changed_frame [OF assms(2) mark this, where d = d and eco = eco and locals = ?loc]
  have f12: "frame d (dr_uuid ` set ?loc) s ?s2"
    by (rule frame_trans [OF frame_mono [OF c(1)] frame_mono [OF u(1)]]) auto
  have "\<And>x. x \<in> set eco \<Longrightarrow> rows s d (rw_uuid x) = Some x" using eco_list_mem [OF assms(1) 2(1)] 2(3) by simp
  note del = delete_extra_frame [OF mark assms(1) this f12]
  have "spares {tag} s s'" using c(2) u(2) del(2) 2(4) by (auto intro: spares_trans)
  with f12 del(1) 2(4) show ?thesis by (simp add: frame_def)
qed

text \<open>A whole pass.\<close>

lemma sync_domain_spares:
  assumes "ok s" and "starts_with tag realm_tag_prefix" and "sync_domain sv endpoint now db ds tag dm (st, s) = (st', s')"
  shows "ok s' \<and> spares {tag} s s'"
proof (cases "eco_domain_map ds (dm_name dm)")
  case (Some d)
  with assms full_sync_spares [OF assms(1,2)] show ?thesis by (auto simp: sync_domain_def)
next
  case None
  show ?thesis
  proof (cases "sv_create_domain sv (dm_name dm) s")
    case (Inl e)
    with assms None show ?thesis by (auto simp: sync_domain_def spares_refl)
  next
    case (Inr p)
    then obtain d s1 where c: "sv_create_domain sv (dm_name dm) s = Inr (d, s1)" by (cases p) auto
    from create_domain [OF assms(1) c] have "ok s1" "spares {tag} s s1" by (auto simp: spares_def)
    with assms c None full_sync_spares [of s1 tag endpoint now db "dm_uuid dm" d st st' s'] show ?thesis
      by (auto simp: sync_domain_def intro: spares_trans)
  qed
qed

lemma sync_domains_spare:
  assumes "starts_with tag realm_tag_prefix"
  shows "ok s \<Longrightarrow> fold (sync_domain sv endpoint now db ds tag) dms (st, s) = (st', s') \<Longrightarrow> ok s' \<and> spares {tag} s s'"
proof (induction dms arbitrary: st s)
  case Nil
  then show ?case by (simp add: spares_refl)
next
  case (Cons dm dms)
  obtain st1 s1 where 1: "sync_domain sv endpoint now db ds tag dm (st, s) = (st1, s1)" by fastforce
  from sync_domain_spares [OF Cons.prems(1) assms 1] have "ok s1" "spares {tag} s s1" by simp_all
  with Cons.IH [of s1 st1] Cons.prems(2) 1 show ?case by (auto intro: spares_trans)
qed

lemma push_recent_spares:
  assumes "starts_with t realm_tag_prefix" and "mark \<in> {None, Some t}" and "ok s"
  shows "ok (push_recent sv since mark d r s) \<and> spares {t} s (push_recent sv since mark d r s)"
  using push_frame [OF assms] assms(3)
  by (auto simp: push_recent_def tried_def frame_def spares_refl split: sum.split)

lemma fold_spares:
  assumes "\<And>x s. ok s \<Longrightarrow> ok (f x s) \<and> spares M s (f x s)"
  shows "ok s \<Longrightarrow> ok (fold f xs s) \<and> spares M s (fold f xs s)"
proof (induction xs arbitrary: s)
  case (Cons x xs)
  with assms [OF Cons.prems, of x] show ?case by (auto intro: spares_trans)
qed (simp add: spares_refl)

lemma push_all_spares:
  assumes "starts_with t realm_tag_prefix" and "mark \<in> {None, Some t}" and "ok s"
  shows "ok (fold (push_recent sv since mark d) rs s) \<and> spares {t} s (fold (push_recent sv since mark d) rs s)"
  by (rule fold_spares [OF push_recent_spares [OF assms(1,2)] assms(3)])

lemma fast_sync_spares:
  assumes "starts_with t realm_tag_prefix" and "mark \<in> {None, Some t}" and "ok s" and "fast_sync sv db since mark s = Inr s'"
  shows "ok s' \<and> spares {t} s s'"
proof (cases "recent_records db since = []")
  case True
  with assms show ?thesis by (simp add: fast_sync_def spares_refl)
next
  case False
  then obtain ds where s': "s' = fold (\<lambda>domain. case domain_of db domain of Inl _ \<Rightarrow> id
        | Inr dm \<Rightarrow> (case eco_domain_map ds (dm_name dm) of None \<Rightarrow> id
           | Some d \<Rightarrow> fold (push_recent sv since mark d) (filter (\<lambda>r. dr_domain r = domain) (recent_records db since))))
      (remdups (map dr_domain (recent_records db since))) s"
    using assms(4) by (auto simp: fast_sync_def Let_def ebind_Inr_iff)
  show ?thesis
    unfolding s' by (rule fold_spares [OF _ assms(3)])
      (auto split: sum.split option.split simp: spares_refl push_all_spares [OF assms(1,2)])
qed

lemma sync_all_spares:
  assumes "ok s" and "sync_all_domains sv uuid5 fresh zero endpoint realm now wall st db s = (st', db', s')"
  shows "ok s' \<and> spares {realm_tag realm} s s'"
proof -
  have tag: "starts_with (realm_tag realm) realm_tag_prefix" by (simp add: realm_tag_def)
  have mark: "mark_for st1 endpoint (realm_tag realm) \<in> {None, Some (realm_tag realm)}" for st1 by (simp add: mark_for_def)
  let ?st = "st\<lparr>sy_initialized := True\<rparr>"
  obtain b dbx where "(if sy_initialized st then Inr (True, db) else ensure_realm_domain sv uuid5 fresh zero wall s db) = Inr (b, dbx)
      \<or> (\<exists>e. (if sy_initialized st then Inr (True, db) else ensure_realm_domain sv uuid5 fresh zero wall s db) = Inl e)"
    by (cases "if sy_initialized st then Inr (True, db) else ensure_realm_domain sv uuid5 fresh zero wall s db") auto
  then show ?thesis
  proof (elim disjE exE)
    assume i: "(if sy_initialized st then Inr (True, db) else ensure_realm_domain sv uuid5 fresh zero wall s db) = Inr (b, dbx)"
    consider "s' = s"
      | ds st1 st2 where "fold (sync_domain sv endpoint now dbx ds (realm_tag realm)) (filter dm_sync (dd_domains dbx)) (st1, s) = (st2, s')"
      | since where "fast_sync sv dbx since (mark_for ?st endpoint (realm_tag realm)) s = Inr s'"
      using assms(2) i by (auto simp: sync_all_domains_def Let_def split: bool.splits if_splits sum.splits option.splits prod.splits)
    then show ?thesis
    proof cases
      case 1 with assms(1) show ?thesis by (simp add: spares_refl)
    next
      case 2 then show ?thesis by (rule sync_domains_spare [OF tag assms(1)])
    next
      case 3 show ?thesis by (rule fast_sync_spares [OF tag mark assms(1) 3])
    qed
  next
    fix e assume "(if sy_initialized st then Inr (True, db) else ensure_realm_domain sv uuid5 fresh zero wall s db) = Inl e"
    with assms show ?thesis by (simp add: sync_all_domains_def spares_refl)
  qed
qed

end

end
