(* ===== verification/Dns_Converge.thy ===== *)
theory Dns_Converge
  imports Dns_Mirror
begin

text \<open>
  Where a full pass of the mirror ends.  The abstract zone is what the ecosystem shows under a realm's mark
  (\<open>mirrored\<close>), the specification is the local zone (\<open>mirror_image\<close>); a full pass makes the one the
  other wherever the ecosystem takes the realm's records (\<open>ready_dns_server\<close>).
\<close>

section \<open>The abstract zone\<close>

definition tags_of :: "row \<Rightarrow> string list" where
  "tags_of r = (case rw_tags r of None \<Rightarrow> [] | Some ts \<Rightarrow> ts)"

definition zone_key :: "row \<Rightarrow> string \<times> int \<times> bool \<times> rdata \<times> string list" where
  "zone_key r = (rw_type r, rw_ttl r, rw_disabled r, rw_record r, sort (tags_of r))"

definition mirrored :: "(uuid \<Rightarrow> row option) \<Rightarrow> string \<Rightarrow> uuid \<Rightarrow> (string \<times> int \<times> bool \<times> rdata \<times> string list) option" where
  "mirrored zone tag u = (case zone u of None \<Rightarrow> None
     | Some r \<Rightarrow> if rw_type r \<noteq> ''SOA'' \<and> realm_marks r = {tag} then Some (zone_key r) else None)"

definition mirror_image :: "dns_record list \<Rightarrow> string \<Rightarrow> uuid \<Rightarrow> (string \<times> int \<times> bool \<times> rdata \<times> string list) option" where
  "mirror_image locals tag u = map_option (\<lambda>r. zone_key (build_record_data (Some tag) r)) (find (\<lambda>r. dr_uuid r = u) locals)"

lemma zone_key_eq: "zone_key a = zone_key b \<longleftrightarrow> same_data a b \<and> same_tags a b"
  by (auto simp: zone_key_def same_data_def same_tags_def tags_of_def)

lemma build_type [simp]: "rw_type (build_record_data tag r) = dr_type r"
  by (simp add: build_record_data_def)

lemma build_mark: "starts_with t realm_tag_prefix \<Longrightarrow> realm_marks (build_record_data (Some t) r) = {t}"
  by (auto simp: realm_marks_def build_record_data_def)

lemma build_tags: "rw_tags (build_record_data (Some t) r) = Some (filter (\<lambda>x. \<not> starts_with x realm_tag_prefix) (dr_tags r) @ [t])"
  by (simp add: build_record_data_def)

lemma marked_tagged: "realm_marks r = {t} \<Longrightarrow> \<exists>ts. rw_tags r = Some ts \<and> t \<in> set ts"
  by (cases "rw_tags r") (auto simp: realm_marks_def)

lemma find_local: "distinct (map dr_uuid rs) \<Longrightarrow> r \<in> set rs \<Longrightarrow> find (\<lambda>x. dr_uuid x = dr_uuid r) rs = Some r"
  by (induction rs) (auto simp: rev_image_eqI)

section \<open>A server that takes the realm's records\<close>

locale ready_dns_server = dns_server sv rows ok
  for sv :: "'s dns_api" and rows :: "'s \<Rightarrow> uuid \<Rightarrow> uuid \<Rightarrow> row option" and ok :: "'s \<Rightarrow> bool" +
  fixes fits :: "'s \<Rightarrow> uuid \<Rightarrow> row \<Rightarrow> bool"
  assumes get_total: "ok s \<Longrightarrow> rows s d u = Some r \<Longrightarrow> sv_get sv d u s = Inr r"
    and post_total: "ok s \<Longrightarrow> fits s d r \<Longrightarrow> rows s d (rw_uuid r) = None \<Longrightarrow> \<exists>s'. sv_post sv d r s = Inr s'"
    and put_total: "ok s \<Longrightarrow> fits s d r \<Longrightarrow> rows s d (rw_uuid r) = Some x \<Longrightarrow> rw_type x = rw_type r \<Longrightarrow>
      \<exists>s'. sv_put sv d (rw_uuid r) r s = Inr s'"
    and delete_total: "ok s \<Longrightarrow> rows s d u = Some r \<Longrightarrow> rw_type r \<noteq> ''SOA'' \<Longrightarrow> \<exists>s'. sv_delete sv d u s = Inr s'"
    and post_fits: "ok s \<Longrightarrow> sv_post sv d x s = Inr s' \<Longrightarrow> rw_uuid r \<noteq> rw_uuid x \<Longrightarrow> fits s d r \<Longrightarrow> fits s' d r"
    and put_fits: "ok s \<Longrightarrow> sv_put sv d u x s = Inr s' \<Longrightarrow> fits s d r \<Longrightarrow> fits s' d r"
begin

definition fits_kept :: "uuid \<Rightarrow> uuid set \<Rightarrow> 's \<Rightarrow> 's \<Rightarrow> bool" where
  "fits_kept d U s s' \<longleftrightarrow> (\<forall>r. rw_uuid r \<notin> U \<longrightarrow> fits s d r \<longrightarrow> fits s' d r)"

text \<open>A loop of pushes of distinct records, each of which will be taken, leaves every one of them in place.\<close>

lemma pushes_hit:
  assumes "ok s" and "distinct (map dr_uuid xs)"
    and "\<And>x s. x \<in> set xs \<Longrightarrow> ok s \<Longrightarrow> rows s d (dr_uuid x) = old (dr_uuid x) \<Longrightarrow> fits s d (g x) \<Longrightarrow>
      \<exists>s'. f x s = Inr s' \<and> frame d {dr_uuid x} s s' \<and> fits_kept d {dr_uuid x} s s' \<and> rows s' d (dr_uuid x) = Some (g x)"
    and "\<And>x. rw_uuid (g x) = dr_uuid x"
    and "\<forall>x \<in> set xs. rows s d (dr_uuid x) = old (dr_uuid x) \<and> fits s d (g x)"
  shows "frame d (dr_uuid ` set xs) s (fold (\<lambda>x. tried (f x)) xs s) \<and> fits_kept d (dr_uuid ` set xs) s (fold (\<lambda>x. tried (f x)) xs s)
    \<and> (\<forall>x \<in> set xs. rows (fold (\<lambda>x. tried (f x)) xs s) d (dr_uuid x) = Some (g x))"
  using assms
proof (induction xs arbitrary: s)
  case Nil
  then show ?case by (simp add: frame_refl fits_kept_def)
next
  case (Cons x xs)
  have x: "x \<in> set (x # xs)" by simp
  from Cons.prems(3) [OF x Cons.prems(1)] Cons.prems(5) obtain s1 where s1: "f x s = Inr s1" "frame d {dr_uuid x} s s1"
    "fits_kept d {dr_uuid x} s s1" "rows s1 d (dr_uuid x) = Some (g x)" by auto
  have ok1: "ok s1" using s1(2) by (simp add: frame_def)
  have pre: "\<forall>y \<in> set xs. rows s1 d (dr_uuid y) = old (dr_uuid y) \<and> fits s1 d (g y)"
  proof
    fix y assume y: "y \<in> set xs"
    with Cons.prems(2) have n: "dr_uuid y \<noteq> dr_uuid x" by (auto simp: image_iff)
    with s1(2) have "rows s1 d (dr_uuid y) = rows s d (dr_uuid y)" by (simp add: frame_def)
    moreover have "fits s1 d (g y)" using s1(3) n y Cons.prems(4,5) by (simp add: fits_kept_def)
    ultimately show "rows s1 d (dr_uuid y) = old (dr_uuid y) \<and> fits s1 d (g y)" using y Cons.prems(5) by simp
  qed
  let ?s = "fold (\<lambda>x. tried (f x)) xs s1"
  have "frame d (dr_uuid ` set xs) s1 ?s \<and> fits_kept d (dr_uuid ` set xs) s1 ?s \<and> (\<forall>y \<in> set xs. rows ?s d (dr_uuid y) = Some (g y))"
    using Cons.prems by (intro Cons.IH [OF ok1 _ _ _ pre]) auto
  moreover from this have "rows ?s d (dr_uuid x) = Some (g x)" using s1(4) Cons.prems(2) by (auto simp: frame_def)
  moreover have "tried (f x) s = s1" using s1(1) by (simp add: tried_def)
  ultimately show ?case using s1 by (auto simp: frame_def fits_kept_def)
qed

lemma create_hits:
  assumes "ok s" and "rows s d (dr_uuid r) = None" and "fits s d (build_record_data (Some t) r)"
  shows "\<exists>s'. eco_create_record sv d (build_record_data (Some t) r) s = Inr s' \<and> frame d {dr_uuid r} s s' \<and>
    fits_kept d {dr_uuid r} s s' \<and> rows s' d (dr_uuid r) = Some (build_record_data (Some t) r)"
proof -
  let ?r = "build_record_data (Some t) r"
  from post_total [OF assms(1,3)] assms(2) obtain s' where p: "sv_post sv d ?r s = Inr s'" by auto
  from post_frames(1) [OF assms(1) p] have "frame d {dr_uuid r} s s'" by simp
  moreover have "fits_kept d {dr_uuid r} s s'" using post_fits [OF assms(1) p] by (simp add: fits_kept_def)
  moreover have "rows s' d (dr_uuid r) = Some ?r" using post_row [OF assms(1) p build_tags] by simp
  ultimately show ?thesis using p by (auto simp: eco_create_record_def)
qed

lemma update_hits:
  assumes "starts_with t realm_tag_prefix" and "ok s" and "rows s d (dr_uuid r) = Some x" and "realm_marks x = {t}"
    and "rw_type x = dr_type r" and "fits s d (build_record_data (Some t) r)"
  shows "\<exists>s'. eco_update_record sv d (dr_uuid r) (build_record_data (Some t) r) s = Inr s' \<and> frame d {dr_uuid r} s s' \<and>
    fits_kept d {dr_uuid r} s s' \<and> rows s' d (dr_uuid r) = Some (build_record_data (Some t) r)"
proof -
  let ?r = "build_record_data (Some t) r"
  from put_total [OF assms(2,6), of x] assms(3,5) obtain s' where p: "sv_put sv d (dr_uuid r) ?r s = Inr s'" by auto
  have u: "eco_update_record sv d (dr_uuid r) ?r s = Inr s'"
    using p get_total [OF assms(2,3)] assms(4) by (simp add: eco_update_record_def build_mark [OF assms(1)])
  moreover have "fits_kept d {dr_uuid r} s s'" using put_fits [OF assms(2) p] by (simp add: fits_kept_def)
  moreover have "rows s' d (dr_uuid r) = Some ?r" using put_row [OF assms(2) p build_tags] by simp
  ultimately show ?thesis using update_frame(1) [OF assms(2) u] by auto
qed

lemma deletes_hit:
  assumes "ok s" and "\<forall>x \<in> set xs. \<forall>r. rows s d (rw_uuid x) = Some r \<longrightarrow> rw_type r \<noteq> ''SOA''"
  shows "(\<forall>x \<in> set xs. rows (fold (\<lambda>x. tried (sv_delete sv d (rw_uuid x))) xs s) d (rw_uuid x) = None) \<and>
    (\<forall>u. rows s d u = None \<longrightarrow> rows (fold (\<lambda>x. tried (sv_delete sv d (rw_uuid x))) xs s) d u = None)"
  using assms
proof (induction xs arbitrary: s)
  case (Cons x xs)
  let ?s = "tried (sv_delete sv d (rw_uuid x)) s"
  have x: "ok ?s \<and> rows ?s d (rw_uuid x) = None \<and> (\<forall>u. u \<noteq> rw_uuid x \<longrightarrow> rows ?s d u = rows s d u)"
  proof (cases "sv_delete sv d (rw_uuid x) s")
    case (Inl e)
    then have "rows s d (rw_uuid x) = None"
      using delete_total [OF Cons.prems(1)] Cons.prems(2) by (metis list.set_intros(1) option.exhaust sum.distinct(1))
    with Inl Cons.prems(1) show ?thesis by (simp add: tried_def)
  next
    case (Inr s')
    from delete_ok [OF Cons.prems(1) Inr] delete_frame [OF Cons.prems(1) Inr] Inr show ?thesis by (simp add: tried_def)
  qed
  have "\<forall>y \<in> set xs. \<forall>r. rows ?s d (rw_uuid y) = Some r \<longrightarrow> rw_type r \<noteq> ''SOA''"
    using x Cons.prems(2) by (metis list.set_intros(2) option.distinct(1))
  from Cons.IH [OF conjunct1 [OF x] this] x show ?case
    by simp metis
qed simp

lemma eco_list_complete:
  assumes "ok s" and "eco_list_records sv endpoint now d tag st s = (Inr rs, st')"
    and "rows s d u = Some x" and "realm_marks x = {tag}"
  shows "x \<in> set rs"
  using assms marked_tagged [OF assms(4)] row_uuid [OF assms(3)] list_rows [OF assms(1), of d rs x] list_tagged [OF assms(1), of d tag rs x]
  by (auto simp: eco_list_records_def split: prod.splits sum.splits if_splits)

lemma eco_map_iff:
  assumes "\<And>x. x \<in> set eco \<Longrightarrow> rows s d (rw_uuid x) = Some x"
  shows "eco_map eco u = Some x \<longleftrightarrow> x \<in> set eco \<and> rw_uuid x = u"
proof
  show "eco_map eco u = Some x \<Longrightarrow> x \<in> set eco \<and> rw_uuid x = u" by (rule eco_map_mem)
  assume x: "x \<in> set eco \<and> rw_uuid x = u"
  then have "u \<in> fst ` set (rev (map (\<lambda>r. (rw_uuid r, r)) eco))" by force
  then obtain y where "eco_map eco u = Some y" by (metis eco_map_def map_of_eq_None_iff option.exhaust)
  with eco_map_mem [OF this] assms x show "eco_map eco u = Some x" by (metis option.inject)
qed

text \<open>The zone after the creations and the updates of a pass.\<close>

definition in_place :: "string \<Rightarrow> dns_record \<Rightarrow> row option \<Rightarrow> bool" where
  "in_place tag r x \<longleftrightarrow> (\<exists>y. x = Some y \<and> zone_key y = zone_key (build_record_data (Some tag) r) \<and> realm_marks y = {tag} \<and> rw_type y = dr_type r)"

lemma in_place_built: "starts_with tag realm_tag_prefix \<Longrightarrow> in_place tag r (Some (build_record_data (Some tag) r))"
  by (simp add: in_place_def build_mark)

lemma pushed_zone:
  assumes ok: "ok s" and tag: "starts_with tag realm_tag_prefix" and dist: "distinct (map dr_uuid locals)"
    and eco: "\<And>r x. r \<in> set locals \<Longrightarrow> eco_map eco (dr_uuid r) = Some x \<Longrightarrow> rows s d (dr_uuid r) = Some x \<and> realm_marks x = {tag} \<and> rw_type x = dr_type r"
    and new: "\<And>r. r \<in> set locals \<Longrightarrow> eco_map eco (dr_uuid r) = None \<Longrightarrow> rows s d (dr_uuid r) = None"
    and fit: "\<And>r. r \<in> set locals \<Longrightarrow> fits s d (build_record_data (Some tag) r)"
  defines "s2 \<equiv> update_changed sv d (Some tag) locals eco (create_missing_records sv d (Some tag) locals eco s)"
  shows "frame d (dr_uuid ` set locals) s s2" "r \<in> set locals \<Longrightarrow> in_place tag r (rows s2 d (dr_uuid r))"
proof -
  let ?g = "build_record_data (Some tag)"
  define s1 where "s1 = create_missing_records sv d (Some tag) locals eco s"
  let ?new = "filter (\<lambda>r. eco_map eco (dr_uuid r) = None) locals"
  let ?changed = "filter (needs_update (Some tag) eco) locals"
  have d: "distinct (map dr_uuid ?new)" "distinct (map dr_uuid ?changed)" using dist by (auto simp: distinct_map intro: inj_on_subset)
  have c: "frame d (dr_uuid ` set ?new) s s1 \<and> fits_kept d (dr_uuid ` set ?new) s s1 \<and> (\<forall>r \<in> set ?new. rows s1 d (dr_uuid r) = Some (?g r))"
    unfolding s1_def create_missing_records_def
    using d(1) new fit by (intro pushes_hit [where old = "\<lambda>_. None"] ok create_hits) auto
  have kept: "rows s1 d (dr_uuid r) = Some x \<and> fits s1 d (?g r)" if "r \<in> set locals" "eco_map eco (dr_uuid r) = Some x" for r x
  proof -
    from that(2) have "dr_uuid r \<notin> dr_uuid ` set ?new" by auto
    with c eco [OF that] fit [OF that(1)] show ?thesis by (simp add: frame_def fits_kept_def)
  qed
  have ch: "\<exists>x. eco_map eco (dr_uuid r) = Some x" if "r \<in> set ?changed" for r
    using that by (auto simp: needs_update_def split: option.splits)
  have step: "\<exists>s'. eco_update_record sv d (dr_uuid r) (?g r) t = Inr s' \<and> frame d {dr_uuid r} t s' \<and>
      fits_kept d {dr_uuid r} t s' \<and> rows s' d (dr_uuid r) = Some (?g r)"
    if "r \<in> set ?changed" "ok t" "rows t d (dr_uuid r) = eco_map eco (dr_uuid r)" "fits t d (?g r)" for r t
    using ch [OF that(1)] that eco [of r] update_hits [OF tag that(2) _ _ _ that(4)] by auto
  have "\<forall>r \<in> set ?changed. rows s1 d (dr_uuid r) = eco_map eco (dr_uuid r) \<and> fits s1 d (?g r)" 
  proof
    fix r assume r: "r \<in> set ?changed"
    then have "r \<in> set locals" by simp
    moreover from ch [OF r] obtain x where "eco_map eco (dr_uuid r) = Some x" by blast
    ultimately show "rows s1 d (dr_uuid r) = eco_map eco (dr_uuid r) \<and> fits s1 d (?g r)" using kept [of r x] by simp
  qed
  moreover have "ok s1" using c by (simp add: frame_def)
  ultimately have u: "frame d (dr_uuid ` set ?changed) s1 s2 \<and> (\<forall>r \<in> set ?changed. rows s2 d (dr_uuid r) = Some (?g r))"
    unfolding s2_def update_changed_def s1_def [symmetric] using pushes_hit [OF _ d(2) step build_uuid] by blast
  show "frame d (dr_uuid ` set locals) s s2"
    by (rule frame_trans [OF frame_mono [OF conjunct1 [OF c]] frame_mono [OF conjunct1 [OF u]]]) auto
  assume r: "r \<in> set locals"
  have inj: "dr_uuid r \<in> dr_uuid ` set ?changed \<longleftrightarrow> r \<in> set ?changed" using r dist by (auto simp: distinct_map inj_on_def)
  show "in_place tag r (rows s2 d (dr_uuid r))"
  proof (cases "r \<in> set ?changed")
    case True
    with u in_place_built [OF tag] show ?thesis by simp
  next
    case False
    with inj u have same: "rows s2 d (dr_uuid r) = rows s1 d (dr_uuid r)" by (simp add: frame_def)
    show ?thesis
    proof (cases "eco_map eco (dr_uuid r)")
      case None
      with r c same in_place_built [OF tag] show ?thesis by simp
    next
      case (Some x)
      with False r eco [OF r Some] have "zone_key (?g r) = zone_key x" by (simp add: needs_update_def owned_def zone_key_eq)
      with kept [OF r Some] eco [OF r Some] same show ?thesis by (simp add: in_place_def)
    qed
  qed
qed

theorem full_sync_converges:
  fixes locals :: "dns_record list" and db :: dns_db and domain :: uuid and s :: 's
  defines "locals \<equiv> local_records db domain"
  assumes ok: "ok s" and tag: "starts_with tag realm_tag_prefix"
    and sync: "full_sync_domain sv endpoint now db domain d tag st s = (st', s')"
    and listed: "eco_list_records sv endpoint now d tag st s = (Inr rs, st')" and marking: "mark_for st' endpoint tag = Some tag"
    and dist: "distinct (map dr_uuid locals)"
    and fit: "\<And>r. r \<in> set locals \<Longrightarrow> fits s d (build_record_data (Some tag) r)"
    and mine: "\<And>r x. r \<in> set locals \<Longrightarrow> rows s d (dr_uuid r) = Some x \<Longrightarrow> realm_marks x = {tag} \<and> rw_type x = dr_type r"
  shows "mirrored (rows s' d) tag = mirror_image locals tag"
proof
  fix u
  define eco where "eco = filter (\<lambda>r. rw_type r \<noteq> ''SOA'') rs"
  define s2 where "s2 = update_changed sv d (Some tag) locals eco (create_missing_records sv d (Some tag) locals eco s)"
  have s': "s' = delete_extra sv d (Some tag) locals eco s2"
    using sync listed marking by (simp add: full_sync_domain_def Let_def eco_def s2_def locals_def)
  have mem: "rows s d (rw_uuid x) = Some x" if "x \<in> set eco" for x using eco_list_mem [OF ok listed] that by (simp add: eco_def)
  have em: "eco_map eco v = Some x \<longleftrightarrow> x \<in> set eco \<and> rw_uuid x = v" for v x by (rule eco_map_iff) (rule mem)
  have old: "eco_map eco v = Some x" if "rows s d v = Some x" "realm_marks x = {tag}" "rw_type x \<noteq> ''SOA''" for v x
    unfolding em using eco_list_complete [OF ok listed that(1,2)] row_uuid [OF that(1)] that(3) by (simp add: eco_def)
  have soa: "dr_type r \<noteq> ''SOA''" if "r \<in> set locals" for r using that by (simp add: locals_def local_records_def)
  have "rows s d (dr_uuid r) = None" if "r \<in> set locals" "eco_map eco (dr_uuid r) = None" for r
    using that mine [of r] soa [of r] old [of "dr_uuid r"] by (cases "rows s d (dr_uuid r)") auto
  moreover have "rows s d (dr_uuid r) = Some x \<and> realm_marks x = {tag} \<and> rw_type x = dr_type r"
    if "r \<in> set locals" "eco_map eco (dr_uuid r) = Some x" for r x
  proof -
    have "rows s d (dr_uuid r) = Some x" using that(2) em [of "dr_uuid r" x] mem [of x] by auto
    with mine [OF that(1)] show ?thesis by simp
  qed
  ultimately have f: "frame d (dr_uuid ` set locals) s s2" and p: "\<And>r. r \<in> set locals \<Longrightarrow> in_place tag r (rows s2 d (dr_uuid r))"
    unfolding s2_def using pushed_zone [OF ok tag dist _ _ fit] by blast+
  have del: "frame d (rw_uuid ` set (doomed (Some tag) locals eco)) s2 s'"
    unfolding s' by (rule delete_extra_frame [OF _ ok mem f]) simp_all
  have kept: "rows s2 d (rw_uuid x) = Some x" "rw_type x \<noteq> ''SOA''" if "x \<in> set (doomed (Some tag) locals eco)" for x
    using that f mem [of x] by (auto simp: doomed_def frame_def eco_def)
  have "ok s2" using f by (simp add: frame_def)
  then have gone: "\<forall>x \<in> set (doomed (Some tag) locals eco). rows s' d (rw_uuid x) = None"
    using deletes_hit [of s2 "doomed (Some tag) locals eco" d] kept unfolding s' delete_extra_def doomed_def by fastforce
  show "mirrored (rows s' d) tag u = mirror_image locals tag u"
  proof (cases "u \<in> dr_uuid ` set locals")
    case True
    then obtain r where r: "r \<in> set locals" "u = dr_uuid r" by auto
    have "\<forall>x \<in> set (doomed (Some tag) locals eco). rw_uuid x \<notin> dr_uuid ` set locals" by (simp add: doomed_def)
    with True have "u \<notin> rw_uuid ` set (doomed (Some tag) locals eco)" by blast
    with del have "rows s' d u = rows s2 d u" by (simp add: frame_def)
    then have "in_place tag r (rows s' d u)" using p [OF r(1)] r(2) by simp
    moreover have "find (\<lambda>x. dr_uuid x = u) locals = Some r" using find_local [OF dist r(1)] r(2) by simp
    ultimately show ?thesis using soa [OF r(1)] unfolding in_place_def mirrored_def mirror_image_def by fastforce
  next
    case False
    then have "find (\<lambda>r. dr_uuid r = u) locals = None" by (auto simp: find_None_iff)
    moreover have "rows s2 d u = rows s d u" using f False by (simp add: frame_def)
    moreover have "rows s' d u = None" if "rows s d u = Some x" "realm_marks x = {tag}" "rw_type x \<noteq> ''SOA''" for x
    proof -
      have "x \<in> set (doomed (Some tag) locals eco)"
        using old [OF that] em [of u x] False that(2) by (auto simp: doomed_def owned_def)
      with gone row_uuid [OF that(1)] show ?thesis by auto
    qed
    moreover have "rows s' d u = rows s2 d u \<or> rows s' d u = None" 
      using gone del by (cases "u \<in> rw_uuid ` set (doomed (Some tag) locals eco)") (auto simp: frame_def)
    ultimately show ?thesis by (auto simp: mirrored_def mirror_image_def split: option.split)
  qed
qed

end

end
