(* ===== verification/Dns_Own.thy ===== *)
theory Dns_Own
  imports Dns_Converge
begin

text \<open>
  The service's own records API as the ecosystem of another installation: it keeps the laws of
  \<open>dns_server\<close> and takes every record that \<open>acceptable\<close> describes, so the mirror's properties hold of it.
  Also what its operations keep of the zones, and the list of public domains.
\<close>

section \<open>The service's own records API\<close>

definition own_api :: "(uuid \<Rightarrow> string \<Rightarrow> uuid) \<Rightarrow> (dns_db \<Rightarrow> uuid) \<Rightarrow> uuid \<Rightarrow> string option \<Rightarrow> int \<Rightarrow> dns_db dns_api" where
  "own_api uuid5 fresh project realm now = \<lparr>sv_realm = \<lambda>db. Inr realm,
     sv_domains = \<lambda>db. Inr (map (\<lambda>d. (dm_name d, dm_uuid d)) (dd_domains db)),
     sv_create_domain = \<lambda>name db. map_error http_of (ebind (domain_insert uuid5 now \<lparr>dm_uuid = fresh db, dm_name = name,
       dm_project = project, dm_sync = False, dm_tags = [], dm_id = length (dd_domains db)\<rparr> db) (\<lambda>db'. Inr (fresh db, db'))),
     sv_list = api_list, sv_list_tagged = api_list_tagged, sv_get = api_get, sv_post = api_post now, sv_put = api_put now,
     sv_delete = api_delete\<rparr>"

definition shown :: "dns_db \<Rightarrow> uuid \<Rightarrow> uuid \<Rightarrow> row option" where
  "shown db d u = map_option row_of (find (\<lambda>r. dr_uuid r = u) (api_rows db d))"

definition uuids_unique :: "dns_db \<Rightarrow> bool" where
  "uuids_unique db \<longleftrightarrow> distinct (map dr_uuid (dd_records db))"

text \<open>A record the API takes: the domain exists, the type is the data's, the uuid is not a record of another domain.\<close>

definition acceptable :: "dns_db \<Rightarrow> uuid \<Rightarrow> row \<Rightarrow> bool" where
  "acceptable db d r \<longleftrightarrow> (\<exists>dm. domain_of db d = Inr dm) \<and> rw_type r = rdata_kind (rw_record r) \<and>
     (\<forall>x \<in> set (dd_records db). dr_uuid x = rw_uuid r \<longrightarrow> dr_domain x = d)"

text \<open>The answers, one by one.\<close>

lemma find_uuid: "distinct (map dr_uuid rs) \<Longrightarrow> find (\<lambda>r. dr_uuid r = u) rs = Some r \<longleftrightarrow> r \<in> set rs \<and> dr_uuid r = u"
  by (induction rs) (auto simp: rev_image_eqI)

lemma find_api: "uuids_unique db \<Longrightarrow> find (\<lambda>r. dr_uuid r = u) (api_rows db d) = Some r \<longleftrightarrow>
    r \<in> set (dd_records db) \<and> dr_domain r = d \<and> dr_uuid r = u"
  by (subst find_uuid) (auto simp: uuids_unique_def api_rows_def distinct_map intro: inj_on_subset)

lemma shown_Some: "uuids_unique db \<Longrightarrow> shown db d u = Some x \<longleftrightarrow>
    (\<exists>r \<in> set (dd_records db). dr_domain r = d \<and> dr_uuid r = u \<and> x = row_of r)"
  by (auto simp: shown_def find_api)

lemma shown_None: "shown db d u = None \<longleftrightarrow> (\<forall>r \<in> set (dd_records db). \<not> (dr_domain r = d \<and> dr_uuid r = u))"
  by (auto simp: shown_def find_None_iff api_rows_def)

lemma row_of_simps [simp]: "rw_uuid (row_of r) = dr_uuid r" "rw_type (row_of r) = dr_type r" "rw_tags (row_of r) = Some (dr_tags r)"
  by (simp_all add: row_of_def)

lemma map_error_Inr: "map_error f r = Inr y \<longleftrightarrow> r = Inr y"
  by (simp add: map_error_def split: sum.split)

lemma fill_Inr: "fill_n_validate_record d r = Inr q \<longleftrightarrow> dr_type r = rdata_kind (dr_record r) \<and>
    q = r\<lparr>dr_content := get_content (dr_record r) d, dr_name := get_name (dr_record r) d\<rparr>"
  by (auto simp: fill_n_validate_record_def)

lemma record_of_None: "record_of db u = None \<longleftrightarrow> u \<notin> dr_uuid ` set (dd_records db)"
  by (auto simp: record_of_def find_None_iff)

lemma api_post_Inr:
  assumes "api_post now d r db = Inr db'"
  shows "\<exists>q dm. domain_of db d = Inr dm \<and> dr_domain q = d \<and> dr_uuid q = rw_uuid r \<and> (\<forall>ts. rw_tags r = Some ts \<longrightarrow> row_of q = r) \<and>
    fill_n_validate_record dm q = Inr q \<and> rw_uuid r \<notin> dr_uuid ` set (dd_records db) \<and> db' = db\<lparr>dd_records := dd_records db @ [q]\<rparr>"
proof -
  let ?q = "\<lambda>dm. \<lparr>dr_uuid = rw_uuid r, dr_domain = d, dr_project = dm_project dm, dr_type = rw_type r, dr_ttl = rw_ttl r,
       dr_disabled = rw_disabled r, dr_record = rw_record r, dr_tags = (case rw_tags r of None \<Rightarrow> [] | Some ts \<Rightarrow> ts),
       dr_name = get_name (rw_record r) dm, dr_content = get_content (rw_record r) dm, dr_created_at = now, dr_updated_at = now\<rparr>"
  from assms obtain dm where "domain_of db d = Inr dm" "rw_type r = rdata_kind (rw_record r)" "rw_uuid r \<notin> dr_uuid ` set (dd_records db)"
    "db' = db\<lparr>dd_records := dd_records db @ [?q dm]\<rparr>"
    by (auto simp: api_post_def map_error_Inr ebind_Inr_iff record_insert_def fill_Inr record_of_None split: if_splits)
  then show ?thesis by (intro exI [of _ "?q dm"] exI [of _ dm]) (cases r, auto simp: row_of_def fill_Inr)
qed

lemma api_post_total:
  assumes "acceptable db d r" and "shown db d (rw_uuid r) = None"
  shows "\<exists>db'. api_post now d r db = Inr db'"
proof -
  from assms have "rw_uuid r \<notin> dr_uuid ` set (dd_records db)" by (auto simp: acceptable_def shown_None)
  with assms(1) show ?thesis
    by (auto simp: acceptable_def api_post_def map_error_Inr ebind_Inr_iff record_insert_def fill_Inr record_of_None)
qed

lemma api_put_Inr:
  assumes "uuids_unique db" and "api_put now d u r db = Inr db'"
  shows "\<exists>x q dm. domain_of db d = Inr dm \<and> fill_n_validate_record dm q = Inr q \<and> dr_type q = dr_type x \<and> x \<in> set (dd_records db) \<and> dr_domain x = d \<and> dr_uuid x = u \<and> rw_uuid r = u \<and> dr_domain q = d \<and> dr_uuid q = u \<and>
    (\<forall>ts. rw_tags r = Some ts \<longrightarrow> row_of q = r) \<and>
    db' = db\<lparr>dd_records := map (\<lambda>x. if dr_uuid x = u then q else x) (dd_records db)\<rparr>"
proof -
  let ?q = "\<lambda>x dm. x\<lparr>dr_ttl := rw_ttl r, dr_disabled := rw_disabled r, dr_record := rw_record r,
    dr_tags := (case rw_tags r of None \<Rightarrow> dr_tags x | Some ts \<Rightarrow> ts), dr_updated_at := now,
    dr_content := get_content (rw_record r) dm, dr_name := get_name (rw_record r) dm\<rparr>"
  from assms obtain x dm where x: "x \<in> set (dd_records db)" "dr_domain x = d" "dr_uuid x = u" "rw_uuid r = u" "rw_type r = dr_type x"
    "domain_of db d = Inr dm" "dr_type x = rdata_kind (rw_record r)"
    "db' = db\<lparr>dd_records := map (\<lambda>y. if dr_uuid y = u then ?q x dm else y) (dd_records db)\<rparr>"
    by (auto simp: api_put_def map_error_Inr ebind_Inr_iff record_update_def fill_Inr find_api split: if_splits option.splits)
  then show ?thesis by (intro exI [of _ "?q x dm"] exI [of _ x] exI [of _ dm]) (cases r, auto simp: row_of_def fill_Inr)
qed

lemma api_put_total:
  assumes "uuids_unique db" and "acceptable db d r" and "shown db d (rw_uuid r) = Some x" and "rw_type x = rw_type r"
  shows "\<exists>db'. api_put now d (rw_uuid r) r db = Inr db'"
proof -
  from assms(1,3) obtain y where "find (\<lambda>q. dr_uuid q = rw_uuid r) (api_rows db d) = Some y" "x = row_of y" "dr_domain y = d"
    by (auto simp: shown_def find_api)
  with assms(2,4) show ?thesis
    by (auto simp: acceptable_def api_put_def map_error_Inr ebind_Inr_iff record_update_def fill_Inr)
qed

lemma api_delete_Inr:
  assumes "uuids_unique db" and "api_delete d u db = Inr db'"
  shows "\<exists>x. x \<in> set (dd_records db) \<and> dr_domain x = d \<and> dr_uuid x = u \<and> dr_type x \<noteq> ''SOA'' \<and>
    db' = db\<lparr>dd_records := filter (\<lambda>x. dr_uuid x \<noteq> u) (dd_records db)\<rparr>"
  using assms by (auto simp: api_delete_def map_error_Inr record_delete_def find_api split: if_splits option.splits)

lemma api_delete_total:
  assumes "uuids_unique db" and "shown db d u = Some x" and "rw_type x \<noteq> ''SOA''"
  shows "\<exists>db'. api_delete d u db = Inr db'"
  using assms by (auto simp: api_delete_def map_error_Inr record_delete_def shown_def)

lemma create_domain_Inr:
  assumes "map_error http_of (ebind (domain_insert uuid5 now dm db) (\<lambda>db'. Inr (u, db'))) = Inr (d, db')"
  shows "\<exists>q. dr_uuid q \<notin> dr_uuid ` set (dd_records db) \<and> dd_records db' = dd_records db @ [q]"
  using assms
  by (auto simp: map_error_Inr ebind_Inr_iff domain_insert_def record_insert_def fill_Inr record_of_None soa_record_def split: if_splits)

lemma unique_append: "uuids_unique db \<Longrightarrow> dr_uuid q \<notin> dr_uuid ` set (dd_records db) \<Longrightarrow> dd_records db' = dd_records db @ [q] \<Longrightarrow>
    uuids_unique db'"
  by (simp add: uuids_unique_def)

lemma map_uuid_update: "dr_uuid q = u \<Longrightarrow> map (dr_uuid \<circ> (\<lambda>x. if dr_uuid x = u then q else x)) rs = map dr_uuid rs"
  by (induction rs) auto

lemma unique_update: "uuids_unique db \<Longrightarrow> dr_uuid q = u \<Longrightarrow>
    uuids_unique (db\<lparr>dd_records := map (\<lambda>x. if dr_uuid x = u then q else x) (dd_records db)\<rparr>)"
  by (simp add: uuids_unique_def map_uuid_update)

lemma unique_filter: "uuids_unique db \<Longrightarrow> uuids_unique (db\<lparr>dd_records := filter P (dd_records db)\<rparr>)"
  by (auto simp: uuids_unique_def distinct_map intro: inj_on_subset)

text \<open>What a request changes in what the API shows.\<close>

lemma shown_append: "shown (db\<lparr>dd_records := dd_records db @ [q]\<rparr>) d u =
    (case shown db d u of Some x \<Rightarrow> Some x | None \<Rightarrow> if dr_domain q = d \<and> dr_uuid q = u then Some (row_of q) else None)"
proof -
  have "find P (xs @ [q]) = (case find P xs of Some x \<Rightarrow> Some x | None \<Rightarrow> if P q then Some q else None)" for P xs
    by (induction xs) auto
  then show ?thesis by (auto simp: shown_def api_rows_def split: option.split)
qed

lemma shown_eqI:
  assumes "uuids_unique db" and "uuids_unique db'"
    and "\<And>r. dr_domain r = d \<Longrightarrow> dr_uuid r = u \<Longrightarrow> r \<in> set (dd_records db') \<longleftrightarrow> r \<in> set (dd_records db)"
  shows "shown db' d u = shown db d u"
proof -
  have "shown db' d u = Some z \<longleftrightarrow> shown db d u = Some z" for z
    unfolding shown_Some [OF assms(1)] shown_Some [OF assms(2)] using assms(3) by blast
  then show ?thesis by (metis option.exhaust)
qed

lemma shown_update:
  assumes "uuids_unique db" and "x \<in> set (dd_records db)" "dr_domain x = d" "dr_uuid x = u" and "dr_domain q = d" "dr_uuid q = u"
  shows "shown (db\<lparr>dd_records := map (\<lambda>x. if dr_uuid x = u then q else x) (dd_records db)\<rparr>) d' u' =
    (if d' = d \<and> u' = u then Some (row_of q) else shown db d' u')" (is "shown ?db d' u' = _")
proof (cases "d' = d \<and> u' = u")
  case True
  have "q \<in> set (dd_records ?db)" using assms(2,4) by (auto simp: image_iff)
  with True assms(5,6) show ?thesis by (simp add: shown_Some [OF unique_update [OF assms(1,6)]] del: set_map) blast
next
  case False
  have x: "y = x" if "y \<in> set (dd_records db)" "dr_uuid y = u" for y
    using that assms(1,2,4) by (auto simp: uuids_unique_def distinct_map inj_on_def)
  have "shown ?db d' u' = shown db d' u'"
  proof (rule shown_eqI [OF assms(1) unique_update [OF assms(1,6)]])
    fix r :: dns_record assume r: "dr_domain r = d'" "dr_uuid r = u'"
    show "r \<in> set (dd_records ?db) \<longleftrightarrow> r \<in> set (dd_records db)"
    proof (cases "u' = u")
      case True
      with False r have "r \<noteq> q" "r \<noteq> x" using assms(3,5) by auto
      with r True x show ?thesis by (auto simp: image_iff)
    next
      case False
      with r assms(6) show ?thesis by (auto simp: image_iff)
    qed
  qed
  with False show ?thesis by auto
qed

lemma shown_filter:
  assumes "uuids_unique db" and "x \<in> set (dd_records db)" "dr_domain x = d" "dr_uuid x = u"
  shows "shown (db\<lparr>dd_records := filter (\<lambda>x. dr_uuid x \<noteq> u) (dd_records db)\<rparr>) d' u' =
    (if d' = d \<and> u' = u then None else shown db d' u')" (is "shown ?db d' u' = _")
proof (cases "d' = d \<and> u' = u")
  case True
  then show ?thesis by (simp add: shown_None)
next
  case False
  have x: "y = x" if "y \<in> set (dd_records db)" "dr_uuid y = u" for y
    using that assms by (auto simp: uuids_unique_def distinct_map inj_on_def)
  have "shown ?db d' u' = shown db d' u'"
    using x False assms(3) by (intro shown_eqI [OF assms(1) unique_filter [OF assms(1)]]) auto
  with False show ?thesis by auto
qed

section \<open>The interface, provided\<close>

lemma api_list_mem: "uuids_unique db \<Longrightarrow> api_list d db = Inr rs \<Longrightarrow> x \<in> set rs \<longleftrightarrow> shown db d (rw_uuid x) = Some x"
  by (auto simp: api_list_def api_rows_def shown_Some image_iff) blast

lemma api_list_tagged_mem: "uuids_unique db \<Longrightarrow> api_list_tagged d t db = Inr rs \<Longrightarrow>
    x \<in> set rs \<longleftrightarrow> shown db d (rw_uuid x) = Some x \<and> (\<exists>ts. rw_tags x = Some ts \<and> t \<in> set ts)"
  by (auto simp: api_list_tagged_def api_rows_def shown_Some image_iff) blast

lemma api_post_shown:
  assumes "uuids_unique db" and "api_post now d r db = Inr db'"
  shows "uuids_unique db'" "shown db d' (rw_uuid r) = None"
    "d' \<noteq> d \<or> u \<noteq> rw_uuid r \<Longrightarrow> shown db' d' u = shown db d' u"
    "rw_tags r = Some ts \<Longrightarrow> shown db' d (rw_uuid r) = Some r"
    "acceptable db d y \<Longrightarrow> rw_uuid y \<noteq> rw_uuid r \<Longrightarrow> acceptable db' d y"
proof -
  from api_post_Inr [OF assms(2)] obtain q dm where q: "domain_of db d = Inr dm" "dr_domain q = d" "dr_uuid q = rw_uuid r"
    "rw_tags r = Some ts \<Longrightarrow> row_of q = r" "rw_uuid r \<notin> dr_uuid ` set (dd_records db)"
    and db': "db' = db\<lparr>dd_records := dd_records db @ [q]\<rparr>" by auto
  show "uuids_unique db'" by (rule unique_append [OF assms(1)]) (use q db' in simp_all)
  show n: "shown db d' (rw_uuid r) = None" for d' using q(5) by (force simp: shown_None)
  show "shown db' d' u = shown db d' u" if "d' \<noteq> d \<or> u \<noteq> rw_uuid r"
    using that q(2,3) by (auto simp: db' shown_append split: option.split)
  show "shown db' d (rw_uuid r) = Some r" if "rw_tags r = Some ts" using q that n by (simp add: db' shown_append)
  show "acceptable db' d y" if "acceptable db d y" "rw_uuid y \<noteq> rw_uuid r"
    using that q by (auto simp: db' acceptable_def domain_of_def)
qed

lemma api_put_shown:
  assumes "uuids_unique db" and "api_put now d u r db = Inr db'"
  shows "uuids_unique db'" "d' \<noteq> d \<or> u' \<noteq> u \<Longrightarrow> shown db' d' u' = shown db d' u'"
    "rw_tags r = Some ts \<Longrightarrow> shown db' d u = Some r" "acceptable db d y \<Longrightarrow> acceptable db' d y"
proof -
  from api_put_Inr [OF assms] obtain x q where x: "x \<in> set (dd_records db)" "dr_domain x = d" "dr_uuid x = u"
    and q: "dr_domain q = d" "dr_uuid q = u" "rw_tags r = Some ts \<Longrightarrow> row_of q = r"
    and db': "db' = db\<lparr>dd_records := map (\<lambda>x. if dr_uuid x = u then q else x) (dd_records db)\<rparr>" by auto
  show "uuids_unique db'" unfolding db' by (rule unique_update [OF assms(1) q(2)])
  note s = shown_update [OF assms(1) x q(1,2), folded db']
  show "shown db' d' u' = shown db d' u'" if "d' \<noteq> d \<or> u' \<noteq> u" using that by (auto simp: s)
  show "shown db' d u = Some r" if "rw_tags r = Some ts" using q(3) that by (simp add: s)
  show "acceptable db' d y" if "acceptable db d y" using that q x by (auto simp: db' acceptable_def domain_of_def)
qed

lemma api_delete_shown:
  assumes "uuids_unique db" and "api_delete d u db = Inr db'"
  shows "uuids_unique db'" "shown db' d u = None" "d' \<noteq> d \<or> u' \<noteq> u \<Longrightarrow> shown db' d' u' = shown db d' u'"
proof -
  from api_delete_Inr [OF assms] obtain x where x: "x \<in> set (dd_records db)" "dr_domain x = d" "dr_uuid x = u"
    and db': "db' = db\<lparr>dd_records := filter (\<lambda>x. dr_uuid x \<noteq> u) (dd_records db)\<rparr>" by auto
  show "uuids_unique db'" unfolding db' by (rule unique_filter [OF assms(1)])
  note s = shown_filter [OF assms(1) x, folded db']
  show "shown db' d u = None" by (simp add: s)
  show "shown db' d' u' = shown db d' u'" if "d' \<noteq> d \<or> u' \<noteq> u" using that by (auto simp: s)
qed

lemma create_domain_shown:
  assumes "uuids_unique db" and "sv_create_domain (own_api uuid5 fresh project realm now) name db = Inr (d, db')"
  shows "uuids_unique db'" "shown db d' v = Some x \<Longrightarrow> shown db' d' v = Some x"
proof -
  from create_domain_Inr [OF assms(2) [unfolded own_api_def dns_api.simps]] obtain q where q: "dr_uuid q \<notin> dr_uuid ` set (dd_records db)" "dd_records db' = dd_records db @ [q]" by auto
  then show u: "uuids_unique db'" by (rule unique_append [OF assms(1)])
  show "shown db d' v = Some x \<Longrightarrow> shown db' d' v = Some x" using q(2) by (auto simp: shown_Some [OF u] shown_Some [OF assms(1)])
qed

lemma own_api_simps:
  "sv_list (own_api uuid5 fresh project realm now) = api_list"
  "sv_list_tagged (own_api uuid5 fresh project realm now) = api_list_tagged"
  "sv_get (own_api uuid5 fresh project realm now) = api_get"
  "sv_post (own_api uuid5 fresh project realm now) = api_post now"
  "sv_put (own_api uuid5 fresh project realm now) = api_put now"
  "sv_delete (own_api uuid5 fresh project realm now) = api_delete"
  by (simp_all add: own_api_def)

lemma api_get_Inr: "api_get d u db = Inr r \<longleftrightarrow> shown db d u = Some r"
  by (auto simp: api_get_def shown_def split: option.splits)

lemma shown_uuid: "shown db d u = Some r \<Longrightarrow> rw_uuid r = u"
  by (auto simp: shown_def dest: find_Some_iff [THEN iffD1])

interpretation own: ready_dns_server "own_api uuid5 fresh project realm now" shown uuids_unique acceptable
  by unfold_locales (auto simp: own_api_simps api_list_mem api_list_tagged_mem api_get_Inr api_post_total api_put_total
      intro: shown_uuid api_post_shown api_put_shown api_delete_total api_delete_shown create_domain_shown)

section \<open>The zones stay well-formed\<close>

text \<open>Requests to the domains and records API that do not rename a domain.\<close>

inductive zone_step :: "(uuid \<Rightarrow> string \<Rightarrow> uuid) \<Rightarrow> dns_db \<Rightarrow> dns_db \<Rightarrow> bool" for uuid5 where
  step_domain: "domain_insert uuid5 now dm db = Inr db' \<Longrightarrow> zone_step uuid5 db db'"
| step_drop: "zone_step uuid5 db (domain_delete d db)"
| step_post: "api_post now d r db = Inr db' \<Longrightarrow> zone_step uuid5 db db'"
| step_put: "api_put now d u r db = Inr db' \<Longrightarrow> zone_step uuid5 db db'"
| step_delete: "api_delete d u db = Inr db' \<Longrightarrow> zone_step uuid5 db db'"

inductive_cases zone_stepE: "zone_step uuid5 db db'"

definition record_ok :: "dns_db \<Rightarrow> dns_record \<Rightarrow> bool" where
  "record_ok db r \<longleftrightarrow> (\<exists>dm. domain_of db (dr_domain r) = Inr dm \<and> fill_n_validate_record dm r = Inr r)"

definition keeps_soa :: "(uuid \<Rightarrow> string \<Rightarrow> uuid) \<Rightarrow> dns_db \<Rightarrow> uuid \<Rightarrow> bool" where
  "keeps_soa uuid5 db d \<longleftrightarrow> list_ex (\<lambda>r. dr_uuid r = uuid5 d ''soa'' \<and> dr_domain r = d \<and> dr_type r = ''SOA'') (dd_records db)"

definition zone_ok :: "(uuid \<Rightarrow> string \<Rightarrow> uuid) \<Rightarrow> dns_db \<Rightarrow> bool" where
  "zone_ok uuid5 db \<longleftrightarrow> uuids_unique db \<and> list_all (record_ok db) (dd_records db) \<and>
     list_all (keeps_soa uuid5 db) (map dm_uuid (dd_domains db))"

lemma keeps_soa_iff: "keeps_soa uuid5 db d \<longleftrightarrow>
    (\<exists>r \<in> set (dd_records db). dr_uuid r = uuid5 d ''soa'' \<and> dr_domain r = d \<and> dr_type r = ''SOA'')"
  by (simp add: keeps_soa_def list_ex_iff)

text \<open>A request that leaves the domains alone.\<close>

lemma zone_okI:
  assumes "zone_ok uuid5 db" and "uuids_unique db'" and "dd_domains db' = dd_domains db"
    and "\<And>r. r \<in> set (dd_records db') \<Longrightarrow> r \<in> set (dd_records db) \<or> record_ok db r"
    and "\<And>d. keeps_soa uuid5 db d \<Longrightarrow> keeps_soa uuid5 db' d"
  shows "zone_ok uuid5 db'"
proof -
  have "record_ok db' = record_ok db" using assms(3) by (simp add: fun_eq_iff record_ok_def domain_of_def)
  then show ?thesis using assms by (auto simp: zone_ok_def list_all_iff)
qed

lemma zone_ok_post:
  assumes "zone_ok uuid5 db" and "api_post now d r db = Inr db'"
  shows "zone_ok uuid5 db'"
proof -
  have u: "uuids_unique db" using assms(1) by (simp add: zone_ok_def)
  from api_post_Inr [OF assms(2)] obtain q dm where q: "domain_of db d = Inr dm" "dr_domain q = d" "fill_n_validate_record dm q = Inr q"
    and db': "db' = db\<lparr>dd_records := dd_records db @ [q]\<rparr>" by auto
  from q have "record_ok db q" by (auto simp: record_ok_def)
  then show ?thesis using api_post_shown(1) [OF u assms(2)]
    by (intro zone_okI [OF assms(1)]) (auto simp: db' keeps_soa_iff)
qed

lemma zone_ok_put:
  assumes "zone_ok uuid5 db" and "api_put now d u r db = Inr db'"
  shows "zone_ok uuid5 db'"
proof -
  have uq: "uuids_unique db" using assms(1) by (simp add: zone_ok_def)
  from api_put_Inr [OF uq assms(2)] obtain x q dm where x: "x \<in> set (dd_records db)" "dr_domain x = d" "dr_uuid x = u"
    and q: "domain_of db d = Inr dm" "fill_n_validate_record dm q = Inr q" "dr_type q = dr_type x" "dr_domain q = d" "dr_uuid q = u"
    and db': "db' = db\<lparr>dd_records := map (\<lambda>x. if dr_uuid x = u then q else x) (dd_records db)\<rparr>" by auto
  from q have "record_ok db q" by (auto simp: record_ok_def)
  moreover have "keeps_soa uuid5 db' e" if soa: "keeps_soa uuid5 db e" for e
  proof -
    from soa obtain y where y: "y \<in> set (dd_records db)" "dr_uuid y = uuid5 e ''soa''" "dr_domain y = e" "dr_type y = ''SOA''"
      by (auto simp: keeps_soa_iff)
    show ?thesis
    proof (cases "dr_uuid y = u")
      case True
      with uq x y(1) have "y = x" by (auto simp: uuids_unique_def distinct_map inj_on_def)
      with x q y show ?thesis by (auto simp: keeps_soa_iff db' image_iff)
    next
      case False
      with y show ?thesis by (force simp: keeps_soa_iff db' image_iff)
    qed
  qed
  ultimately show ?thesis using api_put_shown(1) [OF uq assms(2)]
    by (intro zone_okI [OF assms(1)]) (auto simp: db' split: if_splits)
qed

lemma zone_ok_delete:
  assumes "zone_ok uuid5 db" and "api_delete d u db = Inr db'"
  shows "zone_ok uuid5 db'"
proof -
  have uq: "uuids_unique db" using assms(1) by (simp add: zone_ok_def)
  from api_delete_Inr [OF uq assms(2)] obtain x where x: "x \<in> set (dd_records db)" "dr_uuid x = u" "dr_type x \<noteq> ''SOA''"
    and db': "db' = db\<lparr>dd_records := filter (\<lambda>x. dr_uuid x \<noteq> u) (dd_records db)\<rparr>" by auto
  have "y = x" if "y \<in> set (dd_records db)" "dr_uuid y = u" for y
    using that uq x(1,2) by (auto simp: uuids_unique_def distinct_map inj_on_def)
  with x(3) have "keeps_soa uuid5 db' e" if "keeps_soa uuid5 db e" for e
    using that by (auto simp: keeps_soa_iff db')
  then show ?thesis using api_delete_shown(1) [OF uq assms(2)] by (intro zone_okI [OF assms(1)]) (auto simp: db')
qed

lemma domain_of_Inr: "domain_of db u = Inr dm \<longleftrightarrow> find (\<lambda>d. dm_uuid d = u) (dd_domains db) = Some dm"
  by (auto simp: domain_of_def split: option.split)

lemma find_in_append: "find P (xs @ ys) = (case find P xs of None \<Rightarrow> find P ys | Some x \<Rightarrow> Some x)"
  by (induction xs) auto

lemma find_filter_same: "find P xs = Some x \<Longrightarrow> (\<And>y. P y \<Longrightarrow> Q y) \<Longrightarrow> find P (filter Q xs) = Some x"
  by (induction xs) (auto split: if_splits)

lemma domain_of_new:
  assumes "dm_uuid dm \<notin> dm_uuid ` set (dd_domains db)" and "dd_domains db' = dd_domains db @ [dm]"
  shows "domain_of db' (dm_uuid dm) = Inr dm"
proof -
  have "find (\<lambda>d. dm_uuid d = dm_uuid dm) (dd_domains db) = None" using assms(1) unfolding find_None_iff by (metis image_eqI)
  then show ?thesis by (simp add: domain_of_Inr assms(2) find_in_append)
qed

lemma zone_ok_domain_insert:
  assumes "zone_ok uuid5 db" and "domain_insert uuid5 now dm db = Inr db'"
  shows "zone_ok uuid5 db'"
proof -
  from assms(2) obtain q where new: "dm_uuid dm \<notin> dm_uuid ` set (dd_domains db)"
    and q: "fill_n_validate_record dm q = Inr q" "dr_domain q = dm_uuid dm" "dr_uuid q = uuid5 (dm_uuid dm) ''soa''" "dr_type q = ''SOA''"
      "dr_uuid q \<notin> dr_uuid ` set (dd_records db)"
    and db': "db' = \<lparr>dd_domains = dd_domains db @ [dm], dd_records = dd_records db @ [q]\<rparr>"
  proof -
    let ?db = "db\<lparr>dd_domains := dd_domains db @ [dm]\<rparr>" and ?r = "soa_record uuid5 now dm"
    from assms(2) have n: "dm_uuid dm \<notin> dm_uuid ` set (dd_domains db)" and i: "record_insert ?r ?db = Inr db'"
      by (auto simp: domain_insert_def list_ex_iff split: if_splits)
    have d: "domain_of ?db (dr_domain ?r) = Inr dm"
      using domain_of_new [OF n] by (simp add: soa_record_def)
    let ?q = "?r\<lparr>dr_content := get_content (dr_record ?r) dm, dr_name := get_name (dr_record ?r) dm\<rparr>"
    from i d have q: "dr_type ?r = rdata_kind (dr_record ?r)" "dr_uuid ?r \<notin> dr_uuid ` set (dd_records db)"
      "db' = ?db\<lparr>dd_records := dd_records db @ [?q]\<rparr>"
      by (auto simp: record_insert_def fill_Inr record_of_None ebind_Inr_iff split: if_splits)
    show ?thesis by (rule that [OF n, of ?q]) (use q in \<open>simp_all add: fill_Inr soa_record_def\<close>)
  qed
  have keep: "record_ok db' r" if "record_ok db r" for r
    using that by (auto simp: record_ok_def domain_of_Inr db' find_in_append)
  have "domain_of db' (dr_domain q) = Inr dm" using domain_of_new [OF new, of db'] q(2) by (simp add: db')
  with q(1) have "record_ok db' q" by (auto simp: record_ok_def)
  with assms(1) keep q(2-5) show ?thesis
    by (auto simp: zone_ok_def list_all_iff keeps_soa_iff uuids_unique_def db')
qed

lemma zone_ok_domain_delete: "zone_ok uuid5 db \<Longrightarrow> zone_ok uuid5 (domain_delete d db)"
proof -
  assume z: "zone_ok uuid5 db"
  let ?db = "domain_delete d db"
  have "record_ok ?db r" if "record_ok db r" "dr_domain r \<noteq> d" for r
    using that by (auto simp: record_ok_def domain_of_Inr domain_delete_def intro!: find_filter_same)
  moreover have "keeps_soa uuid5 ?db e" if "keeps_soa uuid5 db e" "e \<noteq> d" for e
    using that by (auto simp: keeps_soa_iff domain_delete_def)
  moreover have "uuids_unique ?db"
    using z by (auto simp: zone_ok_def uuids_unique_def domain_delete_def distinct_map intro: inj_on_subset)
  ultimately show ?thesis using z by (auto simp: zone_ok_def list_all_iff domain_delete_def)
qed

lemma zone_ok_step: "zone_step uuid5 db db' \<Longrightarrow> zone_ok uuid5 db \<Longrightarrow> zone_ok uuid5 db'"
  by (induction rule: zone_step.induct)
    (auto intro: zone_ok_domain_insert zone_ok_domain_delete zone_ok_post zone_ok_put zone_ok_delete)

section \<open>Properties\<close>

text \<open>Two installations with a zone each, for the witnesses: the local one has a record, the ecosystem one of
  another realm.\<close>

definition demo_uuid5 :: "uuid \<Rightarrow> string \<Rightarrow> uuid" where
  "demo_uuid5 u n = u @ ''/'' @ n"

definition demo_domain :: "uuid \<Rightarrow> dns_domain" where
  "demo_domain u = \<lparr>dm_uuid = u, dm_name = ''z.org'', dm_project = ''p'', dm_sync = True, dm_tags = [''public''], dm_id = 1\<rparr>"

definition no_zones :: dns_db where
  "no_zones = \<lparr>dd_domains = [], dd_records = []\<rparr>"

definition demo_zone :: "uuid \<Rightarrow> dns_db" where
  "demo_zone u = \<lparr>dd_domains = [demo_domain u], dd_records = [(soa_record demo_uuid5 0 (demo_domain u))
     \<lparr>dr_content := get_content default_soa (demo_domain u), dr_name := ''z.org''\<rparr>]\<rparr>"

definition demo_row :: "uuid \<Rightarrow> string \<Rightarrow> row" where
  "demo_row u tag = \<lparr>rw_uuid = u, rw_type = ''A'', rw_ttl = 60, rw_disabled = False, rw_record = ARecord ''www'' ''10.0.0.1'', rw_tags = Some [tag]\<rparr>"

definition demo_record :: "uuid \<Rightarrow> uuid \<Rightarrow> string \<Rightarrow> dns_record" where
  "demo_record d u tag = \<lparr>dr_uuid = u, dr_domain = d, dr_project = ''p'', dr_type = ''A'', dr_ttl = 60, dr_disabled = False,
     dr_record = ARecord ''www'' ''10.0.0.1'', dr_tags = [tag], dr_name = ''www.z.org'', dr_content = ''10.0.0.1'',
     dr_created_at = 1, dr_updated_at = 1\<rparr>"

definition demo_db :: "uuid \<Rightarrow> uuid \<Rightarrow> string \<Rightarrow> dns_db" where
  "demo_db d u tag = (demo_zone d)\<lparr>dd_records := dd_records (demo_zone d) @ [demo_record d u tag]\<rparr>"

definition demo_local :: dns_db where
  "demo_local = demo_db ''l'' ''r1'' ''web''"

definition demo_eco :: dns_db where
  "demo_eco = demo_db ''e'' ''r2'' ''realm:other''"

lemmas demo_defs = demo_local_def demo_eco_def demo_db_def demo_record_def demo_row_def demo_zone_def demo_domain_def no_zones_def
  demo_uuid5_def soa_record_def default_soa_def

lemma demo_steps: "(zone_step demo_uuid5)\<^sup>*\<^sup>* no_zones demo_local"
proof -
  have i: "domain_insert demo_uuid5 0 (demo_domain ''l'') no_zones = Inr (demo_zone ''l'')"
    by (simp add: demo_defs domain_insert_def record_insert_def record_of_None fill_n_validate_record_def domain_of_def get_name_def)
  have p: "api_post 1 ''l'' (demo_row ''r1'' ''web'') (demo_zone ''l'') = Inr demo_local"
    by (simp add: demo_defs api_post_def record_insert_def record_of_None fill_n_validate_record_def domain_of_def get_name_def map_error_def)
  have "zone_step demo_uuid5 no_zones (demo_zone ''l'')" by (rule step_domain) (rule i)
  moreover have "zone_step demo_uuid5 (demo_zone ''l'') demo_local" by (rule step_post) (rule p)
  ultimately show ?thesis by (rule converse_rtranclp_into_rtranclp [OF _ r_into_rtranclp])
qed

lemma zone_ok_reachable: "(zone_step uuid5)\<^sup>*\<^sup>* no_zones db \<Longrightarrow> zone_ok uuid5 db"
proof (induction rule: rtranclp_induct)
  case base
  show ?case by (simp add: zone_ok_def uuids_unique_def no_zones_def)
qed (rule zone_ok_step)

lemma demo_unique: "uuids_unique demo_local" "uuids_unique demo_eco"
  by (simp_all add: uuids_unique_def demo_defs)



text \<open>C21. A pass of the mirror (full or fast, whatever requests fail on the way) never changes or deletes a record of
  the ecosystem that does not carry exactly its own realm's mark: records of the ecosystem itself, of other realms and of
  operators stay as they are.\<close>

theorem mirror_spares_foreign_records:
  assumes "uuids_unique eco"
    and "sync_all_domains (own_api uuid5 fresh project name t) uuid5' u zero endpoint realm now wall st db eco = (st', db', eco')"
    and "shown eco d v = Some r" and "realm_marks r \<noteq> {realm_tag realm}"
  shows "shown eco' d v = Some r"
  using own.sync_all_spares [OF assms(1,2)] assms(3,4) by (simp add: own.spares_def)

theorem mirror_spares_foreign_records_witness:
  "shown (snd (snd (sync_all_domains (own_api demo_uuid5 (\<lambda>_. ''f'') ''p'' (Some ''z.org'') 5) demo_uuid5 ''g'' ''0'' ''eco'' ''me'' 100 7
     initial_state demo_local demo_eco))) ''e'' ''r2'' = Some (demo_row ''r2'' ''realm:other'')"
proof -
  let ?run = "sync_all_domains (own_api demo_uuid5 (\<lambda>_. ''f'') ''p'' (Some ''z.org'') 5) demo_uuid5 ''g'' ''0'' ''eco'' ''me'' 100 7
     initial_state demo_local demo_eco"
  have "?run = (fst ?run, fst (snd ?run), snd (snd ?run))" by simp
  moreover have "shown demo_eco ''e'' ''r2'' = Some (demo_row ''r2'' ''realm:other'')"
    by (simp add: shown_def api_rows_def row_of_def demo_defs)
  moreover have "realm_marks (demo_row ''r2'' ''realm:other'') \<noteq> {realm_tag ''me''}"
    by (simp add: realm_marks_def realm_tag_prefix_def realm_tag_def demo_row_def)
  ultimately show ?thesis by (rule mirror_spares_foreign_records [OF demo_unique(2)])
qed

text \<open>C22. A full pass over a domain refines copying the zone: afterwards the records of the ecosystem's domain that carry
  the realm's mark are the local records of the domain (the SOA record apart), with the same type, lifetime, data and tags
  and under the same uuids, where no local uuid belongs to a record of somebody else there and the ecosystem shows tags.\<close>

theorem full_sync_copies_zone:
  assumes "uuids_unique eco" and "zone_ok uuid5' db" and "domain_of eco d = Inr dm"
    and "endpoint \<notin> set (sy_untagged st)" and "filter_refused now endpoint st = (False, st)"
    and "\<forall>r \<in> set (local_records db domain). \<forall>x \<in> set (dd_records eco). dr_uuid x = dr_uuid r \<longrightarrow>
      dr_domain x = d \<and> realm_marks (row_of x) = {realm_tag realm} \<and> dr_type x = dr_type r"
    and "full_sync_domain (own_api uuid5 fresh project name t) endpoint now db domain d (realm_tag realm) st eco = (st', eco')"
  shows "mirrored (shown eco' d) (realm_tag realm) = mirror_image (local_records db domain) (realm_tag realm)"
proof (rule own.full_sync_converges [OF assms(1) _ assms(7)])
  let ?tagged = "filter (\<lambda>r. realm_tag realm \<in> set (dr_tags r)) (api_rows eco d)"
  have list: "eco_list_records (own_api uuid5 fresh project name t) endpoint now d (realm_tag realm) st eco = (Inr (map row_of ?tagged), st)"
    by (simp add: eco_list_records_def assms(5) own_api_simps api_list_tagged_def)
  then have st': "st' = st" using assms(7) by (auto simp: full_sync_domain_def Let_def)
  show "eco_list_records (own_api uuid5 fresh project name t) endpoint now d (realm_tag realm) st eco = (Inr (map row_of ?tagged), st')"
    using list st' by simp
  show "mark_for st' endpoint (realm_tag realm) = Some (realm_tag realm)" using assms(4) st' by (simp add: mark_for_def)
  show "starts_with (realm_tag realm) realm_tag_prefix" by (simp add: realm_tag_def)
  show "distinct (map dr_uuid (local_records db domain))"
    using assms(2) by (auto simp: zone_ok_def uuids_unique_def local_records_def distinct_map intro: inj_on_subset)
next
  fix r assume r: "r \<in> set (local_records db domain)"
  then have "record_ok db r" using assms(2) by (auto simp: local_records_def zone_ok_def list_all_iff)
  then have "dr_type r = rdata_kind (dr_record r)" by (auto simp: record_ok_def fill_Inr)
  then show "acceptable eco d (build_record_data (Some (realm_tag realm)) r)"
    using assms(3) bspec [OF assms(6) r] by (simp add: acceptable_def build_record_data_def)
  show "realm_marks x = {realm_tag realm} \<and> rw_type x = dr_type r" if "shown eco d (dr_uuid r) = Some x" for x
    using that bspec [OF assms(6) r] by (auto simp: shown_Some [OF assms(1)])
qed

theorem full_sync_copies_zone_witness:
  "mirrored (shown (snd (full_sync_domain (own_api demo_uuid5 (\<lambda>_. ''f'') ''p'' None 5) ''eco'' 100 demo_local ''l'' ''e'' (realm_tag ''me'')
     initial_state demo_eco)) ''e'') (realm_tag ''me'') ''r1'' = Some (''A'', 60, False, ARecord ''www'' ''10.0.0.1'', [''realm:me'', ''web''])"
proof -
  let ?run = "full_sync_domain (own_api demo_uuid5 (\<lambda>_. ''f'') ''p'' None 5) ''eco'' 100 demo_local ''l'' ''e'' (realm_tag ''me'') initial_state demo_eco"
  have "zone_ok demo_uuid5 demo_local" by (rule zone_ok_reachable [OF demo_steps])
  moreover have "domain_of demo_eco ''e'' = Inr (demo_domain ''e'')" by (simp add: demo_defs domain_of_def)
  moreover have "''eco'' \<notin> set (sy_untagged initial_state)" by (simp add: initial_state_def)
  moreover have "filter_refused 100 ''eco'' initial_state = (False, initial_state)" by (simp add: filter_refused_def initial_state_def)
  moreover have "\<forall>r \<in> set (local_records demo_local ''l''). \<forall>x \<in> set (dd_records demo_eco). dr_uuid x = dr_uuid r \<longrightarrow>
      dr_domain x = ''e'' \<and> realm_marks (row_of x) = {realm_tag ''me''} \<and> dr_type x = dr_type r"
    by (simp add: local_records_def demo_defs)
  moreover have "?run = (fst ?run, snd ?run)" by simp
  ultimately have "mirrored (shown (snd ?run) ''e'') (realm_tag ''me'') = mirror_image (local_records demo_local ''l'') (realm_tag ''me'')"
    by (rule full_sync_copies_zone [OF demo_unique(2)])
  moreover have "mirror_image (local_records demo_local ''l'') (realm_tag ''me'') ''r1'' =
      Some (''A'', 60, False, ARecord ''www'' ''10.0.0.1'', [''realm:me'', ''web''])"
    by (simp add: mirror_image_def local_records_def demo_defs zone_key_def build_record_data_def tags_of_def realm_tag_def realm_tag_prefix_def)
  ultimately show ?thesis by simp
qed

end
