(* ===== verification/Dns_Public.thy ===== *)
theory Dns_Public
  imports Dns_Sync
begin

text \<open>
  The list of public domains for dnsdist (\<open>_write_dnsdist_domains\<close>): dnsdist matches suffixes, so a domain
  under another public one is left out.
\<close>

lemma join_with_append: "us \<noteq> [] \<Longrightarrow> vs \<noteq> [] \<Longrightarrow> join_with sep (us @ vs) = join_with sep us @ sep @ join_with sep vs"
  by (induction sep us rule: join_with.induct) (auto simp: neq_Nil_conv)

lemma domain_suffix_iff: "x \<in> set (domain_suffixes n) \<longleftrightarrow> (\<exists>p. n = p @ CHR ''.'' # x)"
proof
  let ?parts = "split_on CHR ''.'' n"
  assume "x \<in> set (domain_suffixes n)"
  then have "x \<in> (\<lambda>i. join_with ''.'' (drop i ?parts)) ` {1..<length ?parts}" by (simp add: domain_suffixes_def Let_def)
  then obtain i where i: "x = join_with ''.'' (drop i ?parts)" "i \<in> {1..<length ?parts}" by (rule imageE)
  have "n = join_with ''.'' (take i ?parts @ drop i ?parts)" by (simp add: join_split_on)
  also have "\<dots> = join_with ''.'' (take i ?parts) @ ''.'' @ x" unfolding i(1) using i(2) by (intro join_with_append) auto
  finally show "\<exists>p. n = p @ CHR ''.'' # x" by auto
next
  assume "\<exists>p. n = p @ CHR ''.'' # x"
  then obtain p where n: "n = p @ CHR ''.'' # x" by blast
  let ?i = "length (split_on CHR ''.'' p)"
  have "split_on CHR ''.'' n = split_on CHR ''.'' p @ split_on CHR ''.'' x" by (simp add: n split_on_append_sep)
  moreover have "join_with ''.'' (split_on CHR ''.'' x) = x" by (rule join_split_on)
  ultimately show "x \<in> set (domain_suffixes n)"
    by (auto simp: domain_suffixes_def Let_def Suc_le_eq intro!: image_eqI [where x = ?i])
qed

lemma rstrip_by_last: "rstrip_by P s \<noteq> '''' \<Longrightarrow> \<not> P (last (rstrip_by P s))"
  using hd_dropWhile [of P "rev s"] by (auto simp: rstrip_by_def last_rev)

lemma lower_char_dot: "lower_char c = CHR ''.'' \<longleftrightarrow> c = CHR ''.''"
proof (cases "65 \<le> (of_char c :: nat) \<and> (of_char c :: nat) \<le> 90")
  case True
  then have "of_char (lower_char c) = (of_char c + 32 :: nat)" by (simp add: lower_char_def take_bit_nat_eq_self)
  with True have "of_char (lower_char c) \<noteq> (46 :: nat)" "of_char c \<noteq> (46 :: nat)" by linarith+
  then have "lower_char c \<noteq> CHR ''.''" by auto
  moreover have "c \<noteq> CHR ''.''" using True by auto
  ultimately show ?thesis by simp
qed (auto simp: lower_char_def)

lemma public_no_trailing_dot:
  assumes "n \<in> set (public_names db)" and "n \<noteq> ''''"
  shows "last n \<noteq> CHR ''.''"
proof -
  from assms(1) obtain d :: dns_domain where "n = lower (rstrip_by (\<lambda>c. c = CHR ''.'') (strip (dm_name d)))"
    by (auto simp: public_names_def)
  with assms(2) rstrip_by_last [of "\<lambda>c. c = CHR ''.''" "strip (dm_name d)"] show ?thesis
    by (auto simp: lower_def last_map lower_char_dot)
qed

text \<open>C24. The list covers every public domain: each is listed or lies under one that is.  And nothing in it is redundant:
  no listed domain lies under another.\<close>

theorem public_domains_covered:
  assumes "n \<in> set (public_names db)" and "n \<noteq> ''''"
  shows "(\<exists>t \<in> set (top_names (public_names db)). t = n \<or> t \<in> set (domain_suffixes n)) \<and>
    (\<forall>t \<in> set (top_names (public_names db)). \<forall>t' \<in> set (top_names (public_names db)). t' \<notin> set (domain_suffixes t))"
proof
  show "\<exists>t \<in> set (top_names (public_names db)). t = n \<or> t \<in> set (domain_suffixes n)"
    using assms
  proof (induction "length n" arbitrary: n rule: less_induct)
    case less
    show ?case
    proof (cases "n \<in> set (top_names (public_names db))")
      case False
      with less.prems have "\<exists>x \<in> set (public_names db). \<exists>p. n = p @ CHR ''.'' # x"
        by (simp add: top_names_def list_ex_iff) (metis domain_suffix_iff)
      then obtain x p where x: "x \<in> set (public_names db)" "n = p @ CHR ''.'' # x" by blast
      have "x \<noteq> ''''" using public_no_trailing_dot [OF less.prems] x(2) by auto
      with less.hyps [of x] x obtain t where "t \<in> set (top_names (public_names db))" "t = x \<or> t \<in> set (domain_suffixes x)" by auto
      moreover from this(2) have "t \<in> set (domain_suffixes n)" using x(2) by (auto simp: domain_suffix_iff) 
      ultimately show ?thesis by blast
    qed blast
  qed
  show "\<forall>t \<in> set (top_names (public_names db)). \<forall>t' \<in> set (top_names (public_names db)). t' \<notin> set (domain_suffixes t)"
    by (auto simp: top_names_def list_ex_iff)
qed

definition demo_public :: dns_db where
  "demo_public = \<lparr>dd_domains =
     [\<lparr>dm_uuid = ''1'', dm_name = ''a'', dm_project = ''p'', dm_sync = False, dm_tags = [''public''], dm_id = 1\<rparr>,
      \<lparr>dm_uuid = ''2'', dm_name = ''b.a.'', dm_project = ''p'', dm_sync = False, dm_tags = [''public''], dm_id = 2\<rparr>],
     dd_records = []\<rparr>"

theorem public_domains_covered_witness:
  "\<exists>t \<in> set (top_names (public_names demo_public)). t = ''b.a'' \<or> t \<in> set (domain_suffixes ''b.a'')"
proof -
  have "''b.a'' \<in> set (public_names demo_public)"
    by (simp add: public_names_def demo_public_def lower_def lower_char_def strip_def rstrip_by_def is_space_def)
  from public_domains_covered [OF this] show ?thesis by simp
qed

end
