(* ===== verification/Delivery_Model.thy ===== *)
theory Delivery_Model
  imports Compute_Model
begin

text \<open>
  What the services for configuration files and SSH keys share: the targets an object is delivered to
  (\<open>exordos_core/common/dm/targets.py\<close>), the table of target resources they keep for the agents, and how a
  master object follows the reports on its slaves, one per node.  The table and its queries belong to the
  agent SDK: a row is named by its uuid and kind (\<open>gen_res_uuid\<close>), a query is a parameter.
\<close>

section \<open>Targets\<close>

datatype delivery_target = NodeTarget uuid | NodeSetTarget uuid

fun fetch_nodes :: "delivery_target \<Rightarrow> node list \<Rightarrow> node list" where
  "fetch_nodes (NodeTarget u) nodes = filter (\<lambda>n. nd_uuid n = u) nodes"
| "fetch_nodes (NodeSetTarget s) nodes = filter (\<lambda>n. nd_node_set n = Some s) nodes"

fun target_nodes :: "delivery_target \<Rightarrow> node list \<Rightarrow> uuid list" where
  "target_nodes (NodeTarget u) nodes = [u]"
| "target_nodes (NodeSetTarget s) nodes = map nd_uuid (fetch_nodes (NodeSetTarget s) nodes)"

fun owners :: "delivery_target \<Rightarrow> uuid list" where
  "owners (NodeTarget u) = [u]"
| "owners (NodeSetTarget s) = [s]"

definition are_owners_alive :: "delivery_target \<Rightarrow> node list \<Rightarrow> bool" where
  "are_owners_alive t nodes \<longleftrightarrow> fetch_nodes t nodes \<noteq> []"

section \<open>Objects and their resources\<close>

datatype delivery_status = DvNew | DvInProgress | DvActive | DvError

datatype config_body = TextBody string | TemplateBody string "(string, string) dict"

datatype on_change = NoAction | Shell string

record config =
  cf_uuid :: uuid
  cf_path :: string
  cf_status :: delivery_status
  cf_target :: delivery_target
  cf_body :: config_body
  cf_on_change :: on_change
  cf_mode :: string
  cf_owner :: string
  cf_group :: string
  cf_updated_at :: nat

record render =
  rn_uuid :: uuid
  rn_content :: string
  rn_path :: string
  rn_mode :: string
  rn_owner :: string
  rn_group :: string
  rn_on_change :: on_change

record ssh_key =
  sk_uuid :: uuid
  sk_status :: delivery_status
  sk_target :: delivery_target
  sk_user :: string
  sk_authorized_keys :: string
  sk_target_public_key :: string
  sk_updated_at :: nat

record ssh_host_key =
  hk_uuid :: uuid
  hk_user :: string
  hk_authorized_keys :: string
  hk_target_public_key :: string

datatype res_value = VConfig config | VRender render | VKey ssh_key | VHost ssh_host_key

record ua_resource =
  tr_uuid :: uuid
  tr_kind :: string
  tr_master :: "uuid option"
  tr_agent :: "uuid option"
  tr_status :: delivery_status
  tr_tracked_at :: nat
  tr_value :: res_value
  tr_hash :: string
  tr_full_hash :: string

record delivery_db =
  de_configs :: "config list"
  de_keys :: "ssh_key list"
  de_nodes :: "node list"
  de_targets :: "ua_resource list"

datatype delivery_error = ConflictRecords | NotImplemented | LengthsDiffer

section \<open>The SDK\<close>

record ua_sdk =
  ua_resource_of :: "string \<Rightarrow> uuid option \<Rightarrow> res_value \<Rightarrow> ua_resource"
  ua_uuid5 :: "uuid \<Rightarrow> string \<Rightarrow> uuid"
  ua_new_configs :: "delivery_db \<Rightarrow> config list"
  ua_updated_configs :: "delivery_db \<Rightarrow> config list"
  ua_deleted_configs :: "delivery_db \<Rightarrow> ua_resource list"
  ua_new_keys :: "delivery_db \<Rightarrow> ssh_key list"
  ua_updated_keys :: "delivery_db \<Rightarrow> ssh_key list"
  ua_deleted_keys :: "delivery_db \<Rightarrow> ua_resource list"
  ua_outdated :: "string \<Rightarrow> delivery_db \<Rightarrow> (ua_resource \<times> ua_resource) list"

fun value_uuid :: "res_value \<Rightarrow> uuid" where
  "value_uuid (VConfig c) = cf_uuid c"
| "value_uuid (VRender r) = rn_uuid r"
| "value_uuid (VKey k) = sk_uuid k"
| "value_uuid (VHost h) = hk_uuid h"

text \<open>The resource of an object carries its uuid and value and the given kind and master.\<close>

definition resources_faithful :: "ua_sdk \<Rightarrow> bool" where
  "resources_faithful sdk \<longleftrightarrow> (\<forall>kind master v. tr_uuid (ua_resource_of sdk kind master v) = value_uuid v \<and>
     tr_kind (ua_resource_of sdk kind master v) = kind \<and> tr_master (ua_resource_of sdk kind master v) = master \<and>
     tr_value (ua_resource_of sdk kind master v) = v)"

definition tr_key :: "ua_resource \<Rightarrow> uuid \<times> string" where
  "tr_key r = (tr_uuid r, tr_kind r)"

definition res_insert :: "ua_resource \<Rightarrow> delivery_db \<Rightarrow> delivery_error + delivery_db" where
  "res_insert r db = (if list_ex (\<lambda>x. tr_key x = tr_key r) (de_targets db) then Inl ConflictRecords
     else Inr (db\<lparr>de_targets := de_targets db @ [r]\<rparr>))"

definition res_update :: "ua_resource \<Rightarrow> delivery_db \<Rightarrow> delivery_db" where
  "res_update r db = db\<lparr>de_targets := put_by tr_key r (de_targets db)\<rparr>"

definition res_delete :: "ua_resource \<Rightarrow> delivery_db \<Rightarrow> delivery_db" where
  "res_delete r db = db\<lparr>de_targets := filter (\<lambda>x. tr_key x \<noteq> tr_key r) (de_targets db)\<rparr>"

text \<open>An exception is logged and the work goes on with what there was.\<close>

definition attempt :: "('s \<Rightarrow> 'e + 's) \<Rightarrow> 's \<Rightarrow> 's" where
  "attempt f s = (case f s of Inl e \<Rightarrow> s | Inr s' \<Rightarrow> s')"

section \<open>Following the reports\<close>

text \<open>What a report makes of the row it is about, and of the status of the master of the rows.\<close>

definition follow_report :: "ua_resource \<Rightarrow> ua_resource \<Rightarrow> ua_resource" where
  "follow_report target actual =
     (let target = target\<lparr>tr_full_hash := tr_full_hash actual\<rparr> in
      if tr_status actual = DvActive \<and> tr_hash target = tr_hash actual then target\<lparr>tr_status := tr_status actual\<rparr>
      else if tr_status actual \<noteq> DvActive \<and> tr_status target \<noteq> tr_status actual then target\<lparr>tr_status := tr_status actual\<rparr>
      else target)"

definition master_status :: "ua_resource list \<Rightarrow> delivery_status option" where
  "master_status rs =
     (if list_all (\<lambda>r. tr_status r = DvActive) rs then Some DvActive
      else if list_ex (\<lambda>r. tr_status r = DvNew) rs then Some DvNew
      else if list_ex (\<lambda>r. tr_status r = DvInProgress) rs then Some DvInProgress
      else None)"

definition group_by_master :: "(ua_resource \<times> ua_resource) list \<Rightarrow> (uuid option, (ua_resource \<times> ua_resource) list) dict" where
  "group_by_master pairs = fold (\<lambda>p d. dset (tr_master (fst p)) (dget_or d (tr_master (fst p)) [] @ [p]) d) pairs []"

section \<open>Lemmas on the table\<close>

lemma tr_key_simps [simp]: "tr_key (r\<lparr>tr_agent := a\<rparr>) = tr_key r" "tr_key (r\<lparr>tr_status := s\<rparr>) = tr_key r"
    "tr_key (r\<lparr>tr_tracked_at := t\<rparr>) = tr_key r" "tr_key (r\<lparr>tr_full_hash := h\<rparr>) = tr_key r"
  by (simp_all add: tr_key_def)

lemma res_insert_Inr: "res_insert r db = Inr db' \<longleftrightarrow> tr_key r \<notin> tr_key ` set (de_targets db) \<and>
    db' = db\<lparr>de_targets := de_targets db @ [r]\<rparr>"
  by (simp add: res_insert_def list_ex_iff image_iff) metis

lemma inserts_append:
  assumes "\<And>x. x \<in> set xs \<Longrightarrow> f x = Inr (g x)" and "distinct (map (tr_key \<circ> g) xs)"
    and "\<forall>x \<in> set xs. tr_key (g x) \<notin> tr_key ` set (de_targets db)"
  shows "efold (\<lambda>x db. ebind (f x) (\<lambda>r. res_insert r db)) xs db = Inr (db\<lparr>de_targets := de_targets db @ map g xs\<rparr>)"
  using assms
proof (induction xs arbitrary: db)
  case (Cons x xs)
  let ?db = "db\<lparr>de_targets := de_targets db @ [g x]\<rparr>"
  have "res_insert (g x) db = Inr ?db" using Cons.prems(3) by (simp add: res_insert_Inr)
  moreover have "efold (\<lambda>x db. ebind (f x) (\<lambda>r. res_insert r db)) xs ?db = Inr (?db\<lparr>de_targets := de_targets ?db @ map g xs\<rparr>)"
    using Cons.prems by (intro Cons.IH) (auto simp: image_iff)
  ultimately show ?case using Cons.prems(1) by simp
qed simp

lemma res_delete_targets: "de_targets (fold res_delete rs db) = filter (\<lambda>x. tr_key x \<notin> tr_key ` set rs) (de_targets db)"
proof (induction rs arbitrary: db)
  case (Cons r rs)
  then show ?case by (simp add: res_delete_def filter_filter conj_commute cong: filter_cong)
qed (simp add: res_delete_def)

lemma res_delete_other [simp]: "de_configs (fold res_delete rs db) = de_configs db" "de_keys (fold res_delete rs db) = de_keys db"
    "de_nodes (fold res_delete rs db) = de_nodes db"
  by (induction rs arbitrary: db) (simp_all add: res_delete_def)

lemma follow_report_simps [simp]: "tr_key (follow_report t a) = tr_key t" "tr_master (follow_report t a) = tr_master t"
    "tr_full_hash (follow_report t a) = tr_full_hash a" "tr_hash (follow_report t a) = tr_hash t" "tr_uuid (follow_report t a) = tr_uuid t"
    "tr_kind (follow_report t a) = tr_kind t"
  by (simp_all add: follow_report_def Let_def tr_key_def)

lemma group_by_master_get: "dget_or (group_by_master ps) m [] = filter (\<lambda>p. tr_master (fst p) = m) ps"
proof -
  have "dget_or (fold (\<lambda>p d. dset (tr_master (fst p)) (dget_or d (tr_master (fst p)) [] @ [p]) d) ps d) m [] =
      dget_or d m [] @ filter (\<lambda>p. tr_master (fst p) = m) ps" for d
    by (induction ps arbitrary: d) (auto simp: dget_or_def)
  from this [of "[]"] show ?thesis unfolding group_by_master_def by (simp add: dget_or_def)
qed

lemma group_by_master_mem: "p \<in> set (dget_or (group_by_master ps) m []) \<Longrightarrow> p \<in> set ps \<and> tr_master (fst p) = m"
  by (simp add: group_by_master_get)

definition of_masters :: "string \<Rightarrow> uuid list \<Rightarrow> delivery_db \<Rightarrow> ua_resource list" where
  "of_masters kind us db = filter (\<lambda>r. tr_kind r = kind \<and> (\<exists>u \<in> set us. tr_master r = Some u)) (de_targets db)"

definition of_uuids :: "string \<Rightarrow> uuid list \<Rightarrow> delivery_db \<Rightarrow> ua_resource list" where
  "of_uuids kind us db = filter (\<lambda>r. tr_kind r = kind \<and> tr_uuid r \<in> set us) (de_targets db)"

definition shape :: "ua_resource \<Rightarrow> uuid \<times> string \<times> uuid option" where
  "shape r = (tr_uuid r, tr_kind r, tr_master r)"

lemma of_masters_subset: "set (of_masters kind us db) \<subseteq> set (de_targets db)" "r \<in> set (of_masters kind us db) \<Longrightarrow> tr_kind r = kind"
  by (auto simp: of_masters_def)

lemma of_uuids_subset: "set (of_uuids kind us db) \<subseteq> set (de_targets db)"
    "r \<in> set (of_uuids kind us db) \<Longrightarrow> tr_kind r = kind \<and> tr_uuid r \<in> set us"
  by (auto simp: of_uuids_def)

section \<open>Masters and their slaves\<close>

text \<open>The resources of one service: rows of a master kind, and rows of a slave kind that name their master.\<close>

locale master_slaves =
  fixes master :: string and slave :: string
  assumes kinds_differ [simp]: "master \<noteq> slave" "slave \<noteq> master"
begin

text \<open>Every slave row has its master's row, and no two rows have the same key.\<close>

definition table_ok :: "delivery_db \<Rightarrow> bool" where
  "table_ok db \<longleftrightarrow> distinct (map tr_key (de_targets db)) \<and>
     list_all (\<lambda>r. tr_kind r = slave \<longrightarrow> list_ex (\<lambda>c. tr_kind c = master \<and> tr_master r = Some (tr_uuid c)) (de_targets db)) (de_targets db)"

lemma tr_key_shape: "shape x = shape y \<Longrightarrow> tr_key x = tr_key y"
  by (simp add: shape_def tr_key_def)

lemma table_ok_shapes:
  assumes "map shape (de_targets db') = map shape (de_targets db)"
  shows "table_ok db' = table_ok db"
proof -
  have f: "map tr_key rs = map (\<lambda>(u, k, m). (u, k)) (map shape rs)" for rs by (simp add: shape_def tr_key_def)
  have g: "list_all (\<lambda>r. tr_kind r = slave \<longrightarrow> list_ex (\<lambda>c. tr_kind c = master \<and> tr_master r = Some (tr_uuid c)) rs) rs \<longleftrightarrow>
      list_all (\<lambda>(u, k, m). k = slave \<longrightarrow> list_ex (\<lambda>(u', k', m'). k' = master \<and> m = Some u') (map shape rs)) (map shape rs)" for rs
    by (simp add: list_all_iff list_ex_iff shape_def)
  show ?thesis unfolding table_ok_def f g assms ..
qed

lemma put_by_shape:
  assumes "distinct (map tr_key rs)" and "x \<in> set rs" and "shape x = shape t"
  shows "map shape (put_by tr_key t rs) = map shape rs"
proof -
  have "shape t = shape y" if "y \<in> set rs" "tr_key y = tr_key t" for y
    using that assms tr_key_shape [OF assms(3)] by (auto simp: distinct_map inj_on_def)
  then show ?thesis by (simp add: put_by_def)
qed

lemma res_update_shapes:
  assumes "table_ok db" and "shape t \<in> shape ` set (de_targets db)"
  shows "map shape (de_targets (res_update t db)) = map shape (de_targets db)"
  using assms put_by_shape [of "de_targets db" _ t] by (auto simp: res_update_def table_ok_def)

lemma res_updates_ok:
  assumes "table_ok db" and "\<forall>t \<in> set ts. shape t \<in> shape ` set (de_targets db)"
  shows "map shape (de_targets (fold res_update ts db)) = map shape (de_targets db)"
  using assms
proof (induction ts arbitrary: db)
  case (Cons t ts)
  from Cons.prems have s: "map shape (de_targets (res_update t db)) = map shape (de_targets db)" by (intro res_update_shapes) simp_all
  then have "shape ` set (de_targets (res_update t db)) = shape ` set (de_targets db)" by (metis list.set_map)
  with Cons.IH [of "res_update t db"] Cons.prems s table_ok_shapes [OF s] show ?case by simp
qed simp

lemma table_ok_targets: "de_targets db' = de_targets db \<Longrightarrow> table_ok db' = table_ok db"
  by (rule table_ok_shapes) simp

text \<open>Deleting masters' rows together with the slaves they have.\<close>

lemma delete_masters_ok:
  assumes "table_ok db" and "\<And>r. r \<in> set rs \<Longrightarrow> tr_kind r = master \<Longrightarrow> tr_uuid r \<in> set us"
    and "set (of_masters slave us db) \<subseteq> set rs" and "set rs \<subseteq> set (de_targets db)"
  shows "table_ok (fold res_delete rs db)"
proof -
  have inj: "x = y" if "x \<in> set (de_targets db)" "y \<in> set (de_targets db)" "tr_key x = tr_key y" for x y
    using that assms(1) by (auto simp: table_ok_def distinct_map inj_on_def)
  show ?thesis
    unfolding table_ok_def res_delete_targets list_all_iff list_ex_iff
  proof (intro conjI ballI impI)
    show "distinct (map tr_key (filter (\<lambda>x. tr_key x \<notin> tr_key ` set rs) (de_targets db)))"
      using assms(1) by (auto simp: table_ok_def distinct_map intro: inj_on_subset)
    fix r assume r: "r \<in> set (filter (\<lambda>x. tr_key x \<notin> tr_key ` set rs) (de_targets db))" "tr_kind r = slave"
    then obtain c where c: "c \<in> set (de_targets db)" "tr_kind c = master" "tr_master r = Some (tr_uuid c)"
      using assms(1) by (auto simp: table_ok_def list_all_iff list_ex_iff)
    have "tr_key c \<notin> tr_key ` set rs"
    proof
      assume "tr_key c \<in> tr_key ` set rs"
      then have "c \<in> set rs" using inj c(1) assms(4) by auto
      from assms(2) [OF this c(2)] have "r \<in> set (of_masters slave us db)" using r c(3) by (auto simp: of_masters_def)
      with assms(3) r show False by auto
    qed
    with c show "\<exists>c \<in> set (filter (\<lambda>x. tr_key x \<notin> tr_key ` set rs) (de_targets db)). tr_kind c = master \<and> tr_master r = Some (tr_uuid c)"
      by auto
  qed
qed

text \<open>What the services do to the table: a slave is added under its master, reports are followed.\<close>

lemma slave_inserted_ok:
  assumes "table_ok db" and "res_insert r db = Inr db'" and "tr_kind r = slave" and "tr_master r = Some u"
    and "\<exists>x \<in> set (de_targets db). tr_kind x = master \<and> tr_uuid x = u"
  shows "table_ok db' \<and> set (de_targets db) \<subseteq> set (de_targets db')"
  using assms by (auto simp: res_insert_Inr table_ok_def list_all_iff list_ex_iff)

lemma master_inserted_ok:
  assumes "table_ok db" and "res_insert r db = Inr db'" and "tr_kind r = master"
  shows "table_ok db'" "r \<in> set (de_targets db')"
  using assms by (auto simp: res_insert_Inr table_ok_def list_all_iff list_ex_iff)

lemma row_updated_ok:
  assumes "table_ok db" and "r \<in> set (de_targets db)" and "shape r' = shape r"
  shows "table_ok (res_update r' db)"
  using table_ok_shapes [OF res_update_shapes [OF assms(1)]] assms by auto

lemma reports_followed_shapes:
  assumes "table_ok db" and "\<forall>p \<in> set reports. shape (fst p) \<in> shape ` set (de_targets db)"
  shows "map shape (de_targets (fold res_update (map (\<lambda>(t, a). follow_report t a) reports) db)) = map shape (de_targets db)"
proof -
  have "shape (follow_report t a) = shape t" for t a by (simp add: shape_def)
  then show ?thesis using assms(2) by (intro res_updates_ok [OF assms(1)]) auto
qed

text \<open>Rows of a master are updated after the reports on its slaves.\<close>

lemma report_pass_shapes:
  assumes "table_ok db" and "\<forall>p \<in> set reports. shape (fst p) \<in> shape ` set (de_targets db)" and "shape r \<in> shape ` set (de_targets db)"
    and "de_targets db1 = de_targets (fold res_update (map (\<lambda>(t, a). follow_report t a) reports) db)" and "shape r' = shape r"
  shows "map shape (de_targets db1) = map shape (de_targets db)" "map shape (de_targets (res_update r' db1)) = map shape (de_targets db)"
proof -
  show s: "map shape (de_targets db1) = map shape (de_targets db)" using reports_followed_shapes [OF assms(1,2)] assms(4) by simp
  then have "shape ` set (de_targets db1) = shape ` set (de_targets db)" by (metis list.set_map)
  with s assms(1,3,5) table_ok_shapes [OF s] res_update_shapes [of db1 r'] show "map shape (de_targets (res_update r' db1)) = map shape (de_targets db)"
    by simp
qed

end

end
