(* ===== verification/Config_Service.thy ===== *)
theory Config_Service
  imports Delivery_Model "HOL-Library.List_Lexorder" "HOL-Library.Char_ord"
begin

text \<open>
  Configuration files of nodes (\<open>exordos_core/config/service.py\<close>, \<open>config/dm/models.py\<close>): a config becomes
  a resource of its own and a render per target node, a changed one is made anew, reports on the renders come
  back as its status, a deleted one takes its renders along.  \<open>now\<close> is the time a row is saved at; one
  iteration saves all its rows at the same time.
\<close>

definition config_kind :: string where "config_kind = ''config''"

definition render_kind :: string where "render_kind = ''render''"

fun body_render :: "config_body \<Rightarrow> delivery_error + string" where
  "body_render (TextBody content) = Inr content"
| "body_render (TemplateBody template variables) = Inl NotImplemented"

definition render_of :: "ua_sdk \<Rightarrow> config \<Rightarrow> uuid \<Rightarrow> string \<Rightarrow> render" where
  "render_of sdk c node content = \<lparr>rn_uuid = ua_uuid5 sdk node (cf_path c), rn_content = content, rn_path = cf_path c,
     rn_mode = cf_mode c, rn_owner = cf_owner c, rn_group = cf_group c, rn_on_change = cf_on_change c\<rparr>"

definition config_render :: "ua_sdk \<Rightarrow> config \<Rightarrow> uuid \<Rightarrow> delivery_error + ua_resource" where
  "config_render sdk c node = ebind (body_render (cf_body c)) (\<lambda>content.
     Inr ((ua_resource_of sdk render_kind (Some (cf_uuid c)) (VRender (render_of sdk c node content)))\<lparr>tr_status := DvInProgress\<rparr>))"

definition config_delete :: "config \<Rightarrow> delivery_db \<Rightarrow> delivery_db" where
  "config_delete c db = db\<lparr>de_configs := filter (\<lambda>x. cf_uuid x \<noteq> cf_uuid c) (de_configs db)\<rparr>"

definition config_save :: "config \<Rightarrow> delivery_db \<Rightarrow> delivery_db" where
  "config_save c db = db\<lparr>de_configs := put_by cf_uuid c (de_configs db)\<rparr>"

definition actualize_new_config :: "ua_sdk \<Rightarrow> nat \<Rightarrow> config \<Rightarrow> uuid list \<Rightarrow> delivery_db \<Rightarrow> delivery_error + delivery_db" where
  "actualize_new_config sdk now c nodes db =
     (if \<not> are_owners_alive (cf_target c) (de_nodes db) then Inr (config_delete c db)
      else if nodes = [] then Inr db
      else let r = ua_resource_of sdk config_kind None (VConfig c) in
        ebind (res_insert r db) (\<lambda>db.
        ebind (efold (\<lambda>n db. ebind (ebind (config_render sdk c n) (\<lambda>r. Inr (r\<lparr>tr_agent := Some n\<rparr>))) (\<lambda>r. res_insert r db)) nodes db) (\<lambda>db.
        let c = c\<lparr>cf_status := DvInProgress, cf_updated_at := now\<rparr>
        in Inr (res_update (r\<lparr>tr_tracked_at := cf_updated_at c, tr_status := cf_status c\<rparr>) (config_save c db)))))"

text \<open>The nodes of the targets that exist, looked up once for all the configs.\<close>

definition existing_targets :: "delivery_db \<Rightarrow> delivery_target \<Rightarrow> uuid list" where
  "existing_targets db t = filter (\<lambda>u. u \<in> nd_uuid ` set (de_nodes db)) (target_nodes t (de_nodes db))"

definition actualize_new_configs :: "ua_sdk \<Rightarrow> nat \<Rightarrow> config list \<Rightarrow> delivery_db \<Rightarrow> delivery_db" where
  "actualize_new_configs sdk now configs db =
     fold (\<lambda>c. attempt (actualize_new_config sdk now c (existing_targets db (cf_target c))))
       (if configs \<noteq> [] then configs else ua_new_configs sdk db) db"

definition actualize_changed_configs :: "ua_sdk \<Rightarrow> nat \<Rightarrow> delivery_db \<Rightarrow> delivery_db" where
  "actualize_changed_configs sdk now db =
     (let changed = ua_updated_configs sdk db; us = map cf_uuid changed in
      if changed = [] then db
      else actualize_new_configs sdk now changed (fold res_delete (of_masters render_kind us db @ of_uuids config_kind us db) db))"

definition actualize_outdated_config ::
  "nat \<Rightarrow> config \<Rightarrow> ua_resource \<Rightarrow> (ua_resource \<times> ua_resource) list \<Rightarrow> delivery_db \<Rightarrow> delivery_db" where
  "actualize_outdated_config now c r renders db =
     (if renders = [] then db
      else let targets = map (\<lambda>(t, a). follow_report t a) renders; db = fold res_update targets db in
        case master_status targets of
          None \<Rightarrow> db
        | Some s \<Rightarrow> if cf_status c = s then db
            else let c = c\<lparr>cf_status := s, cf_updated_at := now\<rparr>
              in res_update (r\<lparr>tr_tracked_at := cf_updated_at c, tr_status := cf_status c\<rparr>) (config_save c db))"

text \<open>Configs and their resources, each in the order of the uuids, side by side.\<close>

definition outdated_configs :: "uuid list \<Rightarrow> delivery_db \<Rightarrow> (config \<times> ua_resource) list" where
  "outdated_configs us db = zip (sort_key cf_uuid (filter (\<lambda>c. cf_uuid c \<in> set us) (de_configs db)))
     (sort_key tr_uuid (of_uuids config_kind us db))"

definition actualize_outdated_configs :: "ua_sdk \<Rightarrow> nat \<Rightarrow> delivery_db \<Rightarrow> delivery_db" where
  "actualize_outdated_configs sdk now db =
     (let renders = group_by_master (ua_outdated sdk render_kind db) in
      if renders = [] then db
      else fold (\<lambda>(c, r). actualize_outdated_config now c r (dget_or renders (Some (cf_uuid c)) []))
        (outdated_configs (List.map_filter id (dkeys renders)) db) db)"

definition actualize_deleted_configs :: "ua_sdk \<Rightarrow> delivery_db \<Rightarrow> delivery_db" where
  "actualize_deleted_configs sdk db =
     (let deleted = ua_deleted_configs sdk db in
      fold res_delete (of_masters render_kind (map tr_uuid deleted) db @ deleted) db)"

definition config_iteration :: "ua_sdk \<Rightarrow> nat \<Rightarrow> delivery_db \<Rightarrow> delivery_db" where
  "config_iteration sdk now db = actualize_deleted_configs sdk
     (actualize_outdated_configs sdk now (actualize_changed_configs sdk now (actualize_new_configs sdk now [] db)))"

section \<open>Every render has its config\<close>

interpretation cfg: master_slaves config_kind render_kind
  by unfold_locales (simp_all add: config_kind_def render_kind_def)

text \<open>The queries answer with rows of the tables.\<close>

definition queries_sound :: "ua_sdk \<Rightarrow> bool" where
  "queries_sound sdk \<longleftrightarrow> (\<forall>db. set (ua_deleted_configs sdk db) \<subseteq> {r \<in> set (de_targets db). tr_kind r = config_kind} \<and>
     fst ` set (ua_outdated sdk render_kind db) \<subseteq> set (de_targets db))"

lemma config_rows [simp]: "de_targets (config_delete c db) = de_targets db" "de_targets (config_save c db) = de_targets db"
  by (simp_all add: config_delete_def config_save_def)

text \<open>Each step keeps the table in order.\<close>

lemma config_render_Inr:
  assumes "resources_faithful sdk" and "config_render sdk c n = Inr r"
  shows "tr_kind r = render_kind" "tr_master r = Some (cf_uuid c)" "tr_uuid r = ua_uuid5 sdk n (cf_path c)"
  using assms by (auto simp: config_render_def ebind_Inr_iff resources_faithful_def render_of_def)

lemma renders_ok:
  assumes "resources_faithful sdk"
    and "efold (\<lambda>n db. ebind (ebind (config_render sdk c n) (\<lambda>r. Inr (r\<lparr>tr_agent := Some n\<rparr>))) (\<lambda>r. res_insert r db)) nodes db = Inr db'"
    and "cfg.table_ok db" and "\<exists>x \<in> set (de_targets db). tr_kind x = config_kind \<and> tr_uuid x = cf_uuid c"
  shows "cfg.table_ok db' \<and> set (de_targets db) \<subseteq> set (de_targets db')"
  using assms(2-4)
proof (induction nodes arbitrary: db)
  case (Cons n nodes)
  from Cons.prems(1) obtain r db1 where r: "config_render sdk c n = Inr r" "res_insert (r\<lparr>tr_agent := Some n\<rparr>) db = Inr db1"
    and rest: "efold (\<lambda>n db. ebind (ebind (config_render sdk c n) (\<lambda>r. Inr (r\<lparr>tr_agent := Some n\<rparr>))) (\<lambda>r. res_insert r db)) nodes db1 = Inr db'"
    by (auto simp: ebind_Inr_iff split: sum.splits)
  have "cfg.table_ok db1 \<and> set (de_targets db) \<subseteq> set (de_targets db1)"
    by (rule cfg.slave_inserted_ok [OF Cons.prems(2) r(2) _ _ Cons.prems(3)]) (simp_all add: config_render_Inr [OF assms(1) r(1)])
  with Cons.IH [OF rest] Cons.prems(3) show ?case by blast
qed simp

lemma actualize_new_config_ok:
  assumes "resources_faithful sdk" and "cfg.table_ok db" and "actualize_new_config sdk now c nodes db = Inr db'"
  shows "cfg.table_ok db'"
proof (cases "\<not> are_owners_alive (cf_target c) (de_nodes db) \<or> nodes = []")
  case True
  with assms(3) have "de_targets db' = de_targets db" by (auto simp: actualize_new_config_def split: if_splits)
  with assms(2) cfg.table_ok_targets [of db' db] show ?thesis by simp
next
  case False
  let ?r = "ua_resource_of sdk config_kind None (VConfig c)"
  have rs: "tr_kind ?r = config_kind" "tr_uuid ?r = cf_uuid c" using assms(1) by (simp_all add: resources_faithful_def)
  let ?db = "db\<lparr>de_targets := de_targets db @ [?r]\<rparr>"
  from assms(3) False obtain db1 where f: "tr_key ?r \<notin> tr_key ` set (de_targets db)"
    "efold (\<lambda>n db. ebind (ebind (config_render sdk c n) (\<lambda>r. Inr (r\<lparr>tr_agent := Some n\<rparr>))) (\<lambda>r. res_insert r db)) nodes ?db = Inr db1"
    and db': "de_targets db' = put_by tr_key (?r\<lparr>tr_tracked_at := now, tr_status := DvInProgress\<rparr>) (de_targets db1)"
    by (auto simp: actualize_new_config_def Let_def ebind_Inr_iff res_insert_Inr res_update_def)
  have ok1: "cfg.table_ok ?db" using assms(2) f(1) rs by (auto simp: cfg.table_ok_def list_all_iff list_ex_iff)
  have m: "\<exists>x \<in> set (de_targets ?db). tr_kind x = config_kind \<and> tr_uuid x = cf_uuid c" using rs by auto
  note o = renders_ok [OF assms(1) f(2) ok1 m]
  then have "?r \<in> set (de_targets db1)" by auto
  then have "map shape (de_targets db') = map shape (de_targets db1)"
    unfolding db' using o by (intro cfg.put_by_shape [of _ ?r]) (auto simp: cfg.table_ok_def shape_def)
  with o cfg.table_ok_shapes show ?thesis by blast
qed

lemma actualize_new_configs_ok:
  assumes "resources_faithful sdk"
  shows "cfg.table_ok db \<Longrightarrow> cfg.table_ok (actualize_new_configs sdk now cs db)"
proof -
  have "cfg.table_ok db' \<Longrightarrow> cfg.table_ok (fold (\<lambda>c. attempt (actualize_new_config sdk now c (f c))) cs db')" for cs db' f
    by (induction cs arbitrary: db') (auto simp: attempt_def split: sum.split dest: actualize_new_config_ok [OF assms])
  then show "cfg.table_ok db \<Longrightarrow> cfg.table_ok (actualize_new_configs sdk now cs db)" by (simp add: actualize_new_configs_def)
qed

lemma actualize_changed_ok:
  assumes "resources_faithful sdk" and "cfg.table_ok db"
  shows "cfg.table_ok (actualize_changed_configs sdk now db)"
proof -
  let ?us = "map cf_uuid (ua_updated_configs sdk db)"
  have "cfg.table_ok (fold res_delete (of_masters render_kind ?us db @ of_uuids config_kind ?us db) db)"
    by (rule cfg.delete_masters_ok [OF assms(2), where us = ?us]) (auto simp: of_masters_def of_uuids_def)
  with actualize_new_configs_ok [OF assms(1) this] assms(2) show ?thesis
    by (simp only: actualize_changed_configs_def Let_def split: if_split) blast
qed

lemma actualize_deleted_ok:
  assumes "queries_sound sdk" and "cfg.table_ok db"
  shows "cfg.table_ok (actualize_deleted_configs sdk db)"
proof -
  have d: "set (ua_deleted_configs sdk db) \<subseteq> {r \<in> set (de_targets db). tr_kind r = config_kind}" using assms(1) by (simp add: queries_sound_def)
  show ?thesis unfolding actualize_deleted_configs_def Let_def
    by (rule cfg.delete_masters_ok [OF assms(2), where us = "map tr_uuid (ua_deleted_configs sdk db)"])
      (use d of_masters_subset in auto)
qed

lemma actualize_outdated_config_ok:
  assumes "cfg.table_ok db" and "\<forall>p \<in> set renders. shape (fst p) \<in> shape ` set (de_targets db)" and "shape r \<in> shape ` set (de_targets db)"
  shows "map shape (de_targets (actualize_outdated_config now c r renders db)) = map shape (de_targets db)"
proof -
  let ?db = "fold res_update (map (\<lambda>(t, a). follow_report t a) renders) db"
  have "shape (r\<lparr>tr_tracked_at := x, tr_status := y\<rparr>) = shape r" for x y by (simp add: shape_def)
  with cfg.report_pass_shapes [OF assms, of ?db] cfg.report_pass_shapes(2) [OF assms, of "config_save c' ?db" for c']
  show ?thesis by (auto simp: actualize_outdated_config_def Let_def split: option.split)
qed

lemma actualize_outdated_ok:
  assumes "queries_sound sdk" and "cfg.table_ok db"
  shows "cfg.table_ok (actualize_outdated_configs sdk now db)"
proof -
  let ?renders = "group_by_master (ua_outdated sdk render_kind db)"
  have t: "shape t \<in> shape ` set (de_targets db)" if "(t, a) \<in> set (dget_or ?renders m [])" for t a m
    using group_by_master_mem [OF that] assms(1) by (force simp: queries_sound_def)
  have loop: "cfg.table_ok (fold (\<lambda>(c, r). actualize_outdated_config now c r (dget_or ?renders (Some (cf_uuid c)) [])) crs db')"
    if "cfg.table_ok db'" "map shape (de_targets db') = map shape (de_targets db)" "\<forall>(c, r) \<in> set crs. shape r \<in> shape ` set (de_targets db)" for crs db'
    using that
  proof (induction crs arbitrary: db')
    case (Cons p crs)
    obtain c r where p: "p = (c, r)" by (cases p)
    have e: "shape ` set (de_targets db') = shape ` set (de_targets db)" using Cons.prems(2) by (metis list.set_map)
    let ?db = "actualize_outdated_config now c r (dget_or ?renders (Some (cf_uuid c)) []) db'"
    have s: "map shape (de_targets ?db) = map shape (de_targets db')"
      using Cons.prems(3) t p e by (intro actualize_outdated_config_ok [OF Cons.prems(1)]) auto
    have "cfg.table_ok ?db" using cfg.table_ok_shapes [OF s] Cons.prems(1) by simp
    moreover have "map shape (de_targets ?db) = map shape (de_targets db)" using s Cons.prems(2) by simp
    moreover have "\<forall>(c, r) \<in> set crs. shape r \<in> shape ` set (de_targets db)" using Cons.prems(3) by simp
    ultimately show ?case unfolding p by (simp only: fold_simps prod.case) (rule Cons.IH)
  qed simp
  have l: "cfg.table_ok (fold (\<lambda>(c, r). actualize_outdated_config now c r (dget_or ?renders (Some (cf_uuid c)) [])) (outdated_configs us db) db)" for us
    by (rule loop [OF assms(2) refl]) (auto simp: outdated_configs_def of_uuids_def dest!: set_zip_rightD)
  show ?thesis unfolding actualize_outdated_configs_def Let_def
    by (cases "?renders = []") (simp_all only: if_True if_False assms(2) l simp_thms)
qed

lemma config_iteration_ok: "resources_faithful sdk \<Longrightarrow> queries_sound sdk \<Longrightarrow> cfg.table_ok db \<Longrightarrow> cfg.table_ok (config_iteration sdk now db)"
  by (simp add: config_iteration_def actualize_deleted_ok actualize_outdated_ok actualize_changed_ok actualize_new_configs_ok)

section \<open>Delivery\<close>

lemma body_render_text: "body_render (cf_body c) = Inr t \<Longrightarrow> config_render sdk c n =
    Inr ((ua_resource_of sdk render_kind (Some (cf_uuid c)) (VRender (render_of sdk c n t)))\<lparr>tr_status := DvInProgress\<rparr>)"
  by (simp add: config_render_def)

text \<open>The render of a config for a node, as the table has it.\<close>

definition placed_render :: "ua_sdk \<Rightarrow> config \<Rightarrow> string \<Rightarrow> uuid \<Rightarrow> ua_resource" where
  "placed_render sdk c t n = (ua_resource_of sdk render_kind (Some (cf_uuid c)) (VRender (render_of sdk c n t)))
     \<lparr>tr_status := DvInProgress, tr_agent := Some n\<rparr>"

lemma placed_render_key: "resources_faithful sdk \<Longrightarrow> tr_key (placed_render sdk c t n) = (ua_uuid5 sdk n (cf_path c), render_kind)"
  by (simp add: placed_render_def resources_faithful_def tr_key_def render_of_def)

lemma renders_Inr:
  assumes "resources_faithful sdk"
    and "efold (\<lambda>n db. ebind (ebind (config_render sdk c n) (\<lambda>r. Inr (r\<lparr>tr_agent := Some n\<rparr>))) (\<lambda>r. res_insert r db)) nodes db = Inr db'"
  shows "\<forall>n \<in> set nodes. is_ok (body_render (cf_body c)) \<and> (ua_uuid5 sdk n (cf_path c), render_kind) \<notin> tr_key ` set (de_targets db)"
  using assms(2)
proof (induction nodes arbitrary: db)
  case (Cons n nodes)
  from Cons.prems obtain r where r: "config_render sdk c n = Inr r" "tr_key r \<notin> tr_key ` set (de_targets db)"
    and rest: "efold (\<lambda>n db. ebind (ebind (config_render sdk c n) (\<lambda>r. Inr (r\<lparr>tr_agent := Some n\<rparr>))) (\<lambda>r. res_insert r db)) nodes
      (db\<lparr>de_targets := de_targets db @ [r\<lparr>tr_agent := Some n\<rparr>]\<rparr>) = Inr db'"
    by (auto simp: ebind_Inr_iff res_insert_Inr split: sum.splits)
  have "tr_key r = (ua_uuid5 sdk n (cf_path c), render_kind)" using config_render_Inr [OF assms(1) r(1)] by (simp add: tr_key_def)
  moreover have "is_ok (body_render (cf_body c))" using r(1) by (auto simp: config_render_def ebind_Inr_iff)
  ultimately show ?case using Cons.IH [OF rest] r(2) by auto
qed simp

section \<open>Properties\<close>

text \<open>Between iterations users change configs, keys and nodes; the resources belong to the service.\<close>

inductive config_step :: "ua_sdk \<Rightarrow> delivery_db \<Rightarrow> delivery_db \<Rightarrow> bool" for sdk where
  step_iteration: "config_step sdk db (config_iteration sdk now db)"
| step_user: "de_targets db' = de_targets db \<Longrightarrow> config_step sdk db db'"

text \<open>C25. However users create, change and delete configs and nodes between the iterations, the resources never hold a
  render without the resource of its config, nor two resources of one kind under one uuid: what the agents are told to
  place always belongs to a config the service still tracks.\<close>

theorem renders_have_configs:
  assumes "resources_faithful sdk" and "queries_sound sdk" and "(config_step sdk)\<^sup>*\<^sup>* db db'" and "de_targets db = []"
    and "r \<in> set (de_targets db')" and "tr_kind r = render_kind"
  shows "(\<exists>c \<in> set (de_targets db'). tr_kind c = config_kind \<and> tr_master r = Some (tr_uuid c)) \<and> distinct (map tr_key (de_targets db'))"
proof -
  have "cfg.table_ok db'" using assms(3)
  proof (induction rule: rtranclp_induct)
    case base
    show ?case using assms(4) by (simp add: cfg.table_ok_def)
  next
    case (step x y)
    from step.hyps(2) show ?case
    proof cases
      case step_iteration
      then show ?thesis using config_iteration_ok [OF assms(1,2) step.IH] by simp
    next
      case step_user
      then show ?thesis using cfg.table_ok_targets [of y x] step.IH by simp
    qed
  qed
  with assms(5,6) show ?thesis by (auto simp: cfg.table_ok_def list_all_iff list_ex_iff)
qed

text \<open>C26. A new config whose target exists is delivered: the service adds its resource, tracked at the time the config is
  saved, and for every target node one render addressed to that node's agent with the config's path, text, mode and owners;
  the config goes to \<open>IN_PROGRESS\<close> and nothing else changes.\<close>

theorem new_config_delivered:
  assumes "resources_faithful sdk" and "are_owners_alive (cf_target c) (de_nodes db)" and "nodes \<noteq> []" and "cf_body c = TextBody t"
    and "(cf_uuid c, config_kind) \<notin> tr_key ` set (de_targets db)"
    and "distinct (map (\<lambda>n. ua_uuid5 sdk n (cf_path c)) nodes)"
    and "\<forall>n \<in> set nodes. (ua_uuid5 sdk n (cf_path c), render_kind) \<notin> tr_key ` set (de_targets db)"
  shows "actualize_new_config sdk now c nodes db = Inr (db\<lparr>
     de_configs := put_by cf_uuid (c\<lparr>cf_status := DvInProgress, cf_updated_at := now\<rparr>) (de_configs db),
     de_targets := de_targets db @ [(ua_resource_of sdk config_kind None (VConfig c))\<lparr>tr_tracked_at := now, tr_status := DvInProgress\<rparr>]
       @ map (placed_render sdk c t) nodes\<rparr>)"
proof -
  let ?r = "ua_resource_of sdk config_kind None (VConfig c)"
  let ?db = "db\<lparr>de_targets := de_targets db @ [?r]\<rparr>"
  have k: "tr_key ?r = (cf_uuid c, config_kind)" using assms(1) by (simp add: resources_faithful_def tr_key_def)
  have b: "body_render (cf_body c) = Inr t" by (simp add: assms(4))
  have g: "ebind (config_render sdk c n) (\<lambda>r. Inr (r\<lparr>tr_agent := Some n\<rparr>)) = Inr (placed_render sdk c t n)" for n
    by (simp add: body_render_text [OF b] placed_render_def)
  have nk: "tr_key x \<noteq> (cf_uuid c, config_kind)" if "x \<in> set (de_targets db)" for x using assms(5) that by force
  note pk = placed_render_key [OF assms(1), of c t]
  have "distinct (map (tr_key \<circ> placed_render sdk c t) nodes)" using assms(6) by (simp add: o_def pk distinct_map inj_on_def)
  then have "efold (\<lambda>n db. ebind (ebind (config_render sdk c n) (\<lambda>r. Inr (r\<lparr>tr_agent := Some n\<rparr>))) (\<lambda>r. res_insert r db)) nodes ?db =
      Inr (?db\<lparr>de_targets := de_targets ?db @ map (placed_render sdk c t) nodes\<rparr>)"
    using assms(7) k by (intro inserts_append g) (auto simp: pk)
  moreover have "put_by tr_key (?r\<lparr>tr_tracked_at := now, tr_status := DvInProgress\<rparr>) (de_targets db @ ?r # map (placed_render sdk c t) nodes) =
      de_targets db @ [?r\<lparr>tr_tracked_at := now, tr_status := DvInProgress\<rparr>] @ map (placed_render sdk c t) nodes"
    using nk k pk by (auto simp: put_by_def intro!: map_idI)
  moreover have "res_insert ?r db = Inr ?db" using assms(5) k by (simp add: res_insert_Inr)
  ultimately show ?thesis using assms(2,3)
    by (simp add: actualize_new_config_def Let_def res_update_def config_save_def)
qed

text \<open>C27. A config that cannot be delivered to one of its nodes, because its body is a template or because another config
  already places a file at that path there, is delivered to none: the attempt is rolled back as a whole, the config stays as
  it is and is tried again in every later iteration.\<close>

theorem undeliverable_config_rolled_back:
  assumes "resources_faithful sdk" and "are_owners_alive (cf_target c) (de_nodes db)" and "n \<in> set nodes"
    and "cf_body c = TemplateBody tmpl vars \<or> (ua_uuid5 sdk n (cf_path c), render_kind) \<in> tr_key ` set (de_targets db)"
  shows "attempt (actualize_new_config sdk now c nodes) db = db"
proof (cases "actualize_new_config sdk now c nodes db")
  case (Inr db')
  let ?r = "ua_resource_of sdk config_kind None (VConfig c)"
  have "nodes \<noteq> []" using assms(3) by auto
  with Inr assms(2) obtain db1 where
    "efold (\<lambda>n db. ebind (ebind (config_render sdk c n) (\<lambda>r. Inr (r\<lparr>tr_agent := Some n\<rparr>))) (\<lambda>r. res_insert r db)) nodes
      (db\<lparr>de_targets := de_targets db @ [?r]\<rparr>) = Inr db1"
    by (auto simp: actualize_new_config_def Let_def ebind_Inr_iff res_insert_Inr)
  from renders_Inr [OF assms(1) this] assms(3,4) show ?thesis by (auto simp: is_ok_def)
qed (simp add: attempt_def)

text \<open>The status of a config answers only for the renders reported on in the iteration: when all of those are in place,
  the config becomes \<open>ACTIVE\<close> whatever the state of its renders for other nodes.\<close>

theorem status_ignores_unreported_renders:
  assumes "renders \<noteq> []" and "\<forall>p \<in> set renders. tr_status (snd p) = DvActive \<and> tr_hash (fst p) = tr_hash (snd p)"
    and "cf_status c \<noteq> DvActive" and "c \<in> set (de_configs db)"
    and "x \<in> set (de_targets db)" and "tr_key x \<notin> tr_key ` fst ` set renders" and "tr_key x \<noteq> tr_key r"
  shows "x \<in> set (de_targets (actualize_outdated_config now c r renders db)) \<and>
    c\<lparr>cf_status := DvActive, cf_updated_at := now\<rparr> \<in> set (de_configs (actualize_outdated_config now c r renders db))"
proof -
  let ?ts = "map (\<lambda>(t, a). follow_report t a) renders"
  have keep: "x \<in> set (de_targets (fold res_update ts db')) \<and> de_configs (fold res_update ts db') = de_configs db'"
    if "tr_key x \<notin> tr_key ` set ts" "x \<in> set (de_targets db')" for ts db'
    using that by (induction ts arbitrary: db') (auto simp: res_update_def put_by_def)
  have "tr_key ` set ?ts = tr_key ` fst ` set renders" by (force simp: image_iff)
  with keep [of ?ts db] assms(5,6) have k: "x \<in> set (de_targets (fold res_update ?ts db))" "de_configs (fold res_update ?ts db) = de_configs db" by auto
  have "list_all (\<lambda>r. tr_status r = DvActive) ?ts" using assms(2) by (auto simp: list_all_iff follow_report_def Let_def)
  then have "master_status ?ts = Some DvActive" by (simp add: master_status_def)
  with k assms(1,3,4,7) show ?thesis
    by (auto simp: actualize_outdated_config_def Let_def res_update_def config_save_def put_by_def image_iff)
qed

text \<open>An SDK with the queries written out, for the witnesses: what is new has no resource, what has changed was saved after
  its resource was tracked, what is deleted left its resource behind; the reports are given.\<close>

definition example_ua :: "(ua_resource \<times> ua_resource) list \<Rightarrow> ua_sdk" where
  "example_ua reports = \<lparr>
     ua_resource_of = \<lambda>kind master v. \<lparr>tr_uuid = value_uuid v, tr_kind = kind, tr_master = master, tr_agent = None, tr_status = DvNew,
       tr_tracked_at = 0, tr_value = v, tr_hash = ''h'', tr_full_hash = ''''\<rparr>,
     ua_uuid5 = \<lambda>u s. u @ ''/'' @ s,
     ua_new_configs = \<lambda>db. filter (\<lambda>c. \<not> list_ex (\<lambda>r. tr_key r = (cf_uuid c, config_kind)) (de_targets db)) (de_configs db),
     ua_updated_configs = \<lambda>db. filter (\<lambda>c. list_ex (\<lambda>r. tr_key r = (cf_uuid c, config_kind) \<and> tr_tracked_at r \<noteq> cf_updated_at c) (de_targets db)) (de_configs db),
     ua_deleted_configs = \<lambda>db. filter (\<lambda>r. tr_kind r = config_kind \<and> tr_uuid r \<notin> cf_uuid ` set (de_configs db)) (de_targets db),
     ua_new_keys = \<lambda>db. [], ua_updated_keys = \<lambda>db. [], ua_deleted_keys = \<lambda>db. [],
     ua_outdated = \<lambda>kind db. filter (\<lambda>p. fst p \<in> set (de_targets db)) reports\<rparr>"

lemma example_ua_ok: "resources_faithful (example_ua reports)" "queries_sound (example_ua reports)"
  by (auto simp: resources_faithful_def queries_sound_def example_ua_def)

definition example_config :: config where
  "example_config = \<lparr>cf_uuid = ''c'', cf_path = ''/etc/x'', cf_status = DvNew, cf_target = NodeTarget ''n'', cf_body = TextBody ''hi'',
     cf_on_change = NoAction, cf_mode = ''0644'', cf_owner = ''root'', cf_group = ''root'', cf_updated_at = 1\<rparr>"

definition example_node :: node where
  "example_node = \<lparr>nd_uuid = ''n'', nd_name = ''n'', nd_description = '''', nd_project_id = ''p'', nd_cores = 1, nd_ram = 1024, nd_node_type = NodeVM,
     nd_hostname = None, nd_disk_spec = RootDisk \<lparr>dk_tier = None, dk_ephemeral = None\<rparr>, nd_status = StActive, nd_node_set = None, nd_pool = None,
     nd_target_power_state = PowerOn, nd_power_state = None\<rparr>"

definition example_delivery :: "config list \<Rightarrow> delivery_db" where
  "example_delivery cs = \<lparr>de_configs = cs, de_keys = [], de_nodes = [example_node], de_targets = []\<rparr>"

definition example_delivered :: delivery_db where
  "example_delivered = (example_delivery [example_config\<lparr>cf_status := DvInProgress, cf_updated_at := 5\<rparr>])\<lparr>de_targets :=
     [(ua_resource_of (example_ua []) config_kind None (VConfig example_config))\<lparr>tr_tracked_at := 5, tr_status := DvInProgress\<rparr>,
      placed_render (example_ua []) example_config ''hi'' ''n'']\<rparr>"

lemmas example_delivery_defs = example_delivered_def example_delivery_def example_config_def example_node_def example_ua_def
  placed_render_def render_of_def tr_key_def config_kind_def render_kind_def

lemma example_iteration: "config_iteration (example_ua []) 5 (example_delivery [example_config]) = example_delivered"
proof -
  have "actualize_new_configs (example_ua []) 5 [] (example_delivery [example_config]) = example_delivered"
    by (simp add: actualize_new_configs_def attempt_def actualize_new_config_def existing_targets_def are_owners_alive_def
        config_render_def res_insert_def res_update_def config_save_def put_by_def Let_def example_delivery_defs)
  moreover have "actualize_changed_configs (example_ua []) 5 example_delivered = example_delivered"
    by (simp add: actualize_changed_configs_def Let_def example_delivery_defs)
  moreover have "actualize_outdated_configs (example_ua []) 5 example_delivered = example_delivered"
    by (simp add: actualize_outdated_configs_def group_by_master_def Let_def example_ua_def)
  moreover have "actualize_deleted_configs (example_ua []) example_delivered = example_delivered"
    by (simp add: actualize_deleted_configs_def Let_def of_masters_def example_delivery_defs)
  ultimately show ?thesis by (simp add: config_iteration_def)
qed

theorem renders_have_configs_witness:
  "\<exists>c \<in> set (de_targets example_delivered). tr_kind c = config_kind \<and>
     tr_master (placed_render (example_ua []) example_config ''hi'' ''n'') = Some (tr_uuid c)"
proof -
  have "(config_step (example_ua []))\<^sup>*\<^sup>* (example_delivery [example_config]) example_delivered"
    using step_iteration [of "example_ua []" "example_delivery [example_config]" 5] by (simp add: example_iteration r_into_rtranclp)
  then show ?thesis
    by (rule renders_have_configs [OF example_ua_ok, THEN conjunct1]) (simp_all add: example_delivery_defs)
qed

theorem new_config_delivered_witness:
  "actualize_new_config (example_ua []) 5 example_config [''n''] (example_delivery [example_config]) = Inr example_delivered"
  using new_config_delivered [OF example_ua_ok(1) [of "[]"], of example_config "example_delivery [example_config]" "[''n'']" "''hi''" 5]
  by (simp add: example_delivery_defs are_owners_alive_def put_by_def)

theorem undeliverable_config_rolled_back_witness:
  "attempt (actualize_new_config (example_ua []) 6 (example_config\<lparr>cf_uuid := ''d''\<rparr>) [''n'']) example_delivered = example_delivered"
  by (rule undeliverable_config_rolled_back [OF example_ua_ok(1), where n = "''n''"])
    (simp_all add: example_delivery_defs are_owners_alive_def)

theorem status_ignores_unreported_renders_witness:
  "let t = placed_render (example_ua []) example_config ''hi'' ''n''; x = placed_render (example_ua []) example_config ''hi'' ''m'';
       r = ua_resource_of (example_ua []) config_kind None (VConfig example_config);
       db = actualize_outdated_config 9 example_config r [(t, t\<lparr>tr_status := DvActive\<rparr>)] ((example_delivery [example_config])\<lparr>de_targets := [r, t, x]\<rparr>)
   in x \<in> set (de_targets db) \<and> tr_status x = DvInProgress \<and>
     example_config\<lparr>cf_status := DvActive, cf_updated_at := 9\<rparr> \<in> set (de_configs db)"
  using status_ignores_unreported_renders [of "[(placed_render (example_ua []) example_config ''hi'' ''n'',
      (placed_render (example_ua []) example_config ''hi'' ''n'')\<lparr>tr_status := DvActive\<rparr>)]" example_config
      "(example_delivery [example_config])\<lparr>de_targets := [ua_resource_of (example_ua []) config_kind None (VConfig example_config),
        placed_render (example_ua []) example_config ''hi'' ''n'', placed_render (example_ua []) example_config ''hi'' ''m'']\<rparr>"
      "placed_render (example_ua []) example_config ''hi'' ''m''" "ua_resource_of (example_ua []) config_kind None (VConfig example_config)" 9]
  by (simp add: Let_def example_delivery_defs)

section \<open>Two gaps\<close>

text \<open>A config that was delivered is left alone until it changes: a node that joins its node set later gets no render.\<close>

lemma settled_config_ignores_new_nodes:
  assumes "ua_new_configs sdk db = []" and "ua_updated_configs sdk db = []" and "ua_deleted_configs sdk db = []" and "ua_outdated sdk render_kind db = []"
  shows "config_iteration sdk now db = db"
  using assms
  by (simp add: config_iteration_def actualize_new_configs_def actualize_changed_configs_def actualize_outdated_configs_def
      actualize_deleted_configs_def group_by_master_def Let_def of_masters_def)

text \<open>Configs and resources are paired by position: when one of the configs has been deleted, the next one is paired with
  its resource.\<close>

definition shifted_db :: delivery_db where
  "shifted_db = (example_delivery [example_config\<lparr>cf_uuid := ''b''\<rparr>])\<lparr>de_targets :=
     [ua_resource_of (example_ua []) config_kind None (VConfig (example_config\<lparr>cf_uuid := ''a''\<rparr>)),
      ua_resource_of (example_ua []) config_kind None (VConfig (example_config\<lparr>cf_uuid := ''b''\<rparr>))]\<rparr>"

lemma outdated_configs_shifted:
  "map (\<lambda>(c, r). (cf_uuid c, tr_uuid r)) (outdated_configs [''a'', ''b''] shifted_db) = [(''b'', ''a'')]"
  by (simp add: outdated_configs_def of_uuids_def shifted_db_def example_delivery_defs less_char_def)

end
