(* ===== verification/Ssh_Keys.thy ===== *)
theory Ssh_Keys
  imports Delivery_Model "HOL-Library.List_Lexorder" "HOL-Library.Char_ord"
begin

text \<open>
  SSH keys placed on nodes (\<open>exordos_core/secret/service.py\<close>, \<open>SSHKey\<close> of \<open>secret/dm/models.py\<close>): a key is a
  resource of its own and a host key per target node, addressed to the node's agent.  \<open>now\<close> is the time a row
  is saved at.
\<close>

definition ssh_key_kind :: string where "ssh_key_kind = ''ssh_key''"

definition ssh_key_target_kind :: string where "ssh_key_target_kind = ''ssh_key_target''"

definition host_key :: "ua_sdk \<Rightarrow> ssh_key \<Rightarrow> uuid \<Rightarrow> ssh_host_key" where
  "host_key sdk k node = \<lparr>hk_uuid = ua_uuid5 sdk (sk_uuid k) node, hk_user = sk_user k, hk_authorized_keys = sk_authorized_keys k,
     hk_target_public_key = sk_target_public_key k\<rparr>"

definition to_host_resource :: "ua_sdk \<Rightarrow> ssh_key \<Rightarrow> uuid \<Rightarrow> uuid \<Rightarrow> delivery_status option \<Rightarrow> ua_resource" where
  "to_host_resource sdk k m node status =
     (let r = ua_resource_of sdk ssh_key_target_kind (Some m) (VHost (host_key sdk k node));
          r = (case status of None \<Rightarrow> r | Some s \<Rightarrow> r\<lparr>tr_status := s\<rparr>)
      in r\<lparr>tr_agent := Some node\<rparr>)"

definition key_delete :: "ssh_key \<Rightarrow> delivery_db \<Rightarrow> delivery_db" where
  "key_delete k db = db\<lparr>de_keys := filter (\<lambda>x. sk_uuid x \<noteq> sk_uuid k) (de_keys db)\<rparr>"

definition key_save :: "ssh_key \<Rightarrow> delivery_db \<Rightarrow> delivery_db" where
  "key_save k db = db\<lparr>de_keys := put_by sk_uuid k (de_keys db)\<rparr>"

text \<open>A host key that is there already is left.\<close>

definition insert_host_key :: "ua_sdk \<Rightarrow> ssh_key \<Rightarrow> uuid \<Rightarrow> uuid \<Rightarrow> delivery_db \<Rightarrow> delivery_db" where
  "insert_host_key sdk k m node = attempt (res_insert (to_host_resource sdk k m node (Some DvInProgress)))"

definition actualize_new_ssh_key :: "ua_sdk \<Rightarrow> nat \<Rightarrow> ssh_key \<Rightarrow> uuid list \<Rightarrow> delivery_db \<Rightarrow> delivery_error + delivery_db" where
  "actualize_new_ssh_key sdk now k nodes db =
     (if \<not> are_owners_alive (sk_target k) (de_nodes db) then Inr (key_delete k db)
      else if nodes = [] then Inr db
      else let r = ua_resource_of sdk ssh_key_kind None (VKey k) in
        ebind (res_insert r db) (\<lambda>db.
        let db = fold (insert_host_key sdk k (tr_uuid r)) nodes db; k = k\<lparr>sk_status := DvInProgress, sk_updated_at := now\<rparr>
        in Inr (res_update (r\<lparr>tr_tracked_at := sk_updated_at k, tr_status := sk_status k\<rparr>) (key_save k db))))"

definition available_nodes :: "delivery_db \<Rightarrow> ssh_key \<Rightarrow> uuid list" where
  "available_nodes db k = filter (\<lambda>u. u \<in> nd_uuid ` set (de_nodes db)) (target_nodes (sk_target k) (de_nodes db))"

definition actualize_new_ssh_keys :: "ua_sdk \<Rightarrow> nat \<Rightarrow> ssh_key list \<Rightarrow> delivery_db \<Rightarrow> delivery_db" where
  "actualize_new_ssh_keys sdk now ks db =
     fold (\<lambda>k. attempt (actualize_new_ssh_key sdk now k (available_nodes db k))) (if ks \<noteq> [] then ks else ua_new_keys sdk db) db"

definition actualize_changed_ssh_keys :: "ua_sdk \<Rightarrow> nat \<Rightarrow> delivery_db \<Rightarrow> delivery_db" where
  "actualize_changed_ssh_keys sdk now db =
     (let changed = ua_updated_keys sdk db; rows = of_uuids ssh_key_kind (map sk_uuid changed) db in
      if changed = [] then db
      else actualize_new_ssh_keys sdk now changed (fold res_delete (of_masters ssh_key_target_kind (map tr_uuid rows) db @ rows) db))"

definition actualize_outdated_ssh_key ::
  "nat \<Rightarrow> ssh_key \<Rightarrow> ua_resource \<Rightarrow> (ua_resource \<times> ua_resource) list \<Rightarrow> delivery_db \<Rightarrow> delivery_db" where
  "actualize_outdated_ssh_key now k r hosts db =
     (let targets = map (\<lambda>(t, a). follow_report t a) hosts; db = fold res_update targets db in
      case master_status targets of
        None \<Rightarrow> db
      | Some s \<Rightarrow> if sk_status k = s then db
          else let k = k\<lparr>sk_status := s, sk_updated_at := now\<rparr>
            in res_update (r\<lparr>tr_status := sk_status k, tr_tracked_at := sk_updated_at k\<rparr>) (key_save k db))"

definition outdated_ssh_keys :: "uuid list \<Rightarrow> delivery_db \<Rightarrow> delivery_error + (ssh_key \<times> ua_resource) list" where
  "outdated_ssh_keys us db =
     (let rows = sort_key tr_uuid (of_uuids ssh_key_kind us db);
          ks = sort_key sk_uuid (filter (\<lambda>k. sk_uuid k \<in> set us) (de_keys db))
      in if length ks \<noteq> length rows then Inl LengthsDiffer else Inr (zip ks rows))"

definition actualize_outdated_ssh_keys :: "ua_sdk \<Rightarrow> nat \<Rightarrow> delivery_db \<Rightarrow> delivery_error + delivery_db" where
  "actualize_outdated_ssh_keys sdk now db =
     (let hosts = group_by_master (ua_outdated sdk ssh_key_target_kind db) in
      if hosts = [] then Inr db
      else ebind (outdated_ssh_keys (List.map_filter id (dkeys hosts)) db) (\<lambda>krs.
        Inr (fold (\<lambda>(k, r). actualize_outdated_ssh_key now k r (dget_or hosts (Some (tr_uuid r)) [])) krs db)))"

definition actualize_deleted_ssh_keys :: "ua_sdk \<Rightarrow> delivery_db \<Rightarrow> delivery_db" where
  "actualize_deleted_ssh_keys sdk db =
     (let deleted = ua_deleted_keys sdk db in
      if deleted = [] then db else fold res_delete (of_masters ssh_key_target_kind (map tr_uuid deleted) db @ deleted) db)"

definition actualize_ssh_keys :: "ua_sdk \<Rightarrow> nat \<Rightarrow> delivery_db \<Rightarrow> delivery_db" where
  "actualize_ssh_keys sdk now db = actualize_deleted_ssh_keys sdk
     (attempt (actualize_outdated_ssh_keys sdk now) (actualize_changed_ssh_keys sdk now (actualize_new_ssh_keys sdk now [] db)))"

section \<open>Every host key has its key\<close>

interpretation ssh: master_slaves ssh_key_kind ssh_key_target_kind
  by unfold_locales (simp_all add: ssh_key_kind_def ssh_key_target_kind_def)

definition key_queries_sound :: "ua_sdk \<Rightarrow> bool" where
  "key_queries_sound sdk \<longleftrightarrow> (\<forall>db. set (ua_deleted_keys sdk db) \<subseteq> {r \<in> set (de_targets db). tr_kind r = ssh_key_kind} \<and>
     fst ` set (ua_outdated sdk ssh_key_target_kind db) \<subseteq> set (de_targets db))"

lemma key_rows [simp]: "de_targets (key_delete k db) = de_targets db" "de_targets (key_save k db) = de_targets db"
  by (simp_all add: key_delete_def key_save_def)

lemma to_host_resource_simps:
  assumes "resources_faithful sdk"
  shows "tr_kind (to_host_resource sdk k m n s) = ssh_key_target_kind" "tr_master (to_host_resource sdk k m n s) = Some m"
    "tr_uuid (to_host_resource sdk k m n s) = ua_uuid5 sdk (sk_uuid k) n" "tr_agent (to_host_resource sdk k m n s) = Some n"
    "tr_value (to_host_resource sdk k m n s) = VHost (host_key sdk k n)"
  using assms by (simp_all add: to_host_resource_def Let_def resources_faithful_def host_key_def split: option.split)

lemma host_keys_ok:
  assumes "resources_faithful sdk" and "ssh.table_ok db" and "x \<in> set (de_targets db)" and "tr_kind x = ssh_key_kind" and "tr_uuid x = m"
  shows "ssh.table_ok (fold (insert_host_key sdk k m) nodes db) \<and> set (de_targets db) \<subseteq> set (de_targets (fold (insert_host_key sdk k m) nodes db))"
  using assms(2,3)
proof (induction nodes arbitrary: db)
  case (Cons n nodes)
  let ?db = "insert_host_key sdk k m n db"
  have "ssh.table_ok ?db \<and> set (de_targets db) \<subseteq> set (de_targets ?db)"
  proof (cases "res_insert (to_host_resource sdk k m n (Some DvInProgress)) db")
    case (Inr db1)
    have "ssh.table_ok db1 \<and> set (de_targets db) \<subseteq> set (de_targets db1)"
      by (rule ssh.slave_inserted_ok [OF Cons.prems(1) Inr]) (use to_host_resource_simps [OF assms(1)] Cons.prems(2) assms(4,5) in auto)
    with Inr show ?thesis by (simp add: insert_host_key_def attempt_def)
  qed (simp add: insert_host_key_def attempt_def Cons.prems)
  with Cons.IH [of ?db] Cons.prems(2) show ?case by (simp only: fold_simps) blast
qed simp

lemma actualize_new_ssh_key_ok:
  assumes "resources_faithful sdk" and "ssh.table_ok db" and "actualize_new_ssh_key sdk now k nodes db = Inr db'"
  shows "ssh.table_ok db'"
proof (cases "\<not> are_owners_alive (sk_target k) (de_nodes db) \<or> nodes = []")
  case True
  with assms(3) have "de_targets db' = de_targets db" by (auto simp: actualize_new_ssh_key_def split: if_splits)
  with assms(2) ssh.table_ok_targets [of db' db] show ?thesis by simp
next
  case False
  let ?r = "ua_resource_of sdk ssh_key_kind None (VKey k)"
  from assms(3) False obtain db1 where i: "res_insert ?r db = Inr db1"
    and db': "db' = res_update (?r\<lparr>tr_tracked_at := now, tr_status := DvInProgress\<rparr>)
      (key_save (k\<lparr>sk_status := DvInProgress, sk_updated_at := now\<rparr>) (fold (insert_host_key sdk k (tr_uuid ?r)) nodes db1))"
    by (auto simp: actualize_new_ssh_key_def Let_def ebind_Inr_iff)
  have kind: "tr_kind ?r = ssh_key_kind" using assms(1) by (simp add: resources_faithful_def)
  note m = ssh.master_inserted_ok [OF assms(2) i kind]
  let ?db = "key_save (k\<lparr>sk_status := DvInProgress, sk_updated_at := now\<rparr>) (fold (insert_host_key sdk k (tr_uuid ?r)) nodes db1)"
  from host_keys_ok [OF assms(1) m kind refl, of k nodes] m(2)
  have "ssh.table_ok (fold (insert_host_key sdk k (tr_uuid ?r)) nodes db1)" "?r \<in> set (de_targets ?db)" by auto
  moreover have "ssh.table_ok ?db" using calculation(1) ssh.table_ok_targets [OF key_rows(2)] by simp
  ultimately show ?thesis unfolding db' by (intro ssh.row_updated_ok) (simp_all add: shape_def)
qed

lemma actualize_new_ssh_keys_ok:
  assumes "resources_faithful sdk"
  shows "ssh.table_ok db \<Longrightarrow> ssh.table_ok (actualize_new_ssh_keys sdk now ks db)"
proof -
  have "ssh.table_ok db' \<Longrightarrow> ssh.table_ok (fold (\<lambda>k. attempt (actualize_new_ssh_key sdk now k (f k))) ks db')" for ks db' f
    by (induction ks arbitrary: db') (auto simp: attempt_def split: sum.split dest: actualize_new_ssh_key_ok [OF assms])
  then show "ssh.table_ok db \<Longrightarrow> ssh.table_ok (actualize_new_ssh_keys sdk now ks db)" by (simp add: actualize_new_ssh_keys_def)
qed

text \<open>The rows of a key and of its host keys go together.\<close>

lemma changed_rows_removed:
  assumes "ssh.table_ok db"
  shows "ssh.table_ok (fold res_delete (of_masters ssh_key_target_kind (map tr_uuid (of_uuids ssh_key_kind us db)) db @ of_uuids ssh_key_kind us db) db)"
  by (rule ssh.delete_masters_ok [OF assms, where us = "map tr_uuid (of_uuids ssh_key_kind us db)"]) (auto simp: of_masters_def of_uuids_def)

lemma actualize_changed_ssh_keys_ok:
  assumes "resources_faithful sdk" and "ssh.table_ok db"
  shows "ssh.table_ok (actualize_changed_ssh_keys sdk now db)"
  using actualize_new_ssh_keys_ok [OF assms(1) changed_rows_removed [OF assms(2)]] assms(2)
  by (simp only: actualize_changed_ssh_keys_def Let_def split: if_split) blast

lemma actualize_deleted_ssh_keys_ok:
  assumes "key_queries_sound sdk" and "ssh.table_ok db"
  shows "ssh.table_ok (actualize_deleted_ssh_keys sdk db)"
proof -
  have d: "set (ua_deleted_keys sdk db) \<subseteq> {r \<in> set (de_targets db). tr_kind r = ssh_key_kind}" using assms(1) by (simp add: key_queries_sound_def)
  have "ssh.table_ok (fold res_delete (of_masters ssh_key_target_kind (map tr_uuid (ua_deleted_keys sdk db)) db @ ua_deleted_keys sdk db) db)"
    by (rule ssh.delete_masters_ok [OF assms(2), where us = "map tr_uuid (ua_deleted_keys sdk db)"]) (use d of_masters_subset in auto)
  with assms(2) show ?thesis by (simp only: actualize_deleted_ssh_keys_def Let_def split: if_split) blast
qed

lemma actualize_outdated_ssh_key_ok:
  assumes "ssh.table_ok db" and "\<forall>p \<in> set hosts. shape (fst p) \<in> shape ` set (de_targets db)" and "shape r \<in> shape ` set (de_targets db)"
  shows "map shape (de_targets (actualize_outdated_ssh_key now k r hosts db)) = map shape (de_targets db)"
proof -
  let ?db = "fold res_update (map (\<lambda>(t, a). follow_report t a) hosts) db"
  have "shape (r\<lparr>tr_status := y, tr_tracked_at := x\<rparr>) = shape r" for x y by (simp add: shape_def)
  with ssh.report_pass_shapes [OF assms, of ?db] ssh.report_pass_shapes(2) [OF assms, of "key_save k' ?db" for k']
  show ?thesis by (auto simp: actualize_outdated_ssh_key_def Let_def split: option.split)
qed

lemma actualize_outdated_ssh_keys_ok:
  assumes "key_queries_sound sdk" and "ssh.table_ok db" and "actualize_outdated_ssh_keys sdk now db = Inr db'"
  shows "ssh.table_ok db'"
proof (cases "group_by_master (ua_outdated sdk ssh_key_target_kind db) = []")
  case False
  let ?hosts = "group_by_master (ua_outdated sdk ssh_key_target_kind db)"
  have t: "\<forall>p \<in> set (dget_or ?hosts m []). shape (fst p) \<in> shape ` set (de_targets db)" for m
    using group_by_master_mem assms(1) by (force simp: key_queries_sound_def)
  have loop: "ssh.table_ok (fold (\<lambda>(k, r). actualize_outdated_ssh_key now k r (dget_or ?hosts (Some (tr_uuid r)) [])) krs db1)"
    if "ssh.table_ok db1" "map shape (de_targets db1) = map shape (de_targets db)" "\<forall>p \<in> set krs. shape (snd p) \<in> shape ` set (de_targets db)" for krs db1
    using that
  proof (induction krs arbitrary: db1)
    case (Cons p krs)
    obtain k r where p: "p = (k, r)" by (cases p)
    have e: "shape ` set (de_targets db1) = shape ` set (de_targets db)" using Cons.prems(2) by (metis list.set_map)
    let ?db = "actualize_outdated_ssh_key now k r (dget_or ?hosts (Some (tr_uuid r)) []) db1"
    have s: "map shape (de_targets ?db) = map shape (de_targets db1)"
      using Cons.prems(3) t p e by (intro actualize_outdated_ssh_key_ok [OF Cons.prems(1)]) simp_all
    have "ssh.table_ok ?db" using ssh.table_ok_shapes [OF s] Cons.prems(1) by simp
    moreover have "map shape (de_targets ?db) = map shape (de_targets db)" using s Cons.prems(2) by simp
    moreover have "\<forall>p \<in> set krs. shape (snd p) \<in> shape ` set (de_targets db)" using Cons.prems(3) by simp
    ultimately show ?case unfolding p by (simp only: fold_simps prod.case) (rule Cons.IH)
  qed simp
  from assms(3) False obtain krs us where krs: "outdated_ssh_keys us db = Inr krs"
    and db': "db' = fold (\<lambda>(k, r). actualize_outdated_ssh_key now k r (dget_or ?hosts (Some (tr_uuid r)) [])) krs db"
    by (auto simp: actualize_outdated_ssh_keys_def Let_def ebind_Inr_iff)
  have "\<forall>p \<in> set krs. snd p \<in> set (de_targets db)"
    using krs by (auto simp: outdated_ssh_keys_def Let_def of_uuids_def split: if_splits dest!: set_zip_rightD)
  then show ?thesis unfolding db' by (intro loop [OF assms(2) refl]) blast
qed (use assms in \<open>simp add: actualize_outdated_ssh_keys_def\<close>)

lemma actualize_ssh_keys_ok:
  assumes "resources_faithful sdk" and "key_queries_sound sdk" and "ssh.table_ok db"
  shows "ssh.table_ok (actualize_ssh_keys sdk now db)"
proof -
  have "ssh.table_ok (actualize_changed_ssh_keys sdk now (actualize_new_ssh_keys sdk now [] db))"
    using assms by (intro actualize_changed_ssh_keys_ok actualize_new_ssh_keys_ok)
  then have "ssh.table_ok (attempt (actualize_outdated_ssh_keys sdk now) (actualize_changed_ssh_keys sdk now (actualize_new_ssh_keys sdk now [] db)))"
    by (auto simp: attempt_def split: sum.split intro: actualize_outdated_ssh_keys_ok [OF assms(2)])
  then show ?thesis unfolding actualize_ssh_keys_def by (rule actualize_deleted_ssh_keys_ok [OF assms(2)])
qed

section \<open>Properties\<close>

lemma insert_fresh_host_keys:
  assumes "resources_faithful sdk" and "distinct (map (ua_uuid5 sdk (sk_uuid k)) nodes)"
    and "\<forall>n \<in> set nodes. (ua_uuid5 sdk (sk_uuid k) n, ssh_key_target_kind) \<notin> tr_key ` set (de_targets db)"
  shows "fold (insert_host_key sdk k m) nodes db =
    db\<lparr>de_targets := de_targets db @ map (\<lambda>n. to_host_resource sdk k m n (Some DvInProgress)) nodes\<rparr>"
  using assms(2,3)
proof (induction nodes arbitrary: db)
  case (Cons n nodes)
  let ?r = "to_host_resource sdk k m n (Some DvInProgress)"
  have k: "tr_key (to_host_resource sdk k m x s) = (ua_uuid5 sdk (sk_uuid k) x, ssh_key_target_kind)" for x s
    by (simp add: tr_key_def to_host_resource_simps [OF assms(1)])
  have "insert_host_key sdk k m n db = db\<lparr>de_targets := de_targets db @ [?r]\<rparr>"
  proof -
    have "res_insert ?r db = Inr (db\<lparr>de_targets := de_targets db @ [?r]\<rparr>)" using Cons.prems(2) by (simp add: res_insert_Inr k)
    then show ?thesis by (simp add: insert_host_key_def attempt_def)
  qed
  moreover have "\<forall>x \<in> set nodes. ua_uuid5 sdk (sk_uuid k) x \<noteq> ua_uuid5 sdk (sk_uuid k) n" using Cons.prems(1) by (auto simp: image_iff)
  ultimately show ?case using Cons.IH [of "db\<lparr>de_targets := de_targets db @ [?r]\<rparr>"] Cons.prems by (simp add: k)
qed simp

lemma filter_put_by: "(\<And>y. tr_key y = tr_key r \<Longrightarrow> \<not> P y) \<Longrightarrow> filter P (put_by tr_key r xs) = filter P xs"
  by (induction xs) (auto simp: put_by_def)


text \<open>A key whose target is node \<open>n\<close>, changed after it was placed there and on a node that is not its target any more.\<close>

definition changed_key :: ssh_key where
  "changed_key = \<lparr>sk_uuid = ''k'', sk_status = DvActive, sk_target = NodeTarget ''n'', sk_user = ''ubuntu'',
     sk_authorized_keys = ''.ssh/authorized_keys'', sk_target_public_key = ''new'', sk_updated_at = 8\<rparr>"

definition key_sdk :: ua_sdk where
  "key_sdk = \<lparr>
     ua_resource_of = \<lambda>kind master v. \<lparr>tr_uuid = value_uuid v, tr_kind = kind, tr_master = master, tr_agent = None, tr_status = DvNew,
       tr_tracked_at = 0, tr_value = v, tr_hash = ''h'', tr_full_hash = ''''\<rparr>,
     ua_uuid5 = \<lambda>u s. u @ ''/'' @ s, ua_new_configs = \<lambda>db. [], ua_updated_configs = \<lambda>db. [], ua_deleted_configs = \<lambda>db. [],
     ua_new_keys = \<lambda>db. filter (\<lambda>k. \<not> list_ex (\<lambda>r. tr_key r = (sk_uuid k, ssh_key_kind)) (de_targets db)) (de_keys db),
     ua_updated_keys = \<lambda>db. filter (\<lambda>k. list_ex (\<lambda>r. tr_key r = (sk_uuid k, ssh_key_kind) \<and> tr_tracked_at r \<noteq> sk_updated_at k) (de_targets db)) (de_keys db),
     ua_deleted_keys = \<lambda>db. filter (\<lambda>r. tr_kind r = ssh_key_kind \<and> tr_uuid r \<notin> sk_uuid ` set (de_keys db)) (de_targets db),
     ua_outdated = \<lambda>kind db. []\<rparr>"

definition key_db :: delivery_db where
  "key_db = \<lparr>de_configs = [], de_keys = [changed_key],
     de_nodes = [\<lparr>nd_uuid = ''n'', nd_name = ''n'', nd_description = '''', nd_project_id = ''p'', nd_cores = 1, nd_ram = 1024, nd_node_type = NodeVM,
       nd_hostname = None, nd_disk_spec = RootDisk \<lparr>dk_tier = None, dk_ephemeral = None\<rparr>, nd_status = StActive, nd_node_set = None, nd_pool = None,
       nd_target_power_state = PowerOn, nd_power_state = None\<rparr>],
     de_targets = [ua_resource_of key_sdk ssh_key_kind None (VKey changed_key),
       to_host_resource key_sdk (changed_key\<lparr>sk_target_public_key := ''old''\<rparr>) ''k'' ''n'' None,
       to_host_resource key_sdk (changed_key\<lparr>sk_target_public_key := ''old''\<rparr>) ''k'' ''m'' None]\<rparr>"


end
