(* ===== verification/Repo_Model.thy ===== *)
theory Repo_Model
  imports Element_Links
begin

text \<open>
  Repositories of elements (\<open>exordos_core/repo/dm/models.py\<close>): the rows of the repository, element, artifact
  and dependency tables, and the operations on one element - install, uninstall, upgrade, edit.  An
  operation that may raise returns its error together with the tables as it left them, because a caller that
  handles the exception goes on with what was written before.  A relationship is prefetched: an element
  carries its repository as the query joined it.  Timestamps are integers; the uuids of artifacts and
  bindings are never read and left out.
\<close>

datatype repo_error = RepoInvalid | RepoNotFound | RepoConflict | RepoKeyMissing | RepoBadType | RepoBadVersion string
  | DepNotFound string string | DepConstraint string string | DepConstraintFormat string
  | DriverFailed | DriverUnsupported | RepoOutOfFuel

section \<open>Operations that keep what they wrote when they raise\<close>

definition act_bind :: "('s \<Rightarrow> ('e + 'a) \<times> 's) \<Rightarrow> ('a \<Rightarrow> 's \<Rightarrow> ('e + 'b) \<times> 's) \<Rightarrow> 's \<Rightarrow> ('e + 'b) \<times> 's" where
  "act_bind m f s = (case m s of (Inl e, t) \<Rightarrow> (Inl e, t) | (Inr x, t) \<Rightarrow> f x t)"

fun act_fold :: "('x \<Rightarrow> 'a \<Rightarrow> 's \<Rightarrow> ('e + 'a) \<times> 's) \<Rightarrow> 'x list \<Rightarrow> 'a \<Rightarrow> 's \<Rightarrow> ('e + 'a) \<times> 's" where
  "act_fold f [] a s = (Inr a, s)"
| "act_fold f (x # xs) a s = act_bind (f x a) (act_fold f xs) s"

named_theorems act_simps \<open>evaluation of operations that may raise\<close>

lemma act_bind_Inr_iff [act_simps]:
  "act_bind m f s = (Inr y, u) \<longleftrightarrow> (\<exists>x t. m s = (Inr x, t) \<and> f x t = (Inr y, u))"
  by (auto simp: act_bind_def split: prod.splits sum.splits)

lemma act_bind_eq: "m s = (Inr x, t) \<Longrightarrow> act_bind m f s = f x t"
  by (simp add: act_bind_def)

lemma act_bind_fails: "m s = (Inl e, t) \<Longrightarrow> act_bind m f s = (Inl e, t)"
  by (simp add: act_bind_def)

lemma act_bind_state:
  assumes "P (snd (m s))" and "\<And>x t. m s = (Inr x, t) \<Longrightarrow> P t \<Longrightarrow> P (snd (f x t))"
  shows "P (snd (act_bind m f s))"
  using assms by (auto simp: act_bind_def split: prod.splits sum.splits)

lemma act_fold_state:
  assumes "P s" and "\<And>x a t. x \<in> set xs \<Longrightarrow> P t \<Longrightarrow> P (snd (f x a t))"
  shows "P (snd (act_fold f xs a s))"
  using assms
proof (induction xs arbitrary: a s)
  case (Cons x xs)
  have "P (snd (act_bind (f x a) (act_fold f xs) s))"
    by (rule act_bind_state) (use Cons in \<open>auto\<close>)
  then show ?case by simp
qed simp

lemma act_bind_error:
  assumes "fst (m s) \<noteq> Inl e" and "\<And>x t. m s = (Inr x, t) \<Longrightarrow> fst (f x t) \<noteq> Inl e"
  shows "fst (act_bind m f s) \<noteq> Inl e"
  using assms by (auto simp: act_bind_def split: prod.splits sum.splits)

section \<open>Tables\<close>

datatype sync_mode = SyncCopy | SyncLazy

datatype repository_status = RepositoryNew | RepositoryActive | RepositoryInProgress | RepositoryDisabled | RepositoryError

datatype repo_element_status = ElementNew | ElementAvailable | ElementActive | ElementInProgress | ElementError

datatype installation_state = INSTALLED | UNINSTALLED

datatype driver_spec = NginxDriverSpec string "string option" "string option" | BootstrapDriverSpec string
  | DummyMigrationDriverSpec | DatabaseDriverSpec

record repository =
  ry_uuid :: uuid
  ry_name :: string
  ry_project :: uuid
  ry_status :: repository_status
  ry_priority :: int
  ry_refresh_rate :: int
  ry_sync_mode :: sync_mode
  ry_driver_spec :: driver_spec
  ry_refresh_requested :: bool
  ry_next_refresh :: "int option"
  ry_updated_at :: int

record repo_element =
  re_uuid :: uuid
  re_name :: string
  re_version :: string
  re_description :: string
  re_project :: uuid
  re_repository :: repository
  re_stable :: bool
  re_latest :: bool
  re_published_at :: "int option"
  re_created_at :: int
  re_status :: repo_element_status
  re_installation_state :: installation_state
  re_manifest :: "(string, json) dict"
  re_specification :: "(string, json) dict"
  re_inventory :: "(string, json) dict"
  re_element :: "uuid option"

record repo_artifact =
  ra_element :: uuid
  ra_urn :: string
  ra_uri :: string
  ra_project :: uuid

record deps_binding =
  bi_element :: uuid
  bi_depends_on :: uuid

record repo_db =
  rd_elements :: "repo_element list"
  rd_artifacts :: "repo_artifact list"
  rd_bindings :: "deps_binding list"

definition element_key :: "repo_element \<Rightarrow> string \<times> string" where
  "element_key e = (re_name e, re_version e)"

definition in_repository :: "repository \<Rightarrow> repo_element \<Rightarrow> bool" where
  "in_repository r e \<longleftrightarrow> ry_uuid (re_repository e) = ry_uuid r"

definition map_elements :: "(repo_element list \<Rightarrow> repo_element list) \<Rightarrow> repo_db \<Rightarrow> repo_db" where
  "map_elements f db = db\<lparr>rd_elements := f (rd_elements db)\<rparr>"

definition update_element :: "repo_element \<Rightarrow> repo_db \<Rightarrow> repo_db" where
  "update_element e = map_elements (map (\<lambda>x. if re_uuid x = re_uuid e then e else x))"

text \<open>\<open>save\<close> updates the row of an element that has one and inserts another; (repository, name, version) is unique.\<close>

definition save_repo_element :: "repo_element \<Rightarrow> repo_db \<Rightarrow> (repo_error + unit) \<times> repo_db" where
  "save_repo_element e db =
     (if \<exists>x \<in> set (rd_elements db). re_uuid x = re_uuid e then (Inr (), update_element e db)
      else if \<exists>x \<in> set (rd_elements db). in_repository (re_repository e) x \<and> element_key x = element_key e
      then (Inl RepoConflict, db)
      else (Inr (), map_elements (\<lambda>es. es @ [e]) db))"

text \<open>Deleting an element cascades to its artifacts and to the bindings at both ends.\<close>

definition delete_repo_element :: "repo_element \<Rightarrow> repo_db \<Rightarrow> repo_db" where
  "delete_repo_element e db = db\<lparr>
     rd_elements := filter (\<lambda>x. re_uuid x \<noteq> re_uuid e) (rd_elements db),
     rd_artifacts := filter (\<lambda>a. ra_element a \<noteq> re_uuid e) (rd_artifacts db),
     rd_bindings := filter (\<lambda>b. bi_element b \<noteq> re_uuid e \<and> bi_depends_on b \<noteq> re_uuid e) (rd_bindings db)\<rparr>"

section \<open>Requirements of an element\<close>

definition constraint_mapping :: "(string, string) dict" where
  "constraint_mapping = [(''from_version'', ''>=''), (''to_version'', ''<''), (''version'', ''=='')]"

definition constraint_dict :: "(string, json) dict \<Rightarrow> (string, json) dict" where
  "constraint_dict spec = fold (\<lambda>(key, value) d. case dget constraint_mapping key of
     None \<Rightarrow> d | Some op \<Rightarrow> dset op value d) spec []"

definition dependencies :: "repo_element \<Rightarrow> repo_error + (string, (string, json) dict) dict" where
  "dependencies e = (case dget (re_manifest e) ''requirements'' of
     None \<Rightarrow> Inr []
   | Some (JDict requirements) \<Rightarrow> Inr (fold (\<lambda>(elem_name, spec) result. case spec of
         JDict s \<Rightarrow> (let d = constraint_dict s in if d = [] then result else dset elem_name d result)
       | _ \<Rightarrow> result) requirements [])
   | Some _ \<Rightarrow> Inl RepoBadType)"

section \<open>Operations on an element\<close>

definition installed_named :: "string \<Rightarrow> repo_db \<Rightarrow> repo_element list" where
  "installed_named n db = filter (\<lambda>e. re_name e = n \<and> re_installation_state e = INSTALLED) (rd_elements db)"

definition install_element :: "repo_element \<Rightarrow> repo_db \<Rightarrow> (repo_error + repo_element) \<times> repo_db" where
  "install_element e db =
     (if re_installation_state e \<noteq> UNINSTALLED then (Inl RepoInvalid, db)
      else if installed_named (re_name e) db \<noteq> [] then (Inl RepoInvalid, db)
      else let e = e\<lparr>re_installation_state := INSTALLED\<rparr> in (Inr e, update_element e db))"

definition dependents_of :: "uuid \<Rightarrow> repo_db \<Rightarrow> deps_binding list" where
  "dependents_of u db = filter (\<lambda>b. bi_depends_on b = u) (rd_bindings db)"

definition bindings_of :: "uuid \<Rightarrow> repo_db \<Rightarrow> deps_binding list" where
  "bindings_of u db = filter (\<lambda>b. bi_element b = u) (rd_bindings db)"

definition drop_bindings_of :: "uuid \<Rightarrow> repo_db \<Rightarrow> repo_db" where
  "drop_bindings_of u db = db\<lparr>rd_bindings := filter (\<lambda>b. bi_element b \<noteq> u) (rd_bindings db)\<rparr>"

definition uninstall_element :: "repo_element \<Rightarrow> repo_db \<Rightarrow> (repo_error + repo_element) \<times> repo_db" where
  "uninstall_element e db =
     (if re_installation_state e \<noteq> INSTALLED then (Inl RepoInvalid, db)
      else if dependents_of (re_uuid e) db \<noteq> [] then (Inl RepoInvalid, db)
      else let e = e\<lparr>re_installation_state := UNINSTALLED, re_element := None\<rparr>
           in (Inr e, drop_bindings_of (re_uuid e) (update_element e db)))"

definition upgrade_element :: "repo_element \<Rightarrow> uuid \<Rightarrow> repo_db \<Rightarrow> (repo_error + repo_element) \<times> repo_db" where
  "upgrade_element e target db =
     (if re_element e = None then (Inl RepoInvalid, db)
      else case filter (\<lambda>x. re_uuid x = target \<and> re_name x = re_name e) (rd_elements db) of
        [t] \<Rightarrow>
          if re_installation_state t \<noteq> UNINSTALLED then (Inl RepoInvalid, db)
          else let runtime_element = re_element e;
                   e = e\<lparr>re_installation_state := UNINSTALLED\<rparr>;
                   t = t\<lparr>re_installation_state := INSTALLED, re_element := runtime_element\<rparr>
               in (Inr t, update_element t (update_element e db))
      | _ \<Rightarrow> (Inl RepoNotFound, db))"

definition edit_element :: "repo_element \<Rightarrow> (string, json) dict \<Rightarrow> repo_db \<Rightarrow> (repo_error + repo_element) \<times> repo_db" where
  "edit_element e manifest db =
     (if dget manifest ''name'' \<noteq> Some (JStr (re_name e)) then (Inl RepoInvalid, db)
      else if dget manifest ''version'' \<noteq> Some (JStr (re_version e)) then (Inl RepoInvalid, db)
      else let e = e\<lparr>re_manifest := manifest\<rparr> in (Inr e, update_element e db))"

section \<open>What the operations keep\<close>

text \<open>Rows are distinct, and of every name at most one version is installed.\<close>

definition wf_repo :: "repo_db \<Rightarrow> bool" where
  "wf_repo db \<longleftrightarrow> distinct (map re_uuid (rd_elements db))"

definition one_installed :: "repo_db \<Rightarrow> bool" where
  "one_installed db \<longleftrightarrow> (\<forall>x \<in> set (rd_elements db). \<forall>y \<in> set (rd_elements db).
     re_installation_state x = INSTALLED \<longrightarrow> re_installation_state y = INSTALLED \<longrightarrow> re_name x = re_name y \<longrightarrow>
     re_uuid x = re_uuid y)"

text \<open>An object loaded from the table agrees with its row.\<close>

definition loaded :: "repo_element \<Rightarrow> repo_db \<Rightarrow> bool" where
  "loaded e db \<longleftrightarrow> e \<in> set (rd_elements db)"

lemma set_update_element:
  "set (rd_elements (update_element e db)) =
     {x \<in> set (rd_elements db). re_uuid x \<noteq> re_uuid e} \<union> (if re_uuid e \<in> re_uuid ` set (rd_elements db) then {e} else {})"
  by (auto simp: update_element_def map_elements_def image_iff)

lemma update_element_other [simp]:
  "rd_bindings (update_element e db) = rd_bindings db" "rd_artifacts (update_element e db) = rd_artifacts db"
  by (simp_all add: update_element_def map_elements_def)

lemma update_element_uuids [simp]: "map re_uuid (rd_elements (update_element e db)) = map re_uuid (rd_elements db)"
  by (simp add: update_element_def map_elements_def)

lemma wf_update_element [simp]: "wf_repo (update_element e db) = wf_repo db"
  by (simp add: wf_repo_def)

lemma drop_bindings_simps [simp]:
  "rd_elements (drop_bindings_of u db) = rd_elements db" "rd_artifacts (drop_bindings_of u db) = rd_artifacts db"
  "rd_bindings (drop_bindings_of u db) = filter (\<lambda>b. bi_element b \<noteq> u) (rd_bindings db)"
  by (simp_all add: drop_bindings_of_def)

lemma installed_named_Nil:
  "installed_named n db = [] \<longleftrightarrow> (\<forall>e \<in> set (rd_elements db). re_name e = n \<longrightarrow> re_installation_state e \<noteq> INSTALLED)"
  by (auto simp: installed_named_def filter_empty_conv)

lemma one_installedI:
  assumes "\<And>x y. x \<in> set (rd_elements db) \<Longrightarrow> y \<in> set (rd_elements db) \<Longrightarrow> re_installation_state x = INSTALLED \<Longrightarrow>
    re_installation_state y = INSTALLED \<Longrightarrow> re_name x = re_name y \<Longrightarrow> re_uuid x = re_uuid y"
  shows "one_installed db"
  unfolding one_installed_def using assms by blast

lemma one_installedD:
  "one_installed db \<Longrightarrow> x \<in> set (rd_elements db) \<Longrightarrow> y \<in> set (rd_elements db) \<Longrightarrow> re_installation_state x = INSTALLED \<Longrightarrow>
    re_installation_state y = INSTALLED \<Longrightarrow> re_name x = re_name y \<Longrightarrow> re_uuid x = re_uuid y"
  unfolding one_installed_def by blast

lemma one_installed_cong: "rd_elements db = rd_elements db' \<Longrightarrow> one_installed db = one_installed db'"
  by (cases db; cases db') (simp only: one_installed_def)

lemma one_installed_drop [simp]: "one_installed (drop_bindings_of u db) = one_installed db"
  by (rule one_installed_cong) simp

lemma one_installed_update:
  assumes one: "one_installed db"
    and new: "\<And>x. re_installation_state e = INSTALLED \<Longrightarrow> x \<in> set (rd_elements db) \<Longrightarrow> re_name x = re_name e \<Longrightarrow>
      re_installation_state x = INSTALLED \<Longrightarrow> re_uuid x = re_uuid e"
  shows "one_installed (update_element e db)"
proof (rule one_installedI)
  fix x y assume *: "x \<in> set (rd_elements (update_element e db))" "y \<in> set (rd_elements (update_element e db))"
    "re_installation_state x = INSTALLED" "re_installation_state y = INSTALLED" "re_name x = re_name y"
  have cases: "z = e \<or> z \<in> set (rd_elements db)" if "z \<in> set (rd_elements (update_element e db))" for z
    using that by (auto simp: set_update_element split: if_splits)
  from cases [OF *(1)] cases [OF *(2)] show "re_uuid x = re_uuid y"
  proof (elim disjE)
    assume "x = e" "y \<in> set (rd_elements db)"
    with new [of y] * show ?thesis by metis
  next
    assume "x \<in> set (rd_elements db)" "y = e"
    with new [of x] * show ?thesis by metis
  next
    assume "x \<in> set (rd_elements db)" "y \<in> set (rd_elements db)"
    with one * show ?thesis by (blast intro: one_installedD)
  qed simp
qed

lemma install_element_Inr:
  "install_element e db = (Inr e', db') \<longleftrightarrow> re_installation_state e = UNINSTALLED \<and> installed_named (re_name e) db = [] \<and>
     e' = e\<lparr>re_installation_state := INSTALLED\<rparr> \<and> db' = update_element e' db"
  by (cases "re_installation_state e") (auto simp: install_element_def Let_def)

lemma uninstall_element_Inr:
  "uninstall_element e db = (Inr e', db') \<longleftrightarrow> re_installation_state e = INSTALLED \<and> dependents_of (re_uuid e) db = [] \<and>
     e' = e\<lparr>re_installation_state := UNINSTALLED, re_element := None\<rparr> \<and> db' = drop_bindings_of (re_uuid e) (update_element e' db)"
  by (auto simp: uninstall_element_def Let_def)

lemma install_keeps_one:
  assumes "one_installed db" "install_element e db = (Inr e', db')"
  shows "one_installed db'"
proof -
  from assms(2) have a: "installed_named (re_name e) db = []" and db': "db' = update_element e' db"
    and e': "e' = e\<lparr>re_installation_state := INSTALLED\<rparr>" by (simp_all only: install_element_Inr)
  show ?thesis unfolding db'
    by (rule one_installed_update [OF assms(1)]) (use a in \<open>simp add: e' installed_named_Nil\<close>)
qed

lemma uninstall_keeps_one:
  assumes "one_installed db" "uninstall_element e db = (Inr e', db')"
  shows "one_installed db'"
proof -
  have "one_installed (update_element (e\<lparr>re_installation_state := UNINSTALLED, re_element := None\<rparr>) db)"
    by (rule one_installed_update [OF assms(1)]) simp
  moreover from assms(2) have "db' = drop_bindings_of (re_uuid e)
      (update_element (e\<lparr>re_installation_state := UNINSTALLED, re_element := None\<rparr>) db)"
    by (simp only: uninstall_element_Inr)
  ultimately show ?thesis by (simp only: one_installed_drop)
qed

lemma upgrade_element_InrD:
  assumes "upgrade_element e target db = (Inr t, db')"
  obtains x :: repo_element where "x \<in> set (rd_elements db)" "re_uuid x = target" "re_name x = re_name e"
    "re_installation_state x = UNINSTALLED" "re_element e \<noteq> None"
    "t = x\<lparr>re_installation_state := INSTALLED, re_element := re_element e\<rparr>"
    "db' = update_element t (update_element (e\<lparr>re_installation_state := UNINSTALLED\<rparr>) db)"
proof -
  let ?f = "filter (\<lambda>x. re_uuid x = target \<and> re_name x = re_name e) (rd_elements db)"
  from assms obtain x where x: "?f = [x]"
    unfolding upgrade_element_def by (auto split: if_splits list.splits)
  then have "x \<in> set ?f" by simp
  then have "x \<in> set (rd_elements db)" "re_uuid x = target" "re_name x = re_name e" by simp_all
  moreover from assms have "re_element e \<noteq> None" "re_installation_state x = UNINSTALLED"
    "t = x\<lparr>re_installation_state := INSTALLED, re_element := re_element e\<rparr>"
    "db' = update_element t (update_element (e\<lparr>re_installation_state := UNINSTALLED\<rparr>) db)"
    unfolding upgrade_element_def x by (auto simp: Let_def split: if_splits)
  ultimately show ?thesis using that by blast
qed

lemma upgrade_keeps_one:
  assumes one: "one_installed db" and e: "loaded e db" "re_installation_state e = INSTALLED"
    and u: "upgrade_element e target db = (Inr t, db')"
  shows "one_installed db'"
proof -
  define old where "old = e\<lparr>re_installation_state := UNINSTALLED\<rparr>"
  from u obtain x :: repo_element where x: "re_name x = re_name e"
    and db': "db' = update_element t (update_element old db)"
    and t: "t = x\<lparr>re_installation_state := INSTALLED, re_element := re_element e\<rparr>"
    by (rule upgrade_element_InrD) (simp add: old_def)
  have "one_installed (update_element old db)" by (rule one_installed_update [OF one]) (simp add: old_def)
  then show ?thesis unfolding db'
  proof (rule one_installed_update)
    fix y assume y: "y \<in> set (rd_elements (update_element old db))" "re_name y = re_name t" "re_installation_state y = INSTALLED"
    then have in_db: "y \<in> set (rd_elements db)" and ne: "re_uuid y \<noteq> re_uuid e"
      by (auto simp: set_update_element old_def split: if_splits)
    have "re_name y = re_name e" using y(2) x t by simp
    with one_installedD [OF one in_db _ y(3) e(2)] e(1) ne show "re_uuid y = re_uuid t" by (simp add: loaded_def)
  qed
qed

end
