(* ===== verification/Repo_Drivers.thy ===== *)
theory Repo_Drivers
  imports Repo_Model
begin

text \<open>
  Where elements come from (\<open>exordos_core/repo/drivers/\<close> and the methods of \<open>Repository\<close> that use a driver):
  the bootstrap directory, the database, the stub of the migration, and nginx, whose requests and URLs are
  parameters.  \<open>repo_env\<close> holds what the code asks of the outside: the remote repository, the files of a
  directory as the YAML library loads them, fresh uuids, the clock, the version library and ISO dates.
  \<open>rv_driver\<close> is the driver \<open>load_driver\<close> gives for a repository in this process.
\<close>

section \<open>Drivers\<close>

type_synonym manifest_dict = "(string, json) dict"
type_synonym inventory_index = "(json, (json, (string, json) dict) dict) dict"

datatype repo_driver =
    NginxDriver repository
  | BootstrapDriver repository string "(json \<times> json, manifest_dict) dict" inventory_index
  | DummyMigrationDriver repository
  | DatabaseDriver repository

record repo_env =
  rv_remote_inventory :: "repository \<Rightarrow> repo_error + (string, json) dict"
  rv_remote_element :: "repository \<Rightarrow> string \<Rightarrow> string \<Rightarrow> repo_error + manifest_dict \<times> (string, json) dict"
  rv_remote_uri :: "repository \<Rightarrow> string \<Rightarrow> string \<Rightarrow> string \<Rightarrow> string \<Rightarrow> string"
  rv_url_allowed :: "string \<Rightarrow> bool"
  rv_directory :: "string \<Rightarrow> (string \<times> json option) list option"
  rv_fresh :: "string \<Rightarrow> string \<Rightarrow> uuid"
  rv_prerelease :: "string \<Rightarrow> bool option"
  rv_from_iso :: "string \<Rightarrow> int option"
  rv_now :: int
  rv_driver :: "repository \<Rightarrow> repo_error + repo_driver"

fun json_truthy :: "json \<Rightarrow> bool" where
  "json_truthy JNull = False"
| "json_truthy (JBool b) = b"
| "json_truthy (JInt i) = (i \<noteq> 0)"
| "json_truthy (JFloat s) = (s \<noteq> ''0.0'' \<and> s \<noteq> ''-0.0'')"
| "json_truthy (JStr s) = (s \<noteq> [])"
| "json_truthy (JList l) = (l \<noteq> [])"
| "json_truthy (JDict d) = (d \<noteq> [])"

fun hashable :: "json \<Rightarrow> bool" where
  "hashable (JList l) = False"
| "hashable (JDict d) = False"
| "hashable v = True"

fun json_dict :: "json \<Rightarrow> repo_error + (string, json) dict" where
  "json_dict (JDict d) = Inr d"
| "json_dict _ = Inl RepoBadType"

fun json_text :: "json \<Rightarrow> repo_error + string" where
  "json_text (JStr s) = Inr s"
| "json_text _ = Inl RepoBadType"

definition get_item :: "(string, json) dict \<Rightarrow> string \<Rightarrow> repo_error + json" where
  "get_item d k = (case dget d k of None \<Rightarrow> Inl RepoKeyMissing | Some v \<Rightarrow> Inr v)"

text \<open>The bootstrap driver reads its directory once; a later file of the same name and version wins.\<close>

definition ends_with :: "string \<Rightarrow> string \<Rightarrow> bool" where
  "ends_with s suffix = starts_with (rev s) (rev suffix)"

definition scan_manifest :: "string \<times> json option \<Rightarrow> (json \<times> json, manifest_dict) dict \<times> inventory_index \<Rightarrow>
    repo_error + (json \<times> json, manifest_dict) dict \<times> inventory_index" where
  "scan_manifest file st = (let (filename, content) = file; (manifests, inventory) = st in
     if \<not> ends_with filename ''.yaml'' \<and> \<not> ends_with filename ''.yml'' then Inr st
     else case content of
       Some (JDict data) \<Rightarrow>
         (case (dget data ''name'', dget data ''version'', dget data ''resources'') of
           (Some name, Some version, Some _) \<Rightarrow>
             if \<not> hashable name \<or> \<not> hashable version then Inl RepoBadType
             else let versions = dget_or inventory name [];
                      meta = [(''artifacts'', JList []), (''configs'', JList []), (''images'', JList []),
                        (''manifests'', JList [JStr filename]), (''name'', name), (''templates'', JList []),
                        (''version'', version), (''index'', JDict [])];
                      versions = (if has_key versions version then versions else dset version meta versions)
                  in Inr (dset (name, version) data manifests, dset name versions inventory)
         | _ \<Rightarrow> Inr st)
     | _ \<Rightarrow> Inr st)"

definition scan_manifests :: "(string \<times> json option) list \<Rightarrow>
    repo_error + (json \<times> json, manifest_dict) dict \<times> inventory_index" where
  "scan_manifests files = efold scan_manifest files ([], [])"

definition make_driver :: "repo_env \<Rightarrow> repository \<Rightarrow> repo_error + repo_driver" where
  "make_driver env r = (case ry_driver_spec r of
     NginxDriverSpec url _ _ \<Rightarrow> if rv_url_allowed env url then Inr (NginxDriver r) else Inl DriverFailed
   | BootstrapDriverSpec dir \<Rightarrow>
       (case rv_directory env dir of
         None \<Rightarrow> Inl DriverFailed
       | Some files \<Rightarrow> ebind (scan_manifests files) (\<lambda>(manifests, inventory).
           Inr (BootstrapDriver r dir manifests inventory)))
   | DummyMigrationDriverSpec \<Rightarrow> Inr (DummyMigrationDriver r)
   | DatabaseDriverSpec \<Rightarrow> Inr (DatabaseDriver r))"

text \<open>
  Every driver of the entry points refuses a specification of another kind, so the only one that may be
  made is the one of \<open>make_driver\<close>; it is cached by the text of the specification.
\<close>

definition load_driver :: "(driver_spec \<Rightarrow> string) \<Rightarrow> repo_env \<Rightarrow> (string, repo_driver) dict \<Rightarrow> repository \<Rightarrow>
    (repo_error + repo_driver) \<times> (string, repo_driver) dict" where
  "load_driver show_spec env driver_map r = (let driver_key = show_spec (ry_driver_spec r) in
     case dget driver_map driver_key of
       Some d \<Rightarrow> (Inr d, driver_map)
     | None \<Rightarrow> (case make_driver env r of
         Inr d \<Rightarrow> (Inr d, dset driver_key d driver_map)
       | Inl _ \<Rightarrow> (Inl RepoInvalid, driver_map)))"

definition path_join :: "string \<Rightarrow> string \<Rightarrow> string" where
  "path_join a b = (if starts_with b ''/'' then b else if a = [] \<or> ends_with a ''/'' then a @ b else a @ ''/'' @ b)"

fun artifact_uri :: "repo_env \<Rightarrow> repo_driver \<Rightarrow> string \<Rightarrow> string \<Rightarrow> string \<Rightarrow> string \<Rightarrow> string" where
  "artifact_uri env (NginxDriver r) name version category artifact = rv_remote_uri env r name version category artifact"
| "artifact_uri env (BootstrapDriver r dir ms idx) name version category artifact = path_join dir artifact"
| "artifact_uri env (DummyMigrationDriver r) name version category artifact = []"
| "artifact_uri env (DatabaseDriver r) name version category artifact = []"

section \<open>Elements from inventories\<close>

definition new_repo_element :: "repo_env \<Rightarrow> repository \<Rightarrow> string \<Rightarrow> string \<Rightarrow> repo_element" where
  "new_repo_element env r name version = \<lparr>re_uuid = rv_fresh env name version, re_name = name, re_version = version,
     re_description = [], re_project = ry_project r, re_repository = r, re_stable = False, re_latest = False,
     re_published_at = None, re_created_at = rv_now env, re_status = ElementNew,
     re_installation_state = UNINSTALLED, re_manifest = [], re_specification = [], re_inventory = [], re_element = None\<rparr>"

definition is_stable_version :: "repo_env \<Rightarrow> string \<Rightarrow> bool" where
  "is_stable_version env version = (case rv_prerelease env version of None \<Rightarrow> False | Some pre \<Rightarrow> \<not> pre)"

definition urn :: "string \<Rightarrow> string \<Rightarrow> string" where
  "urn namespace u = ''urn:'' @ namespace @ '':'' @ u"

definition inventory_artifact :: "repo_env \<Rightarrow> repo_driver \<Rightarrow> repository \<Rightarrow> repo_element \<Rightarrow> string \<Rightarrow> string \<times> json \<Rightarrow>
    repo_error + repo_artifact" where
  "inventory_artifact env d r e category entry =
     ebind (json_text (snd entry)) (\<lambda>art_name.
     Inr \<lparr>ra_element = re_uuid e, ra_urn = urn category (fst entry),
       ra_uri = artifact_uri env d (re_name e) (re_version e) category art_name, ra_project = ry_project r\<rparr>)"

definition from_inventory :: "repo_env \<Rightarrow> repo_driver \<Rightarrow> repository \<Rightarrow> (string, json) dict \<Rightarrow>
    repo_error + repo_element \<times> repo_artifact list" where
  "from_inventory env d r inventory =
     ebind (get_item inventory ''name'') (\<lambda>n. ebind (json_text n) (\<lambda>name.
     ebind (get_item inventory ''version'') (\<lambda>v. ebind (json_text v) (\<lambda>version.
     ebind (json_text (case dget inventory ''description'' of None \<Rightarrow> JStr [] | Some t \<Rightarrow> t)) (\<lambda>description.
     let e = (new_repo_element env r name version)\<lparr>re_description := description, re_inventory := inventory\<rparr> in
     ebind (json_dict (case dget inventory ''index'' of None \<Rightarrow> JDict [] | Some i \<Rightarrow> i)) (\<lambda>index.
     ebind (emap (\<lambda>(category, entries). ebind (json_dict entries) (emap (inventory_artifact env d r e category))) index)
       (\<lambda>artifacts. Inr (e, concat artifacts))))))))"

text \<open>The elements a driver lists, with their metadata; a malformed part raises when the loop reaches it.\<close>

definition json_inventory :: "(string, json) dict \<Rightarrow> (repo_error + json \<times> json \<times> (string, json) dict) list" where
  "json_inventory inventory = (case dget inventory ''elements'' of
     None \<Rightarrow> []
   | Some (JDict elements) \<Rightarrow> concat (map (\<lambda>(name, versions). case versions of
         JDict vs \<Rightarrow> map (\<lambda>(version, meta). ebind (json_dict meta) (\<lambda>m. Inr (JStr name, JStr version, m))) vs
       | _ \<Rightarrow> [Inl RepoBadType]) elements)
   | Some _ \<Rightarrow> [Inl RepoBadType])"

definition index_inventory :: "inventory_index \<Rightarrow> (repo_error + json \<times> json \<times> (string, json) dict) list" where
  "index_inventory idx = concat (map (\<lambda>(name, versions). map (\<lambda>(version, meta). Inr (name, version, meta)) versions) idx)"

definition build_inventory_from_element :: "repo_env \<Rightarrow> repo_element \<Rightarrow> (string, json) dict" where
  "build_inventory_from_element env e =
     (if re_inventory e \<noteq> [] then re_inventory e
      else let manifest_name = re_name e @ ''.yaml''; manifest_uuid = rv_fresh env manifest_name (re_version e) in
       [(''name'', JStr (re_name e)), (''version'', JStr (re_version e)), (''artifacts'', JList []),
        (''configs'', JList []), (''images'', JList []), (''manifests'', JList [JStr manifest_name]),
        (''templates'', JList []),
        (''index'', JDict [(''artifacts'', JDict []), (''configs'', JDict []), (''images'', JDict []),
          (''manifests'', JDict [(manifest_uuid, JStr manifest_name)]), (''templates'', JDict [])])])"

definition database_index :: "repo_env \<Rightarrow> repository \<Rightarrow> repo_db \<Rightarrow> inventory_index" where
  "database_index env r db = fold (\<lambda>e idx. let name = JStr (re_name e) in
       dset name (dset (JStr (re_version e)) (build_inventory_from_element env e) (dget_or idx name [])) idx)
     (filter (in_repository r) (rd_elements db)) []"

fun get_inventory :: "repo_env \<Rightarrow> repo_driver \<Rightarrow> repo_db \<Rightarrow> (repo_error + json \<times> json \<times> (string, json) dict) list" where
  "get_inventory env (NginxDriver r) db = (case rv_remote_inventory env r of Inl e \<Rightarrow> [Inl e] | Inr i \<Rightarrow> json_inventory i)"
| "get_inventory env (BootstrapDriver r dir ms idx) db = index_inventory idx"
| "get_inventory env (DummyMigrationDriver r) db = []"
| "get_inventory env (DatabaseDriver r) db = index_inventory (database_index env r db)"

definition published_at :: "repo_env \<Rightarrow> int \<Rightarrow> (string, json) dict \<Rightarrow> repo_error + int" where
  "published_at env created_at meta = (case dget meta ''published'' of
     None \<Rightarrow> Inr created_at
   | Some p \<Rightarrow>
       if \<not> json_truthy p then Inr created_at
       else ebind (json_text p) (\<lambda>s.
         case rv_from_iso env (if ends_with s ''Z'' then take (length s - 1) s @ ''+00:00'' else s) of
           None \<Rightarrow> Inl RepoBadType | Some t \<Rightarrow> Inr t))"

definition inventory_element :: "repo_env \<Rightarrow> repository \<Rightarrow> repo_error + json \<times> json \<times> (string, json) dict \<Rightarrow> repo_error + repo_element" where
  "inventory_element env r item = ebind item (\<lambda>(n, v, meta).
     ebind (json_text n) (\<lambda>name. ebind (json_text v) (\<lambda>version.
     let e = (new_repo_element env r name version)\<lparr>re_stable := is_stable_version env version\<rparr> in
     ebind (published_at env (re_created_at e) meta) (\<lambda>t. Inr (e\<lparr>re_published_at := Some t\<rparr>)))))"

definition iter_elements_in_inventory :: "repo_env \<Rightarrow> repository \<Rightarrow> repo_db \<Rightarrow> (repo_error + repo_element) list" where
  "iter_elements_in_inventory env r db = (case rv_driver env r of
     Inl e \<Rightarrow> [Inl e] | Inr d \<Rightarrow> map (inventory_element env r) (get_inventory env d db))"

section \<open>Fetching one element\<close>

definition with_manifest :: "repo_error + repo_element \<times> repo_artifact list \<Rightarrow> manifest_dict \<Rightarrow>
    repo_error + repo_element \<times> repo_artifact list" where
  "with_manifest fetched manifest = ebind fetched (\<lambda>(e, artifacts).
     ebind (json_text (case dget manifest ''description'' of None \<Rightarrow> JStr [] | Some t \<Rightarrow> t)) (\<lambda>description.
     Inr (e\<lparr>re_manifest := manifest, re_description := description\<rparr>, artifacts)))"

definition stored_element :: "repository \<Rightarrow> string \<Rightarrow> string \<Rightarrow> repo_db \<Rightarrow> repo_error + repo_element" where
  "stored_element r name version db =
     (case filter (\<lambda>e. re_name e = name \<and> re_version e = version \<and> in_repository r e) (rd_elements db) of
       [e] \<Rightarrow> Inr e | _ \<Rightarrow> Inl RepoNotFound)"

fun get_repo_element :: "repo_env \<Rightarrow> repo_driver \<Rightarrow> string \<Rightarrow> string \<Rightarrow> repo_db \<Rightarrow> repo_error + repo_element \<times> repo_artifact list" where
  "get_repo_element env (NginxDriver r) name version db =
     ebind (rv_remote_element env r name version) (\<lambda>(manifest, inventory).
       with_manifest (from_inventory env (NginxDriver r) r inventory) manifest)"
| "get_repo_element env (BootstrapDriver r dir ms idx) name version db = (case dget ms (JStr name, JStr version) of
     None \<Rightarrow> Inl DriverFailed
   | Some manifest \<Rightarrow>
       with_manifest (from_inventory env (BootstrapDriver r dir ms idx) r (dget_or (dget_or idx (JStr name) []) (JStr version) [])) manifest)"
| "get_repo_element env (DummyMigrationDriver r) name version db = ebind (stored_element r name version db) (\<lambda>e. Inr (e, []))"
| "get_repo_element env (DatabaseDriver r) name version db = ebind (stored_element r name version db) (\<lambda>e.
     Inr (e, filter (\<lambda>a. ra_element a = re_uuid e) (rd_artifacts db)))"

definition insert_artifact :: "repo_artifact \<Rightarrow> unit \<Rightarrow> repo_db \<Rightarrow> (repo_error + unit) \<times> repo_db" where
  "insert_artifact a u db =
     (if \<exists>x \<in> set (rd_artifacts db). ra_element x = ra_element a \<and> ra_urn x = ra_urn a then (Inl RepoConflict, db)
      else (Inr (), db\<lparr>rd_artifacts := rd_artifacts db @ [a]\<rparr>))"

definition drop_artifacts :: "uuid \<Rightarrow> repo_db \<Rightarrow> repo_db" where
  "drop_artifacts u db = db\<lparr>rd_artifacts := filter (\<lambda>a. ra_element a \<noteq> u) (rd_artifacts db)\<rparr>"

definition actualize_element :: "repo_env \<Rightarrow> repo_element \<Rightarrow> repo_db \<Rightarrow> (repo_error + repo_element) \<times> repo_db" where
  "actualize_element env e db = (case rv_driver env (re_repository e) of
     Inl err \<Rightarrow> (Inl err, db)
   | Inr d \<Rightarrow> (case get_repo_element env d (re_name e) (re_version e) db of
       Inl err \<Rightarrow> (Inl err, db)
     | Inr (new_element, new_artifacts) \<Rightarrow>
         let e = e\<lparr>re_specification := re_specification new_element, re_inventory := re_inventory new_element,
               re_manifest := re_manifest new_element\<rparr> in
         act_bind (save_repo_element e) (\<lambda>_ db.
           act_bind (act_fold insert_artifact (map (\<lambda>a. a\<lparr>ra_element := re_uuid e\<rparr>) new_artifacts) ())
             (\<lambda>_ db. (Inr e, db)) (drop_artifacts (re_uuid e) db)) db))"

section \<open>Upload\<close>

fun can_upload_element :: "repo_driver \<Rightarrow> string \<Rightarrow> string \<Rightarrow> repo_db \<Rightarrow> bool" where
  "can_upload_element (DatabaseDriver r) name version db \<longleftrightarrow>
     (\<forall>e \<in> set (rd_elements db). \<not> (re_name e = name \<and> re_version e = version \<and> in_repository r e))"
| "can_upload_element d name version db \<longleftrightarrow> False"

fun upload_element :: "repo_env \<Rightarrow> repo_driver \<Rightarrow> repo_element \<Rightarrow> repo_error + repo_element" where
  "upload_element env (DatabaseDriver r) e = Inr (e\<lparr>re_inventory := build_inventory_from_element env e\<rparr>)"
| "upload_element env d e = Inl DriverUnsupported"

definition upload :: "repo_env \<Rightarrow> repository \<Rightarrow> string \<Rightarrow> string \<Rightarrow> manifest_dict \<Rightarrow> string \<Rightarrow> repo_db \<Rightarrow>
    (repo_error + repo_element) \<times> repo_db" where
  "upload env r name version manifest description db =
     (if ry_status r \<noteq> RepositoryActive then (Inl RepoInvalid, db)
      else case rv_driver env r of
        Inl err \<Rightarrow> (Inl err, db)
      | Inr d \<Rightarrow>
          if \<not> can_upload_element d name version db then (Inl RepoInvalid, db)
          else let e = (new_repo_element env r name version)\<lparr>re_stable := is_stable_version env version,
                     re_description := description, re_manifest := manifest, re_published_at := Some (rv_now env)\<rparr> in
            case upload_element env d e of
              Inl err \<Rightarrow> (Inl err, db)
            | Inr e \<Rightarrow> act_bind (save_repo_element e) (\<lambda>_ db. (Inr e, db)) db)"

section \<open>Cached drivers\<close>

text \<open>A driver is found by the text of the specification alone, whatever repository it was made for.\<close>

lemma driver_shared_by_text:
  assumes "show_spec (ry_driver_spec r) = show_spec (ry_driver_spec first)" "make_driver env first = Inr d"
    and "dget driver_map (show_spec (ry_driver_spec first)) = None"
  shows "fst (load_driver show_spec env (snd (load_driver show_spec env driver_map first)) r) = Inr d"
  using assms by (simp add: load_driver_def Let_def)

end
