(* ===== verification/Repo_Versions.thy ===== *)
theory Repo_Versions
  imports Repo_Drivers "HOL-Library.Product_Lexorder" "HOL-Library.List_Lexorder" "HOL-Library.Char_ord"
begin

text \<open>
  Versions and requirements (\<open>exordos_core/repo/builders/element.py\<close>): the version format, its two orders -
  one to compare a version with a bound, one to choose among candidates - and the test of a requirement.
\<close>

section \<open>The version format\<close>

text \<open>The regular expression \<open>major.minor.patch\<close> with an optional suffix after a dash; \<open>$\<close> allows one newline at the end.\<close>

definition is_digit :: "char \<Rightarrow> bool" where
  "is_digit c \<longleftrightarrow> (let n = of_char c :: nat in 48 \<le> n \<and> n \<le> 57)"

definition nat_of_digits :: "string \<Rightarrow> nat" where
  "nat_of_digits ds = foldl (\<lambda>n c. 10 * n + (of_char c - 48)) 0 ds"

type_synonym version_key = "nat \<times> nat \<times> nat \<times> bool \<times> string"

definition version_suffix :: "string \<Rightarrow> string option option" where
  "version_suffix s =
     (if s = [] then Some None
      else if hd s = CHR ''-'' \<and> tl s \<noteq> [] \<and> newline \<notin> set (tl s) then Some (Some (tl s)) else None)"

definition match_version :: "string \<Rightarrow> version_key option" where
  "match_version s = (let major = takeWhile is_digit s; s1 = dropWhile is_digit s;
       minor = takeWhile is_digit (tl s1); s2 = dropWhile is_digit (tl s1);
       patch = takeWhile is_digit (tl s2); s3 = dropWhile is_digit (tl s2) in
     if major \<noteq> [] \<and> starts_with s1 ''.'' \<and> minor \<noteq> [] \<and> starts_with s2 ''.'' \<and> patch \<noteq> []
     then (case version_suffix s3 of
         None \<Rightarrow> None
       | Some suffix \<Rightarrow> Some (nat_of_digits major, nat_of_digits minor, nat_of_digits patch, suffix = None,
           (case suffix of None \<Rightarrow> [] | Some t \<Rightarrow> t)))
     else None)"

definition parse_version :: "string \<Rightarrow> repo_error + version_key" where
  "parse_version version = (case match_version version of
     Some k \<Rightarrow> Inr k
   | None \<Rightarrow> (if version \<noteq> [] \<and> last version = newline
       then (case match_version (butlast version) of Some k \<Rightarrow> Inr k | None \<Rightarrow> Inl (RepoBadVersion version))
       else Inl (RepoBadVersion version)))"

type_synonym version_order = "bool \<times> int \<times> int \<times> int \<times> string"

definition version_sort_key :: "string \<Rightarrow> repo_error + version_order" where
  "version_sort_key version = ebind (parse_version version) (\<lambda>(major, minor, patch, is_release, suffix).
     Inr (\<not> is_release, - int major, - int minor, - int patch, suffix))"

section \<open>Requirements\<close>

definition is_installation_in_progress :: "repo_element \<Rightarrow> bool" where
  "is_installation_in_progress e \<longleftrightarrow> re_installation_state e = INSTALLED"

definition bound_key :: "json \<Rightarrow> repo_error + version_key" where
  "bound_key v = ebind (json_text v) parse_version"

text \<open>One bound of a requirement: it fails when the version and the bound are in the given relation.\<close>

definition bound_fails :: "(version_key \<Rightarrow> version_key \<Rightarrow> bool) \<Rightarrow> version_key \<Rightarrow> json option \<Rightarrow> repo_error + bool" where
  "bound_fails bad k v = (case v of None \<Rightarrow> Inr False | Some v \<Rightarrow> ebind (bound_key v) (\<lambda>b. Inr (bad k b)))"

definition matches_version_constraint :: "string \<Rightarrow> (string, json) dict \<Rightarrow> string \<Rightarrow> repo_error + bool" where
  "matches_version_constraint version constraint name =
     (if \<not> set (dkeys constraint) \<subseteq> {''=='', ''>'', ''>='', ''<'', ''<=''} then Inl (DepConstraintFormat name)
      else case dget constraint ''=='' of
        Some v \<Rightarrow> Inr (JStr version = v)
      | None \<Rightarrow> (case parse_version version of
          Inl _ \<Rightarrow> Inr False
        | Inr k \<Rightarrow>
            ebind (bound_fails (\<le>) k (dget constraint ''>'')) (\<lambda>b. if b then Inr False else
            ebind (bound_fails (<) k (dget constraint ''>='')) (\<lambda>b. if b then Inr False else
            ebind (bound_fails (\<ge>) k (dget constraint ''<'')) (\<lambda>b. if b then Inr False else
            ebind (bound_fails (>) k (dget constraint ''<='')) (\<lambda>b. Inr (\<not> b)))))))"

type_synonym element_order = "bool \<times> int \<times> version_order"

definition element_sort_key :: "repo_element \<Rightarrow> repo_error + element_order" where
  "element_sort_key e = ebind (version_sort_key (re_version e)) (\<lambda>k.
     Inr (\<not> is_installation_in_progress e, - ry_priority (re_repository e), k))"

text \<open>\<open>sorted(xs, key=f)[0]\<close>: the key of every element is computed, then the first of the least ones is taken.\<close>

fun first_least :: "'a \<times> 'k::linorder \<Rightarrow> ('a \<times> 'k) list \<Rightarrow> 'a \<times> 'k" where
  "first_least x [] = x"
| "first_least x (y # ys) = first_least (if snd y < snd x then y else x) ys"

section \<open>Facts about versions\<close>

lemma first_least_in: "first_least x xs \<in> insert x (set xs)"
proof (induction x xs rule: first_least.induct)
  case (2 x y ys)
  then show ?case by (cases "snd y < snd x") auto
qed simp

lemma first_least_le: "y \<in> insert x (set xs) \<Longrightarrow> snd (first_least x xs) \<le> snd y"
proof (induction x xs arbitrary: y rule: first_least.induct)
  case (2 x z ys)
  have *: "snd (first_least (if snd z < snd x then z else x) ys) \<le> snd w" if "w \<in> insert (if snd z < snd x then z else x) (set ys)" for w
    using 2 that by blast
  consider "y = x" | "y = z" | "y \<in> set ys" using 2 by auto
  then show ?case
  proof cases
    case 1
    with * [of "if snd z < snd x then z else x"] show ?thesis by (auto split: if_splits)
  next
    case 2
    with * [of "if snd z < snd x then z else x"] show ?thesis by (auto split: if_splits)
  next
    case 3
    with * show ?thesis by simp
  qed
qed simp

text \<open>What a requirement made of \<open>from_version\<close> and \<open>to_version\<close> accepts: a half-open interval of the version order.\<close>

lemma interval_requirement:
  assumes "parse_version low = Inr l" "parse_version high = Inr h" "parse_version v = Inr k"
  shows "matches_version_constraint v [(''>='', JStr low), (''<'', JStr high)] name = Inr (l \<le> k \<and> k < h)"
  using assms by (simp add: matches_version_constraint_def dkeys_def bound_fails_def bound_key_def not_le not_less)

lemma release_after_development: "(a, b, c, False, t) < ((a, b, c, True, s) :: version_key)"
  by simp

lemma release_preferred:
  assumes "parse_version v = Inr (a, b, c, True, s)" "parse_version w = Inr (a', b', c', False, t)"
    and "version_sort_key v = Inr k" "version_sort_key w = Inr k'"
  shows "k < k'"
  using assms by (auto simp: version_sort_key_def)

lemma element_sort_key_Inr:
  "element_sort_key e = Inr (p, q, k) \<longleftrightarrow> p = (\<not> is_installation_in_progress e) \<and>
     q = - ry_priority (re_repository e) \<and> version_sort_key (re_version e) = Inr k"
  by (cases "version_sort_key (re_version e)") (auto simp: element_sort_key_def)

end
