(* ===== verification/Repo_Deps.thy ===== *)
theory Repo_Deps
  imports Repo_Versions
begin

text \<open>
  The dependency closure of an element and its installation (\<open>RepoElementBuilderService\<close> of
  \<open>exordos_core/repo/builders/element.py\<close>).  The closure is collected depth first over the names the
  manifests require; the set of visited versions is shared by the whole search, and a lazily found
  element is fetched on the way.
\<close>

section \<open>Collecting the closure\<close>

definition best_candidate :: "repo_element list \<Rightarrow> repo_error + repo_element" where
  "best_candidate candidates = ebind (emap (\<lambda>c. ebind (element_sort_key c) (\<lambda>k. Inr (c, k))) candidates)
     (\<lambda>keyed. Inr (fst (first_least (hd keyed) (tl keyed))))"

definition installed_not_matching :: "string \<Rightarrow> (string, json) dict \<Rightarrow> repo_element list \<Rightarrow> repo_error + repo_element list" where
  "installed_not_matching dep_name constraint = efilter (\<lambda>c. if is_installation_in_progress c
     then ebind (matches_version_constraint (re_version c) constraint dep_name) (\<lambda>b. Inr (\<not> b)) else Inr False)"

definition matching_candidates :: "string \<Rightarrow> (string, json) dict \<Rightarrow> repo_element list \<Rightarrow> repo_error + repo_element list" where
  "matching_candidates dep_name constraint = efilter (\<lambda>c. matches_version_constraint (re_version c) constraint dep_name)"

definition select_dependency :: "string \<Rightarrow> string \<Rightarrow> (string, json) dict \<Rightarrow> repo_db \<Rightarrow> repo_error + repo_element" where
  "select_dependency instance_name dep_name constraint db =
     (let dep_elements = filter (\<lambda>c. re_name c = dep_name) (rd_elements db) in
      ebind (installed_not_matching dep_name constraint dep_elements) (\<lambda>not_matching.
      if not_matching \<noteq> [] then Inl (DepConstraint dep_name (re_version (hd not_matching)))
      else ebind (matching_candidates dep_name constraint dep_elements) (\<lambda>candidates.
        if candidates = [] then Inl (DepNotFound dep_name instance_name) else best_candidate candidates)))"

type_synonym visited = "(string \<times> string) set"

text \<open>The error of a search is that of a part of it, or \<open>None\<close> when the search goes deeper than it may.\<close>

type_synonym 'a search = "(repo_error option + 'a) \<times> visited \<times> repo_db"

definition fails :: "repo_error \<Rightarrow> visited \<times> repo_db \<Rightarrow> 'a search" where
  "fails err st = (Inl (Some err), st)"

definition on_db :: "(repo_db \<Rightarrow> (repo_error + 'a) \<times> repo_db) \<Rightarrow> visited \<times> repo_db \<Rightarrow> 'a search" where
  "on_db m st = (case m (snd st) of (Inl err, db) \<Rightarrow> (Inl (Some err), fst st, db) | (Inr x, db) \<Rightarrow> (Inr x, fst st, db))"

definition actualized :: "repo_env \<Rightarrow> repo_element \<Rightarrow> repo_db \<Rightarrow> (repo_error + repo_element) \<times> repo_db" where
  "actualized env e db = (if re_manifest e = [] then actualize_element env e db else (Inr e, db))"

text \<open>\<open>collect\<close> is the search below one element; what it found goes behind what is collected already.\<close>

definition collect_requirement :: "(repo_element \<Rightarrow> visited \<times> repo_db \<Rightarrow> repo_element list search) \<Rightarrow> string \<Rightarrow>
    string \<times> (string, json) dict \<Rightarrow> repo_element list \<Rightarrow> visited \<times> repo_db \<Rightarrow> repo_element list search" where
  "collect_requirement collect instance_name dep result st =
     (case select_dependency instance_name (fst dep) (snd dep) (snd st) of
       Inl err \<Rightarrow> fails err st
     | Inr selected \<Rightarrow> act_bind (collect selected) (\<lambda>found st. (Inr (result @ found), st)) st)"

definition collect_requirements :: "(repo_element \<Rightarrow> visited \<times> repo_db \<Rightarrow> repo_element list search) \<Rightarrow> repo_element \<Rightarrow>
    visited \<times> repo_db \<Rightarrow> repo_element list search" where
  "collect_requirements collect e st = (case dependencies e of
     Inl err \<Rightarrow> fails err st
   | Inr deps \<Rightarrow> act_bind (act_fold (collect_requirement collect (re_name e)) deps []) (\<lambda>result st. (Inr (result @ [e]), st)) st)"

text \<open>The depth of the search is bounded by the rows it has not visited; \<open>closure_fuel\<close> is enough of it.\<close>

fun collect_dependencies :: "nat \<Rightarrow> repo_env \<Rightarrow> repo_element \<Rightarrow> visited \<times> repo_db \<Rightarrow> repo_element list search" where
  "collect_dependencies 0 env e st = (Inl None, st)"
| "collect_dependencies (Suc n) env e st =
     (if element_key e \<in> fst st then (Inr [], st)
      else act_bind (on_db (actualized env e)) (collect_requirements (collect_dependencies n env))
        (insert (element_key e) (fst st), snd st))"

definition closure_fuel :: "repo_db \<Rightarrow> nat" where
  "closure_fuel db = Suc (length (rd_elements db))"

definition collect_closure :: "repo_env \<Rightarrow> repo_element \<Rightarrow> repo_db \<Rightarrow> (repo_error + repo_element list) \<times> repo_db" where
  "collect_closure env e db = (case collect_dependencies (closure_fuel db) env e ({}, db) of
     (Inr es, st) \<Rightarrow> (Inr es, snd st)
   | (Inl (Some err), st) \<Rightarrow> (Inl err, snd st)
   | (Inl None, st) \<Rightarrow> (Inl RepoOutOfFuel, snd st))"

section \<open>What a selection is\<close>

lemma efilter_each_ok: "efilter p xs = Inr ys \<Longrightarrow> x \<in> set xs \<Longrightarrow> is_ok (p x)"
  by (induction xs arbitrary: ys) (auto split: sum.splits)

definition satisfies :: "string \<Rightarrow> string \<Rightarrow> (string, json) dict \<Rightarrow> bool" where
  "satisfies version dep_name constraint \<longleftrightarrow> matches_version_constraint version constraint dep_name = Inr True"

lemma best_candidate_keyed:
  assumes "emap (\<lambda>c. ebind (element_sort_key c) (\<lambda>k. Inr (c, k))) candidates = Inr keyed"
  shows "map fst keyed = candidates" and "\<forall>p \<in> set keyed. element_sort_key (fst p) = Inr (snd p)"
proof -
  have l: "list_all2 (\<lambda>c p. fst p = c \<and> element_sort_key c = Inr (snd p)) candidates keyed"
    using assms unfolding emap_Inr_iff by (rule list_all2_mono) (auto simp: ebind_Inr_iff)
  from l show "map fst keyed = candidates" by (induction) auto
  from l show "\<forall>p \<in> set keyed. element_sort_key (fst p) = Inr (snd p)" by (induction) auto
qed

lemma best_candidate_Inr:
  assumes "best_candidate cs = Inr s" "cs \<noteq> []"
  shows "s \<in> set cs" and "\<exists>k. element_sort_key s = Inr k \<and> (\<forall>c \<in> set cs. \<exists>l. element_sort_key c = Inr l \<and> k \<le> l)"
proof -
  from assms(1) obtain keyed where k: "emap (\<lambda>c. ebind (element_sort_key c) (\<lambda>k. Inr (c, k))) cs = Inr keyed"
    and s: "s = fst (first_least (hd keyed) (tl keyed))"
    unfolding best_candidate_def ebind_Inr_iff by (elim exE conjE) simp
  note keyed = best_candidate_keyed [OF k]
  let ?f = "first_least (hd keyed) (tl keyed)"
  have "keyed \<noteq> []" using keyed(1) assms(2) by auto
  then have all: "insert (hd keyed) (set (tl keyed)) = set keyed" by (metis list.collapse list.simps(15))
  have f: "?f \<in> set keyed" using first_least_in [of "hd keyed" "tl keyed"] unfolding all .
  then show "s \<in> set cs" using keyed(1) s by force
  have "element_sort_key s = Inr (snd ?f)" using keyed(2) f s by simp
  moreover have "\<exists>l. element_sort_key c = Inr l \<and> snd ?f \<le> l" if c: "c \<in> set cs" for c
  proof -
    obtain p where p: "p \<in> set keyed" "fst p = c" using c keyed(1) by force
    moreover have "snd ?f \<le> snd p" using first_least_le [of p "hd keyed" "tl keyed"] p(1) unfolding all by simp
    ultimately show ?thesis using keyed(2) by metis
  qed
  ultimately show "\<exists>k. element_sort_key s = Inr k \<and> (\<forall>c \<in> set cs. \<exists>l. element_sort_key c = Inr l \<and> k \<le> l)" by blast
qed

lemma select_dependency_Inr:
  assumes "select_dependency who dep_name constraint db = Inr s"
  shows "s \<in> set (rd_elements db)" and "re_name s = dep_name" and "satisfies (re_version s) dep_name constraint"
    and "\<And>c. c \<in> set (rd_elements db) \<Longrightarrow> re_name c = dep_name \<Longrightarrow> re_installation_state c = INSTALLED \<Longrightarrow>
      satisfies (re_version c) dep_name constraint \<and> re_installation_state s = INSTALLED"
proof -
  define deps where "deps = filter (\<lambda>c. re_name c = dep_name) (rd_elements db)"
  from assms obtain rest candidates where r: "installed_not_matching dep_name constraint deps = Inr rest" "rest = []"
    and c: "matching_candidates dep_name constraint deps = Inr candidates" "candidates \<noteq> []"
    and best: "best_candidate candidates = Inr s"
    by (auto simp: select_dependency_def deps_def [symmetric] ebind_Inr_iff split: if_splits)
  have cands: "candidates = filter (\<lambda>c. satisfies (re_version c) dep_name constraint) deps"
    using c(1) by (auto simp: matching_candidates_def satisfies_def dest: efilter_Inr)
  note best = best_candidate_Inr [OF best c(2)]
  from best(1) show "s \<in> set (rd_elements db)" "re_name s = dep_name" "satisfies (re_version s) dep_name constraint"
    unfolding cands deps_def by auto
  fix x assume x: "x \<in> set (rd_elements db)" "re_name x = dep_name" "re_installation_state x = INSTALLED"
  then have xd: "x \<in> set deps" by (simp add: deps_def)
  have "satisfies (re_version x) dep_name constraint"
  proof -
    let ?p = "\<lambda>c. if is_installation_in_progress c
      then ebind (matches_version_constraint (re_version c) constraint dep_name) (\<lambda>b. Inr (\<not> b)) else Inr False"
    have ok: "is_ok (?p x)" using efilter_each_ok [OF r(1) [unfolded installed_not_matching_def] xd] by simp
    have "\<not> ?p x = Inr True"
    proof
      assume "?p x = Inr True"
      then have "x \<in> set (filter (\<lambda>c. ?p c = Inr True) deps)" using xd by (simp only: set_filter) blast
      with efilter_Inr [OF r(1) [unfolded installed_not_matching_def]] r(2) show False by simp
    qed
    with ok x(3) show ?thesis
      by (cases "matches_version_constraint (re_version x) constraint dep_name")
        (auto simp: satisfies_def is_installation_in_progress_def)
  qed
  moreover from this xd have "x \<in> set candidates" unfolding cands by simp
  with best(2) obtain k l where k: "element_sort_key s = Inr k" and l: "element_sort_key x = Inr l" "k \<le> l" by blast
  from l(1) x(3) obtain q t where "l = (False, q, t)" by (cases l) (auto simp: element_sort_key_Inr is_installation_in_progress_def)
  with l(2) k have "is_installation_in_progress s" by (cases k) (auto simp: element_sort_key_Inr)
  ultimately show "satisfies (re_version x) dep_name constraint \<and> re_installation_state s = INSTALLED"
    by (simp add: is_installation_in_progress_def)
qed

section \<open>Fetching changes no row but its own\<close>

definition same_row :: "repo_element \<Rightarrow> repo_element \<Rightarrow> bool" where
  "same_row x y \<longleftrightarrow> x\<lparr>re_manifest := [], re_specification := [], re_inventory := []\<rparr> =
     y\<lparr>re_manifest := [], re_specification := [], re_inventory := []\<rparr>"

definition same_catalogue :: "repo_db \<Rightarrow> repo_db \<Rightarrow> bool" where
  "same_catalogue db db' \<longleftrightarrow> list_all2 same_row (rd_elements db) (rd_elements db') \<and> rd_bindings db' = rd_bindings db"

lemma same_row_refl [simp]: "same_row x x"
  by (simp add: same_row_def)

lemma same_row_simps:
  assumes "same_row x y"
  shows "re_uuid y = re_uuid x" "element_key y = element_key x" "re_name y = re_name x" "re_version y = re_version x"
    "re_installation_state y = re_installation_state x" "re_repository y = re_repository x" "re_element y = re_element x"
  using assms by (cases x; cases y; simp add: same_row_def element_key_def)+

lemma same_row_trans: "same_row x y \<Longrightarrow> same_row y z \<Longrightarrow> same_row x z"
  by (simp add: same_row_def)

lemma same_catalogue_refl [simp]: "same_catalogue db db"
  by (simp add: same_catalogue_def list_all2_same)

lemma same_catalogue_trans: "same_catalogue a b \<Longrightarrow> same_catalogue b c \<Longrightarrow> same_catalogue a c"
  unfolding same_catalogue_def using list_all2_trans [of same_row same_row same_row, OF same_row_trans] by auto

lemma same_catalogue_uuids: "same_catalogue a b \<Longrightarrow> map re_uuid (rd_elements b) = map re_uuid (rd_elements a)"
proof -
  assume "same_catalogue a b"
  then have "list_all2 same_row (rd_elements a) (rd_elements b)" by (simp add: same_catalogue_def)
  then show ?thesis by induction (simp_all add: same_row_simps)
qed

lemma same_catalogue_keys: "same_catalogue a b \<Longrightarrow> map element_key (rd_elements b) = map element_key (rd_elements a)"
proof -
  assume "same_catalogue a b"
  then have "list_all2 same_row (rd_elements a) (rd_elements b)" by (simp add: same_catalogue_def)
  then show ?thesis by induction (simp_all add: same_row_simps)
qed

lemma same_catalogue_wf: "same_catalogue a b \<Longrightarrow> wf_repo b = wf_repo a"
  by (simp add: wf_repo_def same_catalogue_uuids)

lemma same_catalogue_row: "same_catalogue a b \<Longrightarrow> y \<in> set (rd_elements b) \<Longrightarrow> \<exists>x \<in> set (rd_elements a). same_row x y"
  unfolding same_catalogue_def by (metis in_set_conv_nth list_all2_conv_all_nth)

lemma wf_repo_unique: "wf_repo db \<Longrightarrow> x \<in> set (rd_elements db) \<Longrightarrow> y \<in> set (rd_elements db) \<Longrightarrow> re_uuid x = re_uuid y \<Longrightarrow> x = y"
  unfolding wf_repo_def by (simp add: eq_key_imp_eq_value distinct_map inj_on_def)

text \<open>An operation that only rewrites the fetched fields of the row of one element.\<close>

definition fetches :: "repo_element \<Rightarrow> repo_db \<Rightarrow> repo_db \<Rightarrow> bool" where
  "fetches e db db' \<longleftrightarrow> same_catalogue db db' \<and>
     (\<forall>x \<in> set (rd_elements db). re_uuid x \<noteq> re_uuid e \<longrightarrow> x \<in> set (rd_elements db'))"

lemma insert_artifacts_elements:
  "rd_elements (snd (act_fold insert_artifact as u db)) = rd_elements db \<and>
   rd_bindings (snd (act_fold insert_artifact as u db)) = rd_bindings db"
  by (rule act_fold_state [where P = "\<lambda>t. rd_elements t = rd_elements db \<and> rd_bindings t = rd_bindings db"])
    (auto simp: insert_artifact_def)

lemma fetches_cong:
  "rd_elements b = rd_elements b' \<Longrightarrow> rd_bindings b = rd_bindings b' \<Longrightarrow> fetches e a b = fetches e a b'"
  by (simp add: fetches_def same_catalogue_def)

lemma update_fetches:
  assumes "wf_repo db" "loaded e db" "same_row e e'"
  shows "fetches e db (update_element e' db)" and "loaded e' (update_element e' db)"
proof -
  note s = same_row_simps [OF assms(3)]
  have "same_row x (if re_uuid x = re_uuid e' then e' else x)" if "x \<in> set (rd_elements db)" for x
    using that assms wf_repo_unique [OF assms(1) that, of e] by (auto simp: loaded_def s)
  then have "list_all2 same_row (rd_elements db) (map (\<lambda>x. if re_uuid x = re_uuid e' then e' else x) (rd_elements db))"
    by (simp add: list_all2_map2 list_all2_same)
  then show "fetches e db (update_element e' db)"
    by (auto simp: fetches_def same_catalogue_def update_element_def map_elements_def s)
  show "loaded e' (update_element e' db)" using assms(2) by (auto simp: loaded_def set_update_element s)
qed

lemma actualize_element_fetches:
  assumes "wf_repo db" "loaded e db"
  shows "fetches e db (snd (actualize_element env e db)) \<and>
    (\<forall>e'. fst (actualize_element env e db) = Inr e' \<longrightarrow> same_row e e' \<and> loaded e' (snd (actualize_element env e db)))"
proof (cases "rv_driver env (re_repository e)")
  case (Inr d)
  show ?thesis
  proof (cases "get_repo_element env d (re_name e) (re_version e) db")
    case got: (Inr p)
    obtain new_element artifacts where p: "p = (new_element, artifacts)" by (cases p)
    define e' where "e' = e\<lparr>re_specification := re_specification new_element, re_inventory := re_inventory new_element,
      re_manifest := re_manifest new_element\<rparr>"
    have same: "same_row e e'" by (simp add: same_row_def e'_def)
    define mid where "mid = drop_artifacts (re_uuid e') (update_element e' db)"
    define res where "res = act_fold insert_artifact (map (\<lambda>a. a\<lparr>ra_element := re_uuid e'\<rparr>) artifacts) () mid"
    have "save_repo_element e' db = (Inr (), update_element e' db)"
      using assms(2) same_row_simps(1) [OF same] by (auto simp: save_repo_element_def loaded_def)
    then have act: "actualize_element env e db = act_bind (\<lambda>_. res) (\<lambda>_ db. (Inr e', db)) mid"
      by (simp add: actualize_element_def Inr got p res_def mid_def e'_def Let_def act_bind_def)
    have st: "snd (actualize_element env e db) = snd res"
      unfolding act by (auto simp: act_bind_def split: prod.splits sum.splits)
    have "fetches e db (update_element e' db)" "loaded e' (update_element e' db)" using update_fetches [OF assms same] by simp_all
    moreover have "rd_elements (snd res) = rd_elements (update_element e' db)" "rd_bindings (snd res) = rd_bindings (update_element e' db)"
      using insert_artifacts_elements [of _ "()" mid] unfolding res_def by (simp_all add: mid_def drop_artifacts_def)
    ultimately have "fetches e db (snd res)" "loaded e' (snd res)" by (simp_all add: fetches_def same_catalogue_def loaded_def)
    with st same show ?thesis unfolding act by (auto simp: act_bind_def split: prod.splits sum.splits)
  qed (simp add: actualize_element_def Inr fetches_def)
qed (simp add: actualize_element_def fetches_def)

lemma actualized_fetches:
  assumes "wf_repo db" "loaded e db" "actualized env e db = (r, db')"
  shows "fetches e db db'" and "\<And>e'. r = Inr e' \<Longrightarrow> same_row e e' \<and> loaded e' db'"
  using actualize_element_fetches [OF assms(1,2), of env] assms(2,3)
  by (auto simp: actualized_def fetches_def split: if_splits)

section \<open>The closure is complete\<close>

text \<open>A loop that succeeded, by its prefixes.\<close>

lemma act_fold_Inr_induct:
  assumes "act_fold f xs a s = (Inr b, t)" and "I [] a s"
    and "\<And>ys x zs a s b t. xs = ys @ x # zs \<Longrightarrow> I ys a s \<Longrightarrow> f x a s = (Inr b, t) \<Longrightarrow> I (ys @ [x]) b t"
  shows "I xs b t"
proof -
  have "I (ys @ zs) b t" if "act_fold f zs a s = (Inr b, t)" "I ys a s" "xs = ys @ zs" for ys zs a s
    using that
  proof (induction zs arbitrary: ys a s)
    case (Cons x zs)
    then obtain c u where c: "f x a s = (Inr c, u)" "act_fold f zs c u = (Inr b, t)"
      by (auto simp: act_bind_Inr_iff)
    have "I (ys @ [x]) c u" using Cons.prems c(1) assms(3) by blast
    then have "I ((ys @ [x]) @ zs) b t" by (rule Cons.IH [OF c(2)]) (use Cons.prems(3) in simp)
    then show ?case by simp
  qed simp
  from this [OF assms(1), of "[]"] assms(2) show ?thesis by simp
qed

definition requirements_met :: "visited \<Rightarrow> repo_element \<Rightarrow> bool" where
  "requirements_met seen e \<longleftrightarrow> (\<exists>deps. dependencies e = Inr deps \<and>
     (\<forall>d \<in> set deps. \<exists>v. (fst d, v) \<in> seen \<and> satisfies v (fst d) (snd d)))"

definition closure_ok :: "visited \<Rightarrow> visited \<Rightarrow> repo_db \<Rightarrow> repo_element list \<Rightarrow> bool" where
  "closure_ok V V' db' es \<longleftrightarrow> V' = V \<union> element_key ` set es \<and> element_key ` set es \<inter> V = {} \<and>
     distinct (map element_key es) \<and> set es \<subseteq> set (rd_elements db') \<and> (\<forall>x \<in> set es. requirements_met V' x)"

text \<open>The rows of visited elements stay as they are.\<close>

definition keeps_visited :: "visited \<Rightarrow> repo_db \<Rightarrow> repo_db \<Rightarrow> bool" where
  "keeps_visited V db db' \<longleftrightarrow> same_catalogue db db' \<and>
     (\<forall>x \<in> set (rd_elements db). element_key x \<in> V \<longrightarrow> x \<in> set (rd_elements db'))"

lemma keeps_visited_refl [simp]: "keeps_visited V db db"
  by (simp add: keeps_visited_def)

lemma keeps_visited_trans:
  "keeps_visited V a b \<Longrightarrow> keeps_visited W b c \<Longrightarrow> V \<subseteq> W \<Longrightarrow> keeps_visited V a c"
  unfolding keeps_visited_def by (blast intro: same_catalogue_trans)

lemma fetches_keeps_visited:
  assumes "fetches e db db'" "wf_repo db" "loaded e db" "element_key e \<notin> V"
  shows "keeps_visited V db db'"
proof -
  have "x \<in> set (rd_elements db')" if "x \<in> set (rd_elements db)" "element_key x \<in> V" for x
  proof (cases "re_uuid x = re_uuid e")
    case True
    then have "x = e" using wf_repo_unique [OF assms(2) that(1)] assms(3) by (simp add: loaded_def)
    with that assms(4) show ?thesis by simp
  next
    case False
    with assms(1) that show ?thesis by (simp add: fetches_def)
  qed
  with assms(1) show ?thesis by (simp add: keeps_visited_def fetches_def)
qed

lemma requirements_met_mono: "requirements_met V e \<Longrightarrow> V \<subseteq> W \<Longrightarrow> requirements_met W e"
  unfolding requirements_met_def by (meson subsetD)

lemma closure_ok_append:
  assumes "closure_ok V W a xs" "closure_ok W U b ys" "keeps_visited W a b"
  shows "closure_ok V U b (xs @ ys)"
proof -
  have "set xs \<subseteq> set (rd_elements b)" using assms(1,3) by (auto simp: closure_ok_def keeps_visited_def)
  moreover have "\<forall>x \<in> set xs. requirements_met U x"
    using assms(1,2) requirements_met_mono [of W _ U] by (auto simp: closure_ok_def)
  moreover have "distinct (map element_key (xs @ ys))" using assms(1,2) by (auto simp: closure_ok_def)
  moreover have "element_key ` set (xs @ ys) \<inter> V = {}" "U = V \<union> element_key ` set (xs @ ys)"
    using assms(1,2) by (auto simp: closure_ok_def)
  moreover have "set ys \<subseteq> set (rd_elements b)" "\<forall>x \<in> set ys. requirements_met U x"
    using assms(2) unfolding closure_ok_def by blast+
  ultimately show ?thesis unfolding closure_ok_def by (simp only: set_append) blast
qed

lemma collect_dependencies_Inr:
  assumes "collect_dependencies n env e (V, db) = (Inr es, V', db')" "wf_repo db" "loaded e db"
  shows "closure_ok V V' db' es \<and> keeps_visited V db db' \<and> element_key e \<in> V' \<and>
    (element_key e \<notin> V \<longrightarrow> es \<noteq> [] \<and> same_row e (last es))"
  using assms
proof (induction n arbitrary: e V db es V' db')
  case (Suc n)
  show ?case
  proof (cases "element_key e \<in> V")
    case True
    with Suc.prems show ?thesis by (auto simp: closure_ok_def)
  next
    case False
    let ?W = "insert (element_key e) V"
    let ?step = "\<lambda>e. collect_requirement (collect_dependencies n env) (re_name e)"
    from Suc.prems(1) False obtain e1 db1 deps result where
      act: "actualized env e db = (Inr e1, db1)" and deps: "dependencies e1 = Inr deps"
      and fold: "act_fold (?step e1) deps [] (?W, db1) = (Inr result, V', db')" and es: "es = result @ [e1]"
      by (auto simp: act_bind_Inr_iff on_db_def fails_def collect_requirements_def split: prod.splits sum.splits)
    note got = actualized_fetches [OF Suc.prems(2,3) act]
    have e1: "same_row e e1" "loaded e1 db1" using got(2) [OF refl] by simp_all
    have wf1: "wf_repo db1" using got(1) Suc.prems(2) same_catalogue_wf [of db db1] by (simp add: fetches_def)
    have keep1: "keeps_visited V db db1" by (rule fetches_keeps_visited [OF got(1) Suc.prems(2,3) False])
    have I: "closure_ok ?W V' db' result \<and> keeps_visited ?W db1 db' \<and>
      (\<forall>d \<in> set deps. \<exists>v. (fst d, v) \<in> V' \<and> satisfies v (fst d) (snd d))"
    proof (rule act_fold_Inr_induct [OF fold, of "\<lambda>ds result st. closure_ok ?W (fst st) (snd st) result \<and>
        keeps_visited ?W db1 (snd st) \<and> (\<forall>d \<in> set ds. \<exists>v. (fst d, v) \<in> fst st \<and> satisfies v (fst d) (snd d))", simplified fst_conv snd_conv])
      show "closure_ok ?W ?W db1 [] \<and> keeps_visited ?W db1 db1 \<and>
          (\<forall>d \<in> set []. \<exists>v. (fst d, v) \<in> ?W \<and> satisfies v (fst d) (snd d))"
        by (simp add: closure_ok_def)
    next
      fix ds d zs result st b t
      assume ih: "closure_ok ?W (fst st) (snd st) result \<and> keeps_visited ?W db1 (snd st) \<and>
          (\<forall>d \<in> set ds. \<exists>v. (fst d, v) \<in> fst st \<and> satisfies v (fst d) (snd d))"
        and step: "?step e1 d result st = (Inr b, t)"
      obtain V1 db2 where st: "st = (V1, db2)" by (cases st)
      obtain V2 db3 where t: "t = (V2, db3)" by (cases t)
      from step obtain s found where s: "select_dependency (re_name e1) (fst d) (snd d) db2 = Inr s"
        and found: "collect_dependencies n env s (V1, db2) = (Inr found, V2, db3)" and b: "b = result @ found"
        unfolding st t by (auto simp: collect_requirement_def act_bind_Inr_iff fails_def split: sum.splits)
      note sel = select_dependency_Inr(1,2,3) [OF s]
      have wf2: "wf_repo db2" using ih wf1 same_catalogue_wf [of db1 db2] by (simp add: st keeps_visited_def)
      have sub: "closure_ok V1 V2 db3 found \<and> keeps_visited V1 db2 db3 \<and> element_key s \<in> V2"
        using Suc.IH [OF found wf2] sel(1) by (simp add: loaded_def)
      have "closure_ok ?W V2 db3 b" using closure_ok_append [of ?W V1 db2 result V2 db3 found] ih sub by (simp add: st b)
      moreover have "?W \<subseteq> V1" using ih by (auto simp: st closure_ok_def)
      then have "keeps_visited ?W db1 db3" using ih sub keeps_visited_trans [of ?W db1 db2 V1 db3] by (simp add: st)
      moreover have "(fst d, re_version s) \<in> V2" using sub sel(2) by (simp add: element_key_def)
      moreover have "V1 \<subseteq> V2" using sub by (auto simp: closure_ok_def)
      ultimately show "closure_ok ?W (fst t) (snd t) b \<and> keeps_visited ?W db1 (snd t) \<and>
          (\<forall>d \<in> set (ds @ [d]). \<exists>v. (fst d, v) \<in> fst t \<and> satisfies v (fst d) (snd d))"
        using ih sel(3) by (simp add: st t) blast
    qed
    have "closure_ok V V' db' es"
    proof -
      have key: "element_key e1 = element_key e" using same_row_simps(2) [OF e1(1)] .
      have "e1 \<in> set (rd_elements db')" using I e1(2) key by (simp add: keeps_visited_def loaded_def)
      moreover have "requirements_met V' e1" using deps I by (auto simp: requirements_met_def)
      ultimately show ?thesis using I False key unfolding es closure_ok_def by auto
    qed
    moreover have "keeps_visited V db db'" using keeps_visited_trans [OF keep1, of ?W db'] I by auto
    moreover have "element_key e \<in> V'" using I by (auto simp: closure_ok_def)
    ultimately show ?thesis using e1(1) by (simp add: es)
  qed
qed simp

section \<open>The search ends\<close>

lemma act_fold_error:
  assumes "P s" and "\<And>x a t. x \<in> set xs \<Longrightarrow> P t \<Longrightarrow> fst (f x a t) \<noteq> Inl e"
    and "\<And>x a t b u. x \<in> set xs \<Longrightarrow> P t \<Longrightarrow> f x a t = (Inr b, u) \<Longrightarrow> P u"
  shows "fst (act_fold f xs a s) \<noteq> Inl e"
  using assms
proof (induction xs arbitrary: a s)
  case (Cons x xs)
  have "fst (act_bind (f x a) (act_fold f xs) s) \<noteq> Inl e"
  proof (rule act_bind_error)
    show "fst (f x a s) \<noteq> Inl e" using Cons.prems by simp
  next
    fix b u assume "f x a s = (Inr b, u)"
    then have "P u" using Cons.prems by (meson list.set_intros(1))
    then show "fst (act_fold f xs b u) \<noteq> Inl e" using Cons by (meson list.set_intros(2))
  qed
  then show ?case by simp
qed simp

lemma same_catalogue_key_set: "same_catalogue a b \<Longrightarrow> element_key ` set (rd_elements b) = element_key ` set (rd_elements a)"
  using same_catalogue_keys [of a b] by (metis list.set_map)

lemma collect_dependencies_fuel:
  assumes "card (element_key ` set (rd_elements db) - V) < n" "wf_repo db" "loaded e db"
  shows "fst (collect_dependencies n env e (V, db)) \<noteq> Inl None"
  using assms
proof (induction n arbitrary: e V db)
  case (Suc n)
  show ?case
  proof (cases "element_key e \<in> V")
    case False
    let ?W = "insert (element_key e) V"
    let ?keys = "element_key ` set (rd_elements db)"
    have "element_key e \<in> ?keys - V" using Suc.prems(3) False by (simp add: loaded_def)
    moreover have "?keys - ?W \<subset> ?keys - V" using calculation by auto
    ultimately have less: "card (?keys - ?W) < n" using Suc.prems(1) psubset_card_mono [of "?keys - V" "?keys - ?W"] by simp
    have "fst (act_bind (on_db (actualized env e)) (collect_requirements (collect_dependencies n env)) (?W, db)) \<noteq> Inl None"
    proof (rule act_bind_error)
      show "fst (on_db (actualized env e) (?W, db)) \<noteq> Inl None" by (auto simp: on_db_def split: prod.splits sum.splits)
    next
      fix e1 st assume "on_db (actualized env e) (?W, db) = (Inr e1, st)"
      then obtain db1 where st: "st = (?W, db1)" and act: "actualized env e db = (Inr e1, db1)"
        by (auto simp: on_db_def split: prod.splits sum.splits)
      let ?P = "\<lambda>st. same_catalogue db (snd st) \<and> ?W \<subseteq> fst st"
      have P: "?P st" using actualized_fetches(1) [OF Suc.prems(2,3) act] by (simp add: fetches_def st)
      have sub: "fst (collect_dependencies n env s t) \<noteq> Inl None" and next_P: "\<And>b u. collect_dependencies n env s t = (Inr b, u) \<Longrightarrow> ?P u"
        if P: "?P t" and s: "s \<in> set (rd_elements (snd t))" for s t
      proof -
        obtain V2 db2 where t: "t = (V2, db2)" by (cases t)
        have wf: "wf_repo db2" using P Suc.prems(2) same_catalogue_wf [of db db2] by (simp add: t)
        have keys: "element_key ` set (rd_elements db2) = ?keys" using P same_catalogue_key_set by (simp add: t)
        have "card (?keys - V2) \<le> card (?keys - ?W)" by (rule card_mono) (use P in \<open>auto simp: t\<close>)
        with less have c: "card (element_key ` set (rd_elements db2) - V2) < n" unfolding keys by linarith
        have ld: "loaded s db2" using s by (simp add: t loaded_def)
        show "fst (collect_dependencies n env s t) \<noteq> Inl None" unfolding t by (rule Suc.IH [OF c wf ld])
        fix b u assume "collect_dependencies n env s t = (Inr b, u)"
        then show "?P u" using collect_dependencies_Inr [of n env s V2 db2 b "fst u" "snd u"] wf ld P same_catalogue_trans [of db db2 "snd u"]
          by (auto simp: t closure_ok_def keeps_visited_def)
      qed
      have "fst (act_fold (collect_requirement (collect_dependencies n env) (re_name e1)) deps [] st) \<noteq> Inl None" for deps
      proof (rule act_fold_error [where P = ?P, OF P])
        fix d a t assume P: "?P t"
        show "fst (collect_requirement (collect_dependencies n env) (re_name e1) d a t) \<noteq> Inl None"
        proof (cases "select_dependency (re_name e1) (fst d) (snd d) (snd t)")
          case (Inr s)
          then show ?thesis unfolding collect_requirement_def Inr sum.case
            by (intro act_bind_error sub [OF P] select_dependency_Inr(1) [OF Inr]) simp
        qed (simp add: collect_requirement_def fails_def)
      next
        fix d a t b u assume P: "?P t" and "collect_requirement (collect_dependencies n env) (re_name e1) d a t = (Inr b, u)"
        then obtain s found where "select_dependency (re_name e1) (fst d) (snd d) (snd t) = Inr s"
          and "collect_dependencies n env s t = (Inr found, u)"
          by (auto simp: collect_requirement_def fails_def act_bind_Inr_iff split: sum.splits)
        with next_P [OF P] show "?P u" using select_dependency_Inr(1) by blast
      qed
      then have loop: "fst (act_bind (act_fold (collect_requirement (collect_dependencies n env) (re_name e1)) deps [])
          (\<lambda>result st. (Inr (result @ [e1]), st)) st) \<noteq> Inl None" for deps
        by (rule act_bind_error) simp
      then show "fst (collect_requirements (collect_dependencies n env) e1 st) \<noteq> Inl None"
        by (cases "dependencies e1") (simp_all add: collect_requirements_def fails_def)
    qed
    with False show ?thesis by simp
  qed simp
qed simp

lemma closure_fuel_enough:
  assumes "wf_repo db" "loaded e db"
  shows "fst (collect_dependencies (closure_fuel db) env e ({}, db)) \<noteq> Inl None"
proof (rule collect_dependencies_fuel [OF _ assms])
  have "card (element_key ` set (rd_elements db)) \<le> card (set (rd_elements db))" by (rule card_image_le) simp
  also have "\<dots> \<le> length (rd_elements db)" by (rule card_length)
  finally show "card (element_key ` set (rd_elements db) - {}) < closure_fuel db" by (simp add: closure_fuel_def)
qed

lemma collect_dependencies_catalogue:
  assumes "wf_repo (snd st)" "loaded e (snd st)"
  shows "same_catalogue (snd st) (snd (snd (collect_dependencies n env e st)))"
  using assms
proof (induction n arbitrary: e st)
  case (Suc n)
  show ?case
  proof (cases "element_key e \<in> fst st")
    case False
    let ?W = "insert (element_key e) (fst st)"
    let ?P = "\<lambda>t :: visited \<times> repo_db. same_catalogue (snd st) (snd t)"
    obtain r db1 where act: "actualized env e (snd st) = (r, db1)" by (cases "actualized env e (snd st)")
    have cat1: "same_catalogue (snd st) db1" using actualized_fetches(1) [OF Suc.prems act] by (simp add: fetches_def)
    have "?P (snd (act_bind (on_db (actualized env e)) (collect_requirements (collect_dependencies n env)) (?W, snd st)))"
    proof (rule act_bind_state [where P = ?P])
      show "?P (snd (on_db (actualized env e) (?W, snd st)))" using cat1 act by (auto simp: on_db_def split: sum.splits)
    next
      fix e1 :: repo_element and t assume P: "?P t"
      have "?P (snd (act_fold (collect_requirement (collect_dependencies n env) (re_name e1)) deps [] t))" for deps
      proof (rule act_fold_state [where P = ?P, OF P])
        fix d a u assume P: "?P u"
        show "?P (snd (collect_requirement (collect_dependencies n env) (re_name e1) d a u))"
        proof (cases "select_dependency (re_name e1) (fst d) (snd d) (snd u)")
          case (Inr s)
          have "?P (snd (act_bind (collect_dependencies n env s) (\<lambda>found st. (Inr (a @ found), st)) u))"
          proof (rule act_bind_state [where P = ?P])
            have "wf_repo (snd u)" using P Suc.prems(1) same_catalogue_wf by blast
            moreover have "loaded s (snd u)" using select_dependency_Inr(1) [OF Inr] by (simp add: loaded_def)
            ultimately show "?P (snd (collect_dependencies n env s u))" using Suc.IH P same_catalogue_trans by blast
          qed simp
          then show ?thesis by (simp add: collect_requirement_def Inr)
        qed (simp add: collect_requirement_def fails_def P)
      qed
      then have loop: "?P (snd (act_bind (act_fold (collect_requirement (collect_dependencies n env) (re_name e1)) deps [])
          (\<lambda>result st. (Inr (result @ [e1]), st)) t))" for deps
        by (rule act_bind_state [where P = ?P]) simp
      show "?P (snd (collect_requirements (collect_dependencies n env) e1 t))"
        using loop P by (cases "dependencies e1") (simp_all add: collect_requirements_def fails_def)
    qed
    with False show ?thesis by simp
  qed simp
qed simp

lemma collect_closure_catalogue:
  assumes "wf_repo db" "loaded e db"
  shows "same_catalogue db (snd (collect_closure env e db))"
  using collect_dependencies_catalogue [of "({}, db)" e "closure_fuel db" env] assms
  by (auto simp: collect_closure_def split: prod.splits sum.splits option.splits)

lemma collect_closure_Inr:
  assumes "collect_closure env e db = (Inr es, db')" "wf_repo db" "loaded e db"
  shows "closure_ok {} (element_key ` set es) db' es" and "same_catalogue db db'" and "es \<noteq> []" and "same_row e (last es)"
proof -
  from assms(1) obtain V' where c: "collect_dependencies (closure_fuel db) env e ({}, db) = (Inr es, V', db')"
    by (auto simp: collect_closure_def split: prod.splits sum.splits option.splits)
  note * = collect_dependencies_Inr [OF c assms(2,3)]
  from * show "closure_ok {} (element_key ` set es) db' es" by (auto simp: closure_ok_def)
  from * show "same_catalogue db db'" "es \<noteq> []" "same_row e (last es)" by (auto simp: keeps_visited_def)
qed

lemma collect_closure_total:
  assumes "wf_repo db" "loaded e db"
  shows "(\<exists>es db'. collect_closure env e db = (Inr es, db')) \<or>
    (\<exists>err db'. collect_dependencies (closure_fuel db) env e ({}, db) = (Inl (Some err), db'))"
  using closure_fuel_enough [OF assms, of env]
  by (cases "collect_dependencies (closure_fuel db) env e ({}, db)")
    (auto simp: collect_closure_def split: sum.splits option.splits)

end
