(* ===== verification/Repo_Install.thy ===== *)
theory Repo_Install
  imports Repo_Deps
begin

text \<open>
  The lifecycle hooks of repository elements (\<open>RepoElementBuilderService\<close>): installing an element with its
  closure and recording what it depends on, and upgrading it, where the released version waits for its
  successor and hands the dependency records over.  The SDK calls the hooks and saves the instance they
  return; the resources of the agents are a parameter of the check that waits for the successor.
\<close>

section \<open>The derivative of an installed element\<close>

record installed_manifest =
  in_uuid :: uuid
  in_name :: string
  in_description :: string
  in_version :: string
  in_manifest :: "(string, json) dict"
  in_status :: repo_element_status
  in_element :: "uuid option"
  in_project :: uuid

definition manifest_optional_fields :: "string list" where
  "manifest_optional_fields = [''openapi_spec'', ''exports'', ''imports'', ''requirements'', ''resources'']"

definition installed_uuid :: "repo_element \<Rightarrow> repo_error + uuid" where
  "installed_uuid e = (let given = dget (re_manifest e) ''uuid'';
       t = (case given of Some v \<Rightarrow> if json_truthy v then py_str v else re_uuid e | None \<Rightarrow> re_uuid e) in
     case uuid_of_text t of None \<Rightarrow> Inl RepoBadType | Some u \<Rightarrow> Inr u)"

definition from_repo_element :: "repo_element \<Rightarrow> repo_error + installed_manifest" where
  "from_repo_element e =
     ebind (installed_uuid e) (\<lambda>u.
     ebind (json_text (case dget (re_manifest e) ''description'' of None \<Rightarrow> JStr [] | Some t \<Rightarrow> t)) (\<lambda>description.
     if length (re_version e) < 5 \<or> 64 < length (re_version e) then Inl RepoBadType
     else Inr \<lparr>in_uuid = u, in_name = re_name e, in_description = description, in_version = re_version e,
       in_manifest = filter (\<lambda>(k, v). k \<notin> set manifest_optional_fields \<or> json_truthy v) (re_manifest e),
       in_status = ElementNew, in_element = None, in_project = re_project e\<rparr>))"

section \<open>What an element waits for\<close>

definition require_installation :: "repo_element \<Rightarrow> bool" where
  "require_installation e \<longleftrightarrow> re_installation_state e = INSTALLED \<and> re_element e = None"

definition require_upgrade :: "repo_element \<Rightarrow> bool" where
  "require_upgrade e \<longleftrightarrow> re_installation_state e = INSTALLED \<and> re_element e \<noteq> None"

definition require_release :: "repo_element \<Rightarrow> bool" where
  "require_release e \<longleftrightarrow> re_installation_state e = UNINSTALLED \<and> re_element e \<noteq> None"

definition require_deletion :: "repo_element \<Rightarrow> bool" where
  "require_deletion e \<longleftrightarrow> re_installation_state e = UNINSTALLED \<and> re_element e = None"

definition get_pending_element :: "repo_element \<Rightarrow> repo_db \<Rightarrow> repo_element option" where
  "get_pending_element e db = (case installed_named (re_name e) db of [] \<Rightarrow> None | p # _ \<Rightarrow> Some p)"

section \<open>Installation\<close>

definition install_required :: "repo_element \<Rightarrow> unit \<Rightarrow> repo_db \<Rightarrow> (repo_error + unit) \<times> repo_db" where
  "install_required e u db =
     (if is_installation_in_progress e then (Inr (), db) else act_bind (install_element e) (\<lambda>_ db. (Inr (), db)) db)"

text \<open>The bindings are added in the order of a set, which does not matter: they are distinct rows.\<close>

definition record_bindings :: "repo_element \<Rightarrow> repo_element list \<Rightarrow> repo_db \<Rightarrow> repo_db" where
  "record_bindings e deps db = (let existing = bi_depends_on ` set (bindings_of (re_uuid e) db) in
     db\<lparr>rd_bindings := rd_bindings db @
       map (\<lambda>d. \<lparr>bi_element = re_uuid e, bi_depends_on = re_uuid d\<rparr>) (filter (\<lambda>d. re_uuid d \<notin> existing) deps)\<rparr>)"

definition install_manifest :: "repo_env \<Rightarrow> repo_element \<Rightarrow> repo_db \<Rightarrow>
    (repo_error + repo_element \<times> installed_manifest) \<times> repo_db" where
  "install_manifest env e db =
     act_bind (collect_closure env e) (\<lambda>to_install.
     act_bind (act_fold install_required to_install ()) (\<lambda>_ db.
     let e = (last to_install)\<lparr>re_status := ElementInProgress\<rparr>; db = record_bindings e (butlast to_install) db in
     case from_repo_element e of
       Inl err \<Rightarrow> (Inl err, db)
     | Inr m \<Rightarrow> (Inr (e, m), db))) db"

fun dependency_error :: "repo_error \<Rightarrow> bool" where
  "dependency_error (DepConstraint _ _) = True"
| "dependency_error (DepConstraintFormat _) = True"
| "dependency_error (DepNotFound _ _) = True"
| "dependency_error _ = False"

definition dependencies_available :: "repo_env \<Rightarrow> repo_element \<Rightarrow> repo_db \<Rightarrow> (repo_error + bool \<times> repo_element) \<times> repo_db" where
  "dependencies_available env e db = (case collect_closure env e db of
     (Inr es, db) \<Rightarrow> (Inr (True, last es), db)
   | (Inl err, db) \<Rightarrow>
       if dependency_error err then (Inr (False, e\<lparr>re_status := ElementError\<rparr>), db) else (Inl err, db))"

section \<open>The hooks\<close>

definition can_create_repo_element :: "repo_env \<Rightarrow> repo_element \<Rightarrow> repo_db \<Rightarrow>
    (repo_error + bool \<times> repo_element) \<times> repo_db" where
  "can_create_repo_element env e db =
     (if require_installation e \<or> require_upgrade e then dependencies_available env e db else (Inr (True, e), db))"

definition create_element_derivatives :: "repo_env \<Rightarrow> repo_element \<Rightarrow> repo_db \<Rightarrow>
    (repo_error + repo_element \<times> installed_manifest list) \<times> repo_db" where
  "create_element_derivatives env e db =
     (if require_installation e \<or> require_upgrade e
      then act_bind (install_manifest env e) (\<lambda>(e, m) db. (Inr (e, [m]), db)) db
      else (Inr (e, []), db))"

definition post_create_element :: "repo_element \<Rightarrow> installed_manifest list \<Rightarrow> repo_element" where
  "post_create_element e derivatives = (if derivatives \<noteq> [] then e else e\<lparr>re_status := ElementAvailable\<rparr>)"

text \<open>\<open>resources\<close> gives the element a resource of an installed manifest reports, if there is such a resource.\<close>

definition can_update_repo_element :: "repo_env \<Rightarrow> (uuid \<Rightarrow> uuid option option) \<Rightarrow> repo_element \<Rightarrow> repo_db \<Rightarrow>
    (repo_error + bool \<times> repo_element) \<times> repo_db" where
  "can_update_repo_element env resources e db =
     (if require_installation e \<or> require_upgrade e then dependencies_available env e db
      else if require_release e then
        (case get_pending_element e db of
          None \<Rightarrow> (Inr (True, e), db)
        | Some pending \<Rightarrow> (case resources (re_uuid pending) of
            None \<Rightarrow> (Inr (False, e), db)
          | Some None \<Rightarrow> (Inr (False, e), db)
          | Some (Some _) \<Rightarrow> (Inr (True, e), db)))
      else (Inr (True, e), db))"

text \<open>A binding may be repointed only when its element has no binding to the new element: the pair is unique.\<close>

definition repoint_binding :: "uuid \<Rightarrow> deps_binding \<Rightarrow> unit \<Rightarrow> repo_db \<Rightarrow> (repo_error + unit) \<times> repo_db" where
  "repoint_binding u b _ db = (let b' = b\<lparr>bi_depends_on := u\<rparr> in
     if b' \<noteq> b \<and> b' \<in> set (rd_bindings db) then (Inl RepoConflict, db)
     else (Inr (), db\<lparr>rd_bindings := map (\<lambda>x. if x = b then b' else x) (rd_bindings db)\<rparr>))"

definition hand_over_deps_bindings :: "repo_element \<Rightarrow> repo_element \<Rightarrow> repo_db \<Rightarrow> (repo_error + unit) \<times> repo_db" where
  "hand_over_deps_bindings e pending db = (let db = drop_bindings_of (re_uuid e) db in
     act_fold (repoint_binding (re_uuid pending)) (dependents_of (re_uuid e) db) () db)"

definition released :: "repo_element \<Rightarrow> repo_element" where
  "released e = e\<lparr>re_element := None, re_status := ElementAvailable\<rparr>"

definition update_element_derivatives :: "repo_env \<Rightarrow> repo_element \<Rightarrow> (installed_manifest \<times> installed_manifest option) list \<Rightarrow> repo_db \<Rightarrow>
    (repo_error + repo_element \<times> installed_manifest list) \<times> repo_db" where
  "update_element_derivatives env e pairs db =
     (if require_installation e \<or> require_upgrade e
      then act_bind (install_manifest env e) (\<lambda>(e, m) db. (Inr (e, [m]), db)) db
      else if require_release e then
        (case get_pending_element e db of
          None \<Rightarrow> (Inr (released e, []), db)
        | Some pending \<Rightarrow> act_bind (hand_over_deps_bindings e pending) (\<lambda>_ db. (Inr (released e, []), db)) db)
      else if require_deletion e \<and> pairs \<noteq> [] then (Inr (released e, []), db)
      else (Inr (e, map fst pairs), db))"

definition actualize_element_derivatives :: "repo_element \<Rightarrow> (installed_manifest \<times> installed_manifest option) list \<Rightarrow>
    repo_element \<times> installed_manifest list" where
  "actualize_element_derivatives e pairs =
     ((case pairs of
         (_, Some m) # _ \<Rightarrow> e\<lparr>re_element := in_element m, re_status := in_status m\<rparr>
       | _ \<Rightarrow> e), map fst pairs)"

end
