(* ===== verification/Repo_Lifecycle.thy ===== *)
theory Repo_Lifecycle
  imports Repo_Install
begin

text \<open>
  What the life of repository elements guarantees: the closure of an installed element is installed and
  protected, of every name one version is installed in every reachable state, and a released version hands
  what depends on it to its successor.
\<close>

section \<open>Installing a closure\<close>

definition marked :: "repo_element \<Rightarrow> repo_element" where
  "marked e = e\<lparr>re_installation_state := INSTALLED\<rparr>"

lemma marked_simps [simp]:
  "re_uuid (marked e) = re_uuid e" "re_name (marked e) = re_name e" "element_key (marked e) = element_key e"
  "re_installation_state (marked e) = INSTALLED" "re_version (marked e) = re_version e"
  "dependencies (marked e) = dependencies e" "requirements_met V (marked e) = requirements_met V e"
  by (simp_all add: marked_def element_key_def dependencies_def requirements_met_def)

lemma marked_installed: "re_installation_state e = INSTALLED \<Longrightarrow> marked e = e"
  by (cases e) (simp add: marked_def)

lemma install_required_Inr:
  assumes "install_required e u db = (Inr v, db')"
  shows "re_installation_state e = INSTALLED \<and> db' = db \<or> install_element e db = (Inr (marked e), db')"
  using assms
  by (auto simp: install_required_def is_installation_in_progress_def act_bind_Inr_iff install_element_Inr marked_def split: if_splits)

lemma install_loop:
  assumes "act_fold install_required es () db = (Inr u, db')" and "wf_repo db" "one_installed db"
    and "distinct (map re_uuid es)" "set es \<subseteq> set (rd_elements db)"
  shows "marked ` set es \<subseteq> set (rd_elements db') \<and> wf_repo db' \<and> one_installed db' \<and> rd_bindings db' = rd_bindings db"
proof -
  have "marked ` set es \<subseteq> set (rd_elements db') \<and> set es - set es \<subseteq> set (rd_elements db') \<and>
      wf_repo db' \<and> one_installed db' \<and> rd_bindings db' = rd_bindings db"
  proof (rule act_fold_Inr_induct [OF assms(1), of "\<lambda>ys _ t. marked ` set ys \<subseteq> set (rd_elements t) \<and>
      set es - set ys \<subseteq> set (rd_elements t) \<and> wf_repo t \<and> one_installed t \<and> rd_bindings t = rd_bindings db"])
    show "marked ` set [] \<subseteq> set (rd_elements db) \<and> set es - set [] \<subseteq> set (rd_elements db) \<and>
        wf_repo db \<and> one_installed db \<and> rd_bindings db = rd_bindings db" using assms by simp
  next
    fix ys x zs and a b :: unit and s t
    assume es: "es = ys @ x # zs" and step: "install_required x a s = (Inr b, t)"
      and I: "marked ` set ys \<subseteq> set (rd_elements s) \<and> set es - set ys \<subseteq> set (rd_elements s) \<and>
        wf_repo s \<and> one_installed s \<and> rd_bindings s = rd_bindings db"
    have "re_uuid x \<notin> re_uuid ` (set ys \<union> set zs)" using assms(4) unfolding es by auto
    then have uuids: "re_uuid y \<noteq> re_uuid x" if "y \<in> set ys \<union> set zs" for y using that by (metis imageI)
    then have "x \<in> set es - set ys" unfolding es by fastforce
    then have x: "x \<in> set (rd_elements s)" using I by blast
    from install_required_Inr [OF step] show "marked ` set (ys @ [x]) \<subseteq> set (rd_elements t) \<and>
        set es - set (ys @ [x]) \<subseteq> set (rd_elements t) \<and> wf_repo t \<and> one_installed t \<and> rd_bindings t = rd_bindings db"
    proof
      assume "re_installation_state x = INSTALLED \<and> t = s"
      then have t: "t = s" and m: "marked x = x" by (simp_all add: marked_installed)
      have "marked ` set (ys @ [x]) \<subseteq> set (rd_elements s)" using I x m by auto
      moreover have "set es - set (ys @ [x]) \<subseteq> set (rd_elements s)" using I by auto
      ultimately show ?thesis using I unfolding t by blast
    next
      assume i: "install_element x s = (Inr (marked x), t)"
      then have t: "t = update_element (marked x) s" by (simp add: install_element_Inr)
      have rows: "set (rd_elements t) = {y \<in> set (rd_elements s). re_uuid y \<noteq> re_uuid x} \<union> {marked x}"
        using x by (auto simp: t set_update_element)
      have "marked ` set ys \<subseteq> set (rd_elements t)" using I uuids unfolding rows by force
      moreover have "set es - set (ys @ [x]) \<subseteq> set (rd_elements t)" using I uuids unfolding rows es by auto
      moreover have "one_installed t" using I install_keeps_one [OF _ i] by simp
      ultimately show ?thesis using I rows by (simp add: t)
    qed
  qed
  then show ?thesis by simp
qed

lemma closure_uuids:
  assumes "closure_ok V W db es" "wf_repo db"
  shows "distinct (map re_uuid es)"
proof -
  have "distinct es" using assms(1) by (auto simp: closure_ok_def distinct_map)
  moreover have "inj_on re_uuid (set es)"
    using assms wf_repo_unique [OF assms(2)] unfolding closure_ok_def inj_on_def by (meson subsetD)
  ultimately show ?thesis by (simp add: distinct_map)
qed

lemma one_installed_catalogue:
  assumes "same_catalogue db db'" "one_installed db"
  shows "one_installed db'"
proof (rule one_installedI)
  fix x y assume *: "x \<in> set (rd_elements db')" "y \<in> set (rd_elements db')" "re_installation_state x = INSTALLED"
    "re_installation_state y = INSTALLED" "re_name x = re_name y"
  obtain x' where x: "x' \<in> set (rd_elements db)" "same_row x' x" using same_catalogue_row [OF assms(1) *(1)] by blast
  obtain y' where y: "y' \<in> set (rd_elements db)" "same_row y' y" using same_catalogue_row [OF assms(1) *(2)] by blast
  from one_installedD [OF assms(2) x(1) y(1)] * same_row_simps [OF x(2)] same_row_simps [OF y(2)]
  show "re_uuid x = re_uuid y" by simp
qed

lemma record_bindings_simps [simp]:
  "rd_elements (record_bindings e ds db) = rd_elements db" "wf_repo (record_bindings e ds db) = wf_repo db"
  by (simp_all add: record_bindings_def Let_def wf_repo_def)

lemma record_bindings_one [simp]: "one_installed (record_bindings e ds db) = one_installed db"
  by (rule one_installed_cong) simp

lemma record_bindings_depends:
  "d \<in> set ds \<Longrightarrow> \<lparr>bi_element = re_uuid e, bi_depends_on = re_uuid d\<rparr> \<in> set (rd_bindings (record_bindings e ds db))"
proof -
  assume d: "d \<in> set ds"
  show ?thesis
  proof (cases "re_uuid d \<in> bi_depends_on ` set (bindings_of (re_uuid e) db)")
    case True
    then obtain b where b: "b \<in> set (rd_bindings db)" "bi_element b = re_uuid e" "bi_depends_on b = re_uuid d"
      by (auto simp: bindings_of_def)
    have "b = \<lparr>bi_element = re_uuid e, bi_depends_on = re_uuid d\<rparr>" by (rule deps_binding.equality) (simp_all add: b(2,3))
    with b show ?thesis by (simp add: record_bindings_def Let_def)
  next
    case False
    with d show ?thesis by (simp add: record_bindings_def Let_def)
  qed
qed

lemma install_manifest_Inr:
  assumes "install_manifest env e db = (Inr (e', m), db')"
  obtains es db1 db2 where "collect_closure env e db = (Inr es, db1)" "act_fold install_required es () db1 = (Inr (), db2)"
    "e' = (last es)\<lparr>re_status := ElementInProgress\<rparr>" "db' = record_bindings e' (butlast es) db2" "from_repo_element e' = Inr m"
proof -
  from assms obtain es db1 u db2 where c: "collect_closure env e db = (Inr es, db1)"
    and l: "act_fold install_required es () db1 = (Inr u, db2)"
    and f: "(let e = (last es)\<lparr>re_status := ElementInProgress\<rparr>; db = record_bindings e (butlast es) db2 in
       case from_repo_element e of Inl err \<Rightarrow> (Inl err, db) | Inr m \<Rightarrow> (Inr (e, m), db)) = (Inr (e', m), db')"
    unfolding install_manifest_def act_bind_Inr_iff by (elim exE conjE)
  from f have "from_repo_element ((last es)\<lparr>re_status := ElementInProgress\<rparr>) = Inr m"
    and "e' = (last es)\<lparr>re_status := ElementInProgress\<rparr>" "db' = record_bindings e' (butlast es) db2"
    by (auto simp: Let_def split: sum.splits)
  with c l show ?thesis using that by simp
qed

text \<open>An installed closure: all of it is installed, all that it requires is in it, and none but its root can go.\<close>

definition installed_closure :: "repo_element \<Rightarrow> repo_db \<Rightarrow> repo_element list \<Rightarrow> bool" where
  "installed_closure e db es \<longleftrightarrow> element_key e \<in> element_key ` set es \<and>
     list_all (\<lambda>x. x \<in> set (rd_elements db) \<and> re_installation_state x = INSTALLED \<and>
       (re_uuid x = re_uuid e \<or> fst (uninstall_element x db) = Inl RepoInvalid)) es"

lemma install_manifest_closure:
  assumes "install_manifest env e db = (Inr (e', m), db')" and "wf_repo db" "one_installed db" "loaded e db"
  shows "\<exists>es. installed_closure e db' es \<and> (\<forall>x \<in> set es. requirements_met (element_key ` set es) x) \<and>
    one_installed db' \<and> wf_repo db'"
proof -
  from assms(1) obtain es db1 db2 where c: "collect_closure env e db = (Inr es, db1)"
    and l: "act_fold install_required es () db1 = (Inr (), db2)"
    and e': "e' = (last es)\<lparr>re_status := ElementInProgress\<rparr>" and db': "db' = record_bindings e' (butlast es) db2"
    by (rule install_manifest_Inr)
  note closure = collect_closure_Inr [OF c assms(2,4)]
  have wf1: "wf_repo db1" using closure(2) assms(2) same_catalogue_wf by blast
  have ok: "closure_ok {} (element_key ` set es) db1 es" by (rule closure(1))
  note loop = install_loop [OF l wf1 one_installed_catalogue [OF closure(2) assms(3)] closure_uuids [OF ok wf1]]
  have rows: "marked ` set es \<subseteq> set (rd_elements db2)" and inv: "wf_repo db2" "one_installed db2"
    using loop ok by (simp_all add: closure_ok_def)
  have uuid: "re_uuid e' = re_uuid e" using same_row_simps(1) [OF closure(4)] e' by simp
  have es: "es = butlast es @ [last es]" using closure(3) by simp
  have "fst (uninstall_element (marked x) db') = Inl RepoInvalid" if x: "x \<in> set es" "re_uuid x \<noteq> re_uuid e" for x
  proof -
    have "x \<noteq> last es" using x(2) same_row_simps(1) [OF closure(4)] by auto
    moreover have "set es = insert (last es) (set (butlast es))" using arg_cong [OF es, of set] by simp
    ultimately have "x \<in> set (butlast es)" using x(1) by blast
    then have "\<lparr>bi_element = re_uuid e', bi_depends_on = re_uuid x\<rparr> \<in> set (dependents_of (re_uuid x) db')"
      unfolding db' dependents_of_def by (simp add: record_bindings_depends)
    then show ?thesis by (auto simp: uninstall_element_def)
  qed
  then have "installed_closure e db' (map marked es)"
  proof -
    assume gone: "\<And>x. x \<in> set es \<Longrightarrow> re_uuid x \<noteq> re_uuid e \<Longrightarrow> fst (uninstall_element (marked x) db') = Inl RepoInvalid"
    have "element_key (last es) = element_key e" by (rule same_row_simps(2) [OF closure(4)])
    then have "element_key e \<in> element_key ` set es" using closure(3) by (metis imageI last_in_set)
    then have "element_key e \<in> element_key ` set (map marked es)" by (simp add: image_image)
    moreover have "marked x \<in> set (rd_elements db')" if "x \<in> set es" for x using rows that by (auto simp: db')
    ultimately show ?thesis using gone unfolding installed_closure_def list_all_iff set_map by auto
  qed
  moreover have "\<forall>x \<in> set (map marked es). requirements_met (element_key ` set (map marked es)) x"
    using ok by (auto simp: closure_ok_def image_image)
  ultimately show ?thesis using inv by (intro exI [of _ "map marked es"]) (simp add: db')
qed

section \<open>Handing the dependency records over\<close>

definition repointed :: "uuid \<Rightarrow> uuid \<Rightarrow> deps_binding \<Rightarrow> deps_binding" where
  "repointed old new b = (if bi_depends_on b = old then b\<lparr>bi_depends_on := new\<rparr> else b)"

lemma repointed_element [simp]: "bi_element (repointed old new b) = bi_element b"
  by (simp add: repointed_def)

lemma repoint_loop:
  assumes "act_fold (repoint_binding p) bs () db = (Inr u, db')" and "\<forall>b \<in> set bs. bi_depends_on b = old" "p \<noteq> old"
  shows "rd_elements db' = rd_elements db \<and>
    rd_bindings db' = map (\<lambda>x. if x \<in> set bs then x\<lparr>bi_depends_on := p\<rparr> else x) (rd_bindings db)"
proof (rule act_fold_Inr_induct [OF assms(1), of "\<lambda>ys _ t. rd_elements t = rd_elements db \<and>
    rd_bindings t = map (\<lambda>x. if x \<in> set ys then x\<lparr>bi_depends_on := p\<rparr> else x) (rd_bindings db)"])
  fix ys b zs and u v :: unit and s t
  assume bs: "bs = ys @ b # zs" and step: "repoint_binding p b u s = (Inr v, t)"
    and I: "rd_elements s = rd_elements db \<and>
      rd_bindings s = map (\<lambda>x. if x \<in> set ys then x\<lparr>bi_depends_on := p\<rparr> else x) (rd_bindings db)"
  have b: "bi_depends_on b = old" using assms(2) unfolding bs by simp
  from step have t: "t = s\<lparr>rd_bindings := map (\<lambda>x. if x = b then b\<lparr>bi_depends_on := p\<rparr> else x) (rd_bindings s)\<rparr>"
    by (auto simp: repoint_binding_def Let_def split: if_splits)
  have ne: "x\<lparr>bi_depends_on := p\<rparr> \<noteq> b" for x :: deps_binding using b assms(3) by auto
  show "rd_elements t = rd_elements db \<and>
      rd_bindings t = map (\<lambda>x. if x \<in> set (ys @ [b]) then x\<lparr>bi_depends_on := p\<rparr> else x) (rd_bindings db)"
    using I ne unfolding t by (auto simp: comp_def)
qed simp

lemma hand_over_Inr:
  assumes "hand_over_deps_bindings e p db = (Inr u, db')" "re_uuid p \<noteq> re_uuid e"
  shows "rd_elements db' = rd_elements db"
    and "rd_bindings db' = map (repointed (re_uuid e) (re_uuid p)) (filter (\<lambda>b. bi_element b \<noteq> re_uuid e) (rd_bindings db))"
proof -
  have *: "act_fold (repoint_binding (re_uuid p)) (dependents_of (re_uuid e) (drop_bindings_of (re_uuid e) db)) ()
      (drop_bindings_of (re_uuid e) db) = (Inr u, db')"
    using assms(1) by (simp add: hand_over_deps_bindings_def Let_def)
  note loop = repoint_loop [OF *, of "re_uuid e"]
  have "\<forall>b \<in> set (dependents_of (re_uuid e) (drop_bindings_of (re_uuid e) db)). bi_depends_on b = re_uuid e"
    by (simp add: dependents_of_def)
  note loop = loop [OF this assms(2)]
  from loop show "rd_elements db' = rd_elements db" by simp
  from loop show "rd_bindings db' = map (repointed (re_uuid e) (re_uuid p)) (filter (\<lambda>b. bi_element b \<noteq> re_uuid e) (rd_bindings db))"
    by (auto simp: repointed_def dependents_of_def)
qed

text \<open>A dependent that has both versions on record makes the hand-over fail: the pair is unique.\<close>

lemma hand_over_conflict:
  assumes "rd_bindings db = [\<lparr>bi_element = d, bi_depends_on = re_uuid e\<rparr>, \<lparr>bi_element = d, bi_depends_on = re_uuid p\<rparr>]"
    and "d \<noteq> re_uuid e" "re_uuid p \<noteq> re_uuid e"
  shows "fst (hand_over_deps_bindings e p db) = Inl RepoConflict"
  using assms by (simp add: hand_over_deps_bindings_def dependents_of_def Let_def act_bind_def repoint_binding_def)

section \<open>The states of the store\<close>

text \<open>
  A request or an iteration of the builder that fails leaves the tables as it wrote them; an element is
  upgraded while it is installed, and what the builder reports is its status and its runtime element.
\<close>

inductive repo_step :: "repo_env \<Rightarrow> repo_db \<Rightarrow> repo_db \<Rightarrow> bool" for env where
  Install: "loaded e db \<Longrightarrow> repo_step env db (snd (install_element e db))"
| Uninstall: "loaded e db \<Longrightarrow> repo_step env db (snd (uninstall_element e db))"
| Upgrade: "loaded e db \<Longrightarrow> re_installation_state e = INSTALLED \<Longrightarrow> repo_step env db (snd (upgrade_element e target db))"
| Edit: "loaded e db \<Longrightarrow> repo_step env db (snd (edit_element e manifest db))"
| Delete: "loaded e db \<Longrightarrow> re_installation_state e \<noteq> INSTALLED \<Longrightarrow> repo_step env db (delete_repo_element e db)"
| Found: "re_installation_state e = UNINSTALLED \<Longrightarrow> \<forall>x \<in> set (rd_elements db). re_uuid x \<noteq> re_uuid e \<Longrightarrow>
    repo_step env db (snd (save_repo_element e db))"
| Check: "loaded e db \<Longrightarrow> repo_step env db (snd (dependencies_available env e db))"
| Build: "loaded e db \<Longrightarrow> repo_step env db (snd (install_manifest env e db))"
| Release: "loaded e db \<Longrightarrow> get_pending_element e db = Some p \<Longrightarrow> repo_step env db (snd (hand_over_deps_bindings e p db))"
| Report: "loaded e db \<Longrightarrow> repo_step env db (update_element (e\<lparr>re_element := r, re_status := st\<rparr>) db)"

definition store_ok :: "repo_db \<Rightarrow> bool" where
  "store_ok db \<longleftrightarrow> wf_repo db \<and> one_installed db"

lemma store_ok_catalogue: "same_catalogue db db' \<Longrightarrow> store_ok db \<Longrightarrow> store_ok db'"
  by (simp add: store_ok_def same_catalogue_wf one_installed_catalogue [of db db'])

lemma store_ok_elements: "rd_elements db' = rd_elements db \<Longrightarrow> store_ok db' = store_ok db"
  by (simp add: store_ok_def wf_repo_def one_installed_cong [of db' db])

lemma store_ok_update_same:
  assumes "store_ok db" "loaded e db" "re_name e' = re_name e" "re_installation_state e' = re_installation_state e" "re_uuid e' = re_uuid e"
  shows "store_ok (update_element e' db)"
proof -
  have "one_installed (update_element e' db)"
  proof (rule one_installed_update)
    show "one_installed db" using assms(1) by (simp add: store_ok_def)
    fix x assume "re_installation_state e' = INSTALLED" "x \<in> set (rd_elements db)" "re_name x = re_name e'" "re_installation_state x = INSTALLED"
    then show "re_uuid x = re_uuid e'"
      using one_installedD [of db x e] assms by (simp add: store_ok_def loaded_def)
  qed
  with assms(1) show ?thesis by (simp add: store_ok_def)
qed

lemma store_ok_install: "store_ok db \<Longrightarrow> store_ok (snd (install_element e db))"
proof (cases "install_element e db")
  case (Pair r db')
  assume ok: "store_ok db"
  show ?thesis
  proof (cases r)
    case (Inr e')
    with Pair have i: "install_element e db = (Inr e', db')" by simp
    then have "db' = update_element e' db" by (simp add: install_element_Inr)
    with ok install_keeps_one [OF _ i] show ?thesis by (simp add: Pair store_ok_def)
  next
    case (Inl err)
    with Pair have "db' = db" by (auto simp: install_element_def Let_def split: if_splits)
    with ok show ?thesis by (simp add: Pair)
  qed
qed

lemma store_ok_install_loop: "store_ok db \<Longrightarrow> store_ok (snd (act_fold install_required es () db))"
proof (rule act_fold_state)
  fix x :: repo_element and a t assume "store_ok t"
  then have "store_ok (snd (act_bind (install_element x) (\<lambda>_ db. (Inr (), db)) t))"
    by (intro act_bind_state [where P = store_ok] store_ok_install) simp_all
  with \<open>store_ok t\<close> show "store_ok (snd (install_required x a t))" by (simp add: install_required_def)
qed

lemma store_ok_install_manifest:
  assumes "store_ok db" "loaded e db"
  shows "store_ok (snd (install_manifest env e db))"
  unfolding install_manifest_def
proof (rule act_bind_state)
  show "store_ok (snd (collect_closure env e db))"
    using store_ok_catalogue [OF collect_closure_catalogue] assms by (simp add: store_ok_def)
  fix es t assume "store_ok t"
  have bound: "store_ok (record_bindings x ds u) = store_ok u" for x ds u
    by (rule store_ok_elements) simp
  show "store_ok (snd (act_bind (act_fold install_required es ()) (\<lambda>_ db.
     let e = (last es)\<lparr>re_status := ElementInProgress\<rparr>; db = record_bindings e (butlast es) db in
     case from_repo_element e of Inl err \<Rightarrow> (Inl err, db) | Inr m \<Rightarrow> (Inr (e, m), db)) t))"
  proof (rule act_bind_state [where P = store_ok])
    show "store_ok (snd (act_fold install_required es () t))" by (rule store_ok_install_loop [OF \<open>store_ok t\<close>])
    fix u :: unit and v assume "store_ok v"
    then show "store_ok (snd (let e = (last es)\<lparr>re_status := ElementInProgress\<rparr>; db = record_bindings e (butlast es) v in
     case from_repo_element e of Inl err \<Rightarrow> (Inl err, db) | Inr m \<Rightarrow> (Inr (e, m), db)))"
      by (cases "from_repo_element ((last es)\<lparr>re_status := ElementInProgress\<rparr>)") (simp_all add: Let_def bound)
  qed
qed

lemma store_ok_delete: "store_ok db \<Longrightarrow> store_ok (delete_repo_element e db)"
proof -
  assume ok: "store_ok db"
  then have "one_installed (delete_repo_element e db)"
    by (intro one_installedI) (auto simp: store_ok_def delete_repo_element_def intro: one_installedD)
  with ok show ?thesis by (simp add: store_ok_def wf_repo_def delete_repo_element_def distinct_map_filter)
qed

lemma store_ok_found:
  assumes "store_ok db" "re_installation_state e = UNINSTALLED" "\<forall>x \<in> set (rd_elements db). re_uuid x \<noteq> re_uuid e"
  shows "store_ok (snd (save_repo_element e db))"
proof -
  have "store_ok (map_elements (\<lambda>es. es @ [e]) db)"
  proof -
    have "one_installed (map_elements (\<lambda>es. es @ [e]) db)"
      using assms(1,2) by (intro one_installedI) (auto simp: store_ok_def map_elements_def intro: one_installedD)
    with assms(1,3) show ?thesis by (auto simp: store_ok_def wf_repo_def map_elements_def)
  qed
  then show ?thesis using assms(1,3) by (auto simp: save_repo_element_def)
qed

lemma hand_over_elements: "rd_elements (snd (hand_over_deps_bindings e p db)) = rd_elements db"
proof -
  have "rd_elements (snd (act_fold (repoint_binding (re_uuid p)) bs () s)) = rd_elements s" for bs s
    by (rule act_fold_state [where P = "\<lambda>t. rd_elements t = rd_elements s"]) (auto simp: repoint_binding_def Let_def)
  then show ?thesis by (simp add: hand_over_deps_bindings_def Let_def)
qed

lemma repo_step_ok:
  assumes "repo_step env db db'" "store_ok db"
  shows "store_ok db'"
  using assms
proof cases
  case (Install e)
  with assms(2) show ?thesis by (simp add: store_ok_install)
next
  case (Uninstall e)
  show ?thesis
  proof (cases "fst (uninstall_element e db)")
    case (Inr e')
    then have u: "uninstall_element e db = (Inr e', db')" using Uninstall by (simp add: prod_eq_iff)
    then have "wf_repo db'" using assms(2) by (simp add: uninstall_element_Inr store_ok_def wf_repo_def)
    with uninstall_keeps_one [OF _ u] assms(2) show ?thesis by (simp add: store_ok_def)
  next
    case (Inl err)
    then have "db' = db" using Uninstall by (auto simp: uninstall_element_def Let_def split: if_splits)
    with assms(2) show ?thesis by simp
  qed
next
  case (Upgrade e target)
  show ?thesis
  proof (cases "fst (upgrade_element e target db)")
    case (Inr t)
    then have u: "upgrade_element e target db = (Inr t, db')" using Upgrade by (simp add: prod_eq_iff)
    from upgrade_element_InrD [OF u] obtain old where "db' = update_element t (update_element old db)" by blast
    then have "wf_repo db'" using assms(2) by (simp add: store_ok_def)
    with upgrade_keeps_one [OF _ _ _ u] Upgrade assms(2) show ?thesis by (simp add: store_ok_def)
  next
    case (Inl err)
    then have "db' = db" using Upgrade by (auto simp: upgrade_element_def Let_def split: if_splits list.splits)
    with assms(2) show ?thesis by simp
  qed
next
  case (Edit e manifest)
  then show ?thesis using assms(2) store_ok_update_same [OF assms(2) Edit(2), of "e\<lparr>re_manifest := manifest\<rparr>"]
    by (auto simp: edit_element_def Let_def)
next
  case (Delete e)
  with assms(2) show ?thesis by (simp add: store_ok_delete)
next
  case (Found e)
  with assms(2) show ?thesis by (simp add: store_ok_found)
next
  case (Check e)
  have "db' = snd (collect_closure env e db)"
    using Check by (auto simp: dependencies_available_def split: prod.splits sum.splits if_splits)
  moreover have "store_ok (snd (collect_closure env e db))"
    by (rule store_ok_catalogue [OF collect_closure_catalogue assms(2)]) (use Check assms(2) in \<open>simp_all add: store_ok_def\<close>)
  ultimately show ?thesis by simp
next
  case (Build e)
  with assms(2) show ?thesis by (simp add: store_ok_install_manifest)
next
  case (Release e p)
  with assms(2) show ?thesis by (simp add: store_ok_elements [OF hand_over_elements])
next
  case (Report e r st)
  with assms(2) show ?thesis by (simp add: store_ok_update_same [of db e])
qed

section \<open>A store with one application and the versions of a database\<close>

definition demo_repository :: repository where
  "demo_repository = \<lparr>ry_uuid = ''r'', ry_name = ''main'', ry_project = ''p'', ry_status = RepositoryActive, ry_priority = 8192,
     ry_refresh_rate = 3600, ry_sync_mode = SyncLazy, ry_driver_spec = DatabaseDriverSpec, ry_refresh_requested = False,
     ry_next_refresh = None, ry_updated_at = 0\<rparr>"

definition demo_element :: "uuid \<Rightarrow> string \<Rightarrow> string \<Rightarrow> (string, json) dict \<Rightarrow> installation_state \<Rightarrow> repo_element" where
  "demo_element u name version requirements state = \<lparr>re_uuid = u, re_name = name, re_version = version, re_description = [],
     re_project = ''p'', re_repository = demo_repository, re_stable = True, re_latest = False, re_published_at = None,
     re_created_at = 0, re_status = ElementAvailable, re_installation_state = state,
     re_manifest = [(''name'', JStr name), (''requirements'', JDict requirements)], re_specification = [], re_inventory = [],
     re_element = None\<rparr>"

definition demo_web :: repo_element where
  "demo_web = demo_element ''11111111-1111-1111-1111-111111111111'' ''web'' ''2.0.0''
     [(''pg'', JDict [(''from_version'', JStr ''1.0.0''), (''to_version'', JStr ''2.0.0'')])] INSTALLED"

definition demo_pg :: "string \<Rightarrow> string \<Rightarrow> repo_element" where
  "demo_pg u version = demo_element u ''pg'' version [] UNINSTALLED"

definition demo_store :: repo_db where
  "demo_store = \<lparr>rd_elements = [demo_web, demo_pg ''a'' ''1.2.0'', demo_pg ''b'' ''2.0.0'', demo_pg ''c'' ''1.1.0''],
     rd_artifacts = [], rd_bindings = []\<rparr>"

lemma demo_versions:
  "parse_version ''1.2.0'' = Inr (1, 2, 0, True, [])" "parse_version ''2.0.0'' = Inr (2, 0, 0, True, [])"
  "parse_version ''1.1.0'' = Inr (1, 1, 0, True, [])" "parse_version ''1.0.0'' = Inr (1, 0, 0, True, [])"
  by (simp_all add: parse_version_def match_version_def is_digit_def nat_of_digits_def version_suffix_def Let_def)

lemma demo_select:
  "select_dependency ''web'' ''pg'' [(''>='', JStr ''1.0.0''), (''<'', JStr ''2.0.0'')] demo_store = Inr (demo_pg ''a'' ''1.2.0'')"
  by (simp add: select_dependency_def installed_not_matching_def matching_candidates_def best_candidate_def demo_store_def
    demo_web_def demo_pg_def demo_element_def demo_repository_def is_installation_in_progress_def
    matches_version_constraint_def dkeys_def bound_fails_def bound_key_def demo_versions element_sort_key_def version_sort_key_def)

lemma demo_dependencies: "dependencies demo_web = Inr [(''pg'', [(''>='', JStr ''1.0.0''), (''<'', JStr ''2.0.0'')])]"
   "dependencies (demo_pg u v) = Inr []"
  by (simp_all add: dependencies_def demo_web_def demo_pg_def demo_element_def constraint_dict_def constraint_mapping_def)

lemma demo_keys: "element_key demo_web = (''web'', ''2.0.0'')" "element_key (demo_pg u v) = (''pg'', v)" "re_name demo_web = ''web''"
  "re_manifest demo_web \<noteq> []" "re_manifest (demo_pg u v) \<noteq> []"
  by (simp_all add: demo_web_def demo_pg_def demo_element_def element_key_def)

lemma demo_closure: "collect_closure env demo_web demo_store = (Inr [demo_pg ''a'' ''1.2.0'', demo_web], demo_store)"
proof -
  have f: "closure_fuel demo_store = Suc (Suc (Suc (Suc (Suc 0))))" by (simp add: closure_fuel_def demo_store_def)
  show ?thesis unfolding collect_closure_def f
  by (simp add: demo_keys demo_dependencies demo_select on_db_def actualized_def act_bind_def collect_requirements_def collect_requirement_def)
qed

text \<open>No source can be reached: everything the closure needs is in the store.\<close>

definition demo_offline :: repo_env where
  "demo_offline = \<lparr>rv_remote_inventory = (\<lambda>_. Inl DriverFailed), rv_remote_element = (\<lambda>_ _ _. Inl DriverFailed),
     rv_remote_uri = (\<lambda>_ _ _ _ _. []), rv_url_allowed = (\<lambda>_. False), rv_directory = (\<lambda>_. None), rv_fresh = (\<lambda>n v. n @ v),
     rv_prerelease = (\<lambda>_. None), rv_from_iso = (\<lambda>_. None), rv_now = 0, rv_driver = (\<lambda>_. Inl DriverFailed)\<rparr>"

lemma demo_store_ok: "store_ok demo_store" "loaded demo_web demo_store"
  by (auto simp: store_ok_def wf_repo_def demo_store_def demo_web_def demo_pg_def demo_element_def loaded_def intro!: one_installedI)

section \<open>Properties\<close>

text \<open>C29. Collecting the dependency closure of an element of the store always ends; and when it ends without an
  error, it lists every version at most once, the element itself last, and for each requirement of each
  listed element a listed version that satisfies it.\<close>

theorem closure_complete:
  assumes "wf_repo db" "loaded e db"
  shows "case fst (collect_dependencies (closure_fuel db) env e ({}, db)) of
      Inl None \<Rightarrow> False
    | Inl (Some err) \<Rightarrow> True
    | Inr es \<Rightarrow> distinct (map element_key es) \<and> element_key (last es) = element_key e \<and>
        list_all (requirements_met (element_key ` set es)) es"
proof (cases "fst (collect_dependencies (closure_fuel db) env e ({}, db))")
  case (Inl err)
  then show ?thesis using closure_fuel_enough [OF assms, of env] by (cases err) simp_all
next
  case (Inr es)
  then obtain V' db' where c: "collect_dependencies (closure_fuel db) env e ({}, db) = (Inr es, V', db')" by (metis prod.collapse)
  from collect_dependencies_Inr [OF c assms] show ?thesis
    by (auto simp: Inr closure_ok_def list_all_iff dest: same_row_simps(2))
qed

lemma closure_complete_witness:
  "case fst (collect_dependencies (closure_fuel demo_store) demo_offline demo_web ({}, demo_store)) of
      Inl None \<Rightarrow> False
    | Inl (Some err) \<Rightarrow> True
    | Inr es \<Rightarrow> distinct (map element_key es) \<and> element_key (last es) = element_key demo_web \<and>
        list_all (requirements_met (element_key ` set es)) es"
  by (rule closure_complete) (use demo_store_ok in \<open>simp_all add: store_ok_def\<close>)


lemma demo_install:
  "install_manifest env demo_web demo_store = (Inr (demo_web\<lparr>re_status := ElementInProgress\<rparr>,
     \<lparr>in_uuid = re_uuid demo_web, in_name = ''web'', in_description = [], in_version = ''2.0.0'', in_manifest = re_manifest demo_web,
      in_status = ElementNew, in_element = None, in_project = ''p''\<rparr>),
     \<lparr>rd_elements = [demo_web, marked (demo_pg ''a'' ''1.2.0''), demo_pg ''b'' ''2.0.0'', demo_pg ''c'' ''1.1.0''], rd_artifacts = [],
      rd_bindings = [\<lparr>bi_element = re_uuid demo_web, bi_depends_on = ''a''\<rparr>]\<rparr>)"
proof -
  have u: "uuid_of_text ''11111111-1111-1111-1111-111111111111'' = Some ''11111111-1111-1111-1111-111111111111''"
    by (simp add: uuid_of_text_def uuid_digits_def is_hex_def lower_def lower_char_def rstrip_by_def Let_def)
  show ?thesis unfolding install_manifest_def act_bind_eq [where m = "collect_closure env demo_web", OF demo_closure]
    by (simp add: act_bind_def install_required_def is_installation_in_progress_def
      install_element_def installed_named_def Let_def update_element_def map_elements_def record_bindings_def bindings_of_def
      from_repo_element_def installed_uuid_def manifest_optional_fields_def marked_def u
      demo_store_def demo_web_def demo_pg_def demo_element_def demo_repository_def)
qed




text \<open>C32. When the builder releases a version that another installed version of the element replaces, the
  released one is bound to nothing and nothing is bound to it, and what depended on either of them now
  depends on the successor.\<close>

theorem successor_inherits_dependents:
  assumes "update_element_derivatives env e pairs db = (Inr (e', ms), db')" "require_release e"
    and "get_pending_element e db = Some p" "wf_repo db" "loaded e db"
  shows "e' = released e \<and> ms = [] \<and> bindings_of (re_uuid e) db' = [] \<and> dependents_of (re_uuid e) db' = [] \<and>
    bi_element ` set (dependents_of (re_uuid p) db') =
      bi_element ` (set (dependents_of (re_uuid p) db) \<union> set (dependents_of (re_uuid e) db)) - {re_uuid e}"
proof -
  have p: "p \<in> set (rd_elements db)" "re_installation_state p = INSTALLED"
  proof -
    have "p \<in> set (installed_named (re_name e) db)"
      using assms(3) by (auto simp: get_pending_element_def split: list.splits)
    then show "p \<in> set (rd_elements db)" "re_installation_state p = INSTALLED" by (auto simp: installed_named_def)
  qed
  then have ne: "re_uuid p \<noteq> re_uuid e"
    using wf_repo_unique [OF assms(4) p(1), of e] assms(2,5) by (auto simp: loaded_def require_release_def)
  have "\<not> (require_installation e \<or> require_upgrade e)" using assms(2) by (auto simp: require_installation_def require_upgrade_def require_release_def)
  then obtain u where h: "hand_over_deps_bindings e p db = (Inr u, db')" and out: "e' = released e" "ms = []"
    using assms(1-3) by (auto simp: update_element_derivatives_def act_bind_Inr_iff)
  note b = hand_over_Inr(2) [OF h ne]
  have "bindings_of (re_uuid e) db' = []" "dependents_of (re_uuid e) db' = []"
    using ne by (auto simp: bindings_of_def dependents_of_def b repointed_def filter_empty_conv)
  moreover have "bi_element ` set (dependents_of (re_uuid p) db') =
      bi_element ` (set (dependents_of (re_uuid p) db) \<union> set (dependents_of (re_uuid e) db)) - {re_uuid e}"
  proof -
    have "set (dependents_of (re_uuid p) db') = repointed (re_uuid e) (re_uuid p) ` {b \<in> set (rd_bindings db).
        bi_element b \<noteq> re_uuid e \<and> (bi_depends_on b = re_uuid e \<or> bi_depends_on b = re_uuid p)}"
      unfolding dependents_of_def b set_filter set_map using ne by (auto simp: repointed_def)
    then have "bi_element ` set (dependents_of (re_uuid p) db') = bi_element ` {b \<in> set (rd_bindings db).
        bi_element b \<noteq> re_uuid e \<and> (bi_depends_on b = re_uuid e \<or> bi_depends_on b = re_uuid p)}"
      by (simp add: image_image repointed_element)
    then show ?thesis unfolding dependents_of_def by auto
  qed
  ultimately show ?thesis using out by blast
qed

text \<open>Two versions of an application: the old one waits to be released, the new one has taken over.\<close>

definition demo_old :: repo_element where
  "demo_old = (demo_element ''a'' ''web'' ''1.0.0'' [] UNINSTALLED)\<lparr>re_element := Some ''em''\<rparr>"

definition demo_new :: repo_element where
  "demo_new = (demo_element ''b'' ''web'' ''1.1.0'' [] INSTALLED)\<lparr>re_element := Some ''em''\<rparr>"

definition demo_upgraded :: repo_db where
  "demo_upgraded = \<lparr>rd_elements = [demo_old, demo_new, demo_element ''c'' ''web'' ''1.2.0'' [] UNINSTALLED,
       demo_element ''d'' ''ui'' ''1.0.0'' [] INSTALLED], rd_artifacts = [],
     rd_bindings = [\<lparr>bi_element = ''a'', bi_depends_on = ''x''\<rparr>, \<lparr>bi_element = ''d'', bi_depends_on = ''a''\<rparr>]\<rparr>"

lemmas demo_simps = demo_upgraded_def demo_old_def demo_new_def demo_element_def demo_repository_def

lemma demo_release:
  "update_element_derivatives env demo_old [] demo_upgraded = (Inr (released demo_old, []),
     demo_upgraded\<lparr>rd_bindings := [\<lparr>bi_element = ''d'', bi_depends_on = ''b''\<rparr>]\<rparr>)"
  by (simp add: update_element_derivatives_def require_installation_def require_upgrade_def require_release_def
    get_pending_element_def installed_named_def hand_over_deps_bindings_def dependents_of_def drop_bindings_of_def
    repoint_binding_def act_bind_def Let_def released_def demo_simps)

lemma successor_inherits_dependents_witness:
  "released demo_old = released demo_old \<and> [] = ([] :: installed_manifest list) \<and>
    bindings_of (re_uuid demo_old) (demo_upgraded\<lparr>rd_bindings := [\<lparr>bi_element = ''d'', bi_depends_on = ''b''\<rparr>]\<rparr>) = [] \<and>
    dependents_of (re_uuid demo_old) (demo_upgraded\<lparr>rd_bindings := [\<lparr>bi_element = ''d'', bi_depends_on = ''b''\<rparr>]\<rparr>) = [] \<and>
    bi_element ` set (dependents_of (re_uuid demo_new) (demo_upgraded\<lparr>rd_bindings := [\<lparr>bi_element = ''d'', bi_depends_on = ''b''\<rparr>]\<rparr>)) =
      bi_element ` (set (dependents_of (re_uuid demo_new) demo_upgraded) \<union> set (dependents_of (re_uuid demo_old) demo_upgraded)) - {re_uuid demo_old}"
  by (rule successor_inherits_dependents [OF demo_release])
    (simp_all add: require_release_def get_pending_element_def installed_named_def wf_repo_def loaded_def demo_simps)

section \<open>What the code does not guard\<close>

text \<open>
  \<open>upgrade\<close> asks for the runtime element, not for the installation: the old version of an element that is
  being upgraded may be upgraded again, and two versions of it are installed.
\<close>

lemma upgrade_twice_installs_two:
  "\<exists>t db'. upgrade_element demo_old ''c'' demo_upgraded = (Inr t, db') \<and> length (installed_named ''web'' db') = 2"
  by (simp add: upgrade_element_def update_element_def map_elements_def installed_named_def Let_def demo_simps)

text \<open>
  A closure may hold two versions of a name, because each requirement chooses on its own; the availability
  check accepts it and the installation of the second one is refused after the first.
\<close>

definition demo_conflict :: repo_db where
  "demo_conflict = \<lparr>rd_elements = [demo_element ''a'' ''web'' ''1.0.0'' [(''ui'', JDict [(''from_version'', JStr ''1.0.0'')]),
         (''pg'', JDict [(''version'', JStr ''1.1.0'')])] INSTALLED,
       demo_element ''u'' ''ui'' ''1.0.0'' [(''pg'', JDict [(''from_version'', JStr ''1.0.0'')])] UNINSTALLED,
       demo_pg ''p'' ''1.2.0'', demo_pg ''q'' ''1.1.0''], rd_artifacts = [], rd_bindings = []\<rparr>"

lemma incompatible_closure_accepted:
  "let e = hd (rd_elements demo_conflict) in
     fst (dependencies_available env e demo_conflict) = Inr (True, e) \<and> fst (install_manifest env e demo_conflict) = Inl RepoInvalid"
proof -
  let ?e = "hd (rd_elements demo_conflict)"
  let ?u = "demo_element ''u'' ''ui'' ''1.0.0'' [(''pg'', JDict [(''from_version'', JStr ''1.0.0'')])] UNINSTALLED"
  have f: "closure_fuel demo_conflict = Suc (Suc (Suc (Suc (Suc 0))))" by (simp add: closure_fuel_def demo_conflict_def)
  note defs = select_dependency_def installed_not_matching_def matching_candidates_def best_candidate_def demo_conflict_def
    demo_pg_def demo_element_def demo_repository_def is_installation_in_progress_def
    matches_version_constraint_def dkeys_def bound_fails_def bound_key_def demo_versions element_sort_key_def version_sort_key_def
  have s: "select_dependency ''web'' ''ui'' [(''>='', JStr ''1.0.0'')] demo_conflict = Inr ?u"
    "select_dependency ''web'' ''pg'' [(''=='', JStr ''1.1.0'')] demo_conflict = Inr (demo_pg ''q'' ''1.1.0'')"
    "select_dependency ''ui'' ''pg'' [(''>='', JStr ''1.0.0'')] demo_conflict = Inr (demo_pg ''p'' ''1.2.0'')"
    by (simp_all add: defs)
  have d: "dependencies ?e = Inr [(''ui'', [(''>='', JStr ''1.0.0'')]), (''pg'', [(''=='', JStr ''1.1.0'')])]"
    "dependencies ?u = Inr [(''pg'', [(''>='', JStr ''1.0.0'')])]"
    by (simp_all add: dependencies_def demo_conflict_def demo_element_def constraint_dict_def constraint_mapping_def)
  have k: "element_key ?e = (''web'', ''1.0.0'')" "element_key ?u = (''ui'', ''1.0.0'')" "re_name ?e = ''web''" "re_name ?u = ''ui''"
    "re_manifest ?e \<noteq> []" "re_manifest ?u \<noteq> []"
    by (simp_all add: demo_conflict_def demo_element_def element_key_def)
  have c: "collect_closure env ?e demo_conflict = (Inr [demo_pg ''p'' ''1.2.0'', ?u, demo_pg ''q'' ''1.1.0'', ?e], demo_conflict)"
    unfolding collect_closure_def f
    by (simp add: k s d demo_keys demo_dependencies on_db_def actualized_def act_bind_def collect_requirements_def collect_requirement_def)
  have "fst (act_fold install_required [demo_pg ''p'' ''1.2.0'', ?u, demo_pg ''q'' ''1.1.0'', ?e] () demo_conflict) = Inl RepoInvalid"
    by (simp add: act_bind_def install_required_def is_installation_in_progress_def install_element_def installed_named_def Let_def
      update_element_def map_elements_def demo_conflict_def demo_pg_def demo_element_def)
  then have "fst (install_manifest env ?e demo_conflict) = Inl RepoInvalid"
    unfolding install_manifest_def act_bind_eq [where m = "collect_closure env ?e", OF c]
    by (auto simp: act_bind_def split: prod.splits sum.splits)
  then show ?thesis by (simp add: c dependencies_available_def Let_def)
qed

text \<open>A pinned version that is not of the form \<open>major.minor.patch\<close> is found and then fails the sort with an error
  that the availability check does not handle.\<close>

lemma pinned_version_unsorted:
  assumes "rd_elements db = [e]" "re_name e = n" "re_version e = ''1.0''"
  shows "select_dependency who n [(''=='', JStr ''1.0'')] db = Inl (RepoBadVersion ''1.0'') \<and> \<not> dependency_error (RepoBadVersion ''1.0'')"
proof -
  have "parse_version ''1.0'' = Inl (RepoBadVersion ''1.0'')"
    by (simp add: parse_version_def match_version_def is_digit_def nat_of_digits_def version_suffix_def newline_def Let_def)
  with assms show ?thesis
    by (simp add: select_dependency_def installed_not_matching_def matching_candidates_def best_candidate_def
      is_installation_in_progress_def matches_version_constraint_def dkeys_def element_sort_key_def version_sort_key_def)
qed

text \<open>
  The release waits for the resource of the successor under the uuid of its row, while the installed manifest
  is created under the uuid its manifest carries: the release waits forever.
\<close>

lemma release_waits_for_row_uuid:
  assumes "require_release e" "get_pending_element e db = Some p" "from_repo_element p = Inr m" "in_uuid m \<noteq> re_uuid p"
  shows "can_update_repo_element env (\<lambda>u. if u = in_uuid m then Some (Some em) else None) e db = (Inr (False, e), db)"
  using assms by (simp add: can_update_repo_element_def require_release_def require_installation_def require_upgrade_def)

text \<open>Of development versions with the same numbers the one with the least suffix is preferred.\<close>

lemma older_development_version_preferred:
  "version_sort_key ''1.0.0-dev1'' = Inr a \<Longrightarrow> version_sort_key ''1.0.0-dev2'' = Inr b \<Longrightarrow> a < b"
proof -
  have newline_chr: "newline = CHR 0x0A" by code_simp
  have "parse_version ''1.0.0-dev1'' = Inr (1, 0, 0, False, ''dev1'')" "parse_version ''1.0.0-dev2'' = Inr (1, 0, 0, False, ''dev2'')"
    by (simp_all add: parse_version_def match_version_def is_digit_def nat_of_digits_def version_suffix_def newline_chr Let_def)
  then show "version_sort_key ''1.0.0-dev1'' = Inr a \<Longrightarrow> version_sort_key ''1.0.0-dev2'' = Inr b \<Longrightarrow> a < b"
    by (auto simp: version_sort_key_def less_char_def)
qed

end
