(* ===== verification/Repo_Refresh.thy ===== *)
theory Repo_Refresh
  imports Repo_Install
begin

text \<open>
  Refreshing a repository (\<open>exordos_core/repo/builders/repository.py\<close>): the inventory of the source becomes
  rows of elements, rows the source no longer offers go - or are retired while they are installed - and of
  the stable versions of every name the greatest is marked as the latest.  \<open>pv\<close> is the version of the
  packaging library, \<open>now\<close> the clock; a set of keys is walked in any \<open>order\<close>.
\<close>

section \<open>The latest version\<close>

text \<open>\<open>max(xs, key=f)\<close>: the first of the greatest ones.\<close>

fun first_greatest :: "'a \<times> 'k::linorder \<Rightarrow> ('a \<times> 'k) list \<Rightarrow> 'a \<times> 'k" where
  "first_greatest x [] = x"
| "first_greatest x (y # ys) = first_greatest (if snd x < snd y then y else x) ys"

definition greatest_version :: "(string \<Rightarrow> 'v::linorder option) \<Rightarrow> repo_element list \<Rightarrow> repo_error + repo_element" where
  "greatest_version pv es =
     ebind (emap (\<lambda>e. case pv (re_version e) of None \<Rightarrow> Inl (RepoBadVersion (re_version e)) | Some v \<Rightarrow> Inr (e, v)) es) (\<lambda>keyed.
     if keyed = [] then Inl RepoBadType else Inr (fst (first_greatest (hd keyed) (tl keyed))))"

definition named_in :: "repository \<Rightarrow> string \<Rightarrow> repo_db \<Rightarrow> repo_element list" where
  "named_in r name db = filter (\<lambda>e. in_repository r e \<and> re_name e = name) (rd_elements db)"

definition clear_latest :: "repo_element \<Rightarrow> repo_element \<Rightarrow> repo_db \<Rightarrow> repo_db" where
  "clear_latest e candidate db = (if re_uuid candidate \<noteq> re_uuid e \<and> re_latest candidate
     then update_element (candidate\<lparr>re_latest := False\<rparr>) db else db)"

definition set_latest_for_new_element :: "(string \<Rightarrow> 'v::linorder option) \<Rightarrow> repository \<Rightarrow> repo_element \<Rightarrow> repo_db \<Rightarrow>
    (repo_error + unit) \<times> repo_db" where
  "set_latest_for_new_element pv r e db =
     (if \<not> re_stable e then (Inr (), db)
      else let elements = named_in r (re_name e) db in
        case greatest_version pv (filter re_stable elements) of
          Inl err \<Rightarrow> (Inl err, db)
        | Inr latest_element \<Rightarrow>
            if re_uuid latest_element \<noteq> re_uuid e then (Inr (), db)
            else let db = fold (clear_latest e) elements db in
              (Inr (), if \<not> re_latest e then update_element (e\<lparr>re_latest := True\<rparr>) db else db))"

definition set_latest_for_outdated_element :: "(string \<Rightarrow> 'v::linorder option) \<Rightarrow> repository \<Rightarrow> string \<Rightarrow> repo_db \<Rightarrow>
    (repo_error + unit) \<times> repo_db" where
  "set_latest_for_outdated_element pv r name db =
     (let stable_elements = filter re_stable (named_in r name db) in
      if stable_elements = [] then (Inr (), db)
      else case greatest_version pv stable_elements of
        Inl err \<Rightarrow> (Inl err, db)
      | Inr latest_element \<Rightarrow>
          (Inr (), if \<not> re_latest latest_element then update_element (latest_element\<lparr>re_latest := True\<rparr>) db else db))"

definition retire_element :: "(string \<Rightarrow> 'v::linorder option) \<Rightarrow> repository \<Rightarrow> repo_element \<Rightarrow> repo_db \<Rightarrow>
    (repo_error + unit) \<times> repo_db" where
  "retire_element pv r e db =
     (if \<not> (re_stable e \<or> re_latest e) then (Inr (), db)
      else let was_latest_stable = (re_stable e \<and> re_latest e);
               db = update_element (e\<lparr>re_stable := False, re_latest := False\<rparr>) db
           in if was_latest_stable then set_latest_for_outdated_element pv r (re_name e) db else (Inr (), db))"

section \<open>Creation and refresh\<close>

definition add_found :: "repo_env \<Rightarrow> (string \<Rightarrow> 'v::linorder option) \<Rightarrow> repository \<Rightarrow> repo_element \<Rightarrow> repo_db \<Rightarrow>
    (repo_error + unit) \<times> repo_db" where
  "add_found env pv r e =
     act_bind (case ry_sync_mode r of SyncCopy \<Rightarrow> actualize_element env e
         | SyncLazy \<Rightarrow> act_bind (save_repo_element e) (\<lambda>_ db. (Inr e, db)))
       (\<lambda>e. set_latest_for_new_element pv r e)"

definition set_next_refresh :: "int \<Rightarrow> repository \<Rightarrow> repository" where
  "set_next_refresh now r = (if ry_refresh_rate r \<noteq> 0 then r\<lparr>ry_next_refresh := Some (now + ry_refresh_rate r)\<rparr> else r)"

definition add_listed :: "repo_env \<Rightarrow> (string \<Rightarrow> 'v::linorder option) \<Rightarrow> repository \<Rightarrow> repo_error + repo_element \<Rightarrow> unit \<Rightarrow> repo_db \<Rightarrow>
    (repo_error + unit) \<times> repo_db" where
  "add_listed env pv r item _ db = (case item of Inl err \<Rightarrow> (Inl err, db) | Inr e \<Rightarrow> add_found env pv r e db)"

definition post_create_repository :: "repo_env \<Rightarrow> (string \<Rightarrow> 'v::linorder option) \<Rightarrow> int \<Rightarrow> repository \<Rightarrow> repo_db \<Rightarrow>
    (repo_error + repository) \<times> repo_db" where
  "post_create_repository env pv now r db =
     act_bind (act_fold (add_listed env pv r) (iter_elements_in_inventory env r db) ())
       (\<lambda>_ db. (Inr (set_next_refresh now (r\<lparr>ry_status := RepositoryActive\<rparr>)), db)) db"

text \<open>The stale rows are read once, before the first of them is removed.\<close>

definition remove_stale :: "(string \<Rightarrow> 'v::linorder option) \<Rightarrow> repository \<Rightarrow> repo_element \<Rightarrow> unit \<Rightarrow> repo_db \<Rightarrow>
    (repo_error + unit) \<times> repo_db" where
  "remove_stale pv r e _ db =
     (if re_installation_state e = INSTALLED then retire_element pv r e db
      else let was_latest_stable = (re_stable e \<and> re_latest e); db = delete_repo_element e db in
        if was_latest_stable then set_latest_for_outdated_element pv r (re_name e) db else (Inr (), db))"

definition keyed_elements :: "repo_element list \<Rightarrow> (string \<times> string, repo_element) dict" where
  "keyed_elements es = fold (\<lambda>e d. dset (element_key e) e d) es []"

definition add_new :: "repo_env \<Rightarrow> (string \<Rightarrow> 'v::linorder option) \<Rightarrow> repository \<Rightarrow> (string \<times> string, repo_element) dict \<Rightarrow>
    string \<times> string \<Rightarrow> unit \<Rightarrow> repo_db \<Rightarrow> (repo_error + unit) \<times> repo_db" where
  "add_new env pv r found key _ db = (case dget found key of None \<Rightarrow> (Inl RepoKeyMissing, db) | Some e \<Rightarrow> add_found env pv r e db)"

definition refresh_repository :: "repo_env \<Rightarrow> (string \<Rightarrow> 'v::linorder option) \<Rightarrow> ((string \<times> string) list \<Rightarrow> (string \<times> string) list) \<Rightarrow>
    int \<Rightarrow> repository \<Rightarrow> repo_db \<Rightarrow> (repo_error + repository) \<times> repo_db" where
  "refresh_repository env pv order now r db =
     (let existing = map element_key (filter (in_repository r) (rd_elements db)) in
      case emap (\<lambda>item. item) (iter_elements_in_inventory env r db) of
        Inl err \<Rightarrow> (Inl err, db)
      | Inr listed \<Rightarrow>
          let found = keyed_elements listed;
              new_keys = order (filter (\<lambda>k. k \<notin> set existing) (dkeys found));
              stale = filter (\<lambda>e. in_repository r e \<and> \<not> has_key found (element_key e)) (rd_elements db) in
          act_bind (act_fold (add_new env pv r found) new_keys ()) (\<lambda>_.
          act_bind (\<lambda>db. act_fold (remove_stale pv r)
              (filter (\<lambda>e. re_uuid e \<in> re_uuid ` set stale) (rd_elements db)) () db) (\<lambda>_ db.
          (Inr (set_next_refresh now r), db))) db)"

definition refresh_due :: "int \<Rightarrow> repository \<Rightarrow> bool" where
  "refresh_due now r \<longleftrightarrow> ry_refresh_requested r \<or>
     ry_refresh_rate r \<noteq> 0 \<and> (case ry_next_refresh r of None \<Rightarrow> False | Some t \<Rightarrow> t \<le> now)"

definition check_refresh :: "int \<Rightarrow> repository list \<Rightarrow> repository list" where
  "check_refresh now = map (\<lambda>r. if refresh_due now r then r\<lparr>ry_updated_at := now\<rparr> else r)"

definition prepare_refresh_iteration :: "nat \<Rightarrow> int \<Rightarrow> repository list \<Rightarrow> repository list" where
  "prepare_refresh_iteration iteration_number now rs = (if iteration_number mod 10 \<noteq> 0 then rs else check_refresh now rs)"

definition post_update_repository :: "repo_env \<Rightarrow> (string \<Rightarrow> 'v::linorder option) \<Rightarrow> ((string \<times> string) list \<Rightarrow> (string \<times> string) list) \<Rightarrow>
    int \<Rightarrow> repository \<Rightarrow> repo_db \<Rightarrow> repository \<times> repo_db" where
  "post_update_repository env pv order now r db =
     (if \<not> refresh_due now r then (r, db)
      else case refresh_repository env pv order now r db of
        (Inl _, db) \<Rightarrow>
          ((set_next_refresh now (if ry_status r \<noteq> RepositoryDisabled then r\<lparr>ry_status := RepositoryError\<rparr> else r))
             \<lparr>ry_refresh_requested := False\<rparr>, db)
      | (Inr r, db) \<Rightarrow>
          ((if ry_status r = RepositoryError then r\<lparr>ry_status := RepositoryActive\<rparr> else r)\<lparr>ry_refresh_requested := False\<rparr>, db))"

section \<open>The greatest version\<close>

lemma first_greatest_in: "first_greatest x xs \<in> insert x (set xs)"
proof (induction x xs rule: first_greatest.induct)
  case (2 x y ys)
  then show ?case by (cases "snd x < snd y") auto
qed simp

lemma first_greatest_ge: "y \<in> insert x (set xs) \<Longrightarrow> snd y \<le> snd (first_greatest x xs)"
proof (induction x xs arbitrary: y rule: first_greatest.induct)
  case (2 x z ys)
  have *: "snd w \<le> snd (first_greatest (if snd x < snd z then z else x) ys)" if "w \<in> insert (if snd x < snd z then z else x) (set ys)" for w
    using 2 that by blast
  consider "y = x" | "y = z" | "y \<in> set ys" using 2 by auto
  then show ?case
  proof cases
    case 1
    with * [of "if snd x < snd z then z else x"] show ?thesis by (auto split: if_splits)
  next
    case 2
    with * [of "if snd x < snd z then z else x"] show ?thesis by (auto split: if_splits)
  next
    case 3
    with * show ?thesis by simp
  qed
qed simp

definition version_le :: "(string \<Rightarrow> 'v::linorder option) \<Rightarrow> repo_element \<Rightarrow> repo_element \<Rightarrow> bool" where
  "version_le pv x y \<longleftrightarrow> (\<exists>v w. pv (re_version x) = Some v \<and> pv (re_version y) = Some w \<and> v \<le> w)"

lemma version_le_trans: "version_le pv x y \<Longrightarrow> version_le pv y z \<Longrightarrow> version_le pv x z"
  by (auto simp: version_le_def)

lemma version_le_total:
  "pv (re_version x) \<noteq> None \<Longrightarrow> pv (re_version y) \<noteq> None \<Longrightarrow> version_le pv x y \<or> version_le pv y x"
  by (auto simp: version_le_def)

lemma greatest_version_Inr:
  assumes "greatest_version pv es = Inr m"
  shows "m \<in> set es" and "\<And>e. e \<in> set es \<Longrightarrow> version_le pv e m"
proof -
  let ?f = "\<lambda>e. case pv (re_version e) of None \<Rightarrow> Inl (RepoBadVersion (re_version e)) | Some v \<Rightarrow> Inr (e, v)"
  from assms obtain keyed where k: "emap ?f es = Inr keyed" "keyed \<noteq> []"
    and m: "m = fst (first_greatest (hd keyed) (tl keyed))"
    by (auto simp: greatest_version_def ebind_Inr_iff split: if_splits)
  have "list_all2 (\<lambda>e p. fst p = e \<and> pv (re_version e) = Some (snd p)) es keyed"
    using k(1) unfolding emap_Inr_iff by (rule list_all2_mono) (auto split: option.splits)
  then have es: "es = map fst keyed" and pv: "\<forall>p \<in> set keyed. pv (re_version (fst p)) = Some (snd p)"
    by (induction) auto
  let ?g = "first_greatest (hd keyed) (tl keyed)"
  have all: "insert (hd keyed) (set (tl keyed)) = set keyed" using k(2) by (metis list.collapse list.simps(15))
  have g: "?g \<in> set keyed" using first_greatest_in [of "hd keyed" "tl keyed"] unfolding all .
  then show "m \<in> set es" unfolding es m by simp
  fix e assume "e \<in> set es"
  then obtain p where p: "p \<in> set keyed" "e = fst p" unfolding es by auto
  have "snd p \<le> snd ?g" using first_greatest_ge [of p "hd keyed" "tl keyed"] p(1) unfolding all by simp
  with p g pv show "version_le pv e m" unfolding version_le_def m by blast
qed

section \<open>What is marked as the latest\<close>

definition same_name :: "repo_element \<Rightarrow> repo_element \<Rightarrow> bool" where
  "same_name x y \<longleftrightarrow> in_repository (re_repository x) y \<and> re_name x = re_name y"

lemma same_name_refl [simp]: "same_name x x"
  by (simp add: same_name_def in_repository_def)

lemma same_name_sym: "same_name x y \<Longrightarrow> same_name y x"
  by (simp add: same_name_def in_repository_def)

lemma same_name_trans: "same_name x y \<Longrightarrow> same_name y z \<Longrightarrow> same_name x z"
  by (simp add: same_name_def in_repository_def)

lemma same_name_update [simp]:
  "same_name (x\<lparr>re_latest := b\<rparr>) y = same_name x y" "same_name x (y\<lparr>re_latest := b\<rparr>) = same_name x y"
  "version_le pv (x\<lparr>re_latest := b\<rparr>) y = version_le pv x y" "version_le pv x (y\<lparr>re_latest := b\<rparr>) = version_le pv x y"
  by (simp_all add: same_name_def in_repository_def version_le_def)

text \<open>Whatever stable row is marked is the greatest of its name, and the only marked one.\<close>

definition latest_sound :: "(string \<Rightarrow> 'v::linorder option) \<Rightarrow> repo_element set \<Rightarrow> bool" where
  "latest_sound pv S \<longleftrightarrow> (\<forall>x \<in> S. \<forall>y \<in> S. same_name x y \<longrightarrow> re_stable x \<longrightarrow> re_stable y \<longrightarrow> re_latest x \<longrightarrow>
     version_le pv y x \<and> (re_latest y \<longrightarrow> re_uuid x = re_uuid y))"

definition latest_complete :: "repo_element set \<Rightarrow> bool" where
  "latest_complete S \<longleftrightarrow> (\<forall>x \<in> S. re_stable x \<longrightarrow> (\<exists>y \<in> S. same_name x y \<and> re_stable y \<and> re_latest y))"

abbreviation rows :: "repo_db \<Rightarrow> repo_element set" where
  "rows db \<equiv> set (rd_elements db)"

lemma latest_soundD:
  "latest_sound pv S \<Longrightarrow> x \<in> S \<Longrightarrow> y \<in> S \<Longrightarrow> same_name x y \<Longrightarrow> re_stable x \<Longrightarrow> re_stable y \<Longrightarrow> re_latest x \<Longrightarrow>
    version_le pv y x \<and> (re_latest y \<longrightarrow> re_uuid x = re_uuid y)"
  unfolding latest_sound_def by blast

lemma latest_soundI:
  assumes "\<And>x y. x \<in> S \<Longrightarrow> y \<in> S \<Longrightarrow> same_name x y \<Longrightarrow> re_stable x \<Longrightarrow> re_stable y \<Longrightarrow> re_latest x \<Longrightarrow>
    version_le pv y x \<and> (re_latest y \<longrightarrow> re_uuid x = re_uuid y)"
  shows "latest_sound pv S"
  unfolding latest_sound_def using assms by blast

lemma latest_sound_subset: "latest_sound pv S \<Longrightarrow> T \<subseteq> S \<Longrightarrow> latest_sound pv T"
  unfolding latest_sound_def by blast

text \<open>Clearing the marks of a list of rows.\<close>

lemma clear_latest_fold:
  assumes "distinct (map re_uuid cs)" "set cs \<subseteq> rows db" "wf_repo db"
  shows "rd_elements (fold (clear_latest e) cs db) =
    map (\<lambda>x. if x \<in> set cs \<and> re_uuid x \<noteq> re_uuid e then x\<lparr>re_latest := False\<rparr> else x) (rd_elements db)"
  using assms
proof (induction cs arbitrary: db)
  case (Cons c cs)
  let ?db = "clear_latest e c db"
  have c: "c \<in> rows db" using Cons.prems(2) by simp
  have uniq: "x = c" if "x \<in> rows db" "re_uuid x = re_uuid c" for x
    using wf_repo_unique [OF Cons.prems(3) that(1) c that(2)] .
  have same: "c\<lparr>re_latest := False\<rparr> = c" if "\<not> re_latest c" using that by (cases c) simp
  have db: "rd_elements ?db = map (\<lambda>x. if x = c \<and> re_uuid c \<noteq> re_uuid e then c\<lparr>re_latest := False\<rparr> else x) (rd_elements db)"
  proof (cases "re_uuid c \<noteq> re_uuid e \<and> re_latest c")
    case True
    then show ?thesis using uniq by (auto simp: clear_latest_def update_element_def map_elements_def)
  next
    case False
    then have "rd_elements ?db = map (\<lambda>x. x) (rd_elements db)" by (auto simp: clear_latest_def)
    also have "\<dots> = map (\<lambda>x. if x = c \<and> re_uuid c \<noteq> re_uuid e then c\<lparr>re_latest := False\<rparr> else x) (rd_elements db)"
      using False same by (intro map_cong) auto
    finally show ?thesis .
  qed
  have notin: "re_uuid c \<notin> re_uuid ` set cs" using Cons.prems(1) by simp
  have sub: "set cs \<subseteq> rows ?db"
  proof
    fix x assume x: "x \<in> set cs"
    then have "x \<noteq> c" using notin by auto
    moreover have "x \<in> rows db" using x Cons.prems(2) by auto
    ultimately show "x \<in> rows ?db" unfolding db by (auto simp: image_iff intro!: bexI [of _ x])
  qed
  have wf: "wf_repo ?db" using Cons.prems(3) by (simp add: clear_latest_def)
  have cleared: "c\<lparr>re_latest := False\<rparr> \<notin> set cs" using notin imageI [of "c\<lparr>re_latest := False\<rparr>" "set cs" re_uuid] by auto
  have "rd_elements (fold (clear_latest e) cs ?db) =
      map (\<lambda>x. if x \<in> set cs \<and> re_uuid x \<noteq> re_uuid e then x\<lparr>re_latest := False\<rparr> else x) (rd_elements ?db)"
    by (rule Cons.IH [OF _ sub wf]) (use Cons.prems(1) in simp)
  then show ?case unfolding db using cleared by (auto simp: comp_def)
qed simp

text \<open>The rows after a new element was made the latest.\<close>

definition promote :: "repo_element \<Rightarrow> repo_element list \<Rightarrow> repo_element \<Rightarrow> repo_element" where
  "promote e cs x = (if re_uuid x = re_uuid e then e\<lparr>re_latest := True\<rparr>
     else if x \<in> set cs then x\<lparr>re_latest := False\<rparr> else x)"

lemma promote_uuid [simp]: "re_uuid (promote e cs x) = re_uuid x"
  by (simp add: promote_def)

lemma named_in_set: "in_repository r e \<Longrightarrow> y \<in> set (named_in r (re_name e) db) \<longleftrightarrow> y \<in> rows db \<and> same_name e y"
  by (auto simp: named_in_def same_name_def in_repository_def)

lemma named_in_uuids: "wf_repo db \<Longrightarrow> distinct (map re_uuid (named_in r n db))"
  by (simp add: wf_repo_def named_in_def distinct_map_filter)

lemma set_latest_new_rows:
  assumes "set_latest_for_new_element pv r e db = (Inr u, db')" and "wf_repo db" "e \<in> rows db" "in_repository r e" "\<not> re_latest e"
  shows "rd_elements db' = rd_elements db \<and> (\<not> re_stable e \<or> (\<exists>m \<in> rows db. same_name e m \<and> re_stable m \<and> re_uuid m \<noteq> re_uuid e \<and> version_le pv e m)) \<or>
    rd_elements db' = map (promote e (named_in r (re_name e) db)) (rd_elements db) \<and> re_stable e \<and>
    (\<forall>y \<in> rows db. same_name e y \<longrightarrow> re_stable y \<longrightarrow> version_le pv y e)"
proof (cases "re_stable e")
  case True
  let ?es = "named_in r (re_name e) db"
  have named: "y \<in> set ?es \<longleftrightarrow> y \<in> rows db \<and> same_name e y" for y by (rule named_in_set [OF assms(4)])
  from assms(1) True obtain m where m: "greatest_version pv (filter re_stable ?es) = Inr m"
    by (auto simp: set_latest_for_new_element_def Let_def split: sum.splits)
  note great = greatest_version_Inr [OF m]
  have m_in: "m \<in> rows db" "same_name e m" "re_stable m" using great(1) named by auto
  show ?thesis
  proof (cases "re_uuid m = re_uuid e")
    case False
    then have "db' = db" using assms(1) True m by (simp add: set_latest_for_new_element_def Let_def)
    moreover have "version_le pv e m" using great(2) [of e] named assms(3) True by simp
    ultimately show ?thesis using m_in False by blast
  next
    case uuid: True
    then have "m = e" using wf_repo_unique [OF assms(2) m_in(1) assms(3)] by simp
    let ?mid = "fold (clear_latest e) ?es db"
    have db': "db' = update_element (e\<lparr>re_latest := True\<rparr>) ?mid"
      using assms(1,5) True m uuid by (simp add: set_latest_for_new_element_def Let_def)
    have mid: "rd_elements ?mid =
        map (\<lambda>x. if x \<in> set ?es \<and> re_uuid x \<noteq> re_uuid e then x\<lparr>re_latest := False\<rparr> else x) (rd_elements db)"
      by (rule clear_latest_fold [OF named_in_uuids [OF assms(2)] _ assms(2)]) (use named in auto)
    have "rd_elements db' = map (promote e ?es) (rd_elements db)"
      unfolding db' update_element_def map_elements_def by (simp add: mid promote_def comp_def)
    moreover have "version_le pv y e" if "y \<in> rows db" "same_name e y" "re_stable y" for y
      using great(2) [of y] named that \<open>m = e\<close> by simp
    ultimately show ?thesis using True by blast
  qed
qed (use assms(1) in \<open>simp add: set_latest_for_new_element_def\<close>)

lemma set_latest_new:
  assumes "set_latest_for_new_element pv r e db = (Inr u, db')" and "wf_repo db" "e \<in> rows db" "in_repository r e" "\<not> re_latest e"
    and sound: "latest_sound pv (rows db - {e})" and complete: "latest_complete (rows db - {e})"
  shows "latest_sound pv (rows db') \<and> latest_complete (rows db') \<and> map re_uuid (rd_elements db') = map re_uuid (rd_elements db)"
  using set_latest_new_rows [OF assms(1-5)]
proof (elim disjE conjE)
  assume same: "rd_elements db' = rd_elements db" and ns: "\<not> re_stable e"
  have "latest_sound pv (rows db)" using sound ns assms(5) by (intro latest_soundI) (auto dest: latest_soundD)
  moreover have "latest_complete (rows db)" using complete ns unfolding latest_complete_def by blast
  ultimately show ?thesis using same by simp
next
  assume same: "rd_elements db' = rd_elements db"
    and "\<exists>m \<in> rows db. same_name e m \<and> re_stable m \<and> re_uuid m \<noteq> re_uuid e \<and> version_le pv e m"
  then obtain m where m: "m \<in> rows db - {e}" "same_name e m" "re_stable m" "version_le pv e m" by auto
  have sound': "latest_sound pv (rows db)"
  proof (rule latest_soundI)
    fix x y assume *: "x \<in> rows db" "y \<in> rows db" "same_name x y" "re_stable x" "re_stable y" "re_latest x"
    have x: "x \<in> rows db - {e}" using * assms(5) by auto
    show "version_le pv y x \<and> (re_latest y \<longrightarrow> re_uuid x = re_uuid y)"
    proof (cases "y = e")
      case True
      have "same_name x m" using * m(2) True same_name_trans by blast
      then have "version_le pv m x" using latest_soundD [OF sound x m(1)] * m(3) by blast
      then show ?thesis using True m(4) assms(5) version_le_trans by blast
    next
      case False
      then show ?thesis using latest_soundD [OF sound x, of y] * by blast
    qed
  qed
  have "latest_complete (rows db)" unfolding latest_complete_def
  proof (intro ballI impI)
    fix x assume x: "x \<in> rows db" "re_stable x"
    define z where "z = (if x = e then m else x)"
    have "z \<in> rows db - {e}" "re_stable z" "same_name x z" using x m by (auto simp: z_def)
    then obtain y where "y \<in> rows db" "same_name z y" "re_stable y" "re_latest y" using complete unfolding latest_complete_def by blast
    with \<open>same_name x z\<close> show "\<exists>y \<in> rows db. same_name x y \<and> re_stable y \<and> re_latest y" using same_name_trans by blast
  qed
  with sound' same show ?thesis by simp
next
  let ?es = "named_in r (re_name e) db"
  assume db': "rd_elements db' = map (promote e ?es) (rd_elements db)" and st: "re_stable e"
    and great: "\<forall>y \<in> rows db. same_name e y \<longrightarrow> re_stable y \<longrightarrow> version_le pv y e"
  have named: "y \<in> set ?es \<longleftrightarrow> y \<in> rows db \<and> same_name e y" for y by (rule named_in_set [OF assms(4)])
  have row: "promote e ?es x = (if x = e then e\<lparr>re_latest := True\<rparr> else if same_name e x then x\<lparr>re_latest := False\<rparr> else x)"
    if "x \<in> rows db" for x
    using that wf_repo_unique [OF assms(2) that assms(3)] named by (auto simp: promote_def)
  have simps: "same_name (promote e ?es x) (promote e ?es y) = same_name x y" "re_stable (promote e ?es x) = re_stable x"
      "version_le pv (promote e ?es y) (promote e ?es x) = version_le pv y x"
      "re_latest (promote e ?es x) \<longleftrightarrow> x = e \<or> \<not> same_name e x \<and> re_latest x"
    if "x \<in> rows db" "y \<in> rows db" for x y
    using row [OF that(1)] row [OF that(2)] by auto
  have "latest_sound pv (rows db')"
  proof (rule latest_soundI)
    fix x' y' assume *: "x' \<in> rows db'" "y' \<in> rows db'" "same_name x' y'" "re_stable x'" "re_stable y'" "re_latest x'"
    from *(1,2) obtain x y where xy: "x \<in> rows db" "y \<in> rows db" "x' = promote e ?es x" "y' = promote e ?es y"
      unfolding db' by auto
    note s = simps [OF xy(1,2)] simps [OF xy(2,1)]
    have n: "same_name x y" "re_stable x" "re_stable y" "x = e \<or> \<not> same_name e x \<and> re_latest x" using * s unfolding xy by auto
    show "version_le pv y' x' \<and> (re_latest y' \<longrightarrow> re_uuid x' = re_uuid y')"
    proof (cases "x = e")
      case True
      then have "version_le pv y e" using great xy(2) n by blast
      moreover have "re_latest y' \<longrightarrow> y = e" using s n(1) True unfolding xy by auto
      ultimately show ?thesis using s True unfolding xy by auto
    next
      case False
      then have no: "\<not> same_name e x" "re_latest x" using n(4) by auto
      then have "y \<noteq> e" using n(1) same_name_sym by blast
      moreover have "\<not> same_name e y" using no n(1) same_name_sym same_name_trans by blast
      ultimately have "version_le pv y x \<and> (re_latest y \<longrightarrow> re_uuid x = re_uuid y)"
        using latest_soundD [OF sound, of x y] xy False n no(2) by blast
      then show ?thesis using s \<open>y \<noteq> e\<close> unfolding xy by auto
    qed
  qed
  moreover have "latest_complete (rows db')" unfolding latest_complete_def
  proof (intro ballI impI)
    fix x' assume x': "x' \<in> rows db'" "re_stable x'"
    then obtain x where x: "x \<in> rows db" "x' = promote e ?es x" unfolding db' by auto
    have stx: "re_stable x" using x' simps(2) [OF x(1) x(1)] unfolding x by simp
    have ex: "\<exists>y \<in> rows db. same_name x y \<and> re_stable y \<and> (y = e \<or> \<not> same_name e y \<and> re_latest y)"
    proof (cases "same_name e x")
      case True
      then show ?thesis using assms(3) st same_name_sym by blast
    next
      case False
      then have "x \<in> rows db - {e}" using x(1) by auto
      then obtain y where y: "y \<in> rows db" "same_name x y" "re_stable y" "re_latest y"
        using complete stx unfolding latest_complete_def by blast
      moreover have "\<not> same_name e y" using y(2) False same_name_sym same_name_trans by blast
      ultimately show ?thesis by blast
    qed
    then obtain y where y: "y \<in> rows db" "same_name x y" "re_stable y" "y = e \<or> \<not> same_name e y \<and> re_latest y" by blast
    then have "promote e ?es y \<in> rows db'" unfolding db' by simp
    moreover note simps [OF x(1) y(1)] simps [OF y(1) x(1)]
    ultimately show "\<exists>y \<in> rows db'. same_name x' y \<and> re_stable y \<and> re_latest y" using y unfolding x by blast
  qed
  ultimately show ?thesis by (simp add: db' comp_def)
qed

text \<open>Marking changes neither the rows nor the repositories they belong to.\<close>

definition row_id :: "repo_element \<Rightarrow> uuid \<times> repository" where
  "row_id e = (re_uuid e, re_repository e)"

lemma set_latest_new_ids:
  assumes "set_latest_for_new_element pv r e db = (Inr u, db')" and "wf_repo db" "e \<in> rows db" "in_repository r e" "\<not> re_latest e"
  shows "map row_id (rd_elements db') = map row_id (rd_elements db)"
proof -
  have "row_id (promote e cs x) = row_id x" if "x \<in> rows db" for cs x
    using wf_repo_unique [OF assms(2) that assms(3)] by (auto simp: promote_def row_id_def)
  then show ?thesis using set_latest_new_rows [OF assms] by (auto simp: comp_def)
qed

section \<open>Adding what the source lists\<close>

definition marks_ok :: "(string \<Rightarrow> 'v::linorder option) \<Rightarrow> repo_db \<Rightarrow> bool" where
  "marks_ok pv db \<longleftrightarrow> wf_repo db \<and> latest_sound pv (rows db) \<and> latest_complete (rows db)"

lemma save_fresh:
  assumes "save_repo_element e db = (Inr u, db')" "re_uuid e \<notin> re_uuid ` rows db"
  shows "rd_elements db' = rd_elements db @ [e]"
  using assms by (auto simp: save_repo_element_def map_elements_def image_iff split: if_splits)

lemma actualize_fresh:
  assumes "actualize_element env e db = (Inr e', db')" "re_uuid e \<notin> re_uuid ` rows db"
  shows "same_row e e' \<and> rd_elements db' = rd_elements db @ [e']"
proof -
  from assms(1) obtain d where d: "rv_driver env (re_repository e) = Inr d" by (auto simp: actualize_element_def split: sum.splits)
  from assms(1) obtain new_element artifacts where got: "get_repo_element env d (re_name e) (re_version e) db = Inr (new_element, artifacts)"
    by (auto simp: actualize_element_def d split: sum.splits)
  let ?e = "e\<lparr>re_specification := re_specification new_element, re_inventory := re_inventory new_element,
      re_manifest := re_manifest new_element\<rparr>"
  from assms(1) obtain db1 u where e': "e' = ?e" and "save_repo_element ?e db = (Inr (), db1)"
    and "act_fold insert_artifact (map (\<lambda>a. a\<lparr>ra_element := re_uuid ?e\<rparr>) artifacts) () (drop_artifacts (re_uuid ?e) db1) = (Inr u, db')"
    by (auto simp: actualize_element_def d got Let_def act_bind_Inr_iff)
  then have save: "save_repo_element e' db = (Inr (), db1)"
    and ins: "act_fold insert_artifact (map (\<lambda>a. a\<lparr>ra_element := re_uuid e'\<rparr>) artifacts) () (drop_artifacts (re_uuid e') db1) = (Inr u, db')"
    by (simp_all only: e')
  have same: "same_row e e'" by (simp add: same_row_def e')
  have "rd_elements db' = rd_elements (drop_artifacts (re_uuid e') db1)"
    using insert_artifacts_elements [of "map (\<lambda>a. a\<lparr>ra_element := re_uuid e'\<rparr>) artifacts" "()" "drop_artifacts (re_uuid e') db1"] ins by simp
  moreover have "rd_elements db1 = rd_elements db @ [e']"
    by (rule save_fresh [OF save]) (use assms(2) same_row_simps(1) [OF same] in simp)
  ultimately show ?thesis using same by (simp add: drop_artifacts_def)
qed

lemma same_row_marks: "same_row x y \<Longrightarrow> re_stable y = re_stable x \<and> re_latest y = re_latest x"
  by (cases x; cases y; simp add: same_row_def)

lemma add_found_marks:
  assumes "add_found env pv r e db = (Inr u, db')" "marks_ok pv db"
    and "re_uuid e \<notin> re_uuid ` rows db" "in_repository r e" "\<not> re_latest e"
  shows "marks_ok pv db'" and "map row_id (rd_elements db') = map row_id (rd_elements db) @ [row_id e]"
proof -
  from assms(1,3) obtain e' db1 where e': "same_row e e'" "rd_elements db1 = rd_elements db @ [e']"
    and latest: "set_latest_for_new_element pv r e' db1 = (Inr u, db')"
  proof (cases "ry_sync_mode r")
    case SyncCopy
    then obtain e' db1 where "actualize_element env e db = (Inr e', db1)" "set_latest_for_new_element pv r e' db1 = (Inr u, db')"
      using assms(1) by (auto simp: add_found_def act_bind_Inr_iff)
    with that actualize_fresh [OF _ assms(3)] show ?thesis by blast
  next
    case SyncLazy
    then obtain db1 where a: "save_repo_element e db = (Inr (), db1)" and b: "set_latest_for_new_element pv r e db1 = (Inr u, db')"
      using assms(1) by (auto simp: add_found_def act_bind_Inr_iff)
    have "rd_elements db1 = rd_elements db @ [e]" by (rule save_fresh [OF a assms(3)])
    then show ?thesis by (rule that [OF same_row_refl _ b])
  qed
  note s = same_row_simps [OF e'(1)]
  have wf: "wf_repo db1" using assms(2,3) s(1) e'(2) by (auto simp: marks_ok_def wf_repo_def)
  have "e' \<notin> rows db" using assms(3) s(1) by (metis imageI)
  then have "rows db1 - {e'} = rows db" using e'(2) by auto
  moreover have "in_repository r e'" "\<not> re_latest e'" using assms(4,5) s(6) same_row_marks [OF e'(1)] by (simp_all add: in_repository_def)
  ultimately have "latest_sound pv (rows db') \<and> latest_complete (rows db') \<and> map re_uuid (rd_elements db') = map re_uuid (rd_elements db1)"
    using set_latest_new [OF latest wf] assms(2) e'(2) by (simp add: marks_ok_def)
  with wf show "marks_ok pv db'" by (simp add: marks_ok_def wf_repo_def)
  have "map row_id (rd_elements db') = map row_id (rd_elements db1)"
    by (rule set_latest_new_ids [OF latest wf]) (use e'(2) assms(4,5) s(6) same_row_marks [OF e'(1)] in \<open>simp_all add: in_repository_def\<close>)
  then show "map row_id (rd_elements db') = map row_id (rd_elements db) @ [row_id e]" using e'(2) s(1,6) by (simp add: row_id_def)
qed

lemma row_id_uuids: "map row_id xs = map row_id ys \<Longrightarrow> map re_uuid xs = map re_uuid ys"
  by (drule arg_cong [where f = "map fst"]) (simp add: row_id_def comp_def)

text \<open>The elements of a listing are new, distinct and not marked yet.\<close>

definition listed :: "(repo_error + repo_element) list \<Rightarrow> repo_element list" where
  "listed items = concat (map (\<lambda>i. case i of Inr e \<Rightarrow> [e] | Inl _ \<Rightarrow> []) items)"

definition fresh_elements :: "repository \<Rightarrow> repo_db \<Rightarrow> repo_element list \<Rightarrow> bool" where
  "fresh_elements r db es \<longleftrightarrow> distinct (map re_uuid es) \<and>
     list_all (\<lambda>e. re_uuid e \<notin> re_uuid ` rows db \<and> in_repository r e \<and> \<not> re_latest e) es"

lemma iter_elements_new:
  assumes "Inr e \<in> set (iter_elements_in_inventory env r db)"
  shows "in_repository r e \<and> \<not> re_latest e \<and> re_uuid e = rv_fresh env (re_name e) (re_version e) \<and>
    re_installation_state e = UNINSTALLED"
  using assms
  by (auto simp: iter_elements_in_inventory_def inventory_element_def ebind_Inr_iff new_repo_element_def in_repository_def Let_def
      split: sum.splits dest!: sym [of "Inr e"])

lemma add_found_step:
  assumes "add_found env pv r e s = (Inr u, t)" "marks_ok pv s" "map row_id (rd_elements s) = map row_id (rd_elements db) @ map row_id es"
    and "fresh_elements r db (es @ e # rest)"
  shows "marks_ok pv t \<and> map row_id (rd_elements t) = map row_id (rd_elements db) @ map row_id (es @ [e])"
proof -
  have new: "re_uuid e \<notin> re_uuid ` rows db" "in_repository r e" "\<not> re_latest e" "re_uuid e \<notin> re_uuid ` set es"
    using assms(4) unfolding fresh_elements_def by auto
  have "map re_uuid (rd_elements s) = map re_uuid (rd_elements db @ es)" by (rule row_id_uuids) (simp add: assms(3))
  then have "re_uuid ` rows s = re_uuid ` rows db \<union> re_uuid ` set es"
    by (drule_tac arg_cong [where f = set]) (simp add: image_Un)
  then have fresh: "re_uuid e \<notin> re_uuid ` rows s" using new by simp
  from add_found_marks [OF assms(1,2) fresh new(2,3)] assms(3) show ?thesis by simp
qed

lemma fresh_elements_sub:
  assumes "fresh_elements r db es" "set ds \<subseteq> set es" "distinct ds"
  shows "fresh_elements r db ds"
proof -
  have "inj_on re_uuid (set ds)" using assms(1,2) by (auto simp: fresh_elements_def distinct_map intro: inj_on_subset)
  then show ?thesis using assms by (auto simp: fresh_elements_def distinct_map list_all_iff)
qed

lemma post_create_marks:
  assumes "post_create_repository env pv now r db = (Inr r', db')" "marks_ok pv db"
    and fresh: "fresh_elements r db (listed (iter_elements_in_inventory env r db))"
  shows "marks_ok pv db'"
proof -
  from assms(1) obtain u where loop: "act_fold (add_listed env pv r) (iter_elements_in_inventory env r db) () db = (Inr u, db')"
    by (auto simp: post_create_repository_def act_bind_Inr_iff)
  have "marks_ok pv db' \<and> map row_id (rd_elements db') =
      map row_id (rd_elements db) @ map row_id (listed (iter_elements_in_inventory env r db))"
  proof (rule act_fold_Inr_induct [OF loop, of "\<lambda>ys _ t. marks_ok pv t \<and>
      map row_id (rd_elements t) = map row_id (rd_elements db) @ map row_id (listed ys)"])
    show "marks_ok pv db \<and> map row_id (rd_elements db) = map row_id (rd_elements db) @ map row_id (listed [])"
      using assms(2) by (simp add: listed_def)
  next
    fix ys item zs and a b :: unit and s t
    assume items: "iter_elements_in_inventory env r db = ys @ item # zs"
      and I: "marks_ok pv s \<and> map row_id (rd_elements s) = map row_id (rd_elements db) @ map row_id (listed ys)"
      and step: "add_listed env pv r item a s = (Inr b, t)"
    from step obtain e where e: "item = Inr e" and add: "add_found env pv r e s = (Inr b, t)"
      by (auto simp: add_listed_def split: sum.splits)
    have parts: "listed (ys @ item # zs) = listed ys @ e # listed zs" "listed (ys @ [item]) = listed ys @ [e]"
      by (simp_all add: listed_def e)
    show "marks_ok pv t \<and> map row_id (rd_elements t) = map row_id (rd_elements db) @ map row_id (listed (ys @ [item]))"
      unfolding parts using add_found_step [OF add] I fresh unfolding items parts by blast
  qed
  then show ?thesis by simp
qed

section \<open>Removing what the source no longer lists\<close>

text \<open>A row that is still as it was read, but for the mark it may have been given since.\<close>

definition as_read :: "repo_db \<Rightarrow> repo_element \<Rightarrow> bool" where
  "as_read db z \<longleftrightarrow> z \<in> rows db \<or> z\<lparr>re_latest := True\<rparr> \<in> rows db"

lemma outdated_rows:
  assumes "set_latest_for_outdated_element pv r name db = (Inr u, db')" "wf_repo db"
  shows "rd_elements db' = rd_elements db \<or> (\<exists>m \<in> rows db. in_repository r m \<and> re_name m = name \<and> re_stable m \<and>
    (\<forall>y \<in> rows db. same_name m y \<longrightarrow> re_stable y \<longrightarrow> version_le pv y m) \<and> db' = update_element (m\<lparr>re_latest := True\<rparr>) db)"
proof (cases "filter re_stable (named_in r name db) = []")
  case False
  with assms(1) obtain m where m: "greatest_version pv (filter re_stable (named_in r name db)) = Inr m"
    and db': "db' = (if \<not> re_latest m then update_element (m\<lparr>re_latest := True\<rparr>) db else db)"
    by (auto simp: set_latest_for_outdated_element_def Let_def split: sum.splits)
  note great = greatest_version_Inr [OF m]
  have "m \<in> rows db \<and> in_repository r m \<and> re_name m = name \<and> re_stable m" using great(1) by (auto simp: named_in_def)
  moreover have "\<forall>y \<in> rows db. same_name m y \<longrightarrow> re_stable y \<longrightarrow> version_le pv y m"
    using great(2) calculation by (auto simp: named_in_def same_name_def in_repository_def)
  ultimately show ?thesis using db' by (cases "re_latest m") auto
qed (use assms(1) in \<open>simp add: set_latest_for_outdated_element_def Let_def\<close>)

lemma outdated_sound:
  assumes "set_latest_for_outdated_element pv r name db = (Inr u, db')" "wf_repo db" "latest_sound pv (rows db)"
    and none: "\<And>x. x \<in> rows db \<Longrightarrow> in_repository r x \<Longrightarrow> re_name x = name \<Longrightarrow> re_stable x \<Longrightarrow> \<not> re_latest x"
  shows "latest_sound pv (rows db') \<and> wf_repo db' \<and> (\<forall>z. as_read db z \<longrightarrow> as_read db' z)"
  using outdated_rows [OF assms(1,2)]
proof (elim disjE bexE conjE)
  assume "rd_elements db' = rd_elements db"
  with assms(2,3) show ?thesis by (simp add: wf_repo_def as_read_def)
next
  fix m assume m: "m \<in> rows db" "in_repository r m" "re_name m = name" "re_stable m"
    and great: "\<forall>y \<in> rows db. same_name m y \<longrightarrow> re_stable y \<longrightarrow> version_le pv y m"
    and db': "db' = update_element (m\<lparr>re_latest := True\<rparr>) db"
  have rows': "rows db' = (rows db - {m}) \<union> {m\<lparr>re_latest := True\<rparr>}"
    using m(1) wf_repo_unique [OF assms(2) _ m(1)] by (auto simp: db' set_update_element)
  have none_m: "\<not> re_latest y" if "y \<in> rows db" "same_name m y" "re_stable y" for y
    using none [OF that(1)] that m by (auto simp: same_name_def in_repository_def)
  have "latest_sound pv (rows db')"
  proof (rule latest_soundI)
    fix x y assume *: "x \<in> rows db'" "y \<in> rows db'" "same_name x y" "re_stable x" "re_stable y" "re_latest x"
    let ?m = "m\<lparr>re_latest := True\<rparr>"
    from *(1,2) have c: "(x = ?m \<or> x \<in> rows db) \<and> (y = ?m \<or> y \<in> rows db)" unfolding rows' by auto
    have mm: "version_le pv m m" using great m by simp
    from c consider "x = ?m" "y = ?m" | "x = ?m" "y \<in> rows db" | "x \<in> rows db" "y = ?m" | "x \<in> rows db" "y \<in> rows db" by blast
    then show "version_le pv y x \<and> (re_latest y \<longrightarrow> re_uuid x = re_uuid y)"
    proof cases
      case 1
      then show ?thesis using mm by simp
    next
      case 2
      then have "same_name m y" using * by simp
      then show ?thesis using 2 great none_m * by simp
    next
      case 3
      then have "same_name m x" using * same_name_sym by fastforce
      then show ?thesis using none_m 3 * by blast
    next
      case 4
      then show ?thesis using latest_soundD [OF assms(3)] * by blast
    qed
  qed
  moreover have "as_read db' z" if "as_read db z" for z
    using that unfolding as_read_def rows' by (cases "z = m"; cases "z\<lparr>re_latest := True\<rparr> = m") auto
  ultimately show ?thesis using assms(2) by (simp add: db')
qed

lemma as_read_latest: "as_read db e \<Longrightarrow> re_latest e \<Longrightarrow> e \<in> rows db"
  by (cases e) (auto simp: as_read_def)

lemma as_read_sub:
  assumes "{x \<in> rows s. re_uuid x \<noteq> u} \<subseteq> rows t" "re_uuid z \<noteq> u" "as_read s z"
  shows "as_read t z"
  using assms by (auto simp: as_read_def)

text \<open>A marked row of a name was the only one, so nothing is marked once it is gone.\<close>

lemma remove_stale_sound:
  assumes "remove_stale pv r e a s = (Inr b, t)" and wf: "wf_repo s" and sound: "latest_sound pv (rows s)"
    and e: "as_read s e" "in_repository r e"
  shows "latest_sound pv (rows t) \<and> wf_repo t \<and> (\<forall>z. re_uuid z \<noteq> re_uuid e \<longrightarrow> as_read s z \<longrightarrow> as_read t z)"
proof -
  define left where "left = {x \<in> rows s. re_uuid x \<noteq> re_uuid e}"
  have sound_left: "latest_sound pv left" by (rule latest_sound_subset [OF sound]) (simp add: left_def)
  have none: "\<not> re_latest x" if "re_stable e" "re_latest e" "x \<in> left" "in_repository r x" "re_name x = re_name e" "re_stable x" for x
  proof
    assume "re_latest x"
    have "same_name e x" using that(4,5) e(2) by (simp add: same_name_def in_repository_def)
    then have "re_uuid e = re_uuid x"
      using latest_soundD [OF sound as_read_latest [OF e(1) that(2)], of x] that \<open>re_latest x\<close> by (simp add: left_def)
    with that(3) show False by (simp add: left_def)
  qed
  have step: "latest_sound pv (rows t) \<and> wf_repo t \<and> (\<forall>z. re_uuid z \<noteq> re_uuid e \<longrightarrow> as_read s z \<longrightarrow> as_read t z)"
    if mid: "latest_sound pv (rows mid)" "wf_repo mid" "left \<subseteq> rows mid" "\<And>x. x \<in> rows mid \<Longrightarrow> re_stable x \<Longrightarrow> x \<in> left"
      and t: "(if re_stable e \<and> re_latest e then set_latest_for_outdated_element pv r (re_name e) mid else (Inr (), mid)) = (Inr b, t)" for mid
  proof -
    have read: "as_read mid z" if "re_uuid z \<noteq> re_uuid e" "as_read s z" for z
      by (rule as_read_sub [OF _ that]) (use mid(3) in \<open>simp add: left_def\<close>)
    show ?thesis
    proof (cases "re_stable e \<and> re_latest e")
      case True
      then have "set_latest_for_outdated_element pv r (re_name e) mid = (Inr b, t)" using t by simp
      from outdated_sound [OF this mid(2,1)] none mid(4) True read show ?thesis by blast
    next
      case False
      with t mid read show ?thesis by auto
    qed
  qed
  show ?thesis
  proof (cases "re_installation_state e = INSTALLED")
    case retire: True
    show ?thesis
    proof (cases "re_stable e \<or> re_latest e")
      case True
      let ?e = "e\<lparr>re_stable := False, re_latest := False\<rparr>"
      have r: "rows (update_element ?e s) = left \<union> (if re_uuid e \<in> re_uuid ` rows s then {?e} else {})"
        by (simp add: set_update_element left_def)
      show ?thesis
      proof (rule step)
        show "latest_sound pv (rows (update_element ?e s))"
        proof (rule latest_soundI)
          fix x y assume *: "x \<in> rows (update_element ?e s)" "y \<in> rows (update_element ?e s)"
            "same_name x y" "re_stable x" "re_stable y" "re_latest x"
          then have "x \<in> left" "y \<in> left" unfolding r by (auto split: if_splits)
          with latest_soundD [OF sound_left] * show "version_le pv y x \<and> (re_latest y \<longrightarrow> re_uuid x = re_uuid y)" by blast
        qed
        show "wf_repo (update_element ?e s)" using wf by simp
        show "left \<subseteq> rows (update_element ?e s)" unfolding r by simp
        show "x \<in> left" if "x \<in> rows (update_element ?e s)" "re_stable x" for x using that unfolding r by (auto split: if_splits)
        show "(if re_stable e \<and> re_latest e then set_latest_for_outdated_element pv r (re_name e) (update_element ?e s)
            else (Inr (), update_element ?e s)) = (Inr b, t)"
          using assms(1) retire True by (simp add: remove_stale_def retire_element_def Let_def)
      qed
    next
      case False
      then have "t = s" using assms(1) retire by (simp add: remove_stale_def retire_element_def)
      with wf sound show ?thesis by simp
    qed
  next
    case False
    have r: "rows (delete_repo_element e s) = left" by (auto simp: delete_repo_element_def left_def)
    show ?thesis
    proof (rule step)
      show "latest_sound pv (rows (delete_repo_element e s))" unfolding r by (rule sound_left)
      show "wf_repo (delete_repo_element e s)" using wf by (simp add: wf_repo_def delete_repo_element_def distinct_map_filter)
      show "left \<subseteq> rows (delete_repo_element e s)" "\<And>x. x \<in> rows (delete_repo_element e s) \<Longrightarrow> re_stable x \<Longrightarrow> x \<in> left"
        unfolding r by simp_all
      show "(if re_stable e \<and> re_latest e then set_latest_for_outdated_element pv r (re_name e) (delete_repo_element e s)
          else (Inr (), delete_repo_element e s)) = (Inr b, t)"
        using assms(1) False by (simp add: remove_stale_def Let_def)
    qed
  qed
qed

section \<open>A refresh\<close>

lemma keyed_elements_snoc: "keyed_elements (es @ [x]) = dset (element_key x) x (keyed_elements es)"
  by (simp add: keyed_elements_def)

lemma keyed_elements_wf: "wf_dict (keyed_elements es)"
  by (induction es rule: rev_induct) (simp_all add: keyed_elements_snoc, simp add: keyed_elements_def)

lemma keyed_elements_get: "dget (keyed_elements es) k = Some e \<Longrightarrow> e \<in> set es \<and> element_key e = k"
proof (induction es rule: rev_induct)
  case Nil
  then show ?case by (simp add: keyed_elements_def)
next
  case (snoc x es)
  then show ?case by (cases "k = element_key x") (simp_all add: keyed_elements_snoc)
qed

lemma emap_listed: "emap (\<lambda>item. item) items = Inr es \<Longrightarrow> listed items = es"
  by (induction items arbitrary: es) (auto simp: listed_def split: sum.splits)

definition any_order :: "((string \<times> string) list \<Rightarrow> (string \<times> string) list) \<Rightarrow> bool" where
  "any_order order \<longleftrightarrow> (\<forall>ks. distinct ks \<longrightarrow> distinct (order ks) \<and> set (order ks) = set ks)"

lemma add_new_loop:
  assumes "act_fold (add_new env pv r found) keys () db = (Inr u, db')" "marks_ok pv db"
    and "fresh_elements r db es" "\<And>k e. dget found k = Some e \<Longrightarrow> e \<in> set es \<and> element_key e = k" "distinct keys"
  shows "marks_ok pv db' \<and> (\<exists>ds. map row_id (rd_elements db') = map row_id (rd_elements db) @ map row_id ds \<and> fresh_elements r db ds)"
proof -
  let ?I = "\<lambda>ys t. marks_ok pv t \<and> (\<exists>ds. map row_id (rd_elements t) = map row_id (rd_elements db) @ map row_id ds \<and>
    fresh_elements r db ds \<and> set ds \<subseteq> set es \<and> map element_key ds = ys)"
  have "?I keys db'"
  proof (rule act_fold_Inr_induct [OF assms(1), of "\<lambda>ys _ t. ?I ys t"])
    show "?I [] db" using assms(2) by (auto simp: fresh_elements_def)
  next
    fix ys k zs and a b :: unit and s t
    assume keys: "keys = ys @ k # zs" and I: "?I ys s" and step: "add_new env pv r found k a s = (Inr b, t)"
    from step obtain e where e: "dget found k = Some e" and add: "add_found env pv r e s = (Inr b, t)"
      by (auto simp: add_new_def split: option.splits)
    from I obtain ds where ds: "map row_id (rd_elements s) = map row_id (rd_elements db) @ map row_id ds" "set ds \<subseteq> set es"
        "map element_key ds = ys" by blast
    have e': "e \<in> set es" "element_key e = k" using assms(4) [OF e] by simp_all
    have "distinct (map element_key (ds @ [e]))" using assms(5) ds(3) e'(2) unfolding keys by simp
    then have dist: "distinct (ds @ [e])" by (simp only: distinct_map)
    have fresh: "fresh_elements r db (ds @ e # [])"
      by (rule fresh_elements_sub [OF assms(3)]) (use ds(2) e'(1) dist in auto)
    from add_found_step [OF add _ ds(1) fresh] I
    have "marks_ok pv t \<and> map row_id (rd_elements t) = map row_id (rd_elements db) @ map row_id (ds @ [e])" by blast
    then show "?I (ys @ [k]) t" using fresh ds e' by (intro conjI exI [of _ "ds @ [e]"]) auto
  qed
  then show ?thesis by blast
qed

lemma remove_loop:
  assumes "act_fold (remove_stale pv r) zs () db = (Inr u, db')" "wf_repo db" "latest_sound pv (rows db)"
    and "set zs \<subseteq> rows db" "distinct (map re_uuid zs)" "\<forall>z \<in> set zs. in_repository r z"
  shows "latest_sound pv (rows db') \<and> wf_repo db'"
proof -
  let ?I = "\<lambda>ys t. latest_sound pv (rows t) \<and> wf_repo t \<and> (\<forall>z \<in> set zs. z \<notin> set ys \<longrightarrow> as_read t z)"
  have "?I zs db'"
  proof (rule act_fold_Inr_induct [OF assms(1), of "\<lambda>ys _ t. ?I ys t"])
    show "?I [] db" using assms by (auto simp: as_read_def)
  next
    fix ys e ws and a b :: unit and s t
    assume zs: "zs = ys @ e # ws" and I: "?I ys s" and step: "remove_stale pv r e a s = (Inr b, t)"
    have "e \<in> set zs" "e \<notin> set ys" using assms(5) unfolding zs by auto
    then have e: "as_read s e" "in_repository r e" using I assms(6) by auto
    have other: "re_uuid z \<noteq> re_uuid e" if "z \<in> set zs" "z \<noteq> e" for z
      using assms(5) that \<open>e \<in> set zs\<close> by (metis distinct_map inj_onD)
    from remove_stale_sound [OF step _ _ e] I other show "?I (ys @ [e]) t" by auto
  qed
  then show ?thesis by simp
qed

lemma refresh_sound:
  assumes "refresh_repository env pv order now r db = (Inr r', db')" "marks_ok pv db" "any_order order"
    and fresh: "fresh_elements r db (listed (iter_elements_in_inventory env r db))"
  shows "latest_sound pv (rows db') \<and> wf_repo db'"
proof -
  from assms(1) obtain es where es: "emap (\<lambda>item. item) (iter_elements_in_inventory env r db) = Inr es"
    by (auto simp: refresh_repository_def Let_def split: sum.splits)
  define found where "found = keyed_elements es"
  define existing where "existing = map element_key (filter (in_repository r) (rd_elements db))"
  define keys where "keys = order (filter (\<lambda>k. k \<notin> set existing) (dkeys found))"
  define stale where "stale = filter (\<lambda>e. in_repository r e \<and> \<not> has_key found (element_key e)) (rd_elements db)"
  from assms(1) es obtain u v mid where add: "act_fold (add_new env pv r found) keys () db = (Inr u, mid)"
    and remove: "act_fold (remove_stale pv r) (filter (\<lambda>e. re_uuid e \<in> re_uuid ` set stale) (rd_elements mid)) () mid = (Inr v, db')"
    by (auto simp: refresh_repository_def Let_def act_bind_Inr_iff found_def existing_def keys_def stale_def)
  have es': "listed (iter_elements_in_inventory env r db) = es" by (rule emap_listed [OF es])
  have "distinct keys" using assms(3) keyed_elements_wf [of es]
    by (simp add: any_order_def keys_def found_def wf_dict_def)
  from add_new_loop [OF add assms(2) fresh [unfolded es'] keyed_elements_get [of es, folded found_def] this]
  obtain ds where mid: "marks_ok pv mid" and ids: "map row_id (rd_elements mid) = map row_id (rd_elements db) @ map row_id ds"
    and ds: "fresh_elements r db ds" by blast
  let ?zs = "filter (\<lambda>e. re_uuid e \<in> re_uuid ` set stale) (rd_elements mid)"
  have "in_repository r z" if z: "z \<in> set ?zs" for z
  proof -
    from z obtain x where x: "x \<in> rows db" "in_repository r x" "re_uuid z = re_uuid x" by (auto simp: stale_def)
    have "row_id z \<in> set (map row_id (rd_elements mid))" using z by simp
    then obtain y where y: "y \<in> rows db \<union> set ds" "row_id z = row_id y" unfolding ids by auto
    have "re_uuid y = re_uuid x" using y(2) x(3) by (simp add: row_id_def)
    then have "y \<notin> set ds" using ds x(1) by (auto simp: fresh_elements_def list_all_iff image_iff)
    then have "y = x" using wf_repo_unique [OF _ _ x(1)] y(1) \<open>re_uuid y = re_uuid x\<close> assms(2) by (auto simp: marks_ok_def)
    with x(2) y(2) show ?thesis by (simp add: row_id_def in_repository_def)
  qed
  moreover have "distinct (map re_uuid ?zs)" using mid by (simp add: marks_ok_def wf_repo_def distinct_map_filter)
  ultimately show ?thesis using remove_loop [OF remove] mid by (auto simp: marks_ok_def)
qed

section \<open>No retry storm\<close>

lemma refresh_keeps_rate:
  "refresh_repository env pv order now r db = (Inr r', db') \<Longrightarrow> r' = set_next_refresh now r"
  by (auto simp: refresh_repository_def Let_def act_bind_Inr_iff split: sum.splits)

section \<open>A source and its rows\<close>

definition demo_pv :: "string \<Rightarrow> version_key option" where
  "demo_pv s = (case parse_version s of Inr k \<Rightarrow> Some k | Inl _ \<Rightarrow> None)"

definition demo_source :: "string list \<Rightarrow> repo_env" where
  "demo_source versions = \<lparr>rv_remote_inventory = (\<lambda>_. Inr [(''elements'', JDict [(''web'', JDict (map (\<lambda>v. (v, JDict [])) versions))])]),
     rv_remote_element = (\<lambda>_ _ _. Inl DriverFailed), rv_remote_uri = (\<lambda>_ _ _ _ _. []), rv_url_allowed = (\<lambda>_. True),
     rv_directory = (\<lambda>_. None), rv_fresh = (\<lambda>n v. CHR ''n'' # v), rv_prerelease = (\<lambda>_. Some False), rv_from_iso = (\<lambda>_. None),
     rv_now = 7, rv_driver = (\<lambda>r. Inr (NginxDriver r))\<rparr>"

definition demo_origin :: repository where
  "demo_origin = \<lparr>ry_uuid = ''r'', ry_name = ''main'', ry_project = ''p'', ry_status = RepositoryActive, ry_priority = 8192,
     ry_refresh_rate = 3600, ry_sync_mode = SyncLazy, ry_driver_spec = NginxDriverSpec ''http://repo/'' None None,
     ry_refresh_requested = True, ry_next_refresh = Some 50, ry_updated_at = 0\<rparr>"

definition demo_row :: "uuid \<Rightarrow> string \<Rightarrow> bool \<Rightarrow> repo_element" where
  "demo_row u version latest = \<lparr>re_uuid = u, re_name = ''web'', re_version = version, re_description = [], re_project = ''p'',
     re_repository = demo_origin, re_stable = True, re_latest = latest, re_published_at = Some 7, re_created_at = 7,
     re_status = ElementNew, re_installation_state = UNINSTALLED, re_manifest = [], re_specification = [], re_inventory = [],
     re_element = None\<rparr>"

definition demo_rows :: "repo_element list \<Rightarrow> repo_db" where
  "demo_rows es = \<lparr>rd_elements = es, rd_artifacts = [], rd_bindings = []\<rparr>"

lemma demo_pv_simps:
  "demo_pv ''1.0.0'' = Some (1, 0, 0, True, [])" "demo_pv ''1.1.0'' = Some (1, 1, 0, True, [])"
  "demo_pv ''2.0.0'' = Some (2, 0, 0, True, [])" "demo_pv ''3.0.0'' = Some (3, 0, 0, True, [])"
  by (simp_all add: demo_pv_def parse_version_def match_version_def is_digit_def nat_of_digits_def version_suffix_def Let_def)

lemma demo_listing:
  "iter_elements_in_inventory (demo_source versions) demo_origin db = map (\<lambda>v. Inr (demo_row (CHR ''n'' # v) v False)) versions"
  by (simp add: iter_elements_in_inventory_def demo_source_def json_inventory_def inventory_element_def new_repo_element_def
    is_stable_version_def published_at_def demo_row_def demo_origin_def Let_def comp_def)

lemmas demo_refresh_simps = keyed_elements_def dkeys_def has_key_def element_key_def in_repository_def
  act_bind_def add_new_def add_found_def save_repo_element_def set_latest_for_new_element_def set_latest_for_outdated_element_def
  named_in_def greatest_version_def clear_latest_def map_elements_def update_element_def remove_stale_def delete_repo_element_def
  set_next_refresh_def demo_rows_def demo_row_def demo_origin_def demo_pv_simps Let_def

lemma demo_refresh_adds:
  "refresh_repository (demo_source [''1.0.0'', ''1.1.0'']) demo_pv (\<lambda>ks. ks) 100 demo_origin (demo_rows [demo_row ''a'' ''1.0.0'' True]) =
     (Inr (demo_origin\<lparr>ry_next_refresh := Some 3700\<rparr>), demo_rows [demo_row ''a'' ''1.0.0'' False, demo_row ''n1.1.0'' ''1.1.0'' True])"
  unfolding refresh_repository_def demo_listing by (simp add: demo_refresh_simps)

text \<open>
  The rows to remove are read before the loop.  A row that is promoted in the loop and removed later was not
  marked when it was read, so nothing is promoted in its place: the oldest version is offered, and none is
  the latest.
\<close>

lemma refresh_may_lose_latest:
  "refresh_repository (demo_source [''1.0.0'']) demo_pv (\<lambda>ks. ks) 100 demo_origin
      (demo_rows [demo_row ''a'' ''1.0.0'' False, demo_row ''c'' ''3.0.0'' True, demo_row ''b'' ''2.0.0'' False]) =
     (Inr (demo_origin\<lparr>ry_next_refresh := Some 3700\<rparr>), demo_rows [demo_row ''a'' ''1.0.0'' False]) \<and>
   \<not> latest_complete {demo_row ''a'' ''1.0.0'' False}"
  unfolding refresh_repository_def demo_listing by (simp add: demo_refresh_simps latest_complete_def same_name_refl)

lemma demo_marks: "marks_ok demo_pv (demo_rows [demo_row ''a'' ''1.0.0'' True])"
  by (auto simp: marks_ok_def wf_repo_def demo_rows_def latest_complete_def demo_row_def version_le_def demo_pv_simps
    intro!: latest_soundI)

section \<open>Properties\<close>

text \<open>C33. Provisioning a repository whose listed elements are new to a store where the greatest stable version of
  every name, and no other, is the latest, keeps it so.\<close>

theorem provisioning_marks_latest:
  assumes "post_create_repository env pv now r db = (Inr r', db')" "marks_ok pv db"
    and "fresh_elements r db (listed (iter_elements_in_inventory env r db))"
  shows "latest_sound pv (set (rd_elements db')) \<and> latest_complete (set (rd_elements db')) \<and> ry_status r' = RepositoryActive"
  using post_create_marks [OF assms] assms(1)
  by (auto simp: marks_ok_def post_create_repository_def act_bind_Inr_iff set_next_refresh_def)

lemma provisioning_marks_latest_witness:
  "latest_sound demo_pv (set [demo_row ''n1.0.0'' ''1.0.0'' False, demo_row ''n1.1.0'' ''1.1.0'' True]) \<and>
   latest_complete (set [demo_row ''n1.0.0'' ''1.0.0'' False, demo_row ''n1.1.0'' ''1.1.0'' True]) \<and>
   ry_status (demo_origin\<lparr>ry_next_refresh := Some 3700\<rparr>) = RepositoryActive"
proof -
  have run: "post_create_repository (demo_source [''1.0.0'', ''1.1.0'']) demo_pv 100 demo_origin (demo_rows []) =
      (Inr (demo_origin\<lparr>ry_next_refresh := Some 3700\<rparr>), demo_rows [demo_row ''n1.0.0'' ''1.0.0'' False, demo_row ''n1.1.0'' ''1.1.0'' True])"
    unfolding post_create_repository_def demo_listing by (simp add: add_listed_def demo_refresh_simps)
  have "marks_ok demo_pv (demo_rows [])" by (simp add: marks_ok_def wf_repo_def demo_rows_def latest_sound_def latest_complete_def)
  moreover have "fresh_elements demo_origin (demo_rows []) (listed (iter_elements_in_inventory (demo_source [''1.0.0'', ''1.1.0'']) demo_origin (demo_rows [])))"
    by (simp add: demo_listing listed_def fresh_elements_def demo_row_def demo_rows_def in_repository_def)
  ultimately show ?thesis using provisioning_marks_latest [OF run] by (simp add: demo_rows_def)
qed



text \<open>A due refresh, whether it succeeds or fails, is not due again before the refresh interval has passed, and
  is due again when it has.\<close>

theorem refresh_not_repeated:
  assumes "refresh_due now r" "0 < ry_refresh_rate r" "t < now + ry_refresh_rate r"
  shows "\<not> refresh_due t (fst (post_update_repository env pv order now r db)) \<and>
    refresh_due (now + ry_refresh_rate r) (fst (post_update_repository env pv order now r db))"
proof (cases "refresh_repository env pv order now r db")
  case (Pair res db')
  show ?thesis
  proof (cases res)
    case (Inr r')
    then have "r' = set_next_refresh now r" using refresh_keeps_rate Pair by blast
    with Pair Inr assms show ?thesis by (simp add: post_update_repository_def refresh_due_def set_next_refresh_def)
  next
    case (Inl err)
    with Pair assms show ?thesis by (simp add: post_update_repository_def refresh_due_def set_next_refresh_def)
  qed
qed

lemma refresh_not_repeated_witness:
  "\<not> refresh_due 200 (fst (post_update_repository (demo_source []) demo_pv id 100 demo_origin (demo_rows []))) \<and>
   refresh_due (100 + ry_refresh_rate demo_origin) (fst (post_update_repository (demo_source []) demo_pv id 100 demo_origin (demo_rows [])))"
  by (rule refresh_not_repeated) (simp_all add: refresh_due_def demo_origin_def)

end
