(* ===== verification/Repo_Api.thy ===== *)
theory Repo_Api
  imports Repo_Refresh
begin

text \<open>
  The repository API (\<open>exordos_core/user_api/repo/api/controllers.py\<close>): who sees which repositories and
  elements, the catalogue of the latest stable elements, the check nginx asks for before a file of an element
  repository is read or written, and reading and deleting an element.  What the REST library does for every
  resource - queries, packing, permissions of fields - is not repeated; the permissions of the caller and
  the version library are parameters.  Text is ASCII, so percent-decoding yields its bytes.
\<close>

datatype api_error = Forbidden | Unauthorized | StoreInvalidVersion | RepoFailed repo_error

definition admin_project :: uuid where
  "admin_project = ''00000000-0000-0000-0000-000000000000''"

section \<open>Visibility\<close>

definition visible_projects :: "uuid option \<Rightarrow> uuid option list" where
  "visible_projects ctx_project = [Some admin_project, ctx_project]"

text \<open>The project filter of a listing of repositories: \<open>None\<close> puts no bound on it.\<close>

definition repository_filter :: "uuid option \<Rightarrow> uuid list option \<Rightarrow> api_error + uuid list option" where
  "repository_filter ctx_project wanted = (case ctx_project of
     None \<Rightarrow> Inr wanted
   | Some p \<Rightarrow> (case wanted of
       Some ws \<Rightarrow> if \<exists>w \<in> set ws. Some w \<notin> set (visible_projects ctx_project) then Inl Forbidden else Inr (Some ws)
     | None \<Rightarrow> Inr (Some [admin_project, p])))"

definition store_projects :: "uuid option \<Rightarrow> uuid list" where
  "store_projects ctx_project = (case ctx_project of None \<Rightarrow> [admin_project] | Some p \<Rightarrow> [admin_project, p])"

section \<open>The catalogue of latest stable elements\<close>

type_synonym 'v candidate = "int \<times> 'v \<times> repo_element"

definition catalogue_rows :: "uuid option \<Rightarrow> repo_db \<Rightarrow> repo_element list" where
  "catalogue_rows ctx_project db =
     filter (\<lambda>e. re_latest e \<and> re_stable e \<and> re_project e \<in> set (store_projects ctx_project)) (rd_elements db)"

definition better :: "'v::linorder candidate \<Rightarrow> 'v candidate \<Rightarrow> bool" where
  "better c d \<longleftrightarrow> fst d < fst c \<or> fst d = fst c \<and> fst (snd d) < fst (snd c)"

definition consider_element :: "(string \<Rightarrow> 'v::linorder option) \<Rightarrow> repo_element \<Rightarrow> (string, 'v candidate) dict \<Rightarrow> (string, 'v candidate) dict" where
  "consider_element pv e by_name = (case pv (re_version e) of
     None \<Rightarrow> by_name
   | Some v \<Rightarrow> let candidate = (ry_priority (re_repository e), v, e) in
       (case dget by_name (re_name e) of
         None \<Rightarrow> dset (re_name e) candidate by_name
       | Some current \<Rightarrow> if better candidate current then dset (re_name e) candidate by_name else by_name))"

definition latest_by_name :: "(string \<Rightarrow> 'v::linorder option) \<Rightarrow> repo_element list \<Rightarrow> (string, 'v candidate) dict" where
  "latest_by_name pv es = fold (consider_element pv) es []"

definition paginate :: "nat option \<Rightarrow> uuid option \<Rightarrow> repo_element list \<Rightarrow> repo_element list" where
  "paginate limit marker es = (case limit of
     None \<Rightarrow> es
   | Some n \<Rightarrow> if n = 0 then es else take n (case marker of
         None \<Rightarrow> es | Some m \<Rightarrow> if m = [] then es else filter (\<lambda>e. m < re_uuid e) es))"

definition latest_stable_elements :: "(string \<Rightarrow> 'v::linorder option) \<Rightarrow> uuid option \<Rightarrow> nat option \<Rightarrow> uuid option \<Rightarrow> repo_db \<Rightarrow> repo_element list" where
  "latest_stable_elements pv ctx_project limit marker db =
     paginate limit marker (sort_key re_uuid (map (\<lambda>c. snd (snd c)) (dvals (latest_by_name pv (catalogue_rows ctx_project db)))))"

text \<open>\<open>sorted(..., reverse=True)\<close> keeps the order of elements with equal keys.\<close>

definition stable_versions :: "(string \<Rightarrow> 'v::linorder option) \<Rightarrow> uuid option \<Rightarrow> repo_element \<Rightarrow> repo_db \<Rightarrow> api_error + repo_element list" where
  "stable_versions pv ctx_project e db =
     (let es = filter (\<lambda>x. re_name x = re_name e \<and> re_stable x \<and> re_uuid x \<noteq> re_uuid e \<and>
          re_project x \<in> set (store_projects ctx_project)) (rd_elements db) in
      if \<exists>x \<in> set es. pv (re_version x) = None then Inl StoreInvalidVersion
      else Inr (rev (sort_key (\<lambda>x. the (pv (re_version x))) (rev es))))"

section \<open>Files of an element repository\<close>

definition hex_value :: "char \<Rightarrow> nat" where
  "hex_value c = (let n = of_char (lower_char c) :: nat in if n \<le> 57 then n - 48 else n - 87)"

fun unquote :: "string \<Rightarrow> string" where
  "unquote (c # a # b # s) =
     (if c = CHR ''%'' \<and> is_hex a \<and> is_hex b then char_of (16 * hex_value a + hex_value b) # unquote s
      else c # unquote (a # b # s))"
| "unquote s = s"

definition dot_segment :: "string \<Rightarrow> bool" where
  "dot_segment s \<longleftrightarrow> s = ''.'' \<or> s = ''..''"

definition repo_path_project :: "string \<Rightarrow> uuid option" where
  "repo_path_project uri = (let path = unquote (before_first CHR ''?'' uri) in
     if \<not> starts_with path ''/'' \<or> backslash \<in> set path then None
     else let segments = split_on CHR ''/'' (drop 1 path) in
       if length segments < 3 then None
       else if (\<exists>s \<in> set (butlast segments). s = [] \<or> dot_segment s) \<or> dot_segment (last segments) then None
       else uuid_of_text (segments ! 1))"

definition upload_permission :: "string \<Rightarrow> string option" where
  "upload_permission request_method =
     dget [(''GET'', ''read''), (''HEAD'', ''read''), (''PUT'', ''upload''), (''DELETE'', ''upload'')] request_method"

definition authorize_upload :: "(string \<Rightarrow> bool) \<Rightarrow> uuid option \<Rightarrow> string \<Rightarrow> string \<Rightarrow> string \<Rightarrow> repository \<Rightarrow> api_error + unit" where
  "authorize_upload permitted ctx_project request_method authorization uri r =
     (case upload_permission request_method of
       None \<Rightarrow> Inl Forbidden
     | Some permission \<Rightarrow>
         if authorization = [] then Inl Unauthorized
         else case repo_path_project uri of
           None \<Rightarrow> Inl Forbidden
         | Some target \<Rightarrow>
             if ctx_project \<noteq> None \<and> ctx_project \<noteq> Some target then Inl Forbidden
             else if ry_project r \<notin> {admin_project, target} then Inl Forbidden
             else if permitted permission then Inr () else Inl Forbidden)"

section \<open>One element\<close>

definition read_element :: "repo_env \<Rightarrow> repo_element \<Rightarrow> repo_db \<Rightarrow> (repo_error + repo_element) \<times> repo_db" where
  "read_element env e db = (if re_manifest e = [] \<and> re_installation_state e \<noteq> INSTALLED
     then actualize_element env e db else (Inr e, db))"

definition delete_element_request :: "repo_env \<Rightarrow> repo_element \<Rightarrow> repo_db \<Rightarrow> (repo_error + unit) \<times> repo_db" where
  "delete_element_request env e db = act_bind (read_element env e) (\<lambda>e db.
     if re_installation_state e = INSTALLED then (Inl RepoInvalid, db) else (Inr (), delete_repo_element e db)) db"

definition refresh_request :: "repository \<Rightarrow> repository" where
  "refresh_request r = r\<lparr>ry_refresh_requested := True\<rparr>"

section \<open>The best element of every name\<close>

definition candidate_of :: "(string \<Rightarrow> 'v::linorder option) \<Rightarrow> repo_element \<Rightarrow> 'v candidate option" where
  "candidate_of pv e = (case pv (re_version e) of None \<Rightarrow> None | Some v \<Rightarrow> Some (ry_priority (re_repository e), v, e))"

lemma better_trans: "better a b \<Longrightarrow> better b c \<Longrightarrow> better a c"
  by (auto simp: better_def)

lemma better_irrefl: "\<not> better a a"
  by (simp add: better_def)

lemma better_asym: "better a b \<Longrightarrow> \<not> better x b \<Longrightarrow> \<not> better x a"
  using better_trans by blast

definition best_of :: "(string \<Rightarrow> 'v::linorder option) \<Rightarrow> repo_element list \<Rightarrow> (string, 'v candidate) dict \<Rightarrow> bool" where
  "best_of pv es d \<longleftrightarrow> wf_dict d \<and>
     (\<forall>n c. dget d n = Some c \<longrightarrow> snd (snd c) \<in> set es \<and> re_name (snd (snd c)) = n \<and> candidate_of pv (snd (snd c)) = Some c) \<and>
     (\<forall>e \<in> set es. \<forall>c. candidate_of pv e = Some c \<longrightarrow> (\<exists>b. dget d (re_name e) = Some b \<and> \<not> better c b))"

lemma consider_element_best:
  assumes "best_of pv es d"
  shows "best_of pv (es @ [e]) (consider_element pv e d)"
proof (cases "pv (re_version e)")
  case None
  then have "consider_element pv e d = d" "candidate_of pv e = None" by (simp_all add: consider_element_def candidate_of_def)
  with assms show ?thesis by (auto simp: best_of_def)
next
  case (Some v)
  let ?c = "(ry_priority (re_repository e), v, e)"
  have cand: "candidate_of pv e = Some ?c" by (simp add: candidate_of_def Some)
  have wf: "wf_dict d" and old: "\<And>n c. dget d n = Some c \<Longrightarrow> snd (snd c) \<in> set es \<and> re_name (snd (snd c)) = n \<and> candidate_of pv (snd (snd c)) = Some c"
    and best: "\<And>x c. x \<in> set es \<Longrightarrow> candidate_of pv x = Some c \<Longrightarrow> \<exists>b. dget d (re_name x) = Some b \<and> \<not> better c b"
    using assms by (auto simp: best_of_def)
  consider (put) "consider_element pv e d = dset (re_name e) ?c d" "dget d (re_name e) = None \<or> (\<exists>b. dget d (re_name e) = Some b \<and> better ?c b)"
    | (keep) b where "consider_element pv e d = d" "dget d (re_name e) = Some b" "\<not> better ?c b"
    by (cases "dget d (re_name e)") (auto simp: consider_element_def Some Let_def)
  then show ?thesis
  proof cases
    case put
    have "\<exists>b. dget (dset (re_name e) ?c d) (re_name x) = Some b \<and> \<not> better c b"
      if x: "x \<in> set (es @ [e])" "candidate_of pv x = Some c" for x c
    proof (cases "x \<in> set es \<and> re_name x = re_name e")
      case True
      then obtain b where b: "dget d (re_name e) = Some b" "\<not> better c b" using best [of x c] x(2) by auto
      then have "better ?c b" using put(2) by simp
      then have "\<not> better c ?c" using b(2) by (rule better_asym)
      then show ?thesis using True by simp
    next
      case False
      show ?thesis
      proof (cases "x \<in> set es")
        case True
        then show ?thesis using False best [of x c] x(2) by auto
      next
        case False
        then have "x = e" using x(1) by simp
        then show ?thesis using x(2) cand better_irrefl by auto
      qed
    qed
    moreover have "snd (snd c) \<in> set (es @ [e]) \<and> re_name (snd (snd c)) = n \<and> candidate_of pv (snd (snd c)) = Some c"
      if "dget (dset (re_name e) ?c d) n = Some c" for n c
    proof (cases "n = re_name e")
      case True
      then show ?thesis using that cand by auto
    next
      case False
      then show ?thesis using that old [of n c] by simp
    qed
    ultimately show ?thesis unfolding best_of_def put(1) using wf by blast
  next
    case keep
    have "\<exists>b. dget d (re_name x) = Some b \<and> \<not> better c b" if x: "x \<in> set (es @ [e])" "candidate_of pv x = Some c" for x c
    proof (cases "x \<in> set es")
      case True
      then show ?thesis using best x(2) by blast
    next
      case False
      then show ?thesis using x cand keep(2,3) by auto
    qed
    moreover have "snd (snd c) \<in> set (es @ [e]) \<and> re_name (snd (snd c)) = n \<and> candidate_of pv (snd (snd c)) = Some c"
      if "dget d n = Some c" for n c using old [OF that] by simp
    ultimately show ?thesis unfolding best_of_def keep(1) using wf by blast
  qed
qed

lemma latest_by_name_best: "best_of pv es (latest_by_name pv es)"
proof (induction es rule: rev_induct)
  case Nil
  show ?case by (simp add: best_of_def latest_by_name_def)
next
  case (snoc e es)
  then show ?case using consider_element_best [of pv es "latest_by_name pv es" e] by (simp add: latest_by_name_def)
qed

section \<open>Paths of an element repository\<close>

text \<open>What a server that resolves \<open>.\<close>, \<open>..\<close> and empty segments makes of a path.\<close>

fun resolve_segments :: "string list \<Rightarrow> string list \<Rightarrow> string list" where
  "resolve_segments acc [] = rev acc"
| "resolve_segments acc [s] = (if s = ''.'' then rev ([] # acc) else if s = ''..'' then rev ([] # tl acc) else rev (s # acc))"
| "resolve_segments acc (s # t # ss) =
     (if s = [] \<or> s = ''.'' then resolve_segments acc (t # ss)
      else if s = ''..'' then resolve_segments (tl acc) (t # ss) else resolve_segments (s # acc) (t # ss))"

lemma resolve_plain:
  "\<forall>s \<in> set (butlast ss). s \<noteq> [] \<and> \<not> dot_segment s \<Longrightarrow> ss \<noteq> [] \<Longrightarrow> \<not> dot_segment (last ss) \<Longrightarrow>
    resolve_segments acc ss = rev acc @ ss"
  by (induction acc ss rule: resolve_segments.induct) (auto simp: dot_segment_def)

lemma repo_path_project_Some:
  assumes "repo_path_project uri = Some target"
  shows "\<exists>prefix t rest. unquote (before_first CHR ''?'' uri) = CHR ''/'' # join_with ''/'' (prefix # t # rest) \<and> rest \<noteq> [] \<and>
    uuid_of_text t = Some target \<and> resolve_segments [] (prefix # t # rest) = prefix # t # rest"
proof -
  let ?path = "unquote (before_first CHR ''?'' uri)"
  let ?ss = "split_on CHR ''/'' (drop 1 ?path)"
  from assms have s: "starts_with ?path ''/''" "\<not> length ?ss < 3" "uuid_of_text (?ss ! 1) = Some target"
    and dots: "\<not> ((\<exists>s \<in> set (butlast ?ss). s = [] \<or> dot_segment s) \<or> dot_segment (last ?ss))"
    unfolding repo_path_project_def Let_def by (simp_all split: if_splits)
  from s(2) obtain prefix t r rest where ss: "?ss = prefix # t # r # rest"
    by (cases ?ss rule: list.exhaust; cases "tl ?ss"; cases "tl (tl ?ss)") (auto simp del: split_on_nonempty)
  have "?path = CHR ''/'' # drop 1 ?path" using s(1) by (auto simp: starts_with_iff)
  also have "drop 1 ?path = join_with ''/'' ?ss" by (rule join_split_on [symmetric])
  finally have "?path = CHR ''/'' # join_with ''/'' (prefix # t # r # rest)" unfolding ss .
  moreover have "resolve_segments [] ?ss = rev [] @ ?ss" by (rule resolve_plain) (use dots in auto)
  then have "resolve_segments [] (prefix # t # r # rest) = prefix # t # r # rest" unfolding ss by simp
  moreover have "uuid_of_text t = Some target" using s(3) unfolding ss by simp
  ultimately show ?thesis by blast
qed

section \<open>Properties\<close>


definition demo_catalogue :: repo_db where
  "demo_catalogue = demo_rows [(demo_row ''a'' ''1.1.0'' True)\<lparr>re_repository := demo_origin\<lparr>ry_priority := 1\<rparr>\<rparr>, demo_row ''b'' ''1.0.0'' True]"


text \<open>C36. A file of an element repository is read or written only with the permission of the method, by a caller
  whose token is of the project the decoded path names or of none, in a repository of that project or of the
  admin one; and resolving dots and empty segments leaves the path as it was checked.\<close>

theorem upload_stays_in_project:
  assumes "authorize_upload permitted ctx_project request_method authorization uri r = Inr ()"
  shows "\<exists>permission prefix t rest target. upload_permission request_method = Some permission \<and> permitted permission \<and>
    unquote (before_first CHR ''?'' uri) = CHR ''/'' # join_with ''/'' (prefix # t # rest) \<and> rest \<noteq> [] \<and>
    resolve_segments [] (prefix # t # rest) = prefix # t # rest \<and> uuid_of_text t = Some target \<and>
    (ctx_project = None \<or> ctx_project = Some target) \<and> (ry_project r = admin_project \<or> ry_project r = target)"
proof -
  from assms obtain permission target where "upload_permission request_method = Some permission" "permitted permission"
    and t: "repo_path_project uri = Some target" and "ctx_project = None \<or> ctx_project = Some target"
    and "ry_project r = admin_project \<or> ry_project r = target"
    by (auto simp: authorize_upload_def split: option.splits if_splits)
  with repo_path_project_Some [OF t] show ?thesis by blast
qed

lemma upload_stays_in_project_witness:
  "\<exists>permission prefix t rest target. upload_permission ''PUT'' = Some permission \<and> (\<lambda>p. p = ''upload'') permission \<and>
    unquote (before_first CHR ''?'' ''/repo/12345678-1234-1234-1234-123456789abc/x%2Ey?a=b'') = CHR ''/'' # join_with ''/'' (prefix # t # rest) \<and> rest \<noteq> [] \<and>
    resolve_segments [] (prefix # t # rest) = prefix # t # rest \<and> uuid_of_text t = Some target \<and>
    ((None :: uuid option) = None \<or> None = Some target) \<and>
    (ry_project (demo_origin\<lparr>ry_project := admin_project\<rparr>) = admin_project \<or> ry_project (demo_origin\<lparr>ry_project := admin_project\<rparr>) = target)"
proof -
  have backslash_chr: "backslash = CHR 0x5C" by code_simp
  have dot_char: "char_of (46 :: nat) = CHR ''.''" by code_simp
  have "unquote (before_first CHR ''?'' ''/repo/12345678-1234-1234-1234-123456789abc/x%2Ey?a=b'') =
      ''/repo/12345678-1234-1234-1234-123456789abc/x.y''"
    by (simp add: before_first_def is_hex_def dot_char hex_value_def lower_char_def Let_def)
  then have "repo_path_project ''/repo/12345678-1234-1234-1234-123456789abc/x%2Ey?a=b'' = Some ''12345678-1234-1234-1234-123456789abc''"
    by (simp add: repo_path_project_def backslash_chr dot_segment_def uuid_of_text_def uuid_digits_def is_hex_def lower_def lower_char_def rstrip_by_def Let_def)
  then have auth: "authorize_upload (\<lambda>p. p = ''upload'') None ''PUT'' ''Basic'' ''/repo/12345678-1234-1234-1234-123456789abc/x%2Ey?a=b''
      (demo_origin\<lparr>ry_project := admin_project\<rparr>) = Inr ()"
    by (simp add: authorize_upload_def upload_permission_def)
  show ?thesis by (rule upload_stays_in_project [OF auth])
qed

end
