(* ===== verification/Security_Rules.thy ===== *)
theory Security_Rules
  imports Element_Links Iam_Auth
begin

text \<open>
  Security rules (\<open>exordos_core/user_api/security/dm/models.py\<close>), the middleware that applies them to
  every request of the user API (\<open>user_api/api/middlewares.py\<close>) and the permissions they grant to the
  request (\<open>common/contexts.py\<close>).  The request's packer, regular expressions, Firebase, JSON and ALTCHA
  are parameters; what a verifier does to the request and to the process is a state passed through the
  rules: the permissions granted in the WSGI environment and the default Firebase application.  An
  operation returns its answer, or the exception it raises, with the state it leaves.
\<close>

section \<open>Requests\<close>

record http_request =
  hr_method :: string
  hr_path :: string
  hr_header :: "string \<Rightarrow> string option"
  hr_environ :: bool

record user_info =
  ui_email :: "string option"
  ui_uuid :: "string option"

record session_info =
  si_project :: "uuid option"
  si_user :: "user_info option"

record sec_context =
  sx_request :: http_request
  sx_session :: "session_info option"

datatype sec_error = ActionNotAllowed | Raised string

datatype firebase_answer = AppCheckToken "string option" | FirebaseError | FirebaseValueError | FirebaseFailure string

record sec_env =
  se_payload :: "http_request \<Rightarrow> sec_error + json"
  se_match :: "string \<Rightarrow> string \<Rightarrow> sec_error + bool"
  se_certificate :: "string \<Rightarrow> sec_error + unit"
  se_verify :: "string \<Rightarrow> string \<Rightarrow> firebase_answer"
  se_loads :: "string \<Rightarrow> json option"
  se_altcha :: "json \<Rightarrow> string \<Rightarrow> sec_error + bool"

record sec_state =
  ss_granted :: "string set"
  ss_app :: "string option"

type_synonym 'a answer = "(sec_error + 'a) \<times> sec_state"

definition add_granted_permission :: "sec_context \<Rightarrow> string \<Rightarrow> sec_state \<Rightarrow> sec_state" where
  "add_granted_permission ctx p s =
     (if \<not> hr_environ (sx_request ctx) then s else s\<lparr>ss_granted := insert p (ss_granted s)\<rparr>)"

definition has_granted_permission :: "sec_context \<Rightarrow> sec_state \<Rightarrow> string \<Rightarrow> bool" where
  "has_granted_permission ctx s p \<longleftrightarrow> hr_environ (sx_request ctx) \<and> p \<in> ss_granted s"

section \<open>Conditions\<close>

datatype condition = UriConditions string "string option" | UriRegexConditions string "string option"

definition upper_char :: "char \<Rightarrow> char" where
  "upper_char c = (let n = of_char c :: nat in if 97 \<le> n \<and> n \<le> 122 then char_of (n - 32) else c)"

definition method_allowed :: "string option \<Rightarrow> http_request \<Rightarrow> bool" where
  "method_allowed m req \<longleftrightarrow> (case m of None \<Rightarrow> True | Some m \<Rightarrow> map upper_char (hr_method req) = m)"

definition condition_can_handle :: "sec_env \<Rightarrow> sec_context \<Rightarrow> condition \<Rightarrow> sec_error + bool" where
  "condition_can_handle env ctx c = (let req = sx_request ctx in case c of
     UriConditions uri m \<Rightarrow> Inr (if \<not> method_allowed m req then False else lower (hr_path req) = lower uri)
   | UriRegexConditions regex m \<Rightarrow> if \<not> method_allowed m req then Inr False else se_match env regex (hr_path req))"

section \<open>Verifiers\<close>

datatype verifier = FieldNotInRequest "string list" | FirebaseAppCheck string "string list" | CaptchaVerifier string
  | AdminBypass "string list" | GrantPermissionAction string

definition no_fields_execute :: "sec_env \<Rightarrow> sec_context \<Rightarrow> string list \<Rightarrow> sec_error + bool" where
  "no_fields_execute env ctx names = ebind (se_payload env (sx_request ctx)) (\<lambda>payload. case payload of
     JDict d \<Rightarrow> Inr (\<not> (\<exists>field \<in> set names. lower field \<in> lower ` set (dkeys d)))
   | _ \<Rightarrow> Inr True)"

definition firebase_headers :: "string list" where
  "firebase_headers = [''X-Firebase-AppCheck'', ''X-Goog-Firebase-AppCheck'']"

text \<open>The first header that is present and not empty.\<close>

fun get_token_from_headers :: "http_request \<Rightarrow> string list \<Rightarrow> string option" where
  "get_token_from_headers req [] = None"
| "get_token_from_headers req (h # hs) = (case hr_header req h of
     None \<Rightarrow> get_token_from_headers req hs
   | Some token \<Rightarrow> if token = [] then get_token_from_headers req hs else Some token)"

text \<open>
  The default application of the process: the one there is, or a new one for the credentials of the
  rule.  It is named by the credentials it was made with.
\<close>

definition get_firebase_app :: "sec_env \<Rightarrow> string \<Rightarrow> sec_state \<Rightarrow> string answer" where
  "get_firebase_app env path s = (case ss_app s of
     Some app \<Rightarrow> (Inr app, s)
   | None \<Rightarrow> (case se_certificate env path of
       Inl e \<Rightarrow> (Inl e, s) | Inr _ \<Rightarrow> (Inr path, s\<lparr>ss_app := Some path\<rparr>)))"

definition token_accepted :: "sec_env \<Rightarrow> string \<Rightarrow> string \<Rightarrow> string list \<Rightarrow> sec_error + bool" where
  "token_accepted env app token allowed = (case se_verify env app token of
     FirebaseError \<Rightarrow> Inr False
   | FirebaseValueError \<Rightarrow> Inr False
   | FirebaseFailure e \<Rightarrow> Inl (Raised e)
   | AppCheckToken app_id \<Rightarrow>
       if allowed \<noteq> [] then Inr (case app_id of None \<Rightarrow> False | Some i \<Rightarrow> i \<in> set allowed) else Inr True)"

definition firebase_execute :: "sec_env \<Rightarrow> sec_context \<Rightarrow> string \<Rightarrow> string list \<Rightarrow> sec_state \<Rightarrow> bool answer" where
  "firebase_execute env ctx path allowed s =
     (case get_token_from_headers (sx_request ctx) firebase_headers of
        None \<Rightarrow> (Inr False, s)
      | Some token \<Rightarrow> (case get_firebase_app env path s of
          (Inl e, s) \<Rightarrow> (Inl e, s)
        | (Inr app, s) \<Rightarrow> (token_accepted env app token allowed, s)))"

definition captcha_execute :: "sec_env \<Rightarrow> sec_context \<Rightarrow> string \<Rightarrow> sec_error + bool" where
  "captcha_execute env ctx key = (case hr_header (sx_request ctx) ''X-Captcha'' of
     None \<Rightarrow> Inr False
   | Some h \<Rightarrow> if h = [] then Inr False else (case se_loads env h of
       None \<Rightarrow> Inr False | Some payload \<Rightarrow> se_altcha env payload key))"

definition user_listed :: "string list \<Rightarrow> string option \<Rightarrow> bool" where
  "user_listed allowed v = (case v of None \<Rightarrow> False | Some x \<Rightarrow> x \<noteq> [] \<and> lower x \<in> lower ` set allowed)"

definition admin_bypass_execute :: "sec_context \<Rightarrow> string list \<Rightarrow> bool" where
  "admin_bypass_execute ctx users = (case sx_session ctx of
     None \<Rightarrow> False
   | Some info \<Rightarrow> (case si_user info of
       None \<Rightarrow> False
     | Some u \<Rightarrow> if user_listed users (ui_email u) then True else user_listed users (ui_uuid u)))"

definition verifier_execute :: "sec_env \<Rightarrow> sec_context \<Rightarrow> verifier \<Rightarrow> sec_state \<Rightarrow> bool answer" where
  "verifier_execute env ctx v s = (case v of
     FieldNotInRequest names \<Rightarrow> (no_fields_execute env ctx names, s)
   | FirebaseAppCheck path allowed \<Rightarrow> firebase_execute env ctx path allowed s
   | CaptchaVerifier key \<Rightarrow> (captcha_execute env ctx key, s)
   | AdminBypass users \<Rightarrow> (Inr (admin_bypass_execute ctx users), s)
   | GrantPermissionAction p \<Rightarrow> (Inr True, s))"

section \<open>Rules\<close>

datatype rule_operator = OperatorOr | OperatorAnd

record rule =
  ru_uuid :: uuid
  ru_condition :: condition
  ru_action :: verifier
  ru_operator :: rule_operator
  ru_project :: "uuid option"

definition rule_can_handle :: "sec_env \<Rightarrow> sec_context \<Rightarrow> rule \<Rightarrow> sec_error + bool" where
  "rule_can_handle env ctx r = condition_can_handle env ctx (ru_condition r)"

definition rule_execute :: "sec_env \<Rightarrow> sec_context \<Rightarrow> rule \<Rightarrow> sec_state \<Rightarrow> bool answer" where
  "rule_execute env ctx r s = (case verifier_execute env ctx (ru_action r) s of
     (Inr True, s) \<Rightarrow> (case ru_action r of
         GrantPermissionAction p \<Rightarrow> (Inr True, add_granted_permission ctx p s)
       | _ \<Rightarrow> (Inr True, s))
   | (result, s) \<Rightarrow> (result, s))"

section \<open>The middleware\<close>

record rules_context =
  rx_and :: "rule list"
  rx_or :: "rule list"

definition rules_available :: "rules_context \<Rightarrow> bool" where
  "rules_available rc \<longleftrightarrow> rx_and rc \<noteq> [] \<or> rx_or rc \<noteq> []"

definition context_project :: "sec_context \<Rightarrow> uuid option" where
  "context_project ctx = (case sx_session ctx of None \<Rightarrow> None | Some info \<Rightarrow> si_project info)"

definition prepare_rules :: "sec_env \<Rightarrow> sec_context \<Rightarrow> rule list \<Rightarrow> sec_error + rules_context" where
  "prepare_rules env ctx table =
     (let rules = filter (\<lambda>r. ru_project r = context_project ctx) table
      in ebind (efilter (rule_can_handle env ctx) rules) (\<lambda>available.
        Inr \<lparr>rx_and = filter (\<lambda>r. ru_operator r = OperatorAnd) available,
             rx_or = filter (\<lambda>r. ru_operator r = OperatorOr) available\<rparr>))"

text \<open>Python's \<open>all\<close> and \<open>any\<close> stop at the first answer that decides, and at an exception.\<close>

fun run_all :: "('r \<Rightarrow> 's \<Rightarrow> ('e + bool) \<times> 's) \<Rightarrow> 'r list \<Rightarrow> 's \<Rightarrow> ('e + bool) \<times> 's" where
  "run_all exec [] s = (Inr True, s)"
| "run_all exec (r # rs) s = (case exec r s of
     (Inl e, s) \<Rightarrow> (Inl e, s) | (Inr b, s) \<Rightarrow> if b then run_all exec rs s else (Inr False, s))"

fun run_any :: "('r \<Rightarrow> 's \<Rightarrow> ('e + bool) \<times> 's) \<Rightarrow> 'r list \<Rightarrow> 's \<Rightarrow> ('e + bool) \<times> 's" where
  "run_any exec [] s = (Inr False, s)"
| "run_any exec (r # rs) s = (case exec r s of
     (Inl e, s) \<Rightarrow> (Inl e, s) | (Inr b, s) \<Rightarrow> if b then (Inr True, s) else run_any exec rs s)"

definition or_rules_verified :: "sec_env \<Rightarrow> sec_context \<Rightarrow> rules_context \<Rightarrow> sec_state \<Rightarrow> bool answer" where
  "or_rules_verified env ctx rc s =
     (if rx_or rc \<noteq> [] then run_any (rule_execute env ctx) (rx_or rc) s else (Inr False, s))"

definition verify_rules :: "sec_env \<Rightarrow> sec_context \<Rightarrow> rules_context \<Rightarrow> sec_state \<Rightarrow> bool answer" where
  "verify_rules env ctx rc s =
     (if \<not> rules_available rc then (Inr True, s)
      else if rx_and rc \<noteq> [] then
        (case run_all (rule_execute env ctx) (rx_and rc) s of
           (Inl e, s) \<Rightarrow> (Inl e, s)
         | (Inr b, s) \<Rightarrow> if b then (Inr True, s) else or_rules_verified env ctx rc s)
      else or_rules_verified env ctx rc s)"

definition process_request :: "sec_env \<Rightarrow> sec_context \<Rightarrow> rule list \<Rightarrow> sec_state \<Rightarrow> unit answer" where
  "process_request env ctx table s = (case prepare_rules env ctx table of
     Inl e \<Rightarrow> (Inl e, s)
   | Inr rc \<Rightarrow> (case verify_rules env ctx rc s of
       (Inl e, s) \<Rightarrow> (Inl e, s)
     | (Inr b, s) \<Rightarrow> if b then (Inr (), s) else (Inl ActionNotAllowed, s)))"

text \<open>The caller of the controllers behind the middleware.\<close>

definition caller_behind :: "sec_context \<Rightarrow> sec_state \<Rightarrow> caller \<Rightarrow> caller" where
  "caller_behind ctx s c = c\<lparr>cl_granted := has_granted_permission ctx s\<rparr>"

section \<open>Facts\<close>

lemma run_all_invariant:
  "P s \<Longrightarrow> (\<And>r t. r \<in> set rs \<Longrightarrow> P t \<Longrightarrow> P (snd (exec r t))) \<Longrightarrow> P (snd (run_all exec rs s))"
proof (induction rs arbitrary: s)
  case (Cons r rs)
  obtain a t where "exec r s = (a, t)" by fastforce
  moreover from this Cons.prems have "P t" by (metis list.set_intros(1) snd_conv)
  ultimately show ?case using Cons by (cases a) simp_all
qed simp

lemma run_any_invariant:
  "P s \<Longrightarrow> (\<And>r t. r \<in> set rs \<Longrightarrow> P t \<Longrightarrow> P (snd (exec r t))) \<Longrightarrow> P (snd (run_any exec rs s))"
proof (induction rs arbitrary: s)
  case (Cons r rs)
  obtain a t where "exec r s = (a, t)" by fastforce
  moreover from this Cons.prems have "P t" by (metis list.set_intros(1) snd_conv)
  ultimately show ?case using Cons by (cases a) simp_all
qed simp

text \<open>
  What the middleware relies on: a rule that does not raise answers the same in every state the
  rules before it can leave, and leaves such a state.
\<close>

locale rule_exec =
  fixes exec :: "'r \<Rightarrow> 's \<Rightarrow> ('e + bool) \<times> 's"
    and ready :: "'s \<Rightarrow> bool"
    and verdict :: "'r \<Rightarrow> 'e + bool"
  assumes answers: "ready s \<Longrightarrow> fst (exec r s) = verdict r"
    and stays_ready: "ready s \<Longrightarrow> ready (snd (exec r s))"
begin

lemma step_cases:
  assumes "ready s" and "verdict r = Inr b"
  obtains t where "exec r s = (Inr b, t)" and "ready t"
  using assms answers stays_ready by (metis prod.collapse)

lemma run_all_answer:
  "ready s \<Longrightarrow> \<forall>r \<in> set rs. is_ok (verdict r) \<Longrightarrow>
     fst (run_all exec rs s) = Inr (\<forall>r \<in> set rs. verdict r = Inr True) \<and> ready (snd (run_all exec rs s))"
proof (induction rs arbitrary: s)
  case (Cons r rs)
  then obtain b where b: "verdict r = Inr b" by (auto simp: is_ok_iff)
  with Cons.prems obtain t where "exec r s = (Inr b, t)" "ready t" by (auto elim: step_cases)
  with b Cons show ?case by (cases b) auto
qed simp

lemma run_any_answer:
  "ready s \<Longrightarrow> \<forall>r \<in> set rs. is_ok (verdict r) \<Longrightarrow>
     fst (run_any exec rs s) = Inr (\<exists>r \<in> set rs. verdict r = Inr True)"
proof (induction rs arbitrary: s)
  case (Cons r rs)
  then obtain b where b: "verdict r = Inr b" by (auto simp: is_ok_iff)
  with Cons.prems obtain t where "exec r s = (Inr b, t)" "ready t" by (auto elim: step_cases)
  with b Cons show ?case by (cases b) auto
qed simp

end

text \<open>The verdict of a rule in a process whose Firebase application is made.\<close>

definition rule_verdict :: "sec_env \<Rightarrow> sec_context \<Rightarrow> string \<Rightarrow> rule \<Rightarrow> sec_error + bool" where
  "rule_verdict env ctx app r = fst (verifier_execute env ctx (ru_action r) \<lparr>ss_granted = {}, ss_app = Some app\<rparr>)"

lemma add_granted_simps [simp]: "ss_app (add_granted_permission ctx p s) = ss_app s"
  by (simp add: add_granted_permission_def)

lemma rule_execute_fst: "fst (rule_execute env ctx r s) = fst (verifier_execute env ctx (ru_action r) s)"
  by (auto simp: rule_execute_def split: prod.splits sum.splits bool.splits verifier.splits)

lemma verifier_execute_app: "ss_app s = Some app \<Longrightarrow> snd (verifier_execute env ctx v s) = s"
  by (auto simp: verifier_execute_def firebase_execute_def get_firebase_app_def split: verifier.splits option.splits)

lemma verifier_execute_fst:
  "ss_app s = Some app \<Longrightarrow> ss_app t = Some app \<Longrightarrow> fst (verifier_execute env ctx v s) = fst (verifier_execute env ctx v t)"
  by (auto simp: verifier_execute_def firebase_execute_def get_firebase_app_def split: verifier.splits option.splits)

lemma rule_execute_app: "ss_app s = Some app \<Longrightarrow> ss_app (snd (rule_execute env ctx r s)) = Some app"
  using verifier_execute_app[of s app env ctx "ru_action r"]
  by (auto simp: rule_execute_def split: prod.splits sum.splits bool.splits verifier.splits)

interpretation sec: rule_exec "rule_execute env ctx" "\<lambda>s. ss_app s = Some app" "rule_verdict env ctx app"
  for env ctx app
proof unfold_locales
  show "fst (rule_execute env ctx r s) = rule_verdict env ctx app r" if "ss_app s = Some app" for s r
    unfolding rule_execute_fst rule_verdict_def by (rule verifier_execute_fst[OF that]) simp
qed (rule rule_execute_app)

text \<open>The rules of the caller's project whose condition the request meets, and what they decide.\<close>

definition matching_rules :: "sec_env \<Rightarrow> sec_context \<Rightarrow> rule list \<Rightarrow> rule set" where
  "matching_rules env ctx table =
     {r \<in> set table. ru_project r = context_project ctx \<and> rule_can_handle env ctx r = Inr True}"

definition rules_allow :: "(rule \<Rightarrow> bool) \<Rightarrow> rule set \<Rightarrow> bool" where
  "rules_allow pass M \<longleftrightarrow>
     (let ands = {r \<in> M. ru_operator r = OperatorAnd}; ors = {r \<in> M. ru_operator r = OperatorOr}
      in M = {} \<or> (ands \<noteq> {} \<and> (\<forall>r \<in> ands. pass r)) \<or> (\<exists>r \<in> ors. pass r))"

lemma prepare_rules_sets:
  assumes "prepare_rules env ctx table = Inr rc"
  shows "set (rx_and rc) = {r \<in> matching_rules env ctx table. ru_operator r = OperatorAnd}"
    and "set (rx_or rc) = {r \<in> matching_rules env ctx table. ru_operator r = OperatorOr}"
  using assms by (auto simp: prepare_rules_def matching_rules_def ebind_Inr_iff dest!: efilter_Inr)

lemma efilter_ok: "\<forall>x \<in> set xs. is_ok (p x) \<Longrightarrow> is_ok (efilter p xs)"
  by (induction xs) (auto simp: is_ok_iff)

lemma prepare_rules_ok:
  "\<forall>r \<in> set table. ru_project r = context_project ctx \<longrightarrow> is_ok (rule_can_handle env ctx r) \<Longrightarrow>
     \<exists>rc. prepare_rules env ctx table = Inr rc"
  using efilter_ok[of "filter (\<lambda>r. ru_project r = context_project ctx) table" "rule_can_handle env ctx"]
  by (auto simp: prepare_rules_def is_ok_iff)

lemma available_iff:
  "prepare_rules env ctx table = Inr rc \<Longrightarrow> rules_available rc \<longleftrightarrow> matching_rules env ctx table \<noteq> {}"
proof -
  assume rc: "prepare_rules env ctx table = Inr rc"
  have "r \<in> set (rx_and rc) \<or> r \<in> set (rx_or rc)" if "r \<in> matching_rules env ctx table" for r
    using that by (cases "ru_operator r") (simp_all add: prepare_rules_sets[OF rc])
  moreover have "set (rx_and rc) \<union> set (rx_or rc) \<subseteq> matching_rules env ctx table"
    by (auto simp: prepare_rules_sets[OF rc])
  moreover have "rules_available rc \<longleftrightarrow> set (rx_and rc) \<union> set (rx_or rc) \<noteq> {}"
    by (simp add: rules_available_def)
  ultimately show ?thesis by auto
qed

lemma or_rules_answer:
  assumes "ss_app s = Some app" and "\<forall>r \<in> set (rx_or rc). is_ok (rule_verdict env ctx app r)"
  shows "fst (or_rules_verified env ctx rc s) = Inr (\<exists>r \<in> set (rx_or rc). rule_verdict env ctx app r = Inr True)"
  using sec.run_any_answer[OF assms] by (simp add: or_rules_verified_def)

lemma verify_rules_answer:
  assumes s: "ss_app s = Some app"
    and ok: "\<forall>r \<in> set (rx_and rc) \<union> set (rx_or rc). is_ok (rule_verdict env ctx app r)"
  shows "fst (verify_rules env ctx rc s) = Inr (\<not> rules_available rc
     \<or> (rx_and rc \<noteq> [] \<and> (\<forall>r \<in> set (rx_and rc). rule_verdict env ctx app r = Inr True))
     \<or> (\<exists>r \<in> set (rx_or rc). rule_verdict env ctx app r = Inr True))"
proof -
  obtain a t where run: "run_all (rule_execute env ctx) (rx_and rc) s = (a, t)" by fastforce
  with sec.run_all_answer[OF s, of "rx_and rc" env ctx] ok
  have "a = Inr (\<forall>r \<in> set (rx_and rc). rule_verdict env ctx app r = Inr True)" "ss_app t = Some app" by auto
  then show ?thesis
    using ok run or_rules_answer[of s app rc env ctx] or_rules_answer[of t app rc env ctx] s
    by (auto simp: verify_rules_def rules_available_def)
qed

text \<open>C37. The middleware lets a request through exactly when no rule of the caller's project matches it,
  or the matching AND rules exist and all pass, or a matching OR rule passes; otherwise it answers that
  the action is not allowed.  The order of the rules, the short-circuited evaluation and the permissions
  granted on the way do not matter.\<close>
theorem rules_decide:
  assumes app: "ss_app s = Some app"
    and conditions: "\<forall>r \<in> set table. ru_project r = context_project ctx \<longrightarrow> is_ok (rule_can_handle env ctx r)"
    and verifiers: "\<forall>r \<in> matching_rules env ctx table. is_ok (rule_verdict env ctx app r)"
  shows "fst (process_request env ctx table s) =
    (if rules_allow (\<lambda>r. rule_verdict env ctx app r = Inr True) (matching_rules env ctx table)
     then Inr () else Inl ActionNotAllowed)"
proof -
  obtain rc where rc: "prepare_rules env ctx table = Inr rc" using prepare_rules_ok[OF conditions] by blast
  note sets = prepare_rules_sets[OF rc]
  obtain a t where v: "verify_rules env ctx rc s = (a, t)" by fastforce
  have "\<forall>r \<in> set (rx_and rc) \<union> set (rx_or rc). is_ok (rule_verdict env ctx app r)"
    using verifiers sets by blast
  from verify_rules_answer[OF app this]
  have "a = Inr (rules_allow (\<lambda>r. rule_verdict env ctx app r = Inr True) (matching_rules env ctx table))"
    unfolding available_iff[OF rc] sets set_empty[symmetric] rules_allow_def Let_def v fst_conv by simp
  with rc v show ?thesis by (simp add: process_request_def)
qed

lemma rule_execute_granted:
  "ss_granted (snd (rule_execute env ctx r s)) \<subseteq> ss_granted s \<union> {p. ru_action r = GrantPermissionAction p}"
proof -
  have "ss_granted (snd (verifier_execute env ctx v s)) = ss_granted s" for v
    by (auto simp: verifier_execute_def firebase_execute_def get_firebase_app_def
        split: verifier.splits option.splits sum.splits)
  moreover obtain a t where run: "verifier_execute env ctx (ru_action r) s = (a, t)" by fastforce
  ultimately have t: "ss_granted t = ss_granted s" by (metis snd_conv)
  show ?thesis
  proof (cases "a = Inr True")
    case True
    then show ?thesis unfolding rule_execute_def run using t
      by (cases "ru_action r") (auto simp: add_granted_permission_def)
  next
    case False
    then show ?thesis unfolding rule_execute_def run using t by (auto split: sum.splits bool.splits)
  qed
qed

lemma process_request_granted:
  "ss_granted (snd (process_request env ctx table s)) \<subseteq>
     ss_granted s \<union> {p. \<exists>r \<in> matching_rules env ctx table. ru_action r = GrantPermissionAction p}"
  (is "_ \<subseteq> ?G")
proof (cases "prepare_rules env ctx table")
  case (Inr rc)
  note sets = prepare_rules_sets[OF Inr]
  let ?P = "\<lambda>t. ss_granted t \<subseteq> ?G"
  have step: "?P (snd (rule_execute env ctx r t))" if "r \<in> matching_rules env ctx table" "?P t" for r t
    using rule_execute_granted[of env ctx r t] that by blast
  have ors: "?P (snd (or_rules_verified env ctx rc t))" if "?P t" for t
    unfolding or_rules_verified_def using run_any_invariant[of ?P t "rx_or rc" "rule_execute env ctx"] that step sets
    by auto
  have ands: "?P (snd (run_all (rule_execute env ctx) (rx_and rc) s))"
    using run_all_invariant[of ?P s "rx_and rc" "rule_execute env ctx"] step sets by auto
  have "?P (snd (verify_rules env ctx rc s))"
    using ors[of s] ands ors[of "snd (run_all (rule_execute env ctx) (rx_and rc) s)"]
    by (auto simp: verify_rules_def split: prod.splits sum.splits)
  with Inr show ?thesis by (auto simp: process_request_def split: prod.splits sum.splits)
qed (simp add: process_request_def)

text \<open>
  The grant of a rule stays when the AND group it belongs to fails after it: the OR rules then decide
  with the permission already granted.
\<close>

definition plain_env :: sec_env where
  "plain_env = \<lparr>se_payload = \<lambda>_. Inr (JDict []), se_match = \<lambda>_ _. Inr True, se_certificate = \<lambda>_. Inr (),
     se_verify = \<lambda>_ _. FirebaseError, se_loads = \<lambda>_. None, se_altcha = \<lambda>_ _. Inr False\<rparr>"

definition anonymous_post :: sec_context where
  "anonymous_post = \<lparr>sx_request = \<lparr>hr_method = ''post'', hr_path = ''/v1/iam/users/'', hr_header = \<lambda>_. None, hr_environ = True\<rparr>,
     sx_session = None\<rparr>"

definition registration_rule :: "uuid \<Rightarrow> verifier \<Rightarrow> rule_operator \<Rightarrow> rule" where
  "registration_rule u v op = \<lparr>ru_uuid = u, ru_condition = UriRegexConditions ''/v1/iam/users/'' (Some ''POST''),
     ru_action = v, ru_operator = op, ru_project = None\<rparr>"

lemma post_upper: "map upper_char ''post'' = ''POST''"
  by code_simp

lemma registration_rule_handles: "rule_can_handle plain_env anonymous_post (registration_rule u v op) = Inr True"
  by (simp add: rule_can_handle_def registration_rule_def condition_can_handle_def plain_env_def anonymous_post_def
      method_allowed_def post_upper del: list.map)

lemmas registration_simps = prepare_rules_def process_request_def verify_rules_def or_rules_verified_def rules_available_def
  registration_rule_handles context_project_def rule_execute_def verifier_execute_def captcha_execute_def
  add_granted_permission_def no_fields_execute_def

lemma registration_rule_simps [simp]:
  "ru_project (registration_rule u v op) = None" "ru_operator (registration_rule u v op) = op"
  "ru_action (registration_rule u v op) = v"
  by (simp_all add: registration_rule_def)

lemma anonymous_simps [simp]:
  "sx_session anonymous_post = None" "hr_header (sx_request anonymous_post) h = None"
  "hr_environ (sx_request anonymous_post)" "se_payload plain_env q = Inr (JDict [])"
  by (simp_all add: anonymous_post_def plain_env_def)

lemma failed_group_keeps_grant:
  "process_request plain_env anonymous_post
     [registration_rule ''r1'' (GrantPermissionAction ''iam.user.create'') OperatorAnd,
      registration_rule ''r2'' (CaptchaVerifier ''key'') OperatorAnd,
      registration_rule ''r3'' (FieldNotInRequest [''email'']) OperatorOr] \<lparr>ss_granted = {}, ss_app = None\<rparr> =
   (Inr (), \<lparr>ss_granted = {''iam.user.create''}, ss_app = None\<rparr>)"
  by (simp add: registration_simps dkeys_def)

text \<open>The same request passes the middleware when the matching OR rules alone decide.\<close>

theorem rules_decide_witness:
  "fst (process_request plain_env anonymous_post
     [registration_rule ''r2'' (CaptchaVerifier ''key'') OperatorAnd,
      registration_rule ''r3'' (FieldNotInRequest [''email'']) OperatorOr] \<lparr>ss_granted = {}, ss_app = Some ''app''\<rparr>) = Inr ()"
proof -
  let ?table = "[registration_rule ''r2'' (CaptchaVerifier ''key'') OperatorAnd,
      registration_rule ''r3'' (FieldNotInRequest [''email'']) OperatorOr]"
  let ?s = "\<lparr>ss_granted = {}, ss_app = Some ''app''\<rparr>"
  have m: "matching_rules plain_env anonymous_post ?table = set ?table"
    by (auto simp: matching_rules_def registration_rule_handles context_project_def)
  have v: "rule_verdict plain_env anonymous_post ''app'' (registration_rule u (CaptchaVerifier k) op) = Inr False"
    "rule_verdict plain_env anonymous_post ''app'' (registration_rule u (FieldNotInRequest names) op) = Inr True" for u k op names
    by (simp_all add: rule_verdict_def verifier_execute_def captcha_execute_def no_fields_execute_def dkeys_def)
  have "ss_app ?s = Some ''app''" by simp
  moreover have "\<forall>r \<in> set ?table. ru_project r = context_project anonymous_post \<longrightarrow> is_ok (rule_can_handle plain_env anonymous_post r)"
    by (simp add: registration_rule_handles)
  moreover have "\<forall>r \<in> matching_rules plain_env anonymous_post ?table. is_ok (rule_verdict plain_env anonymous_post ''app'' r)"
    unfolding m by (simp add: v)
  ultimately have "fst (process_request plain_env anonymous_post ?table ?s) =
    (if rules_allow (\<lambda>r. rule_verdict plain_env anonymous_post ''app'' r = Inr True) (matching_rules plain_env anonymous_post ?table)
     then Inr () else Inl ActionNotAllowed)"
    by (rule rules_decide)
  moreover have "rules_allow (\<lambda>r. rule_verdict plain_env anonymous_post ''app'' r = Inr True) (set ?table)"
    by (auto simp: rules_allow_def v)
  ultimately show ?thesis by (simp add: m)
qed

text \<open>C38. Nobody registers a user without the permission to create users unless a rule of the caller's own
  project - for an anonymous caller, of no project - whose condition matches the request grants that
  permission: no other verifier, header or body makes the check of the controller pass.\<close>
theorem registration_needs_grant:
  assumes "process_request env ctx table s0 = (Inr (), s)" and "ss_granted s0 = {}"
    and "user_create (caller_behind ctx s c) ienv name email typ source secret db = Inr db'"
    and "\<not> cl_enforcer c ''iam.user.create''"
  shows "\<exists>r \<in> set table. ru_project r = context_project ctx \<and> rule_can_handle env ctx r = Inr True \<and>
    ru_action r = GrantPermissionAction ''iam.user.create''"
proof -
  have "enforce (caller_behind ctx s c) ''iam.user.create''" using assms(3) by (auto simp: user_create_def split: if_splits)
  with assms(4) have "''iam.user.create'' \<in> ss_granted s"
    by (simp add: enforce_def caller_behind_def has_granted_permission_def)
  with process_request_granted[of env ctx table s0] assms(1,2) show ?thesis by (auto simp: matching_rules_def)
qed

lemma example_password: "validate_password (Some ''testpass123'') = Inr ''testpass123''"
  by code_simp

theorem registration_needs_grant_witness:
  "\<exists>db'. user_create (caller_behind anonymous_post \<lparr>ss_granted = {''iam.user.create''}, ss_app = None\<rparr>
      \<lparr>cl_me = example_user, cl_token = ''t'', cl_project = None, cl_granted = \<lambda>_. False, cl_enforcer = \<lambda>_. False\<rparr>)
      example_env ''bob'' ''bob@x.org'' ''user'' IamSource (Some ''testpass123'') (example_db\<lparr>db_users := []\<rparr>) = Inr db' \<and>
    (\<exists>r \<in> set [registration_rule ''r1'' (GrantPermissionAction ''iam.user.create'') OperatorOr].
       ru_action r = GrantPermissionAction ''iam.user.create'')"
proof -
  let ?table = "[registration_rule ''r1'' (GrantPermissionAction ''iam.user.create'') OperatorOr]"
  let ?s = "\<lparr>ss_granted = {''iam.user.create''}, ss_app = None\<rparr>"
  let ?c = "\<lparr>cl_me = example_user, cl_token = ''t'', cl_project = None, cl_granted = \<lambda>_. False, cl_enforcer = \<lambda>_. False\<rparr>"
  have run: "process_request plain_env anonymous_post ?table \<lparr>ss_granted = {}, ss_app = None\<rparr> = (Inr (), ?s)"
    by (simp add: registration_simps)
  obtain db' where db: "user_create (caller_behind anonymous_post ?s ?c) example_env ''bob'' ''bob@x.org'' ''user'' IamSource
      (Some ''testpass123'') (example_db\<lparr>db_users := []\<rparr>) = Inr db'"
    by (simp add: user_create_def enforce_def caller_behind_def has_granted_permission_def example_password Let_def
        insert_user_def example_db_def)
  have "ss_granted \<lparr>ss_granted = {}, ss_app = None\<rparr> = {}" "\<not> cl_enforcer ?c ''iam.user.create''" by simp_all
  from registration_needs_grant[OF run this(1) db this(2)] db show ?thesis by blast
qed
end
