(* ===== verification/Value_Store.thy ===== *)
theory Value_Store
  imports Element_Links
begin

text \<open>
  The values store (\<open>exordos_core/vs/dm/models.py\<close>, \<open>vs/builders/service.py\<close>,
  \<open>user_api/vs/api/controllers.py\<close> and the profile actions of \<open>user_api/em/api/controllers.py\<close>): profiles, of
  which one global profile is active, variables, which take their value from the profile of an element, from
  the active profile or from one of the values attached to them, and the builder that recalculates them.

  A table is the list of its rows, in the order a query returns them.  An object read from a table is a copy of
  its row: \<open>update\<close> writes the copy back, and only when a field of it was changed or it is forced to.  A
  variable and a value are always changed when they are written, because \<open>update\<close> encodes their \<open>value\<close> field
  first.  The database keeps the manually selected value of a variable unique and the profile of an element.
\<close>

section \<open>Rows\<close>

datatype profile_type = GlobalProfile | ElementProfile

record profile =
  pf_uuid :: uuid
  pf_name :: string
  pf_project :: uuid
  pf_type :: profile_type
  pf_active :: bool
  pf_updated :: int

datatype setter = ProfileSetter "uuid option" string "(uuid \<times> json) list" | SelectorSetter string

datatype variable_status = VarNew | VarInProgress | VarActive

record variable =
  va_uuid :: uuid
  va_project :: uuid
  va_setter :: setter
  va_value :: "json option"
  va_status :: variable_status
  va_updated :: int

record vs_value =
  vl_uuid :: uuid
  vl_project :: uuid
  vl_value :: json
  vl_selected :: bool
  vl_created :: int
  vl_variable :: "uuid option"

record vs_element =
  vse_uuid :: uuid
  vse_profile :: "uuid option"

record vs_db =
  vd_profiles :: "profile list"
  vd_variables :: "variable list"
  vd_values :: "vs_value list"
  vd_elements :: "vs_element list"
  vd_resources :: "(uuid \<times> uuid \<times> string \<times> string) list"
  vd_exports :: "(uuid \<times> string) list"

datatype vs_error = OnlyGlobalProfiles | ProfileInUse | RecordNotFound | HasManyRecords | VariableCannotFindValue
  | NotImplementedFallback | NotOfVariable | ValueNotBelongsToVariable | NoValueSelected | Conflict | StillReferred
  | Forbidden | ElementHasNoProfile

definition vs_get_one :: "('a \<Rightarrow> bool) \<Rightarrow> 'a list \<Rightarrow> vs_error + 'a" where
  "vs_get_one P rows = (case filter P rows of [] \<Rightarrow> Inl RecordNotFound | [x] \<Rightarrow> Inr x | _ \<Rightarrow> Inl HasManyRecords)"

section \<open>Profiles\<close>

text \<open>\<open>update\<close> of a profile that was read as \<open>old\<close> and changed to \<open>new\<close>, at a time.\<close>

definition profile_update :: "int \<Rightarrow> bool \<Rightarrow> profile \<Rightarrow> profile \<Rightarrow> vs_db \<Rightarrow> vs_db" where
  "profile_update now force old new db =
     (if new = old \<and> \<not> force then db else db\<lparr>vd_profiles := put_row pf_uuid (new\<lparr>pf_updated := now\<rparr>) (vd_profiles db)\<rparr>)"

definition activate :: "int \<Rightarrow> profile \<Rightarrow> vs_db \<Rightarrow> vs_error + vs_db" where
  "activate now self db =
     (if pf_type self \<noteq> GlobalProfile then Inl OnlyGlobalProfiles
      else let db = fold (\<lambda>p. profile_update now False p (p\<lparr>pf_active := False\<rparr>))
                 (filter (\<lambda>p. pf_type p = GlobalProfile) (vd_profiles db)) db
           in Inr (profile_update now False self (self\<lparr>pf_active := True\<rparr>) db))"

definition global_profile :: "vs_db \<Rightarrow> vs_error + profile" where
  "global_profile db = vs_get_one (\<lambda>p. pf_type p = GlobalProfile \<and> pf_active p) (vd_profiles db)"

definition setter_profiles :: "setter \<Rightarrow> (uuid \<times> json) list" where
  "setter_profiles s = (case s of ProfileSetter _ _ ps \<Rightarrow> ps | SelectorSetter _ \<Rightarrow> [])"

definition validate_not_used :: "uuid \<Rightarrow> vs_db \<Rightarrow> vs_error + unit" where
  "validate_not_used u db =
     (if \<exists>v \<in> set (vd_variables db). \<exists>p \<in> set (setter_profiles (va_setter v)). fst p = u then Inl ProfileInUse else Inr ())"

text \<open>A profile an element has is kept by the foreign key of \<open>em_elements\<close>.\<close>

definition profile_delete :: "uuid \<Rightarrow> vs_db \<Rightarrow> vs_error + vs_db" where
  "profile_delete u db = ebind (validate_not_used u db) (\<lambda>_.
     if \<exists>e \<in> set (vd_elements db). vse_profile e = Some u then Inl StillReferred
     else Inr (db\<lparr>vd_profiles := filter (\<lambda>p. pf_uuid p \<noteq> u) (vd_profiles db)\<rparr>))"

section \<open>Variables and values\<close>

definition variable_update :: "int \<Rightarrow> variable \<Rightarrow> vs_db \<Rightarrow> vs_db" where
  "variable_update now v db = db\<lparr>vd_variables := put_row va_uuid (v\<lparr>va_updated := now\<rparr>) (vd_variables db)\<rparr>"

definition values_of :: "uuid \<Rightarrow> vs_db \<Rightarrow> vs_value list" where
  "values_of u db = filter (\<lambda>v. vl_variable v = Some u) (vd_values db)"

text \<open>
  The variable of a value is read with it; a change of the value writes that copy back, so that the
  builder sees the variable.  The copy is the row as it was when the value was read: the operations below
  write no variable in between.
\<close>

definition notify_variable :: "int \<Rightarrow> vs_value \<Rightarrow> vs_db \<Rightarrow> vs_db" where
  "notify_variable now v db = (case vl_variable v of
     None \<Rightarrow> db
   | Some u \<Rightarrow> (case find (\<lambda>x. va_uuid x = u) (vd_variables db) of None \<Rightarrow> db | Some x \<Rightarrow> variable_update now x db))"

text \<open>The unique index on the variable of the manually selected values.\<close>

definition selection_conflict :: "vs_value \<Rightarrow> vs_value list \<Rightarrow> bool" where
  "selection_conflict v rows \<longleftrightarrow> vl_selected v \<and> vl_variable v \<noteq> None \<and>
     (\<exists>w \<in> set rows. vl_uuid w \<noteq> vl_uuid v \<and> vl_selected w \<and> vl_variable w = vl_variable v)"

definition value_insert :: "int \<Rightarrow> vs_value \<Rightarrow> vs_db \<Rightarrow> vs_error + vs_db" where
  "value_insert now v db =
     (if vl_uuid v \<in> vl_uuid ` set (vd_values db) \<or> selection_conflict v (vd_values db) then Inl Conflict
      else Inr (notify_variable now v (db\<lparr>vd_values := vd_values db @ [v]\<rparr>)))"

definition value_update :: "int \<Rightarrow> vs_value \<Rightarrow> vs_db \<Rightarrow> vs_error + vs_db" where
  "value_update now v db =
     (if selection_conflict v (vd_values db) then Inl Conflict
      else Inr (notify_variable now v (db\<lparr>vd_values := put_row vl_uuid v (vd_values db)\<rparr>)))"

definition value_delete :: "int \<Rightarrow> vs_value \<Rightarrow> vs_db \<Rightarrow> vs_db" where
  "value_delete now v db = notify_variable now v (db\<lparr>vd_values := filter (\<lambda>w. vl_uuid w \<noteq> vl_uuid v) (vd_values db)\<rparr>)"

definition selected_value :: "uuid \<Rightarrow> vs_db \<Rightarrow> vs_value option" where
  "selected_value u db = find vl_selected (values_of u db)"

text \<open>Every value of the variable is written back unselected.\<close>

definition release_value :: "int \<Rightarrow> uuid \<Rightarrow> vs_db \<Rightarrow> vs_error + vs_db" where
  "release_value now u db = efold (\<lambda>w. value_update now (w\<lparr>vl_selected := False\<rparr>)) (values_of u db) db"

definition select_me :: "int \<Rightarrow> vs_value \<Rightarrow> uuid \<Rightarrow> vs_db \<Rightarrow> vs_error + vs_db" where
  "select_me now self u db =
     (if vl_variable self \<noteq> Some u then Inl NotOfVariable
      else ebind (efold (\<lambda>w. value_update now (w\<lparr>vl_selected := False\<rparr>)) (values_of u db) db)
        (value_update now (self\<lparr>vl_selected := True\<rparr>)))"

section \<open>Setters\<close>

definition profile_set_value :: "uuid option \<Rightarrow> string \<Rightarrow> (uuid \<times> json) list \<Rightarrow> variable \<Rightarrow> vs_db \<Rightarrow> vs_error + variable" where
  "profile_set_value element fallback profiles v db =
     ebind (case element of
         None \<Rightarrow> Inr None
       | Some e \<Rightarrow> (case find (\<lambda>x. vse_uuid x = e) (vd_elements db) of
           None \<Rightarrow> Inl VariableCannotFindValue | Some x \<Rightarrow> Inr (vse_profile x))) (\<lambda>chosen.
     ebind (case chosen of Some p \<Rightarrow> Inr p | None \<Rightarrow> ebind (global_profile db) (\<lambda>p. Inr (pf_uuid p))) (\<lambda>p.
       case find (\<lambda>e. fst e = p) profiles of
         Some e \<Rightarrow> Inr (v\<lparr>va_value := Some (snd e)\<rparr>)
       | None \<Rightarrow> if fallback = ''ignore'' then Inr v else Inl NotImplementedFallback))"

text \<open>\<open>sorted\<close> is stable, so the last of the latest created values is used.\<close>

definition set_value_latest_strategy :: "int \<Rightarrow> variable \<Rightarrow> vs_value list \<Rightarrow> vs_db \<Rightarrow> variable \<times> vs_db" where
  "set_value_latest_strategy now v vals db =
     (if \<not> list_ex vl_selected vals
      then let v = v\<lparr>va_value := Some (vl_value (last (sort_key vl_created vals)))\<rparr> in (v, variable_update now v db)
      else let v = v\<lparr>va_value := Some (vl_value (hd (filter vl_selected vals)))\<rparr> in (v, variable_update now v db))"

definition selector_set_value :: "int \<Rightarrow> string \<Rightarrow> variable \<Rightarrow> vs_db \<Rightarrow> vs_error + variable \<times> vs_db" where
  "selector_set_value now strategy v db = (let vals = values_of (va_uuid v) db in
     if vals = [] then Inl VariableCannotFindValue
     else if strategy = ''latest'' then Inr (set_value_latest_strategy now v vals db)
     else Inl VariableCannotFindValue)"

definition set_value :: "int \<Rightarrow> variable \<Rightarrow> vs_db \<Rightarrow> vs_error + variable \<times> vs_db" where
  "set_value now v db = (case va_setter v of
     ProfileSetter element fallback profiles \<Rightarrow>
       ebind (profile_set_value element fallback profiles v db) (\<lambda>v. Inr (v, db))
   | SelectorSetter strategy \<Rightarrow> selector_set_value now strategy v db)"

section \<open>The builder\<close>

definition get_tracked_resources :: "variable \<Rightarrow> (string \<times> uuid) list" where
  "get_tracked_resources v = (case va_setter v of
     ProfileSetter _ _ profiles \<Rightarrow> map (\<lambda>p. (''vs_profile'', fst p)) profiles
   | SelectorSetter _ \<Rightarrow> [])"

text \<open>
  The hooks after the creation of the resource of a variable, after its update and after a change of a
  profile it tracks do the same; an error other than the missing value ends the hook.  The builder of the
  SDK writes the variable afterwards.
\<close>

definition recalculate :: "int \<Rightarrow> variable \<Rightarrow> vs_db \<Rightarrow> vs_error + variable \<times> vs_db" where
  "recalculate now v db = (case set_value now v db of
     Inr (v, db) \<Rightarrow> Inr (v\<lparr>va_status := VarActive\<rparr>, db)
   | Inl VariableCannotFindValue \<Rightarrow> Inr (v\<lparr>va_value := None, va_status := VarInProgress\<rparr>, db)
   | Inl e \<Rightarrow> Inl e)"

datatype vs_instance = ProfileInstance profile | ValueInstance vs_value | VariableInstance variable

definition vs_hook :: "int \<Rightarrow> vs_instance \<Rightarrow> vs_db \<Rightarrow> vs_error + vs_instance \<times> vs_db" where
  "vs_hook now i db = (case i of
     VariableInstance v \<Rightarrow> ebind (recalculate now v db) (\<lambda>(v, db). Inr (VariableInstance v, db))
   | _ \<Rightarrow> Inr (i, db))"

section \<open>The API\<close>

record vs_context =
  vx_now :: int
  vx_project :: "uuid option"
  vx_enforce :: "string \<Rightarrow> bool"
  vx_force_project :: "uuid \<Rightarrow> bool"

definition vs_enforce :: "vs_context \<Rightarrow> string \<Rightarrow> vs_error + unit" where
  "vs_enforce ctx action = (if vx_enforce ctx action then Inr () else Inl Forbidden)"

definition exported_resource_uuids :: "vs_db \<Rightarrow> uuid list" where
  "exported_resource_uuids db =
     [u. (u, element, prefix, name) \<leftarrow> vd_resources db, (element', link) \<leftarrow> vd_exports db,
         element' = element, link = prefix @ ''.$'' @ name]"

definition profile_shared :: "profile \<Rightarrow> bool" where
  "profile_shared p \<longleftrightarrow> pf_type p = GlobalProfile"

definition variable_shared :: "vs_db \<Rightarrow> variable \<Rightarrow> bool" where
  "variable_shared db v \<longleftrightarrow> va_uuid v \<in> set (exported_resource_uuids db)"

definition readable :: "vs_context \<Rightarrow> ('a \<Rightarrow> bool) \<Rightarrow> ('a \<Rightarrow> uuid) \<Rightarrow> 'a \<Rightarrow> bool" where
  "readable ctx shared project x \<longleftrightarrow> (case vx_project ctx of None \<Rightarrow> True | Some p \<Rightarrow> shared x \<or> project x = p)"

definition scoped_get :: "vs_context \<Rightarrow> ('a \<Rightarrow> bool) \<Rightarrow> ('a \<Rightarrow> uuid) \<Rightarrow> ('a \<Rightarrow> uuid) \<Rightarrow> uuid \<Rightarrow> 'a list \<Rightarrow> vs_error + 'a" where
  "scoped_get ctx shared project key u rows = ebind (vs_enforce ctx ''read'') (\<lambda>_.
     vs_get_one (\<lambda>x. key x = u \<and> readable ctx shared project x) rows)"

definition enforce_own :: "vs_context \<Rightarrow> ('a \<Rightarrow> uuid) \<Rightarrow> ('a \<Rightarrow> uuid) \<Rightarrow> uuid \<Rightarrow> 'a list \<Rightarrow> vs_error + unit" where
  "enforce_own ctx project key u rows = (case vx_project ctx of
     None \<Rightarrow> Inr ()
   | Some p \<Rightarrow> ebind (vs_get_one (\<lambda>x. key x = u \<and> project x = p) rows) (\<lambda>_. Inr ()))"

definition get_variable :: "vs_context \<Rightarrow> uuid \<Rightarrow> vs_db \<Rightarrow> vs_error + variable" where
  "get_variable ctx u db = scoped_get ctx (variable_shared db) va_project va_uuid u (vd_variables db)"

definition get_profile :: "vs_context \<Rightarrow> uuid \<Rightarrow> vs_db \<Rightarrow> vs_error + profile" where
  "get_profile ctx u db = scoped_get ctx profile_shared pf_project pf_uuid u (vd_profiles db)"

definition activate_profile :: "vs_context \<Rightarrow> uuid \<Rightarrow> vs_db \<Rightarrow> vs_error + vs_db" where
  "activate_profile ctx u db = ebind (get_profile ctx u db) (\<lambda>p.
     ebind (vs_enforce ctx ''activate'') (\<lambda>_. activate (vx_now ctx) p db))"

definition delete_profile :: "vs_context \<Rightarrow> uuid \<Rightarrow> vs_db \<Rightarrow> vs_error + vs_db" where
  "delete_profile ctx u db = ebind (enforce_own ctx pf_project pf_uuid u (vd_profiles db)) (\<lambda>_.
     ebind (vs_enforce ctx ''delete'') (\<lambda>_. ebind (vs_get_one (\<lambda>p. pf_uuid p = u) (vd_profiles db)) (\<lambda>_. profile_delete u db)))"

text \<open>
  A change of a variable through the API leaves it in progress until the builder has seen it.  Whether a
  caller bound to a project may name another project is the policy library's answer.
\<close>

definition update_variable ::
  "vs_context \<Rightarrow> uuid \<Rightarrow> uuid option \<Rightarrow> setter option \<Rightarrow> vs_db \<Rightarrow> vs_error + vs_db" where
  "update_variable ctx u project setter db =
     ebind (enforce_own ctx va_project va_uuid u (vd_variables db)) (\<lambda>_.
     ebind (case project of
         Some p \<Rightarrow> if vx_project ctx \<noteq> None \<and> \<not> vx_force_project ctx p then Inl Forbidden else Inr ()
       | None \<Rightarrow> Inr ()) (\<lambda>_.
     ebind (vs_enforce ctx ''update'') (\<lambda>_.
     ebind (vs_get_one (\<lambda>v. va_uuid v = u) (vd_variables db)) (\<lambda>v.
       Inr (variable_update (vx_now ctx)
         (v\<lparr>va_project := (case project of None \<Rightarrow> va_project v | Some p \<Rightarrow> p),
            va_setter := (case setter of None \<Rightarrow> va_setter v | Some s \<Rightarrow> s), va_status := VarInProgress\<rparr>) db)))))"

definition select_value :: "vs_context \<Rightarrow> uuid \<Rightarrow> uuid \<Rightarrow> vs_db \<Rightarrow> vs_error + vs_db" where
  "select_value ctx u value db = ebind (get_variable ctx u db) (\<lambda>resource.
     ebind (vs_enforce ctx ''select_value'') (\<lambda>_.
     ebind (enforce_own ctx va_project va_uuid (va_uuid resource) (vd_variables db)) (\<lambda>_.
     ebind (vs_get_one (\<lambda>v. vl_uuid v = value) (vd_values db)) (\<lambda>v.
     case select_me (vx_now ctx) v (va_uuid resource) db of
       Inl NotOfVariable \<Rightarrow> Inl ValueNotBelongsToVariable
     | Inl e \<Rightarrow> Inl e
     | Inr db \<Rightarrow> Inr (variable_update (vx_now ctx) resource db)))))"

definition release_selected :: "vs_context \<Rightarrow> uuid \<Rightarrow> vs_db \<Rightarrow> vs_error + vs_db" where
  "release_selected ctx u db = ebind (get_variable ctx u db) (\<lambda>resource.
     ebind (vs_enforce ctx ''release_value'') (\<lambda>_.
     ebind (enforce_own ctx va_project va_uuid (va_uuid resource) (vd_variables db)) (\<lambda>_.
     if selected_value (va_uuid resource) db = None then Inl NoValueSelected
     else ebind (release_value (vx_now ctx) (va_uuid resource) db) (\<lambda>db.
       Inr (variable_update (vx_now ctx) resource db)))))"

text \<open>The profile of an element; the profile is written back so that the builder sees its variables.\<close>

definition set_profile :: "int \<Rightarrow> vs_element \<Rightarrow> uuid \<Rightarrow> vs_db \<Rightarrow> vs_error + vs_db" where
  "set_profile now e profile db = ebind (vs_get_one (\<lambda>p. pf_uuid p = profile) (vd_profiles db)) (\<lambda>p.
     Inr (profile_update now True p p (db\<lparr>vd_elements := put_row vse_uuid (e\<lparr>vse_profile := Some profile\<rparr>) (vd_elements db)\<rparr>)))"

definition clear_profile :: "int \<Rightarrow> vs_element \<Rightarrow> vs_db \<Rightarrow> vs_error + vs_db" where
  "clear_profile now e db = (case vse_profile e of
     None \<Rightarrow> Inl ElementHasNoProfile
   | Some u \<Rightarrow> ebind (vs_get_one (\<lambda>p. pf_uuid p = u) (vd_profiles db)) (\<lambda>p.
       Inr (profile_update now True p p (db\<lparr>vd_elements := put_row vse_uuid (e\<lparr>vse_profile := None\<rparr>) (vd_elements db)\<rparr>))))"

section \<open>Facts\<close>

definition vs_keys :: "vs_db \<Rightarrow> bool" where
  "vs_keys db \<longleftrightarrow> distinct (map pf_uuid (vd_profiles db)) \<and> distinct (map va_uuid (vd_variables db)) \<and>
     distinct (map vl_uuid (vd_values db))"

lemma vs_get_one_Inr: "vs_get_one P rows = Inr x \<Longrightarrow> x \<in> set rows \<and> P x"
  by (force simp: vs_get_one_def filter_eq_Cons_iff split: list.splits)

lemma vs_get_one_unique:
  assumes "distinct (map k rows)" and "x \<in> set rows" "P x" and "\<And>y. y \<in> set rows \<Longrightarrow> P y \<Longrightarrow> k y = k x"
  shows "vs_get_one P rows = Inr x"
proof -
  have "filter P rows = [x]" by (rule filter_singleton[of k]) (use assms in blast)+
  then show ?thesis by (simp add: vs_get_one_def)
qed

section \<open>Activation of a profile\<close>

definition deactivated :: "int \<Rightarrow> profile \<Rightarrow> profile" where
  "deactivated now p = p\<lparr>pf_active := False, pf_updated := now\<rparr>"

lemma profile_update_rows:
  "vd_profiles (profile_update now False p (p\<lparr>pf_active := b\<rparr>) db) =
     (if pf_active p \<noteq> b then put_row pf_uuid (p\<lparr>pf_active := b, pf_updated := now\<rparr>) (vd_profiles db) else vd_profiles db)"
proof -
  have "p\<lparr>pf_active := b\<rparr> = p \<longleftrightarrow> pf_active p = b" by (cases p) auto
  then show ?thesis by (auto simp: profile_update_def)
qed

lemma fold_profile_rows:
  "vd_profiles (fold (\<lambda>p. profile_update now False p (p\<lparr>pf_active := False\<rparr>)) ps db) =
     fold (\<lambda>p rows. if pf_active p then put_row pf_uuid (deactivated now p) rows else rows) ps (vd_profiles db)"
  by (induction ps arbitrary: db) (simp_all add: profile_update_rows deactivated_def)

lemma activate_rows:
  assumes keys: "distinct (map pf_uuid (vd_profiles db))" and self: "self \<in> set (vd_profiles db)"
    and act: "activate now self db = Inr db'"
  shows "vd_profiles db' = map (\<lambda>x. if x = self \<and> \<not> pf_active self then self\<lparr>pf_active := True, pf_updated := now\<rparr>
      else if pf_type x = GlobalProfile \<and> pf_active x then deactivated now x else x) (vd_profiles db)"
proof -
  let ?off = "\<lambda>x. if pf_type x = GlobalProfile \<and> pf_active x then deactivated now x else x"
  let ?db = "fold (\<lambda>p. profile_update now False p (p\<lparr>pf_active := False\<rparr>))
    (filter (\<lambda>p. pf_type p = GlobalProfile) (vd_profiles db)) db"
  have "vd_profiles ?db = map (\<lambda>x. if x \<in> set (filter (\<lambda>p. pf_type p = GlobalProfile) (vd_profiles db)) \<and> pf_active x
      then deactivated now x else x) (vd_profiles db)"
    using fold_put_row[where f = "\<lambda>x. x", OF keys, of "deactivated now" "filter (\<lambda>p. pf_type p = GlobalProfile) (vd_profiles db)" pf_active]
    by (simp add: fold_profile_rows deactivated_def)
  also have "\<dots> = map ?off (vd_profiles db)" by simp
  finally have off: "vd_profiles ?db = map ?off (vd_profiles db)" .
  have db': "db' = profile_update now False self (self\<lparr>pf_active := True\<rparr>) ?db"
    using act by (simp add: activate_def Let_def split: if_splits)
  have put: "put_row pf_uuid (self\<lparr>pf_active := True, pf_updated := now\<rparr>) (map ?off (vd_profiles db)) =
      map (\<lambda>x. if x = self then self\<lparr>pf_active := True, pf_updated := now\<rparr> else ?off x) (vd_profiles db)"
    by (rule put_row_map[OF keys self]) (simp_all add: deactivated_def)
  show ?thesis unfolding db' profile_update_rows off put by auto
qed

lemma activate_others:
  "activate now self db = Inr db' \<Longrightarrow> vd_variables db' = vd_variables db \<and> vd_values db' = vd_values db \<and> vd_elements db' = vd_elements db"
proof -
  have "vd_variables (profile_update now False p q db) = vd_variables db \<and> vd_values (profile_update now False p q db) = vd_values db \<and>
      vd_elements (profile_update now False p q db) = vd_elements db" for p q db
    by (simp add: profile_update_def)
  then have "vd_variables (fold (\<lambda>p. profile_update now False p (q p)) ps db) = vd_variables db \<and>
      vd_values (fold (\<lambda>p. profile_update now False p (q p)) ps db) = vd_values db \<and>
      vd_elements (fold (\<lambda>p. profile_update now False p (q p)) ps db) = vd_elements db" for q ps db
    by (induction ps arbitrary: db) simp_all
  then show "activate now self db = Inr db' \<Longrightarrow> ?thesis"
    by (auto simp: activate_def Let_def profile_update_def split: if_splits)
qed

definition active_globals :: "vs_db \<Rightarrow> profile list" where
  "active_globals db = filter (\<lambda>p. pf_type p = GlobalProfile \<and> pf_active p) (vd_profiles db)"

lemma global_profile_active: "active_globals db = [p] \<Longrightarrow> global_profile db = Inr p"
  by (simp add: global_profile_def active_globals_def vs_get_one_def)

lemma activate_only_active:
  assumes keys: "distinct (map pf_uuid (vd_profiles db))" and self: "self \<in> set (vd_profiles db)" "\<not> pf_active self"
    and act: "activate now self db = Inr db'"
  shows "active_globals db' = [self\<lparr>pf_active := True, pf_updated := now\<rparr>]"
proof -
  have type: "pf_type self = GlobalProfile" using act by (simp add: activate_def split: if_splits)
  let ?f = "\<lambda>x. if x = self \<and> \<not> pf_active self then self\<lparr>pf_active := True, pf_updated := now\<rparr>
      else if pf_type x = GlobalProfile \<and> pf_active x then deactivated now x else x"
  have "filter (\<lambda>p. pf_type p = GlobalProfile \<and> pf_active p) (map ?f (vd_profiles db)) = [?f self]"
    by (rule filter_map_singleton) (use keys self type in \<open>auto simp: distinct_map deactivated_def\<close>)
  with self show ?thesis by (simp add: active_globals_def activate_rows[OF keys self(1) act])
qed

text \<open>Activating the profile that is active already leaves none active: its own copy is not changed.\<close>

lemma reactivation_leaves_none:
  assumes "distinct (map pf_uuid (vd_profiles db))" and "self \<in> set (vd_profiles db)" "pf_active self"
    and "activate now self db = Inr db'"
  shows "active_globals db' = [] \<and> global_profile db' = Inl RecordNotFound"
proof -
  have "active_globals db' = []"
    unfolding active_globals_def activate_rows[OF assms(1,2,4)] using assms(3)
    by (auto simp: filter_empty_conv deactivated_def)
  then show ?thesis by (simp add: global_profile_def vs_get_one_def active_globals_def)
qed


section \<open>Selection of a value\<close>

lemma notify_variable_rows:
  assumes "distinct (map va_uuid (vd_variables db))"
  shows "vd_variables (notify_variable now v db) =
    map (\<lambda>x. if vl_variable v = Some (va_uuid x) then x\<lparr>va_updated := now\<rparr> else x) (vd_variables db)"
proof (cases "\<exists>x \<in> set (vd_variables db). vl_variable v = Some (va_uuid x)")
  case True
  then obtain x where x: "x \<in> set (vd_variables db)" "vl_variable v = Some (va_uuid x)" by blast
  then obtain y where "find (\<lambda>y. va_uuid y = va_uuid x) (vd_variables db) = Some y"
    by (metis (mono_tags, lifting) find_None_iff not_None_eq)
  moreover from this have "y = x" using distinct_key_iff[OF assms _ x(1)] by (auto simp: find_Some_iff)
  ultimately have "vd_variables (notify_variable now v db) = put_row va_uuid (x\<lparr>va_updated := now\<rparr>) (vd_variables db)"
    using x by (simp add: notify_variable_def variable_update_def)
  also have "\<dots> = map (\<lambda>z. if z = x then x\<lparr>va_updated := now\<rparr> else z) (vd_variables db)"
    by (rule put_row_self[OF assms x(1)]) simp
  also have "\<dots> = map (\<lambda>z. if vl_variable v = Some (va_uuid z) then z\<lparr>va_updated := now\<rparr> else z) (vd_variables db)"
    using distinct_key_iff[OF assms x(1)] x(2) by (auto intro!: map_cong)
  finally show ?thesis .
next
  case False
  then have "vd_variables (notify_variable now v db) = vd_variables db"
    by (auto simp: notify_variable_def find_Some_iff split: option.splits)
  with False show ?thesis by (auto intro!: map_idI[symmetric])
qed

lemma notify_variable_others [simp]:
  "vd_values (notify_variable now v db) = vd_values db" "vd_profiles (notify_variable now v db) = vd_profiles db"
  "vd_resources (notify_variable now v db) = vd_resources db" "vd_exports (notify_variable now v db) = vd_exports db"
  by (simp_all add: notify_variable_def variable_update_def split: option.splits)

definition unselected :: "vs_value \<Rightarrow> vs_value" where
  "unselected w = w\<lparr>vl_selected := False\<rparr>"

lemma value_update_unselected:
  "value_update now (w\<lparr>vl_selected := False\<rparr>) db =
     Inr (notify_variable now (unselected w) (db\<lparr>vd_values := put_row vl_uuid (unselected w) (vd_values db)\<rparr>))"
  by (simp add: value_update_def selection_conflict_def unselected_def)

text \<open>The release loop: it never fails, and of the variables it only writes the one it is about.\<close>

lemma release_loop:
  assumes "distinct (map vl_uuid rows)" and "distinct (map va_uuid (vd_variables db))" and "set ws \<subseteq> set rows"
    and "\<forall>w \<in> set ws. vl_variable w = Some u" and "vd_values db = map f rows" and "\<And>x. vl_uuid (f x) = vl_uuid x"
  shows "\<exists>db'. efold (\<lambda>w. value_update now (w\<lparr>vl_selected := False\<rparr>)) ws db = Inr db' \<and>
    vd_values db' = map (\<lambda>x. if x \<in> set ws then unselected x else f x) rows \<and>
    (\<exists>T. vd_variables db' = map (\<lambda>x. if va_uuid x = u \<and> T then x\<lparr>va_updated := now\<rparr> else x) (vd_variables db))"
  using assms(2-)
proof (induction ws arbitrary: db f)
  case Nil
  then show ?case by (auto intro: exI[where x = False])
next
  case (Cons w ws)
  let ?f = "\<lambda>x. if x = w then unselected w else f x"
  let ?db = "notify_variable now (unselected w) (db\<lparr>vd_values := put_row vl_uuid (unselected w) (vd_values db)\<rparr>)"
  have vals: "vd_values ?db = map ?f rows"
    using put_row_map[OF assms(1), of w "unselected w" f] Cons.prems by (simp add: unselected_def)
  have vars: "vd_variables ?db = map (\<lambda>x. if va_uuid x = u then x\<lparr>va_updated := now\<rparr> else x) (vd_variables db)"
    using Cons.prems(1,3) notify_variable_rows[of "db\<lparr>vd_values := put_row vl_uuid (unselected w) (vd_values db)\<rparr>" now "unselected w"]
    by (auto simp: unselected_def)
  have "map va_uuid (vd_variables ?db) = map va_uuid (vd_variables db)" unfolding vars by simp
  then have keys: "distinct (map va_uuid (vd_variables ?db))" using Cons.prems(1) by simp
  have "vl_uuid (?f x) = vl_uuid x" for x using Cons.prems(5) by (simp add: unselected_def)
  with Cons.IH[OF keys _ _ vals] Cons.prems
  obtain db' T where db': "efold (\<lambda>w. value_update now (w\<lparr>vl_selected := False\<rparr>)) ws ?db = Inr db'"
    "vd_values db' = map (\<lambda>x. if x \<in> set ws then unselected x else ?f x) rows"
    "vd_variables db' = map (\<lambda>x. if va_uuid x = u \<and> T then x\<lparr>va_updated := now\<rparr> else x) (vd_variables ?db)"
    by auto
  have "vd_variables db' = map (\<lambda>x. if va_uuid x = u \<and> True then x\<lparr>va_updated := now\<rparr> else x) (vd_variables db)"
    unfolding db'(3) vars by simp
  moreover have "vd_values db' = map (\<lambda>x. if x \<in> set (w # ws) then unselected x else f x) rows"
    unfolding db'(2) by auto
  moreover have "efold (\<lambda>w. value_update now (w\<lparr>vl_selected := False\<rparr>)) (w # ws) db = Inr db'"
    using db'(1) by (simp add: value_update_unselected)
  ultimately show ?case by blast
qed

lemma release_rows:
  assumes "vs_keys db"
  shows "\<exists>db' T. efold (\<lambda>w. value_update now (w\<lparr>vl_selected := False\<rparr>)) (values_of u db) db = Inr db' \<and>
    vd_values db' = map (\<lambda>x. if vl_variable x = Some u then unselected x else x) (vd_values db) \<and>
    vd_variables db' = map (\<lambda>x. if va_uuid x = u \<and> T then x\<lparr>va_updated := now\<rparr> else x) (vd_variables db)"
proof -
  have eq: "map (\<lambda>x. if x \<in> set (values_of u db) then unselected x else x) (vd_values db) =
      map (\<lambda>x. if vl_variable x = Some u then unselected x else x) (vd_values db)"
    by (simp add: values_of_def)
  have "\<forall>w \<in> set (values_of u db). vl_variable w = Some u" "set (values_of u db) \<subseteq> set (vd_values db)"
    by (auto simp: values_of_def)
  moreover have "distinct (map vl_uuid (vd_values db))" "distinct (map va_uuid (vd_variables db))"
    using assms by (simp_all add: vs_keys_def)
  ultimately show ?thesis
    using release_loop[where f = "\<lambda>x. x" and rows = "vd_values db" and ws = "values_of u db" and db = db and u = u and now = now]
    unfolding eq by simp
qed

definition with_choice :: "uuid \<Rightarrow> uuid \<Rightarrow> vs_value \<Rightarrow> vs_value" where
  "with_choice u value x = (if vl_variable x = Some u then x\<lparr>vl_selected := (vl_uuid x = value)\<rparr> else x)"

lemma select_me_rows:
  assumes "vs_keys db" and self: "self \<in> set (vd_values db)" and sel: "select_me now self u db = Inr db'"
  shows "vd_values db' = map (with_choice u (vl_uuid self)) (vd_values db) \<and> vl_variable self = Some u \<and>
    vd_variables db' = map (\<lambda>x. if va_uuid x = u then x\<lparr>va_updated := now\<rparr> else x) (vd_variables db)"
proof -
  let ?self = "self\<lparr>vl_selected := True\<rparr>"
  have var: "vl_variable self = Some u" using sel by (simp add: select_me_def split: if_splits)
  obtain db1 T where db1: "efold (\<lambda>w. value_update now (w\<lparr>vl_selected := False\<rparr>)) (values_of u db) db = Inr db1"
    "vd_values db1 = map (\<lambda>x. if vl_variable x = Some u then unselected x else x) (vd_values db)"
    "vd_variables db1 = map (\<lambda>x. if va_uuid x = u \<and> T then x\<lparr>va_updated := now\<rparr> else x) (vd_variables db)"
    using release_rows[OF assms(1), of now u] by blast
  from sel var db1(1) have "value_update now ?self db1 = Inr db'" by (simp add: select_me_def)
  then have db': "db' = notify_variable now ?self (db1\<lparr>vd_values := put_row vl_uuid ?self (vd_values db1)\<rparr>)"
    by (simp add: value_update_def split: if_splits)
  have keys: "distinct (map vl_uuid (vd_values db))" "distinct (map va_uuid (vd_variables db))"
    using assms(1) by (simp_all add: vs_keys_def)
  have "vd_values db' = map (\<lambda>x. if x = self then ?self else if vl_variable x = Some u then unselected x else x) (vd_values db)"
    unfolding db' db1(2) notify_variable_others
    by (simp, rule put_row_map[OF keys(1) self]) (simp_all add: unselected_def)
  also have "\<dots> = map (with_choice u (vl_uuid self)) (vd_values db)"
    using distinct_key_iff[OF keys(1) _ self] var by (intro map_cong) (auto simp: with_choice_def unselected_def)
  finally have vals: "vd_values db' = map (with_choice u (vl_uuid self)) (vd_values db)" .
  have vkeys: "map va_uuid (vd_variables db1) = map va_uuid (vd_variables db)" unfolding db1(3) by simp
  have "vd_variables db' = map (\<lambda>x. if vl_variable ?self = Some (va_uuid x) then x\<lparr>va_updated := now\<rparr> else x) (vd_variables db1)"
    unfolding db' using notify_variable_rows[of "db1\<lparr>vd_values := put_row vl_uuid ?self (vd_values db1)\<rparr>" now ?self] keys(2) vkeys
    by simp
  also have "\<dots> = map (\<lambda>x. if va_uuid x = u then x\<lparr>va_updated := now\<rparr> else x) (vd_variables db)"
    unfolding db1(3) using var by auto
  finally show ?thesis using vals var by blast
qed

lemma variable_update_rows:
  assumes "distinct (map va_uuid rows)" and "v \<in> set rows" and "vd_variables db = map f rows" and "\<And>x. va_uuid (f x) = va_uuid x"
  shows "vd_variables (variable_update now v db) = map (\<lambda>x. if x = v then v\<lparr>va_updated := now\<rparr> else f x) rows"
  using put_row_map[OF assms(1,2), of "v\<lparr>va_updated := now\<rparr>" f] assms(3,4) by (simp add: variable_update_def)

lemma touched_rows:
  assumes "distinct (map va_uuid rows)" and "v \<in> set rows"
  shows "map (\<lambda>x. if x = v then v\<lparr>va_updated := now\<rparr> else if va_uuid x = va_uuid v then x\<lparr>va_updated := now\<rparr> else x) rows =
    map (\<lambda>x. if va_uuid x = va_uuid v then x\<lparr>va_updated := now\<rparr> else x) rows"
  by (intro map_cong) auto

lemma get_variable_Inr: "get_variable ctx u db = Inr v \<Longrightarrow> v \<in> set (vd_variables db) \<and> va_uuid v = u"
  by (auto simp: get_variable_def scoped_get_def ebind_Inr_iff dest!: vs_get_one_Inr)

lemma select_value_rows:
  assumes "vs_keys db" and sel: "select_value ctx u value db = Inr db'"
  shows "vd_values db' = map (with_choice u value) (vd_values db) \<and>
    (\<exists>w \<in> set (vd_values db). vl_uuid w = value \<and> vl_variable w = Some u) \<and>
    vd_variables db' = map (\<lambda>x. if va_uuid x = u then x\<lparr>va_updated := vx_now ctx\<rparr> else x) (vd_variables db)"
proof -
  obtain r where r: "get_variable ctx u db = Inr r" using sel by (auto simp: select_value_def ebind_Inr_iff)
  then obtain v where "vs_get_one (\<lambda>v. vl_uuid v = value) (vd_values db) = Inr v"
    and "(case select_me (vx_now ctx) v (va_uuid r) db of Inl NotOfVariable \<Rightarrow> Inl ValueNotBelongsToVariable
     | Inl e \<Rightarrow> Inl e | Inr db \<Rightarrow> Inr (variable_update (vx_now ctx) r db)) = Inr db'"
    using sel by (auto simp: select_value_def ebind_Inr_iff)
  moreover obtain db1 where "select_me (vx_now ctx) v (va_uuid r) db = Inr db1" "db' = variable_update (vx_now ctx) r db1"
    using calculation(2) by (auto split: sum.splits vs_error.splits)
  moreover have rv: "r \<in> set (vd_variables db)" "va_uuid r = u" using get_variable_Inr[OF r] by auto
  ultimately have v: "v \<in> set (vd_values db)" "vl_uuid v = value" and me: "select_me (vx_now ctx) v u db = Inr db1"
    and db': "db' = variable_update (vx_now ctx) r db1"
    by (auto dest: vs_get_one_Inr)
  have keys: "distinct (map va_uuid (vd_variables db))" using assms(1) by (simp add: vs_keys_def)
  note rows = select_me_rows[OF assms(1) v(1) me]
  have "vd_variables db' = map (\<lambda>x. if x = r then r\<lparr>va_updated := vx_now ctx\<rparr>
      else if va_uuid x = u then x\<lparr>va_updated := vx_now ctx\<rparr> else x) (vd_variables db)"
    unfolding db' by (rule variable_update_rows[OF keys rv(1)]) (use rows in auto)
  also have "\<dots> = map (\<lambda>x. if va_uuid x = u then x\<lparr>va_updated := vx_now ctx\<rparr> else x) (vd_variables db)"
    using touched_rows[OF keys rv(1)] rv(2) by simp
  finally show ?thesis using rows v by (auto simp: db' variable_update_def)
qed

lemma recalculate_selected:
  assumes "va_setter v = SelectorSetter ''latest''" and "filter vl_selected (values_of (va_uuid v) db) = [w]"
  shows "\<exists>db'. recalculate now v db = Inr (v\<lparr>va_value := Some (vl_value w), va_status := VarActive\<rparr>, db')"
proof -
  have "w \<in> set (filter vl_selected (values_of (va_uuid v) db))" using assms(2) by simp
  then have "list_ex vl_selected (values_of (va_uuid v) db)" "values_of (va_uuid v) db \<noteq> []"
    by (auto simp: list_ex_iff)
  with assms show ?thesis
    by (simp add: recalculate_def set_value_def selector_set_value_def set_value_latest_strategy_def Let_def)
qed

text \<open>C40. Selecting a value of a variable leaves it the only selected value of the variable and every other row
  as it was, marks the variable as changed, and decides what the builder gives a variable with the latest-value
  strategy from then on: the selected value, however late the others were created.\<close>
theorem selection_decides_value:
  assumes "vs_keys db" and "select_value ctx u value db = Inr db'"
  shows "\<exists>w. vl_uuid w = value \<and> filter vl_selected (values_of u db') = [w] \<and> selected_value u db' = Some w \<and>
    filter (\<lambda>x. vl_variable x \<noteq> Some u) (vd_values db') = filter (\<lambda>x. vl_variable x \<noteq> Some u) (vd_values db) \<and>
    vd_variables db' = map (\<lambda>x. if va_uuid x = u then x\<lparr>va_updated := vx_now ctx\<rparr> else x) (vd_variables db) \<and>
    (\<forall>x \<in> set (vd_variables db'). va_uuid x = u \<longrightarrow> va_setter x = SelectorSetter ''latest'' \<longrightarrow>
       (\<exists>db''. recalculate now x db' = Inr (x\<lparr>va_value := Some (vl_value w), va_status := VarActive\<rparr>, db'')))"
proof -
  note rows = select_value_rows[OF assms]
  then obtain w where w: "w \<in> set (vd_values db)" "vl_uuid w = value" "vl_variable w = Some u" by blast
  let ?w = "w\<lparr>vl_selected := True\<rparr>"
  have keys: "distinct (map vl_uuid (vd_values db))" using assms(1) by (simp add: vs_keys_def)
  have "filter (\<lambda>x. vl_selected x \<and> vl_variable x = Some u) (map (with_choice u value) (vd_values db)) = [with_choice u value w]"
    by (rule filter_map_singleton) (use keys w distinct_key_iff[OF keys] in \<open>auto simp: with_choice_def distinct_map\<close>)
  then have one: "filter vl_selected (values_of u db') = [?w]"
    using rows w by (simp add: values_of_def with_choice_def conj_commute)
  then have "selected_value u db' = Some ?w" unfolding selected_value_def by (rule find_of_filter)
  moreover have "filter (\<lambda>x. vl_variable x \<noteq> Some u) (vd_values db') = filter (\<lambda>x. vl_variable x \<noteq> Some u) (vd_values db)"
    unfolding conjunct1[OF rows] filter_map by (auto simp: comp_def with_choice_def intro!: map_idI)
  moreover have "\<exists>db''. recalculate now x db' = Inr (x\<lparr>va_value := Some (vl_value ?w), va_status := VarActive\<rparr>, db'')"
    if "va_uuid x = u" "va_setter x = SelectorSetter ''latest''" for x
    by (rule recalculate_selected[OF that(2)]) (use one that(1) in simp)
  moreover have "vl_uuid ?w = value" using w(2) by simp
  ultimately show ?thesis using one rows by blast
qed

text \<open>After a release the builder falls back to the latest created value.\<close>

lemma release_then_latest:
  assumes "vs_keys db" and "release_value now u db = Inr db'" and "values_of u db \<noteq> []"
    and "va_uuid v = u" "va_setter v = SelectorSetter ''latest''"
  shows "\<exists>db''. recalculate now v db' =
    Inr (v\<lparr>va_value := Some (vl_value (last (sort_key vl_created (values_of u db')))), va_status := VarActive\<rparr>, db'')"
proof -
  obtain db1 T where db1: "release_value now u db = Inr db1"
    "vd_values db1 = map (\<lambda>x. if vl_variable x = Some u then unselected x else x) (vd_values db)"
    using release_rows[OF assms(1), of now u] unfolding release_value_def by blast
  with assms(2) have vals: "vd_values db' = map (\<lambda>x. if vl_variable x = Some u then unselected x else x) (vd_values db)" by simp
  have "vl_variable (if vl_variable x = Some u then unselected x else x) = vl_variable x" for x
    by (simp add: unselected_def)
  then have "values_of u db' = map (\<lambda>x. if vl_variable x = Some u then unselected x else x) (values_of u db)"
    by (simp add: values_of_def vals filter_map comp_def)
  also have "\<dots> = map unselected (values_of u db)" by (simp add: values_of_def)
  finally have "values_of u db' = map unselected (values_of u db)" .
  then have "values_of u db' \<noteq> []" "\<not> list_ex vl_selected (values_of u db')"
    using assms(3) by (auto simp: list_ex_iff unselected_def)
  with assms(4,5) show ?thesis
    by (simp add: recalculate_def set_value_def selector_set_value_def set_value_latest_strategy_def Let_def)
qed

text \<open>A deleted profile leaves no reference to it behind.\<close>

definition profiles_resolved :: "vs_db \<Rightarrow> bool" where
  "profiles_resolved db \<longleftrightarrow>
     (\<forall>v \<in> set (vd_variables db). fst ` set (setter_profiles (va_setter v)) \<subseteq> pf_uuid ` set (vd_profiles db)) \<and>
     (\<forall>e \<in> set (vd_elements db). set_option (vse_profile e) \<subseteq> pf_uuid ` set (vd_profiles db))"

lemma profile_delete_resolved:
  assumes "profile_delete u db = Inr db'" and "profiles_resolved db"
  shows "profiles_resolved db' \<and> u \<notin> pf_uuid ` set (vd_profiles db')"
proof -
  have unused: "\<forall>v \<in> set (vd_variables db). u \<notin> fst ` set (setter_profiles (va_setter v))"
    "\<forall>e \<in> set (vd_elements db). vse_profile e \<noteq> Some u"
    and db': "db' = db\<lparr>vd_profiles := filter (\<lambda>p. pf_uuid p \<noteq> u) (vd_profiles db)\<rparr>"
    using assms(1) by (auto simp: profile_delete_def validate_not_used_def ebind_Inr_iff image_iff split: if_splits)
  have "pf_uuid ` set (vd_profiles db') = pf_uuid ` set (vd_profiles db) - {u}" by (auto simp: db')
  moreover have "fst ` set (setter_profiles (va_setter v)) \<subseteq> pf_uuid ` set (vd_profiles db) - {u}" if "v \<in> set (vd_variables db)" for v
    using that assms(2) unused(1) unfolding profiles_resolved_def by blast
  moreover have "set_option (vse_profile e) \<subseteq> pf_uuid ` set (vd_profiles db) - {u}" if "e \<in> set (vd_elements db)" for e
    using that assms(2) unused(2) unfolding profiles_resolved_def by (cases "vse_profile e") auto
  moreover have "vd_variables db' = vd_variables db" "vd_elements db' = vd_elements db" by (simp_all add: db')
  ultimately show ?thesis unfolding profiles_resolved_def by auto
qed

text \<open>Variables of another project are out of reach of a caller bound to a project.\<close>

lemma foreign_variable_refused:
  assumes keys: "distinct (map va_uuid (vd_variables db))" and v: "v \<in> set (vd_variables db)" "va_project v \<noteq> p"
    and ctx: "vx_project ctx = Some p"
  shows "\<not> is_ok (update_variable ctx (va_uuid v) project setter db) \<and>
    \<not> is_ok (select_value ctx (va_uuid v) value db) \<and> \<not> is_ok (release_selected ctx (va_uuid v) db)"
proof -
  have no: "enforce_own ctx va_project va_uuid (va_uuid v) (vd_variables db) \<noteq> Inr ()"
  proof
    assume "enforce_own ctx va_project va_uuid (va_uuid v) (vd_variables db) = Inr ()"
    then obtain x where "vs_get_one (\<lambda>x. va_uuid x = va_uuid v \<and> va_project x = p) (vd_variables db) = Inr x"
      using ctx by (auto simp: enforce_own_def ebind_Inr_iff)
    from vs_get_one_Inr[OF this] have x: "x \<in> set (vd_variables db)" "va_uuid x = va_uuid v" "va_project x = p" by auto
    with distinct_key_iff[OF keys x(1) v(1)] v(2) show False by simp
  qed
  have same: "va_uuid r = va_uuid v" if "get_variable ctx (va_uuid v) db = Inr r" for r
    using get_variable_Inr[OF that] by simp
  have "\<not> is_ok (update_variable ctx (va_uuid v) project setter db)"
    using no by (simp add: is_ok_iff update_variable_def ebind_Inr_iff)
  moreover have "\<not> is_ok (select_value ctx (va_uuid v) value db)"
    using no same unfolding is_ok_iff select_value_def ebind_Inr_iff by (metis (full_types) old.unit.exhaust)
  moreover have "\<not> is_ok (release_selected ctx (va_uuid v) db)"
    using no same unfolding is_ok_iff release_selected_def ebind_Inr_iff by (metis (full_types) old.unit.exhaust)
  ultimately show ?thesis by blast
qed

section \<open>Examples\<close>

definition vs_example :: vs_db where
  "vs_example = \<lparr>vd_profiles = [
       \<lparr>pf_uuid = ''small'', pf_name = ''small'', pf_project = ''p1'', pf_type = GlobalProfile, pf_active = True, pf_updated = 0\<rparr>,
       \<lparr>pf_uuid = ''big'', pf_name = ''big'', pf_project = ''p1'', pf_type = GlobalProfile, pf_active = False, pf_updated = 0\<rparr>],
     vd_variables = [
       \<lparr>va_uuid = ''v1'', va_project = ''p1'', va_setter = SelectorSetter ''latest'', va_value = None, va_status = VarNew, va_updated = 0\<rparr>],
     vd_values = [
       \<lparr>vl_uuid = ''a'', vl_project = ''p1'', vl_value = JInt 1, vl_selected = False, vl_created = 1, vl_variable = Some ''v1''\<rparr>,
       \<lparr>vl_uuid = ''b'', vl_project = ''p1'', vl_value = JInt 2, vl_selected = True, vl_created = 2, vl_variable = Some ''v1''\<rparr>],
     vd_elements = [], vd_resources = [], vd_exports = []\<rparr>"

definition vs_caller :: "uuid option \<Rightarrow> vs_context" where
  "vs_caller p = \<lparr>vx_now = 9, vx_project = p, vx_enforce = \<lambda>_. True, vx_force_project = \<lambda>_. False\<rparr>"

lemmas vs_request_simps = vs_caller_def vs_example_def get_profile_def get_variable_def scoped_get_def vs_enforce_def
  vs_get_one_def readable_def profile_shared_def enforce_own_def

lemma vs_example_keys: "vs_keys vs_example"
  by (simp add: vs_keys_def vs_example_def)

text \<open>A global profile is readable everywhere, and its activation does not ask whose it is.\<close>

lemma activation_crosses_projects:
  "(\<forall>p \<in> set (vd_profiles vs_example). pf_project p \<noteq> ''p2'') \<and>
     is_ok (activate_profile (vs_caller (Some ''p2'')) ''big'' vs_example)"
  by (simp add: activate_profile_def vs_request_simps activate_def Let_def)


theorem selection_decides_value_witness:
  "\<exists>db' w. select_value (vs_caller None) ''v1'' ''a'' vs_example = Inr db' \<and> selected_value ''v1'' db' = Some w \<and> vl_uuid w = ''a''"
proof -
  have "is_ok (select_value (vs_caller None) ''v1'' ''a'' vs_example)"
    by (simp add: select_value_def vs_request_simps select_me_def values_of_def value_update_def selection_conflict_def
        notify_variable_def variable_update_def put_row_def)
  then obtain db' where db': "select_value (vs_caller None) ''v1'' ''a'' vs_example = Inr db'" unfolding is_ok_iff by blast
  from selection_decides_value[OF vs_example_keys db'] db' show ?thesis by blast
qed
end
