(* ===== verification/Spec2Isabelle.thy ===== *)
theory Spec2Isabelle
  imports Network_Service Quota Scheduler Pool_Builder Node_Builder Element_Manifest Iam_Oidc Iam_Projects
    Dns_Own Dns_Public Config_Service Ssh_Keys Repo_Lifecycle Repo_Api Security_Rules Value_Store
begin

text \<open>
  Verification library of Exordos Core (under construction).
\<close>

end
